(* ===== verification/Prelude.thy ===== *)
theory Prelude
  imports Main "HOL-Library.Word" "HOL-Library.Monad_Syntax" "HOL-Library.AList"
begin

text \<open>
  Shared material of the STUN Max development.

  \<^item> The machine types of the Go sources (\<open>byte\<close>, \<open>u16\<close>, \<open>u32\<close>, \<open>u64\<close>) and
    \<^verbatim>\<open>encoding/binary\<close>'s big-endian reads and writes, with their inverses.
  \<^item> Go slices: reading or slicing out of range panics, which is the value \<open>None\<close>; all
    models that can panic live in the option monad (\<open>do\<close> notation).
  \<^item> Go maps as association lists with distinct keys: the order of the list is the order in
    which a \<^verbatim>\<open>for range\<close> over the map visits it, which the language leaves open, so a
    theorem about all lists is a theorem about all iteration orders.
  \<^item> Monadic iteration \<open>foldM\<close> for loops whose body can panic.
  \<^item> The two interfaces that several components share, as locales: \<open>codec\<close> (an encoder with
    a decoder that inverts it) and \<open>transition_system\<close> (a step relation with an invariant).
\<close>

unbundle bit_operations_syntax

type_synonym byte = "8 word"
type_synonym u16 = "16 word"
type_synonym u32 = "32 word"
type_synonym u64 = "64 word"
type_synonym bytes = "byte list"

named_theorems wire_simps \<open>reads of big-endian fields from built frames\<close>
named_theorems frame_simps \<open>fields an operation leaves unchanged\<close>

section \<open>Big-endian fields\<close>

text \<open>\<^verbatim>\<open>binary.BigEndian.Uint16\<close> and \<^verbatim>\<open>PutUint16\<close> on their bytes.\<close>

definition be16 :: "byte \<Rightarrow> byte \<Rightarrow> u16" where
  "be16 a b = push_bit 8 (ucast a) OR ucast b"

definition bytes16 :: "u16 \<Rightarrow> bytes" where
  "bytes16 v = [ucast (drop_bit 8 v), ucast v]"

text \<open>\<^verbatim>\<open>binary.BigEndian.Uint32\<close> and \<^verbatim>\<open>PutUint32\<close>.\<close>

definition be32 :: "byte \<Rightarrow> byte \<Rightarrow> byte \<Rightarrow> byte \<Rightarrow> u32" where
  "be32 a b c d = push_bit 24 (ucast a) OR push_bit 16 (ucast b) OR push_bit 8 (ucast c) OR ucast d"

definition bytes32 :: "u32 \<Rightarrow> bytes" where
  "bytes32 v = [ucast (drop_bit 24 v), ucast (drop_bit 16 v), ucast (drop_bit 8 v), ucast v]"

lemma length_bytes16 [simp]: "length (bytes16 v) = 2"
  by (simp add: bytes16_def)

lemma length_bytes32 [simp]: "length (bytes32 v) = 4"
  by (simp add: bytes32_def)

lemma byte_bit_bound: "bit (b :: byte) n \<Longrightarrow> n < 8"
  using bit_imp_le_length [of b n] by simp

lemma be16_bytes16 [simp]: "be16 (ucast (drop_bit 8 v)) (ucast v) = v"
  unfolding be16_def by (rule bit_word_eqI) (auto simp: bit_simps)

lemma be16_hi [simp]: "ucast (drop_bit 8 (be16 a b)) = a"
  unfolding be16_def by (rule bit_word_eqI) (auto simp: bit_simps dest: byte_bit_bound)

lemma be16_lo [simp]: "ucast (be16 a b) = b"
  unfolding be16_def by (rule bit_word_eqI) (auto simp: bit_simps dest: byte_bit_bound)

lemma be32_bytes32 [simp]:
  "be32 (ucast (drop_bit 24 v)) (ucast (drop_bit 16 v)) (ucast (drop_bit 8 v)) (ucast v) = v"
proof (rule bit_word_eqI)
  fix n :: nat
  assume "n < LENGTH(32)"
  then consider "n < 8" | "8 \<le> n" "n < 16" | "16 \<le> n" "n < 24" | "24 \<le> n" "n < 32"
    by force
  then show "bit (be32 (ucast (drop_bit 24 v)) (ucast (drop_bit 16 v)) (ucast (drop_bit 8 v)) (ucast v)) n
      = bit v n"
    by cases (auto simp: be32_def bit_simps)
qed

lemma unat_byte_less: "unat (b :: byte) < 256"
  using unsigned_less [of b] by simp

lemma unat_u16_less: "unat (v :: u16) < 65536"
  using unsigned_less [of v] by simp

lemma unat_u32_less: "unat (v :: u32) < 4294967296"
  using unsigned_less [of v] by simp

lemma unat_ucast_byte_u16: "unat (ucast (b :: byte) :: u16) = unat b"
  using unat_byte_less [of b] by (simp add: unsigned_ucast_eq take_bit_eq_mod)

lemma unat_ucast_byte_u32: "unat (ucast (b :: byte) :: u32) = unat b"
  using unat_byte_less [of b] by (simp add: unsigned_ucast_eq take_bit_eq_mod)

lemma unat_ucast_u16_u32: "unat (ucast (v :: u16) :: u32) = unat v"
  using unat_u16_less [of v] by (simp add: unsigned_ucast_eq take_bit_eq_mod)

lemma unat_be16: "unat (be16 a b) = 256 * unat a + unat b"
proof -
  have "be16 a b = push_bit 8 (ucast a) + ucast b"
    unfolding be16_def
    by (rule disjunctive_add_eq_or [symmetric])
       (auto simp: bit_eq_iff bit_simps dest: byte_bit_bound)
  moreover have "unat (push_bit 8 (ucast a :: u16)) = 256 * unat a"
    using unat_byte_less [of a]
    by (simp add: push_bit_eq_mult unat_word_ariths unat_ucast_byte_u16)
  ultimately show ?thesis
    using unat_byte_less [of a] unat_byte_less [of b]
    by (simp add: unat_word_ariths unat_ucast_byte_u16)
qed

lemma of_nat_unat_u16: "n < 65536 \<Longrightarrow> unat (of_nat n :: u16) = n"
  by (simp add: unat_of_nat)

section \<open>Slices\<close>

text \<open>\<^verbatim>\<open>xs[i:j]\<close>, \<^verbatim>\<open>BigEndian.Uint16(xs[i:i+2])\<close> and \<^verbatim>\<open>BigEndian.PutUint16(xs[i:i+2], v)\<close>:
  out of range they panic, here \<open>None\<close>. The slice bound is the capacity of the operand, which is
  its length wherever the source slices a slice made by \<^verbatim>\<open>make\<close>.\<close>

definition slice :: "'a list \<Rightarrow> nat \<Rightarrow> nat \<Rightarrow> 'a list option" where
  "slice xs i j = (if i \<le> j \<and> j \<le> length xs then Some (take (j - i) (drop i xs)) else None)"

definition index :: "'a list \<Rightarrow> nat \<Rightarrow> 'a option" where
  "index xs i = (if i < length xs then Some (xs ! i) else None)"

definition u16at :: "bytes \<Rightarrow> nat \<Rightarrow> u16 option" where
  "u16at xs i = (if i + 2 \<le> length xs then Some (be16 (xs ! i) (xs ! Suc i)) else None)"

definition u32at :: "bytes \<Rightarrow> nat \<Rightarrow> u32 option" where
  "u32at xs i = (if i + 4 \<le> length xs
     then Some (be32 (xs ! i) (xs ! (i + 1)) (xs ! (i + 2)) (xs ! (i + 3))) else None)"

definition put16at :: "bytes \<Rightarrow> nat \<Rightarrow> u16 \<Rightarrow> bytes option" where
  "put16at xs i v = (if i + 2 \<le> length xs
     then Some (xs[i := ucast (drop_bit 8 v), Suc i := ucast v]) else None)"

text \<open>\<^verbatim>\<open>copy(dst[i:], src)\<close>: copies as many elements as fit; \<^verbatim>\<open>dst[i:]\<close> panics past the end.\<close>

definition copy_at :: "'a list \<Rightarrow> nat \<Rightarrow> 'a list \<Rightarrow> 'a list option" where
  "copy_at xs i ys = (if i \<le> length xs
     then Some (take i xs @ take (length xs - i) ys @ drop (i + length ys) xs) else None)"

lemma slice_Some [simp]: "i \<le> j \<Longrightarrow> j \<le> length xs \<Longrightarrow> slice xs i j = Some (take (j - i) (drop i xs))"
  by (simp add: slice_def)

lemma length_slice: "slice xs i j = Some ys \<Longrightarrow> length ys = j - i"
  by (auto simp: slice_def split: if_splits)

lemma index_Some [simp]: "i < length xs \<Longrightarrow> index xs i = Some (xs ! i)"
  by (simp add: index_def)

lemma slice_append [wire_simps]:
  "i = length xs \<Longrightarrow> j = length xs + length ys \<Longrightarrow> slice (xs @ ys @ zs) i j = Some ys"
  by (simp add: slice_def)

lemma u16at_append [wire_simps]: "i = length xs \<Longrightarrow> u16at (xs @ bytes16 v @ ys) i = Some v"
  by (simp add: u16at_def bytes16_def nth_append)

lemma u32at_append [wire_simps]: "i = length xs \<Longrightarrow> u32at (xs @ bytes32 v @ ys) i = Some v"
  by (simp add: u32at_def bytes32_def nth_append)

lemma u16at_Some [simp]: "i + 2 \<le> length xs \<Longrightarrow> u16at xs i = Some (be16 (xs ! i) (xs ! Suc i))"
  by (simp add: u16at_def)

lemma length_put16at: "put16at xs i v = Some ys \<Longrightarrow> length ys = length xs"
  by (auto simp: put16at_def split: if_splits)

lemma length_copy_at: "copy_at xs i ys = Some zs \<Longrightarrow> length zs = length xs"
  by (auto simp: copy_at_def split: if_splits)

section \<open>Loops whose body can panic\<close>

fun foldM :: "('a \<Rightarrow> 's \<Rightarrow> 's option) \<Rightarrow> 'a list \<Rightarrow> 's \<Rightarrow> 's option" where
  "foldM f [] s = Some s"
| "foldM f (x # xs) s = f x s \<bind> foldM f xs"

lemma foldM_append: "foldM f (xs @ ys) s = foldM f xs s \<bind> foldM f ys"
  by (induction xs arbitrary: s) (auto split: Option.bind_splits)

text \<open>A loop whose body keeps an invariant and cannot panic under it does not panic.\<close>

lemma foldM_inv:
  assumes "P s" and "\<And>x s. x \<in> set xs \<Longrightarrow> P s \<Longrightarrow> \<exists>t. f x s = Some t \<and> P t"
  shows "\<exists>t. foldM f xs s = Some t \<and> P t"
  using assms
proof (induction xs arbitrary: s)
  case Nil
  then show ?case by simp
next
  case (Cons x xs)
  from Cons.prems obtain t where "f x s = Some t" "P t" by fastforce
  with Cons.IH [of t] Cons.prems(2) show ?case by auto
qed

text \<open>A property of the state that every iteration keeps is kept by the loop, if it returns.\<close>

lemma foldM_keeps:
  assumes "foldM f xs s = Some t" and "P s"
    and "\<And>x s t. x \<in> set xs \<Longrightarrow> f x s = Some t \<Longrightarrow> P s \<Longrightarrow> P t"
  shows "P t"
  using assms
proof (induction xs arbitrary: s)
  case Nil
  then show ?case by simp
next
  case (Cons x xs)
  from Cons.prems(1) obtain u where "f x s = Some u" "foldM f xs u = Some t"
    by (auto split: Option.bind_splits)
  with Cons.IH [of u] Cons.prems(2,3) show ?case by (meson list.set_intros)
qed

section \<open>Go maps\<close>

text \<open>\<^verbatim>\<open>m[k]\<close>, \<^verbatim>\<open>m[k] = v\<close> and \<^verbatim>\<open>delete(m, k)\<close>.\<close>

abbreviation mget :: "('k \<times> 'v) list \<Rightarrow> 'k \<Rightarrow> 'v option" where
  "mget m k \<equiv> map_of m k"

abbreviation mput :: "'k \<Rightarrow> 'v \<Rightarrow> ('k \<times> 'v) list \<Rightarrow> ('k \<times> 'v) list" where
  "mput k v m \<equiv> AList.update k v m"

abbreviation mdel :: "'k \<Rightarrow> ('k \<times> 'v) list \<Rightarrow> ('k \<times> 'v) list" where
  "mdel k m \<equiv> AList.delete k m"

abbreviation mkeys :: "('k \<times> 'v) list \<Rightarrow> 'k set" where
  "mkeys m \<equiv> fst ` set m"

abbreviation mwf :: "('k \<times> 'v) list \<Rightarrow> bool" where
  "mwf m \<equiv> distinct (map fst m)"

lemma mget_mput [simp]: "mget (mput k v m) = (mget m)(k \<mapsto> v)"
  by (rule update_conv')

lemma mget_mdel [simp]: "mget (mdel k m) = (mget m)(k := None)"
  by (rule delete_conv')

lemma mwf_mput [simp]: "mwf m \<Longrightarrow> mwf (mput k v m)"
  by (rule distinct_update)

lemma mwf_mdel [simp]: "mwf m \<Longrightarrow> mwf (mdel k m)"
  by (rule distinct_delete)

lemma mem_mput: "p \<in> set (mput k v m) \<Longrightarrow> p = (k, v) \<or> p \<in> set m"
  by (induction m) (auto split: if_splits)

lemma mem_mdel: "p \<in> set (mdel k m) \<longleftrightarrow> p \<in> set m \<and> fst p \<noteq> k"
  by (induction m) (auto simp: delete_simps)

section \<open>Shared interfaces\<close>

text \<open>An encoder together with the decoder that reads back what it wrote, on the values it
  supports. What the clients of a wire format rely on follows once and for all: distinct values have
  distinct encodings, and a sequence of encoded values decodes to the sequence.\<close>

locale codec =
  fixes enc :: "'a \<Rightarrow> 'b" and dec :: "'b \<Rightarrow> 'a option" and supported :: "'a \<Rightarrow> bool"
  assumes dec_enc: "supported x \<Longrightarrow> dec (enc x) = Some x"
begin

lemma enc_inject: "supported x \<Longrightarrow> supported y \<Longrightarrow> enc x = enc y \<longleftrightarrow> x = y"
  by (metis dec_enc option.inject)

lemma dec_enc_list: "list_all supported xs \<Longrightarrow> those (map dec (map enc xs)) = Some xs"
  by (induction xs) (auto simp: dec_enc)

end

text \<open>A step relation with a set of initial states and an invariant that every step keeps.\<close>

locale transition_system =
  fixes init :: "'s \<Rightarrow> bool" and step :: "'s \<Rightarrow> 's \<Rightarrow> bool" and inv :: "'s \<Rightarrow> bool"
  assumes inv_init: "init s \<Longrightarrow> inv s"
    and inv_step: "inv s \<Longrightarrow> step s t \<Longrightarrow> inv t"
begin

lemma inv_steps: "step\<^sup>*\<^sup>* s t \<Longrightarrow> inv s \<Longrightarrow> inv t"
  by (induction rule: rtranclp_induct) (auto intro: inv_step)

lemma inv_reachable: "init s \<Longrightarrow> step\<^sup>*\<^sup>* s t \<Longrightarrow> inv t"
  using inv_steps inv_init by blast

end

end
