(* ===== verification/Rutp.thy ===== *)
theory Rutp
  imports Prelude
begin

text \<open>
  The reliable UDP transport of the tunnels, \<^verbatim>\<open>src/client/core/udp_reliable.go\<close>.

  \<^item> \<open>rutpBuildFrame\<close> and \<open>rutpParseFrame\<close> are the frame format.
  \<^item> \<open>rutp_sender\<close> with \<open>rutp_Send\<close>, \<open>rutp_OnACK\<close> and \<open>rutp_tick\<close> (one tick of
    \<^verbatim>\<open>fallbackLoop\<close>) is the sender; packets it writes go to the list \<open>out\<close>.
  \<^item> \<open>rutp_receiver\<close> with \<open>rutp_OnData\<close> is the receiver with its duplicate filter.

  Times are nanoseconds since an arbitrary origin, as in Go's \<^verbatim>\<open>time.Duration\<close>.
\<close>

section \<open>Frames\<close>

definition rutpMagicHead :: u16 where "rutpMagicHead = 0x534D"
definition rutpMagicTail :: u16 where "rutpMagicTail = 0x4D53"
definition rutpDATA :: byte where "rutpDATA = 1"
definition rutpACK :: byte where "rutpACK = 2"
definition rutpOverhead :: nat where "rutpOverhead = 13"

text \<open>The checksum loop \<^verbatim>\<open>for i := 2; i < tail; i++ { ck += uint32(frame[i]) }\<close>.\<close>

fun rutp_cksum :: "bytes \<Rightarrow> u32 \<Rightarrow> u32" where
  "rutp_cksum [] ck = ck"
| "rutp_cksum (b # bs) ck = rutp_cksum bs (ck + ucast b)"

definition rutpBuildFrame :: "byte \<Rightarrow> u32 \<Rightarrow> bytes \<Rightarrow> bytes" where
  "rutpBuildFrame typ seq data =
     (let n = length data;
          body = [typ] @ bytes32 seq @ bytes16 (of_nat n) @ data;
          ck = rutp_cksum body 0
      in bytes16 rutpMagicHead @ body @ bytes16 (ucast (ck AND 0xFFFF)) @ bytes16 rutpMagicTail)"

text \<open>The results of \<^verbatim>\<open>rutpParseFrame\<close>: \<open>RutpBad\<close> is \<^verbatim>\<open>ok = false\<close>; the payload \<open>[]\<close> is
  \<^verbatim>\<open>nil\<close>, which the code returns for an empty payload.\<close>

datatype rutp_parsed = RutpBad | RutpFrame byte u32 bytes

definition rutpParseFrame :: "bytes \<Rightarrow> rutp_parsed option" where
  "rutpParseFrame frame =
     (if length frame < rutpOverhead then Some RutpBad
      else do {
        head \<leftarrow> u16at frame 0;
        if head \<noteq> rutpMagicHead then Some RutpBad
        else do {
          typ \<leftarrow> index frame 2;
          seq \<leftarrow> u32at frame 3;
          nw \<leftarrow> u16at frame 7;
          let n = unat nw;
          if length frame < rutpOverhead + n then Some RutpBad
          else do {
            let tail = 9 + n;
            tm \<leftarrow> u16at frame (tail + 2);
            if tm \<noteq> rutpMagicTail then Some RutpBad
            else do {
              body \<leftarrow> slice frame 2 tail;
              let ck = rutp_cksum body 0;
              stored \<leftarrow> u16at frame tail;
              if stored \<noteq> ucast (ck AND 0xFFFF) then Some RutpBad
              else do {
                payload \<leftarrow> slice frame 9 (9 + n);
                Some (RutpFrame typ seq payload)
              }
            }
          }
        }
      })"

lemmas rutp_frame_defs = rutpMagicHead_def rutpMagicTail_def rutpOverhead_def

text \<open>Every read of the parser is in range: it never panics, whatever arrives.\<close>

lemma rutpParseFrame_total: "\<exists>r. rutpParseFrame frame = Some r"
  by (auto simp: rutpParseFrame_def rutpOverhead_def u32at_def Let_def)

lemma length_rutpBuildFrame [simp]: "length (rutpBuildFrame typ seq data) = 13 + length data"
  by (simp add: rutpBuildFrame_def Let_def)

lemma rutp_frame_shape:
  "rutpBuildFrame typ seq data @ rest =
     bytes16 rutpMagicHead @ [typ] @ bytes32 seq @ bytes16 (of_nat (length data)) @ data
     @ bytes16 (ucast (rutp_cksum ([typ] @ bytes32 seq @ bytes16 (of_nat (length data)) @ data) 0
                       AND 0xFFFF))
     @ bytes16 rutpMagicTail @ rest"
  by (simp add: rutpBuildFrame_def Let_def)

lemma rutp_roundtrip_aux:
  assumes "length data < 65536"
  shows "rutpParseFrame (rutpBuildFrame typ seq data @ rest) = Some (RutpFrame typ seq data)"
proof -
  let ?f = "rutpBuildFrame typ seq data @ rest"
  let ?body = "[typ] @ bytes32 seq @ bytes16 (of_nat (length data)) @ data"
  let ?ck = "ucast (rutp_cksum ?body 0 AND 0xFFFF) :: u16"
  have n: "unat (of_nat (length data) :: u16) = length data"
    using assms by (rule of_nat_unat_u16)
  have f: "?f = bytes16 rutpMagicHead @ ?body @ bytes16 ?ck @ bytes16 rutpMagicTail @ rest"
    by (simp add: rutp_frame_shape)
  have head: "u16at ?f 0 = Some rutpMagicHead"
    unfolding f using u16at_append [of 0 "[]"] by simp
  have ty: "index ?f 2 = Some typ"
    unfolding f by (simp add: bytes16_def index_def)
  have seq: "u32at ?f 3 = Some seq"
    unfolding f using u32at_append [of 3 "bytes16 rutpMagicHead @ [typ]"] by simp
  have len: "u16at ?f 7 = Some (of_nat (length data))"
    unfolding f using u16at_append [of 7 "bytes16 rutpMagicHead @ [typ] @ bytes32 seq"] by simp
  have tm: "u16at ?f (11 + length data) = Some rutpMagicTail"
    unfolding f using u16at_append [of "11 + length data" "bytes16 rutpMagicHead @ ?body @ bytes16 ?ck"]
    by simp
  have ck: "u16at ?f (9 + length data) = Some ?ck"
    unfolding f using u16at_append [of "9 + length data" "bytes16 rutpMagicHead @ ?body"]
    by simp
  have body: "slice ?f 2 (9 + length data) = Some ?body"
    unfolding f using slice_append [of 2 "bytes16 rutpMagicHead" "9 + length data" ?body] by simp
  have data: "slice ?f 9 (9 + length data) = Some data"
    unfolding f
    using slice_append [of 9 "bytes16 rutpMagicHead @ [typ] @ bytes32 seq @ bytes16 (of_nat (length data))"
        "9 + length data" data] by simp
  show ?thesis
    by (simp add: rutpParseFrame_def head ty seq len tm ck body data n rutpOverhead_def Let_def)
qed

section \<open>What the checksum detects\<close>

lemma rutp_cksum_sum: "rutp_cksum bs ck = ck + sum_list (map ucast bs)"
  by (induction bs arbitrary: ck) (simp_all add: add.assoc)

lemma sum_list_update_word:
  "i < length bs \<Longrightarrow>
   sum_list (map f (bs[i := b])) = sum_list (map f bs) - f (bs ! i) + (f b :: 'w::len word)"
  by (induction bs arbitrary: i) (auto split: nat.splits simp: algebra_simps)

lemma ucast_mask_u16: "(ucast ((x :: u32) AND 0xFFFF) :: u16) = ucast x"
proof (rule bit_word_eqI)
  fix n :: nat
  assume "n < LENGTH(16)"
  moreover have "bit (0xFFFF :: u32) n" if "n < 16"
  proof -
    have "(0xFFFF :: u32) = mask 16" by (simp add: mask_eq_exp_minus_1)
    with that show ?thesis by (simp only: bit_mask_iff) simp
  qed
  ultimately show "bit (ucast (x AND 0xFFFF) :: u16) n = bit (ucast x :: u16) n"
    by (simp add: bit_simps)
qed

lemma ucast_u32_u16_add: "(ucast ((x :: u32) + y) :: u16) = ucast x + ucast y"
  by (rule word_unat_eq_iff [THEN iffD2])
     (simp add: unat_word_ariths unsigned_ucast_eq take_bit_eq_mod mod_simps mod_mod_cancel)

lemma ucast_byte_u32_u16: "(ucast (ucast (b :: byte) :: u32) :: u16) = ucast b"
  by (rule bit_word_eqI) (auto simp: bit_simps dest: byte_bit_bound)

lemma ucast_byte_u16_inject: "(ucast (a :: byte) :: u16) = ucast b \<longleftrightarrow> a = b"
  by (metis unat_ucast_byte_u16 word_unat_eq_iff)

lemma rutp_cksum_update_neq:
  assumes "i < length bs" and "b \<noteq> bs ! i"
  shows "(ucast (rutp_cksum (bs[i := b]) 0 AND 0xFFFF) :: u16) \<noteq> ucast (rutp_cksum bs 0 AND 0xFFFF)"
proof
  let ?S = "sum_list (map ucast bs) :: u32"
  assume "(ucast (rutp_cksum (bs[i := b]) 0 AND 0xFFFF) :: u16) = ucast (rutp_cksum bs 0 AND 0xFFFF)"
  then have "(ucast (?S - ucast (bs ! i) + ucast b) :: u16) = ucast ?S"
    using assms(1) by (simp add: ucast_mask_u16 rutp_cksum_sum sum_list_update_word)
  moreover have "(ucast ?S :: u16) = ucast (?S - ucast (bs ! i)) + ucast (ucast (bs ! i) :: u32)"
    by (simp flip: ucast_u32_u16_add)
  ultimately have "(ucast (ucast b :: u32) :: u16) = ucast (ucast (bs ! i) :: u32)"
    by (simp add: ucast_u32_u16_add)
  with assms(2) show False
    by (simp add: ucast_byte_u32_u16 ucast_byte_u16_inject)
qed

definition rutp_len :: "bytes \<Rightarrow> nat" where
  "rutp_len f = unat (be16 (f ! 7) (f ! 8))"

lemma rutpParseFrame_eq:
  "rutpParseFrame f =
     (if 13 \<le> length f \<and> be16 (f ! 0) (f ! 1) = rutpMagicHead \<and> 13 + rutp_len f \<le> length f
         \<and> u16at f (11 + rutp_len f) = Some rutpMagicTail
         \<and> u16at f (9 + rutp_len f) = Some (ucast (rutp_cksum (take (7 + rutp_len f) (drop 2 f)) 0 AND 0xFFFF))
      then Some (RutpFrame (f ! 2) (be32 (f ! 3) (f ! 4) (f ! 5) (f ! 6)) (take (rutp_len f) (drop 9 f)))
      else Some RutpBad)"
  by (simp add: rutpParseFrame_def rutpOverhead_def rutp_len_def u32at_def Let_def)

lemma rutp_corruption_aux:
  assumes ok: "rutpParseFrame f = Some (RutpFrame t s p)"
    and i: "2 \<le> i" "i < 9 + length p" "i \<noteq> 7" "i \<noteq> 8" and b: "b \<noteq> f ! i"
  shows "rutpParseFrame (f[i := b]) = Some RutpBad"
proof -
  let ?n = "rutp_len f" and ?g = "f[i := b]"
  from ok have len: "13 + ?n \<le> length f" and p: "p = take ?n (drop 9 f)"
    and ck: "u16at f (9 + ?n) = Some (ucast (rutp_cksum (take (7 + ?n) (drop 2 f)) 0 AND 0xFFFF))"
    by (auto simp: rutpParseFrame_eq split: if_splits)
  from len p have lp: "length p = ?n" by simp
  have n: "rutp_len ?g = ?n" using i by (simp add: rutp_len_def nth_list_update)
  have g: "take (7 + ?n) (drop 2 ?g) = (take (7 + ?n) (drop 2 f))[i - 2 := b]"
    using i lp by (simp add: drop_update_swap take_update_swap)
  have "2 + (i - 2) = i" using i by simp
  then have "b \<noteq> take (7 + ?n) (drop 2 f) ! (i - 2)"
    using i lp len b by (simp del: add_2_eq_Suc)
  then have neq: "(ucast (rutp_cksum (take (7 + ?n) (drop 2 ?g)) 0 AND 0xFFFF) :: u16)
      \<noteq> ucast (rutp_cksum (take (7 + ?n) (drop 2 f)) 0 AND 0xFFFF)"
    unfolding g using i lp len by (intro rutp_cksum_update_neq) auto
  have "u16at ?g (9 + ?n) = u16at f (9 + ?n)"
    using i lp len by (simp add: nth_list_update)
  with ck neq have "u16at ?g (9 + rutp_len ?g) \<noteq> Some (ucast (rutp_cksum (take (7 + rutp_len ?g) (drop 2 ?g)) 0 AND 0xFFFF))"
    by (simp add: n)
  then show ?thesis by (simp only: rutpParseFrame_eq if_False simp_thms)
qed

section \<open>The sender\<close>

record rutp_pkt =
  pk_payload :: bytes
  pk_frame :: bytes
  pk_sent :: int
  pk_retries :: nat
  pk_acked :: bool

text \<open>What leaves the sender: a datagram, or a \<^verbatim>\<open>tunnel_data\<close> message through the relay with the
  original payload.\<close>

datatype rutp_out = UdpOut bytes | RelayOut bytes

record rutp_sender =
  rs_prefix :: bytes
  rs_seq :: u32
  rs_pending :: "(u32 \<times> rutp_pkt) list"
  rs_done :: bool
  rs_out :: "rutp_out list"

definition newRutpSender :: "bytes \<Rightarrow> rutp_sender" where
  "newRutpSender prefix = \<lparr>rs_prefix = prefix, rs_seq = 0, rs_pending = [], rs_done = False, rs_out = []\<rparr>"

definition rutp_Stop :: "rutp_sender \<Rightarrow> rutp_sender" where
  "rutp_Stop s = s\<lparr>rs_done := True\<rparr>"

definition rutp_Send :: "bytes \<Rightarrow> int \<Rightarrow> rutp_sender \<Rightarrow> rutp_sender" where
  "rutp_Send data now s =
     (let seq = rs_seq s + 1;
          msg = rs_prefix s @ rutpBuildFrame rutpDATA seq data;
          p = \<lparr>pk_payload = data, pk_frame = msg, pk_sent = now, pk_retries = 0, pk_acked = False\<rparr>
      in s\<lparr>rs_seq := seq, rs_pending := mput seq p (rs_pending s), rs_out := rs_out s @ [UdpOut msg]\<rparr>)"

definition rutp_OnACK :: "u32 \<Rightarrow> rutp_sender \<Rightarrow> rutp_sender" where
  "rutp_OnACK seq s =
     (case mget (rs_pending s) seq of
        Some _ \<Rightarrow> s\<lparr>rs_pending := mdel seq (rs_pending s)\<rparr>
      | None \<Rightarrow> s)"

definition ms :: "int \<Rightarrow> int" where "ms k = k * 1000000"

text \<open>The body of \<^verbatim>\<open>pending.Range\<close> in \<^verbatim>\<open>fallbackLoop\<close>, for one packet: what becomes of the entry
  (\<open>None\<close>: deleted) and what is sent.\<close>

definition rutp_fallback :: "int \<Rightarrow> rutp_pkt \<Rightarrow> rutp_pkt option \<times> rutp_out list" where
  "rutp_fallback now p =
     (if pk_acked p then (None, [])
      else
        let age = now - pk_sent p; retries = pk_retries p in
        if retries < 2 \<and> age > ms (150 * (int retries + 1))
        then (Some (p\<lparr>pk_retries := retries + 1\<rparr>), [UdpOut (pk_frame p)])
        else if retries = 2 \<and> age > ms 450
        then (None, [RelayOut (pk_payload p)])
        else if retries > 2 then (None, [])
        else (Some p, []))"

fun rutp_range :: "int \<Rightarrow> (u32 \<times> rutp_pkt) list \<Rightarrow> (u32 \<times> rutp_pkt) list \<times> rutp_out list" where
  "rutp_range now [] = ([], [])"
| "rutp_range now ((k, p) # ps) =
     (let r = rutp_fallback now p; rest = rutp_range now ps
      in (case fst r of None \<Rightarrow> fst rest | Some p' \<Rightarrow> (k, p') # fst rest, snd r @ snd rest))"

definition rutp_tick :: "int \<Rightarrow> rutp_sender \<Rightarrow> rutp_sender" where
  "rutp_tick now s =
     (if rs_done s then s
      else let r = rutp_range now (rs_pending s)
           in s\<lparr>rs_pending := fst r, rs_out := rs_out s @ snd r\<rparr>)"

text \<open>The sender runs concurrently with the tunnel that feeds it and the UDP reader that delivers
  acknowledgements: any of its operations can come next, at any time.\<close>

inductive rutp_step :: "rutp_sender \<Rightarrow> rutp_sender \<Rightarrow> bool" where
  send: "rutp_step s (rutp_Send data now s)"
| ack: "rutp_step s (rutp_OnACK seq s)"
| tick: "rutp_step s (rutp_tick now s)"
| stop: "rutp_step s (rutp_Stop s)"

definition rutp_pkt_ok :: "bytes \<Rightarrow> u32 \<Rightarrow> rutp_pkt \<Rightarrow> bool" where
  "rutp_pkt_ok prefix k p \<longleftrightarrow> pk_retries p \<le> 2 \<and> \<not> pk_acked p
     \<and> pk_frame p = prefix @ rutpBuildFrame rutpDATA k (pk_payload p)"

definition rutp_sender_inv :: "rutp_sender \<Rightarrow> bool" where
  "rutp_sender_inv s \<longleftrightarrow> mwf (rs_pending s)
     \<and> (\<forall>(k, p) \<in> set (rs_pending s). rutp_pkt_ok (rs_prefix s) k p)"

lemma rutp_fallback_ok:
  "fst (rutp_fallback now p) = Some p' \<Longrightarrow> rutp_pkt_ok prefix k p \<Longrightarrow> rutp_pkt_ok prefix k p'"
  by (auto simp: rutp_fallback_def rutp_pkt_ok_def Let_def split: if_splits)

lemma rutp_range_keys: "fst ` set (fst (rutp_range now ps)) \<subseteq> fst ` set ps"
  by (induction ps) (force simp: Let_def split: option.splits)+

lemma rutp_range_mwf: "mwf ps \<Longrightarrow> mwf (fst (rutp_range now ps))"
proof (induction ps)
  case (Cons kp ps)
  then show ?case
    using rutp_range_keys [of now ps] by (cases kp) (auto simp: Let_def split: option.splits)
qed simp

lemma rutp_range_ok:
  "\<forall>(k, p) \<in> set ps. rutp_pkt_ok prefix k p \<Longrightarrow>
   \<forall>(k, p) \<in> set (fst (rutp_range now ps)). rutp_pkt_ok prefix k p"
  by (induction ps) (auto simp: Let_def split: option.splits dest: rutp_fallback_ok)

lemma rutp_tick_sel:
  "\<not> rs_done s \<Longrightarrow> rs_pending (rutp_tick now s) = fst (rutp_range now (rs_pending s))"
  "\<not> rs_done s \<Longrightarrow> rs_out (rutp_tick now s) = rs_out s @ snd (rutp_range now (rs_pending s))"
  "rs_done (rutp_tick now s) = rs_done s"
  "rs_prefix (rutp_tick now s) = rs_prefix s"
  by (auto simp: rutp_tick_def Let_def)

lemma rutp_step_inv: "rutp_step s t \<Longrightarrow> rutp_sender_inv s \<Longrightarrow> rutp_sender_inv t"
proof (induction rule: rutp_step.induct)
  case (send s data now)
  then show ?case
    by (auto simp: rutp_sender_inv_def rutp_Send_def Let_def rutp_pkt_ok_def dest!: mem_mput)
next
  case (ack s seq)
  then show ?case
    by (auto simp: rutp_sender_inv_def rutp_OnACK_def mem_mdel split: option.splits)
next
  case (tick s now)
  then show ?case
    using rutp_range_ok [of "rs_pending s" "rs_prefix s" now]
    by (auto simp: rutp_sender_inv_def rutp_tick_def Let_def rutp_range_mwf)
next
  case (stop s)
  then show ?case by (simp add: rutp_sender_inv_def rutp_Stop_def)
qed

lemma rutp_init_inv: "rutp_sender_inv (newRutpSender prefix)"
  by (simp add: newRutpSender_def rutp_sender_inv_def)

interpretation rutp: transition_system "\<lambda>s. \<exists>prefix. s = newRutpSender prefix" rutp_step rutp_sender_inv
  by unfold_locales (auto simp: rutp_init_inv intro: rutp_step_inv)

text \<open>A packet that nobody acknowledges moves through the three stages: its frame twice over UDP,
  then its payload over the relay.\<close>

lemma rutp_range_out:
  "(k, p) \<in> set ps \<Longrightarrow> set (snd (rutp_fallback now p)) \<subseteq> set (snd (rutp_range now ps))"
  by (induction ps) (auto simp: Let_def)

lemma rutp_range_get:
  "mwf ps \<Longrightarrow> (k, p) \<in> set ps \<Longrightarrow> mget (fst (rutp_range now ps)) k = fst (rutp_fallback now p)"
proof (induction ps)
  case (Cons q ps)
  obtain k' p' where q: "q = (k', p')" by force
  show ?case
  proof (cases "k = k'")
    case True
    with Cons.prems q have "p = p'" "k \<notin> fst ` set ps"
      by (auto simp: image_iff)
    moreover from this have "k \<notin> fst ` set (fst (rutp_range now ps))"
      using rutp_range_keys [of now ps] by blast
    ultimately show ?thesis
      using True q by (auto simp: Let_def map_of_eq_None_iff split: option.splits)
  next
    case False
    with Cons q show ?thesis by (auto simp: Let_def split: option.splits)
  qed
qed simp

lemma rutp_tick_unacked:
  assumes "rutp_sender_inv s" and "\<not> rs_done s" and "mget (rs_pending s) k = Some p"
  shows "mget (rs_pending (rutp_tick now s)) k = fst (rutp_fallback now p)"
    and "set (snd (rutp_fallback now p)) \<subseteq> set (rs_out (rutp_tick now s))"
    and "set (rs_out s) \<subseteq> set (rs_out (rutp_tick now s))"
    and "rutp_sender_inv (rutp_tick now s)"
proof -
  from assms(1) have wf: "mwf (rs_pending s)" by (simp add: rutp_sender_inv_def)
  from assms(3) have mem: "(k, p) \<in> set (rs_pending s)" by (rule map_of_SomeD)
  show "mget (rs_pending (rutp_tick now s)) k = fst (rutp_fallback now p)"
    using assms(2) rutp_range_get [OF wf mem] by (simp add: rutp_tick_sel)
  show "set (snd (rutp_fallback now p)) \<subseteq> set (rs_out (rutp_tick now s))"
    using assms(2) rutp_range_out [OF mem, of now] by (auto simp: rutp_tick_sel)
  show "set (rs_out s) \<subseteq> set (rs_out (rutp_tick now s))"
    using assms(2) by (simp add: rutp_tick_sel)
  show "rutp_sender_inv (rutp_tick now s)"
    using rutp_step.tick assms(1) by (rule rutp_step_inv)
qed

section \<open>The receiver\<close>

record rutp_receiver =
  rr_prefix :: bytes
  rr_seen :: "u32 list"
  rr_out :: "rutp_out list"

definition newRutpReceiver :: "bytes \<Rightarrow> rutp_receiver" where
  "newRutpReceiver prefix = \<lparr>rr_prefix = prefix, rr_seen = [], rr_out = []\<rparr>"

text \<open>\<^verbatim>\<open>OnData\<close>: acknowledges twice, filters duplicates and, on every 500th sequence number, forgets
  the numbers below \<^verbatim>\<open>seq - 5000\<close>. The subtraction is on \<^verbatim>\<open>uint32\<close>. The result \<open>[]\<close> is
  \<^verbatim>\<open>nil\<close>.\<close>

definition rutp_OnData :: "u32 \<Rightarrow> bytes \<Rightarrow> rutp_receiver \<Rightarrow> bytes \<times> rutp_receiver" where
  "rutp_OnData seq payload r =
     (let ack = UdpOut (rr_prefix r @ rutpBuildFrame rutpACK seq []);
          r1 = r\<lparr>rr_out := rr_out r @ [ack, ack]\<rparr>
      in if seq \<in> set (rr_seen r) then ([], r1)
         else
           let seen = seq # rr_seen r;
               seen' = (if seq mod 500 = 0
                        then (let cutoff = seq - 5000 in filter (\<lambda>k. \<not> k < cutoff) seen)
                        else seen)
           in (payload, r1\<lparr>rr_seen := seen'\<rparr>))"

text \<open>The datagrams of a tunnel in the order they arrive; the result lists what \<^verbatim>\<open>udpReadLoop\<close>
  writes to the tunnel's connection.\<close>

fun rutp_receive :: "(u32 \<times> bytes) list \<Rightarrow> rutp_receiver \<Rightarrow> (u32 \<times> bytes) list" where
  "rutp_receive [] r = []"
| "rutp_receive ((q, d) # ps) r =
     (let (res, r') = rutp_OnData q d r
      in (if res \<noteq> [] then [(q, res)] else []) @ rutp_receive ps r')"

text \<open>The filter keeps its promise inside the window: no arriving number lies more than 5000 below a
  multiple of 500 that arrives, and no multiple of 500 below 5000 arrives.\<close>

definition rutp_window :: "(u32 \<times> bytes) list \<Rightarrow> bool" where
  "rutp_window ps \<longleftrightarrow> (\<forall>q \<in> fst ` set ps. q mod 500 = 0 \<longrightarrow>
     5000 \<le> q \<and> (\<forall>k \<in> fst ` set ps. q - 5000 \<le> k))"

lemma rutp_OnData_window:
  assumes "q mod 500 = 0 \<longrightarrow> (\<forall>k \<in> insert q (set (rr_seen r)). q - 5000 \<le> k)"
  shows "set (rr_seen (snd (rutp_OnData q d r))) = insert q (set (rr_seen r))"
  using assms by (auto simp: rutp_OnData_def Let_def)

lemma rutp_OnData_fst: "fst (rutp_OnData q d r) = (if q \<in> set (rr_seen r) then [] else d)"
  by (simp add: rutp_OnData_def Let_def)

lemma rutp_receive_window:
  assumes "rutp_window (ps0 @ ps)" and "set (rr_seen r) = fst ` set ps0" and "\<forall>(q, d) \<in> set ps. d \<noteq> []"
  shows "distinct (map fst (rutp_receive ps r))
    \<and> fst ` set (rutp_receive ps r) = fst ` set ps - fst ` set ps0
    \<and> set (rutp_receive ps r) \<subseteq> set ps"
  using assms
proof (induction ps arbitrary: r ps0)
  case (Cons p ps)
  obtain q d where p: "p = (q, d)" by force
  let ?r = "snd (rutp_OnData q d r)"
  from Cons.prems(1) p have w: "q - 5000 \<le> k" if "q mod 500 = 0" "k \<in> fst ` set (ps0 @ [p])" for k
    using that unfolding rutp_window_def by (auto simp: image_Un)
  have "q mod 500 = 0 \<longrightarrow> (\<forall>k \<in> insert q (set (rr_seen r)). q - 5000 \<le> k)"
    using w Cons.prems(2) p by simp
  then have seen: "set (rr_seen ?r) = fst ` set (ps0 @ [p])"
    using Cons.prems(2) p by (simp add: rutp_OnData_window)
  have "rutp_window ((ps0 @ [p]) @ ps)" using Cons.prems(1) by simp
  from Cons.IH [OF this seen] Cons.prems(3) p
  have IH: "distinct (map fst (rutp_receive ps ?r))"
    "fst ` set (rutp_receive ps ?r) = fst ` set ps - fst ` set (ps0 @ [p])"
    "set (rutp_receive ps ?r) \<subseteq> set ps"
    by auto
  have "rutp_receive (p # ps) r =
      (if q \<in> set (rr_seen r) then [] else [(q, d)]) @ rutp_receive ps ?r"
    using p Cons.prems(3) by (simp add: Let_def case_prod_beta rutp_OnData_fst)
  with IH Cons.prems(2) p show ?case by auto
qed simp

section \<open>Properties\<close>

definition rutp_decode :: "bytes \<Rightarrow> (byte \<times> u32 \<times> bytes) option" where
  "rutp_decode f = (case rutpParseFrame f of Some (RutpFrame t q d) \<Rightarrow> Some (t, q, d) | _ \<Rightarrow> None)"

interpretation rutp_frames: codec
  "\<lambda>(t, q, d). rutpBuildFrame t q d" rutp_decode "\<lambda>(t, q, d). length d < 65536"
  using rutp_roundtrip_aux [where rest = "[]"]
  by unfold_locales (auto simp: rutp_decode_def)

lemma rutp_tick_inv: "rutp_sender_inv s \<Longrightarrow> rutp_sender_inv (rutp_tick now s)"
  by (rule rutp_step_inv [OF rutp_step.tick])

lemma rutp_tick_absent: "k \<notin> mkeys (rs_pending s) \<Longrightarrow> k \<notin> mkeys (rs_pending (rutp_tick now s))"
  using rutp_range_keys [of now "rs_pending s"] by (auto simp: rutp_tick_def Let_def)

lemma rutp_tick_out_mono: "set (rs_out s) \<subseteq> set (rs_out (rutp_tick now s))"
  by (auto simp: rutp_tick_def Let_def)

text \<open>What a run of ticks appends to the output.\<close>

definition rutp_emitted :: "rutp_sender \<Rightarrow> rutp_sender \<Rightarrow> rutp_out set" where
  "rutp_emitted s t = set (drop (length (rs_out s)) (rs_out t))"

lemma rutp_tick_prefix: "\<exists>xs. rs_out (rutp_tick now s) = rs_out s @ xs"
  by (simp add: rutp_tick_def Let_def)

lemma rutp_emitted_tick_mono: "rs_out t = rs_out s @ xs \<Longrightarrow> rutp_emitted s t \<subseteq> rutp_emitted s (rutp_tick now t)"
  using rutp_tick_prefix [of now t] by (auto simp: rutp_emitted_def)

lemma rutp_emitted_later: "rs_out t = rs_out s @ xs \<Longrightarrow> rutp_emitted t (rutp_tick now t) \<subseteq> rutp_emitted s (rutp_tick now t)"
  using rutp_tick_prefix [of now t] by (auto simp: rutp_emitted_def)

lemma rutp_fallback_emitted:
  "\<not> rs_done s \<Longrightarrow> mget (rs_pending s) k = Some p \<Longrightarrow> set (snd (rutp_fallback now p)) \<subseteq> rutp_emitted s (rutp_tick now s)"
  using rutp_range_out [OF map_of_SomeD, of "rs_pending s" k p now] by (simp add: rutp_emitted_def rutp_tick_sel)

text \<open>One tick after the last deadline moves a pending packet one stage further.\<close>

lemma rutp_late_tick:
  assumes "rutp_sender_inv s" and "\<not> rs_done s" and "mget (rs_pending s) k = Some p"
    and "pk_sent p + ms 450 < t"
  shows "if pk_retries p < 2
    then mget (rs_pending (rutp_tick t s)) k = Some (p\<lparr>pk_retries := pk_retries p + 1\<rparr>) \<and> UdpOut (pk_frame p) \<in> rutp_emitted s (rutp_tick t s)
    else k \<notin> mkeys (rs_pending (rutp_tick t s)) \<and> RelayOut (pk_payload p) \<in> rutp_emitted s (rutp_tick t s)"
proof -
  from assms(1,3) have ok: "pk_retries p \<le> 2" "\<not> pk_acked p"
    by (auto simp: rutp_sender_inv_def rutp_pkt_ok_def dest: map_of_SomeD)
  consider "pk_retries p = 0" | "pk_retries p = 1" | "pk_retries p = 2" using ok(1) by linarith
  then show ?thesis
    using rutp_tick_unacked(1) [OF assms(1-3), of t] rutp_fallback_emitted [OF assms(2,3), of t] ok assms(4)
    by cases (auto simp: rutp_fallback_def ms_def map_of_eq_None_iff)
qed

text \<open>Claim C12. Frames read back: whatever type, sequence number and payload of at most 65535 bytes a
  frame is built from, the parser returns exactly these, also when the datagram has bytes after the
  frame.\<close>

theorem rutp_roundtrip:
  "length data < 65536 \<Longrightarrow>
   rutpParseFrame (rutpBuildFrame typ seq data @ rest) = Some (RutpFrame typ seq data)"
  by (rule rutp_roundtrip_aux)

theorem rutp_roundtrip_witness:
  "rutpParseFrame (rutpBuildFrame rutpDATA 7 [0, 104, 105] @ [9]) = Some (RutpFrame rutpDATA 7 [0, 104, 105])"
  using rutp_roundtrip [of "[0, 104, 105]"] by simp

text \<open>Claim C15. Corruption is detected: changing any one byte of the type, the sequence number or the
  payload of an accepted frame makes the parser reject it (it never panics on any input).\<close>

theorem rutp_corruption_detected:
  assumes "rutpParseFrame f = Some (RutpFrame t q p)"
    and "2 \<le> i" "i < 9 + length p" "i \<noteq> 7" "i \<noteq> 8" and "b \<noteq> f ! i"
  shows "rutpParseFrame (f[i := b]) = Some RutpBad \<and> (\<forall>g. \<exists>r. rutpParseFrame g = Some r)"
  using rutp_corruption_aux [OF assms] rutpParseFrame_total by blast

theorem rutp_corruption_detected_witness:
  "rutpParseFrame ((rutpBuildFrame rutpDATA 7 [0, 104])[10 := 105]) = Some RutpBad"
proof -
  have "rutpParseFrame (rutpBuildFrame rutpDATA 7 [0, 104]) = Some (RutpFrame rutpDATA 7 [0, 104])"
    using rutp_roundtrip_aux [of "[0, 104]" rutpDATA 7 "[]"] by simp
  moreover have "(105 :: byte) \<noteq> rutpBuildFrame rutpDATA 7 [0, 104] ! 10"
    by (simp add: rutpBuildFrame_def bytes16_def bytes32_def Let_def)
  ultimately show ?thesis
    using rutp_corruption_detected [of "rutpBuildFrame rutpDATA 7 [0, 104]" rutpDATA 7 "[0, 104]" 10 105]
    by simp
qed

text \<open>Claim C13. An unacknowledged packet reaches the relay in bounded time. Take a packet that is pending in any reachable state
  of a running sender, and ticks later than 450 ms after it was sent, during which it stays unacknowledged. If it has been
  retransmitted less than twice, the next such tick sends its frame again over UDP and counts the retransmission; if it has been
  retransmitted twice, the next such tick hands its payload to the relay and forgets it. In any case the relay has been given the
  payload by the third such tick, and the packet is no longer pending.\<close>

theorem rutp_unacked_is_relayed:
  assumes "rutp_step\<^sup>*\<^sup>* (newRutpSender prefix) s" and "\<not> rs_done s"
    and "mget (rs_pending s) k = Some p"
    and "pk_sent p + ms 450 < t1" "pk_sent p + ms 450 < t2" "pk_sent p + ms 450 < t3"
  shows "(if pk_retries p < 2
      then mget (rs_pending (rutp_tick t1 s)) k = Some (p\<lparr>pk_retries := pk_retries p + 1\<rparr>) \<and> UdpOut (pk_frame p) \<in> rutp_emitted s (rutp_tick t1 s)
      else k \<notin> mkeys (rs_pending (rutp_tick t1 s)) \<and> RelayOut (pk_payload p) \<in> rutp_emitted s (rutp_tick t1 s))
    \<and> RelayOut (pk_payload p) \<in> rutp_emitted s (rutp_tick t3 (rutp_tick t2 (rutp_tick t1 s)))
    \<and> k \<notin> mkeys (rs_pending (rutp_tick t3 (rutp_tick t2 (rutp_tick t1 s))))"
proof -
  let ?s1 = "rutp_tick t1 s" and ?s2 = "rutp_tick t2 (rutp_tick t1 s)"
  have inv: "rutp_sender_inv s" by (rule rutp.inv_reachable [OF _ assms(1)]) blast
  then have invs: "rutp_sender_inv ?s1" "rutp_sender_inv ?s2"
    by (simp_all add: rutp_tick_inv)
  have run: "\<not> rs_done ?s1" "\<not> rs_done ?s2" using assms(2) by (simp_all add: rutp_tick_sel)
  obtain xs ys where out: "rs_out ?s1 = rs_out s @ xs" "rs_out ?s2 = rs_out s @ ys"
    using rutp_tick_prefix [of t1 s] rutp_tick_prefix [of t2 ?s1] by auto
  note late = rutp_late_tick [OF inv assms(2,3,4)]
  note later = rutp_emitted_later [OF out(1)] rutp_emitted_later [OF out(2)]
    rutp_emitted_tick_mono [OF out(1)] rutp_emitted_tick_mono [OF out(2)]
  from inv assms(3) have "pk_retries p \<le> 2"
    by (auto simp: rutp_sender_inv_def rutp_pkt_ok_def dest: map_of_SomeD)
  then consider "pk_retries p = 0" | "pk_retries p = 1" | "pk_retries p = 2" by linarith
  then have "RelayOut (pk_payload p) \<in> rutp_emitted s (rutp_tick t3 ?s2) \<and> k \<notin> mkeys (rs_pending (rutp_tick t3 ?s2))"
  proof cases
    case 1
    with late have p1: "mget (rs_pending ?s1) k = Some (p\<lparr>pk_retries := 1\<rparr>)" by simp
    with rutp_late_tick [OF invs(1) run(1) p1] assms(5)
    have p2: "mget (rs_pending ?s2) k = Some (p\<lparr>pk_retries := 2\<rparr>)" by (simp add: numeral_2_eq_2)
    show ?thesis using rutp_late_tick [OF invs(2) run(2) p2] assms(6) later(2) by auto
  next
    case 2
    with late have p1: "mget (rs_pending ?s1) k = Some (p\<lparr>pk_retries := 2\<rparr>)" by (simp add: numeral_2_eq_2)
    have "RelayOut (pk_payload p) \<in> rutp_emitted s ?s2" "k \<notin> mkeys (rs_pending ?s2)"
      using rutp_late_tick [OF invs(1) run(1) p1] assms(5) later(1) by auto
    then show ?thesis using rutp_tick_absent later(4) by blast
  next
    case 3
    then have "RelayOut (pk_payload p) \<in> rutp_emitted s ?s1" "k \<notin> mkeys (rs_pending ?s1)"
      using late by auto
    then show ?thesis using rutp_tick_absent later(3,4) by blast
  qed
  with late show ?thesis by blast
qed

theorem rutp_unacked_is_relayed_witness:
  "RelayOut [1, 2] \<in> rutp_emitted (rutp_Send [1, 2] 0 (newRutpSender [])) (rutp_tick (ms 700) (rutp_tick (ms 600) (rutp_tick (ms 500)
     (rutp_Send [1, 2] 0 (newRutpSender [])))))"
proof -
  let ?s = "rutp_Send [1, 2] 0 (newRutpSender [])"
  let ?p = "\<lparr>pk_payload = [1, 2], pk_frame = rutpBuildFrame rutpDATA 1 [1, 2], pk_sent = 0,
      pk_retries = 0, pk_acked = False\<rparr>"
  have run: "rutp_step\<^sup>*\<^sup>* (newRutpSender []) ?s" by (auto intro: rutp_step.send)
  have act: "\<not> rs_done ?s" by (simp add: rutp_Send_def newRutpSender_def Let_def)
  have pend: "mget (rs_pending ?s) 1 = Some ?p"
    by (simp add: rutp_Send_def newRutpSender_def Let_def)
  have "pk_sent ?p + ms 450 < ms 500" "pk_sent ?p + ms 450 < ms 600" "pk_sent ?p + ms 450 < ms 700"
    by (simp_all add: ms_def)
  from rutp_unacked_is_relayed [OF run act pend this] show ?thesis
    by (simp only: rutp_pkt.select_convs simp_thms)
qed

text \<open>Claim C14. At most once: within the window of the duplicate filter, whatever order datagrams
  arrive in and however often each is repeated, every sequence number is written to the tunnel exactly
  once, with a payload that was received for it.\<close>

theorem rutp_receive_once:
  assumes "rutp_window ps" and "\<forall>(q, d) \<in> set ps. d \<noteq> []"
  shows "distinct (map fst (rutp_receive ps (newRutpReceiver prefix)))
    \<and> fst ` set (rutp_receive ps (newRutpReceiver prefix)) = fst ` set ps
    \<and> set (rutp_receive ps (newRutpReceiver prefix)) \<subseteq> set ps"
  using rutp_receive_window [of "[]" ps "newRutpReceiver prefix"] assms
  by (simp add: newRutpReceiver_def)

theorem rutp_receive_once_witness:
  "fst ` set (rutp_receive [(1, [7]), (2, [8]), (1, [7])] (newRutpReceiver [])) = {1, 2}"
proof -
  have "rutp_window [(1, [7]), (2, [8]), (1, [7])]"
    by (simp add: rutp_window_def)
  then show ?thesis
    using rutp_receive_once [of "[(1, [7]), (2, [8]), (1, [7])]" "[]"] by auto
qed

text \<open>The filter forgets too much at the start of a tunnel: a multiple of 500 below 5000
  underflows the cutoff, so receiving it clears every remembered number below \<open>2^32 - 5000\<close>, its own
  included, and the retransmission of any of them is written to the tunnel a second time.\<close>

theorem rutp_early_cleanup_duplicates:
  assumes "q mod 500 = 0" and "q < 5000" and "q \<notin> set (rr_seen r)" and "k < 4294962296"
  shows "k \<notin> set (rr_seen (snd (rutp_OnData q d r)))
    \<and> fst (rutp_OnData k d' (snd (rutp_OnData q d r))) = d'"
proof -
  have "4294962296 \<le> q - 5000"
  proof -
    have "q - 5000 = q + 4294962296" by simp
    moreover have "4294962296 \<le> q + 4294962296"
      using assms(2) by (simp add: word_le_nat_alt word_less_nat_alt unat_word_ariths)
    ultimately show ?thesis by metis
  qed
  with assms(4) have "k < q - 5000" by (rule less_le_trans)
  moreover have "rr_seen (snd (rutp_OnData q d r)) = filter (\<lambda>k. \<not> k < q - 5000) (q # rr_seen r)"
    unfolding rutp_OnData_def Let_def assms(1) using assms(3) by simp
  ultimately have "k \<notin> set (rr_seen (snd (rutp_OnData q d r)))" by auto
  then show ?thesis by (simp add: rutp_OnData_fst)
qed

theorem rutp_early_cleanup_duplicates_witness:
  "fst (rutp_OnData 499 [1] (snd (rutp_OnData 500 [2] (snd (rutp_OnData 499 [1] (newRutpReceiver [])))))) = [1]"
proof -
  let ?r = "snd (rutp_OnData 499 [1] (newRutpReceiver []))"
  have "500 \<notin> set (rr_seen ?r)" by (simp add: rutp_OnData_def newRutpReceiver_def Let_def)
  then show ?thesis using rutp_early_cleanup_duplicates [of 500 ?r 499 "[2]" "[1]"] by simp
qed

end
