(* ===== verification/Gotext.thy ===== *)
theory Gotext
  imports Prelude
begin

text \<open>
  What the sources use of Go's text packages: \<^verbatim>\<open>fmt\<close>'s \<^verbatim>\<open>%d\<close>, \<^verbatim>\<open>strconv.Atoi\<close>,
  \<^verbatim>\<open>encoding/hex\<close>, \<^verbatim>\<open>encoding/base64\<close> (\<^verbatim>\<open>StdEncoding\<close>) and \<^verbatim>\<open>strings\<close>. A Go string is a
  sequence of bytes, a \<open>char list\<close> here. The lemmas are the inverses the callers rely on, stated
  through the \<open>codec\<close> interface.
\<close>

section \<open>Bytes and characters\<close>

definition str_bytes :: "string \<Rightarrow> bytes" where
  "str_bytes s = map (\<lambda>c. of_nat (of_char c)) s"

definition bytes_str :: "bytes \<Rightarrow> string" where
  "bytes_str bs = map (\<lambda>b. char_of (unat b)) bs"

lemma bytes_str_str_bytes [simp]: "bytes_str (str_bytes s) = s"
proof -
  have "char_of (unat (of_nat (of_char c) :: byte)) = c" for c :: char
    by (simp add: unat_of_nat)
  then show ?thesis by (simp add: bytes_str_def str_bytes_def o_def)
qed

lemma str_bytes_bytes_str [simp]: "str_bytes (bytes_str bs) = bs"
  by (simp add: bytes_str_def str_bytes_def o_def unat_byte_less)

lemma length_str_bytes [simp]: "length (str_bytes s) = length s"
  by (simp add: str_bytes_def)

lemma str_bytes_append [simp]: "str_bytes (s @ t) = str_bytes s @ str_bytes t"
  by (simp add: str_bytes_def)

section \<open>Decimal numbers\<close>

text \<open>\<^verbatim>\<open>%d\<close> of a non-negative number.\<close>

fun show_nat :: "nat \<Rightarrow> string" where
  "show_nat n = (if n < 10 then [char_of (48 + n)] else show_nat (n div 10) @ [char_of (48 + n mod 10)])"

declare show_nat.simps [simp del]

definition is_digit :: "char \<Rightarrow> bool" where
  "is_digit c \<longleftrightarrow> 48 \<le> (of_char c :: nat) \<and> (of_char c :: nat) \<le> 57"

fun digits_val :: "string \<Rightarrow> nat \<Rightarrow> nat option" where
  "digits_val [] acc = Some acc"
| "digits_val (c # cs) acc =
     (if is_digit c then digits_val cs (10 * acc + (of_char c - 48)) else None)"

text \<open>\<^verbatim>\<open>strconv.Atoi\<close>: an optional sign, at least one digit, the value in the range of a 64-bit
  integer.\<close>

definition go_atoi :: "string \<Rightarrow> int option" where
  "go_atoi s =
     (let (neg, ds) = (case s of c # cs \<Rightarrow> if c = CHR ''-'' then (True, cs) else if c = CHR ''+'' then (False, cs)
                                   else (False, s) | [] \<Rightarrow> (False, []))
      in if ds = [] then None
         else case digits_val ds 0 of None \<Rightarrow> None
              | Some n \<Rightarrow> let v = (if neg then - int n else int n)
                          in if - (2 ^ 63) \<le> v \<and> v < 2 ^ 63 then Some v else None)"

lemma digit_char: "d < 10 \<Longrightarrow> is_digit (char_of (48 + d)) \<and> (of_char (char_of (48 + d) :: char) :: nat) - 48 = d"
  by (simp add: is_digit_def)

lemma digits_val_append:
  "digits_val (s @ t) acc = (case digits_val s acc of None \<Rightarrow> None | Some v \<Rightarrow> digits_val t v)"
  by (induction s arbitrary: acc) auto

lemma digits_val_show_nat: "digits_val (show_nat n) 0 = Some n"
proof (induction n rule: show_nat.induct)
  case (1 n)
  show ?case
  proof (cases "n < 10")
    case True
    with digit_char [of n] show ?thesis by (simp add: show_nat.simps [of n])
  next
    case False
    with 1 digit_char [of "n mod 10"] show ?thesis
      by (simp add: show_nat.simps [of n] digits_val_append)
  qed
qed

lemma show_nat_digits: "c \<in> set (show_nat n) \<Longrightarrow> is_digit c"
proof (induction n rule: show_nat.induct)
  case (1 n)
  then show ?case
    using digit_char [of n] digit_char [of "n mod 10"]
    by (cases "n < 10") (auto simp: show_nat.simps [of n])
qed

lemma show_nat_nonempty [simp]: "show_nat n \<noteq> []"
  by (subst show_nat.simps) simp

lemma is_digit_not_sign: "is_digit c \<Longrightarrow> c \<noteq> CHR ''-'' \<and> c \<noteq> CHR ''+'' \<and> c \<noteq> CHR '':'' \<and> c \<noteq> CHR ''.''"
  by (auto simp: is_digit_def)

lemma go_atoi_show_nat: "int n < 2 ^ 63 \<Longrightarrow> go_atoi (show_nat n) = Some (int n)"
proof -
  assume n: "int n < 2 ^ 63"
  obtain c cs where s: "show_nat n = c # cs" using show_nat_nonempty [of n] by (cases "show_nat n") auto
  have "is_digit c" using show_nat_digits [of c n] s by simp
  then have "c \<noteq> CHR ''-''" "c \<noteq> CHR ''+''" using is_digit_not_sign by auto
  moreover have "digits_val (c # cs) 0 = Some n" using digits_val_show_nat [of n] s by simp
  ultimately show ?thesis using n by (simp add: go_atoi_def s del: digits_val.simps)
qed

interpretation decimal: codec "\<lambda>n. show_nat n" "\<lambda>s. map_option nat (go_atoi s)" "\<lambda>n. int n < 2 ^ 63"
  by unfold_locales (simp add: go_atoi_show_nat)

lemma show_nat_inject [simp]: "show_nat m = show_nat n \<longleftrightarrow> m = n"
  by (metis digits_val_show_nat option.inject)

section \<open>Hexadecimal and base64\<close>

definition hex_digit :: "nat \<Rightarrow> char" where
  "hex_digit n = (if n < 10 then char_of (48 + n) else char_of (87 + n))"

definition hex_val :: "char \<Rightarrow> nat option" where
  "hex_val c = (let n = of_char c in
     if 48 \<le> n \<and> n \<le> 57 then Some (n - 48)
     else if 97 \<le> n \<and> n \<le> 102 then Some (n - 87)
     else if 65 \<le> n \<and> n \<le> 70 then Some (n - 55)
     else None)"

text \<open>\<^verbatim>\<open>hex.EncodeToString\<close> and \<^verbatim>\<open>hex.DecodeString\<close>.\<close>

fun hex_enc :: "bytes \<Rightarrow> string" where
  "hex_enc [] = []"
| "hex_enc (b # bs) = hex_digit (unat b div 16) # hex_digit (unat b mod 16) # hex_enc bs"

fun hex_dec :: "string \<Rightarrow> bytes option" where
  "hex_dec [] = Some []"
| "hex_dec [c] = None"
| "hex_dec (c # d # cs) = do {
     h \<leftarrow> hex_val c; l \<leftarrow> hex_val d; bs \<leftarrow> hex_dec cs;
     Some (of_nat (16 * h + l) # bs) }"

lemma hex_val_digit [simp]: "n < 16 \<Longrightarrow> hex_val (hex_digit n) = Some n"
  by (auto simp: hex_val_def hex_digit_def Let_def)

lemma hex_dec_enc [simp]: "hex_dec (hex_enc bs) = Some bs"
proof (induction bs)
  case (Cons b bs)
  have "of_nat (16 * (unat b div 16) + unat b mod 16) = b"
    by (simp only: mult_div_mod_eq) simp
  then show ?case using Cons unat_byte_less [of b] by (simp del: of_nat_add of_nat_mult)
qed simp

lemma length_hex_enc [simp]: "length (hex_enc bs) = 2 * length bs"
  by (induction bs) auto

interpretation hex: codec hex_enc hex_dec "\<lambda>_. True"
  by unfold_locales simp

text \<open>\<^verbatim>\<open>base64.StdEncoding\<close>: groups of three bytes as four symbols, padded with \<^verbatim>\<open>=\<close>. The decoder
  ignores line breaks and is otherwise strict, except that it accepts any value of the unused low
  bits of the last symbol.\<close>

definition b64_sym :: "nat \<Rightarrow> char" where
  "b64_sym n = (if n < 26 then char_of (65 + n) else if n < 52 then char_of (71 + n)
     else if n < 62 then char_of (n - 4) else if n = 62 then CHR ''+'' else CHR ''/'')"

definition b64_val :: "char \<Rightarrow> nat option" where
  "b64_val c = (let n = of_char c in
     if 65 \<le> n \<and> n \<le> 90 then Some (n - 65)
     else if 97 \<le> n \<and> n \<le> 122 then Some (n - 71)
     else if 48 \<le> n \<and> n \<le> 57 then Some (n + 4)
     else if c = CHR ''+'' then Some 62 else if c = CHR ''/'' then Some 63 else None)"

fun b64_enc :: "bytes \<Rightarrow> string" where
  "b64_enc [] = []"
| "b64_enc [a] = [b64_sym (unat a div 4), b64_sym (unat a mod 4 * 16), CHR ''='', CHR ''='']"
| "b64_enc [a, b] = [b64_sym (unat a div 4), b64_sym (unat a mod 4 * 16 + unat b div 16),
     b64_sym (unat b mod 16 * 4), CHR ''='']"
| "b64_enc (a # b # c # bs) = b64_sym (unat a div 4) # b64_sym (unat a mod 4 * 16 + unat b div 16) #
     b64_sym (unat b mod 16 * 4 + unat c div 64) # b64_sym (unat c mod 64) # b64_enc bs"

fun b64_quads :: "string \<Rightarrow> bytes option" where
  "b64_quads [] = Some []"
| "b64_quads [p, q, r, s] = do {
     i \<leftarrow> b64_val p; j \<leftarrow> b64_val q;
     if r = CHR ''='' then (if s = CHR ''='' then Some [of_nat (i * 4 + j div 16)] else None)
     else do {
       k \<leftarrow> b64_val r;
       if s = CHR ''='' then Some [of_nat (i * 4 + j div 16), of_nat (j mod 16 * 16 + k div 4)]
       else do {
         l \<leftarrow> b64_val s;
         Some [of_nat (i * 4 + j div 16), of_nat (j mod 16 * 16 + k div 4), of_nat (k mod 4 * 64 + l)] } } }"
| "b64_quads (p # q # r # s # t # cs) = do {
     i \<leftarrow> b64_val p; j \<leftarrow> b64_val q; k \<leftarrow> b64_val r; l \<leftarrow> b64_val s;
     bs \<leftarrow> b64_quads (t # cs);
     Some (of_nat (i * 4 + j div 16) # of_nat (j mod 16 * 16 + k div 4) # of_nat (k mod 4 * 64 + l) # bs) }"
| "b64_quads _ = None"

definition line_break :: "char \<Rightarrow> bool" where
  "line_break c \<longleftrightarrow> c = CHR 0x0A \<or> c = CHR 0x0D"

definition b64_dec :: "string \<Rightarrow> bytes option" where
  "b64_dec s = b64_quads (filter (\<lambda>c. \<not> line_break c) s)"

lemma b64_val_sym [simp]: "n < 64 \<Longrightarrow> b64_val (b64_sym n) = Some n"
proof -
  assume n: "n < 64"
  then consider "n < 26" | "26 \<le> n" "n < 52" | "52 \<le> n" "n < 62" | "n = 62" | "n = 63" by linarith
  then show ?thesis by cases (auto simp: b64_val_def b64_sym_def Let_def)
qed

lemma b64_sym_cases: "n < 64 \<Longrightarrow> b64_sym n \<noteq> CHR ''='' \<and> b64_sym n \<noteq> CHR 0x0A \<and> b64_sym n \<noteq> CHR 0x0D"
proof -
  assume "n < 64"
  then have "b64_val (b64_sym n) = Some n" by simp
  moreover have "b64_val (CHR ''='') = None" "b64_val (CHR 0x0A) = None" "b64_val (CHR 0x0D) = None"
    by (simp_all add: b64_val_def)
  ultimately show ?thesis by force
qed

lemma b64_bits:
  "unat (a :: byte) div 4 < 64" "unat a mod 4 * 16 < 64" "unat a mod 4 * 16 + unat (b :: byte) div 16 < 64"
  "unat b mod 16 * 4 < 64" "unat b mod 16 * 4 + unat (c :: byte) div 64 < 64" "unat c mod 64 < 64"
  using unat_byte_less [of a] unat_byte_less [of b] unat_byte_less [of c] by auto

lemma b64_join [simp]:
  "unat (b :: byte) div 16 div 16 = 0" "unat b div 16 mod 16 = unat b div 16"
  "unat b div 64 div 4 = 0" "unat b div 64 mod 4 = unat b div 64"
  using unat_byte_less [of b] by auto

lemma b64_enc_Cons: "b64_enc (a # bs) \<noteq> []"
  by (cases "a # bs" rule: b64_enc.cases) auto

lemma b64_quads_enc: "b64_quads (b64_enc bs) = Some bs"
proof (induction bs rule: b64_enc.induct)
  case (4 a b c bs)
  have last: "b64_quads (b64_enc [a, b, c]) = Some [a, b, c]"
    by (simp add: b64_bits b64_sym_cases del: of_nat_add of_nat_mult)
  show ?case
  proof (cases bs)
    case Nil
    with last show ?thesis by simp
  next
    case (Cons d ds)
    then obtain t cs where "b64_enc bs = t # cs" using b64_enc_Cons [of d ds] by (cases "b64_enc bs") auto
    with 4 show ?thesis by (simp add: b64_bits del: of_nat_add of_nat_mult)
  qed
qed (simp_all add: b64_bits b64_sym_cases del: of_nat_add of_nat_mult)

lemma b64_sym_no_break: "n < 64 \<Longrightarrow> \<not> line_break (b64_sym n)"
  using b64_sym_cases [of n] by (simp add: line_break_def)

lemma b64_enc_no_break: "\<forall>c \<in> set (b64_enc bs). \<not> line_break c"
  by (induction bs rule: b64_enc.induct)
     (simp_all add: b64_sym_no_break b64_bits, simp_all add: line_break_def)

lemma b64_dec_enc [simp]: "b64_dec (b64_enc bs) = Some bs"
proof -
  have "filter (\<lambda>c. \<not> line_break c) (b64_enc bs) = b64_enc bs"
    using b64_enc_no_break [of bs] by simp
  then show ?thesis by (simp add: b64_dec_def b64_quads_enc)
qed

interpretation base64: codec b64_enc b64_dec "\<lambda>_. True"
  by unfold_locales simp

section \<open>Strings\<close>

text \<open>\<^verbatim>\<open>strings.ToLower\<close> and \<^verbatim>\<open>strings.EqualFold\<close> on ASCII, which the names compared with them are
  made of; \<^verbatim>\<open>HasPrefix\<close>, \<^verbatim>\<open>TrimPrefix\<close>, \<^verbatim>\<open>TrimSpace\<close>, \<^verbatim>\<open>Split\<close> at a single byte.\<close>

definition lower_char :: "char \<Rightarrow> char" where
  "lower_char c = (let n = of_char c in if 65 \<le> n \<and> n \<le> (90 :: nat) then char_of (n + 32) else c)"

definition to_lower :: "string \<Rightarrow> string" where
  "to_lower s = map lower_char s"

definition equal_fold :: "string \<Rightarrow> string \<Rightarrow> bool" where
  "equal_fold s t \<longleftrightarrow> to_lower s = to_lower t"

definition has_prefix :: "string \<Rightarrow> string \<Rightarrow> bool" where
  "has_prefix s p \<longleftrightarrow> take (length p) s = p"

definition trim_prefix :: "string \<Rightarrow> string \<Rightarrow> string" where
  "trim_prefix s p = (if has_prefix s p then drop (length p) s else s)"

definition is_space :: "char \<Rightarrow> bool" where
  "is_space c \<longleftrightarrow> c \<in> {CHR '' '', CHR 0x09, CHR 0x0A, CHR 0x0B, CHR 0x0C, CHR 0x0D}"

definition trim_space :: "string \<Rightarrow> string" where
  "trim_space s = rev (dropWhile is_space (rev (dropWhile is_space s)))"

fun split_on :: "char \<Rightarrow> string \<Rightarrow> string list" where
  "split_on d [] = [[]]"
| "split_on d (c # cs) = (if c = d then [] # split_on d cs
     else case split_on d cs of [] \<Rightarrow> [[c]] | w # ws \<Rightarrow> (c # w) # ws)"

fun join_with :: "string \<Rightarrow> string list \<Rightarrow> string" where
  "join_with d [] = []"
| "join_with d [s] = s"
| "join_with d (s # t # ss) = s @ d @ join_with d (t # ss)"

lemma has_prefix_append [simp]: "has_prefix (p @ s) p"
  by (simp add: has_prefix_def)

lemma trim_prefix_append [simp]: "trim_prefix (p @ s) p = s"
  by (simp add: trim_prefix_def)

lemma split_on_nonempty [simp]: "split_on d s \<noteq> []"
  by (cases s) (auto split: list.splits)

lemma split_on_clean: "d \<notin> set s \<Longrightarrow> split_on d s = [s]"
  by (induction s) auto

lemma split_on_append: "d \<notin> set s \<Longrightarrow> split_on d (s @ d # t) = s # split_on d t"
  by (induction s) auto

text \<open>A list of delimiter-free strings, written with \<^verbatim>\<open>Join\<close>, is read back with \<^verbatim>\<open>Split\<close>.\<close>

lemma split_join: "ss \<noteq> [] \<Longrightarrow> \<forall>s \<in> set ss. d \<notin> set s \<Longrightarrow> split_on d (join_with [d] ss) = ss"
proof (induction "[d]" ss rule: join_with.induct)
  case (2 s)
  then show ?case by (simp add: split_on_clean)
next
  case (3 s t ss)
  then show ?case using split_on_append [of d s "join_with [d] (t # ss)"] by simp
qed simp

interpretation fields: codec "join_with [d]" "\<lambda>s. Some (split_on d s)"
  "\<lambda>ss. ss \<noteq> [] \<and> (\<forall>s \<in> set ss. d \<notin> set s)" for d
  by unfold_locales (simp add: split_join)

section \<open>Host and port\<close>

text \<open>\<^verbatim>\<open>net.SplitHostPort\<close>: the part before the last colon, which must not itself hold a colon
  unless it is written in brackets.\<close>

fun index_of :: "char \<Rightarrow> string \<Rightarrow> nat option" where
  "index_of d [] = None"
| "index_of d (c # cs) = (if c = d then Some 0 else map_option Suc (index_of d cs))"

definition last_index_of :: "char \<Rightarrow> string \<Rightarrow> nat option" where
  "last_index_of d s = map_option (\<lambda>i. length s - 1 - i) (index_of d (rev s))"

definition split_host_port :: "string \<Rightarrow> (string \<times> string) option" where
  "split_host_port hp = (case last_index_of (CHR '':'') hp of None \<Rightarrow> None
     | Some i \<Rightarrow>
         if hp \<noteq> [] \<and> hd hp = CHR ''['' then
           (case index_of (CHR '']'') hp of None \<Rightarrow> None
            | Some e \<Rightarrow>
                if e + 1 \<noteq> i then None
                else if CHR ''['' \<in> set (drop 1 hp) \<or> CHR '']'' \<in> set (drop (e + 1) hp) then None
                else Some (take (e - 1) (drop 1 hp), drop (i + 1) hp))
         else if CHR '':'' \<in> set (take i hp) \<or> CHR ''['' \<in> set hp \<or> CHR '']'' \<in> set hp then None
         else Some (take i hp, drop (i + 1) hp))"

text \<open>\<^verbatim>\<open>net.JoinHostPort\<close>.\<close>

definition join_host_port :: "string \<Rightarrow> string \<Rightarrow> string" where
  "join_host_port h p =
     (if CHR '':'' \<in> set h \<or> CHR ''%'' \<in> set h then ''['' @ h @ '']:'' @ p else h @ '':'' @ p)"

lemma index_of_append: "d \<notin> set s \<Longrightarrow> index_of d (s @ d # t) = Some (length s)"
  by (induction s) auto

lemma last_index_of_append: "d \<notin> set t \<Longrightarrow> last_index_of d (s @ d # t) = Some (length s)"
  using index_of_append [of d "rev t" "rev s"] by (simp add: last_index_of_def)

lemma split_join_host_port:
  assumes "CHR ''['' \<notin> set h" "CHR '']'' \<notin> set h" "set p \<inter> {CHR '':'', CHR ''['', CHR '']''} = {}"
  shows "split_host_port (join_host_port h p) = Some (h, p)"
proof (cases "CHR '':'' \<in> set h \<or> CHR ''%'' \<in> set h")
  case True
  let ?s = "''['' @ h @ '']:'' @ p"
  have "last_index_of (CHR '':'') ?s = Some (length h + 2)"
    using last_index_of_append [of "CHR '':''" p "''['' @ h @ '']''"] assms(3) by simp
  moreover have "index_of (CHR '']'') ?s = Some (length h + 1)"
    using index_of_append [of "CHR '']''" "''['' @ h" "'':'' @ p"] assms(2) by simp
  ultimately show ?thesis using True assms by (auto simp: split_host_port_def join_host_port_def)
next
  case False
  have "last_index_of (CHR '':'') (h @ '':'' @ p) = Some (length h)"
    using last_index_of_append [of "CHR '':''" p h] assms(3) by simp
  moreover have "hd (h @ '':'' @ p) \<noteq> CHR ''[''" using assms(1) by (cases h) auto
  ultimately show ?thesis using False assms by (auto simp: split_host_port_def join_host_port_def)
qed

end
