(* ===== verification/Json.thy ===== *)
theory Json
  imports Gotext "HOL-Library.Char_ord" "HOL-Library.List_Lexorder"
begin

text \<open>
  JSON values and the part of Go's \<^verbatim>\<open>encoding/json\<close> that server and client use, at the level of
  values: the text of a message is abstracted to the value it denotes, and a
  \<^verbatim>\<open>json.RawMessage\<close> to the value with the number of bytes of its text, the only other thing the
  sources ask of it.

  \<^verbatim>\<open>json.Unmarshal\<close> into a struct visits the members of an object in order; a member whose name
  equals a field's up to case is decoded into the field, so that the last one wins; \<^verbatim>\<open>null\<close> leaves
  the field as it is, and a value of another type leaves it too and makes the call return an error
  at the end. A decoder therefore returns the value and whether there was no error. An element of
  the wrong type in an array is decoded as the zero value.

  The theory ends with the \<^verbatim>\<open>Message\<close> envelope of the signalling protocol, common to
  \<^verbatim>\<open>src/server/hub.go\<close> and \<^verbatim>\<open>src/client/core/types.go\<close>.
\<close>

datatype json = JNull | JBool bool | JNum int | JStr string | JArr "json list" | JObj "(string \<times> json) list"

type_synonym 'a decoded = "'a \<times> bool"

section \<open>Decoding\<close>

text \<open>One value into a field of each type.\<close>

fun into_str :: "json \<Rightarrow> string decoded \<Rightarrow> string decoded" where
  "into_str (JStr s) (cur, ok) = (s, ok)"
| "into_str JNull (cur, ok) = (cur, ok)"
| "into_str _ (cur, ok) = (cur, False)"

fun into_bool :: "json \<Rightarrow> bool decoded \<Rightarrow> bool decoded" where
  "into_bool (JBool b) (cur, ok) = (b, ok)"
| "into_bool JNull (cur, ok) = (cur, ok)"
| "into_bool _ (cur, ok) = (cur, False)"

definition int64_range :: "int \<Rightarrow> bool" where
  "int64_range i \<longleftrightarrow> - 9223372036854775808 \<le> i \<and> i < 9223372036854775808"

fun into_int :: "json \<Rightarrow> int decoded \<Rightarrow> int decoded" where
  "into_int (JNum i) (cur, ok) = (if int64_range i then (i, ok) else (cur, False))"
| "into_int JNull (cur, ok) = (cur, ok)"
| "into_int _ (cur, ok) = (cur, False)"

text \<open>A \<^verbatim>\<open>[]string\<close>: \<open>None\<close> is the nil slice.\<close>

fun into_strs :: "json \<Rightarrow> string list option decoded \<Rightarrow> string list option decoded" where
  "into_strs (JArr vs) (cur, ok) =
     (let ds = map (\<lambda>v. into_str v ([], True)) vs in (Some (map fst ds), ok \<and> list_all snd ds))"
| "into_strs JNull (cur, ok) = (None, ok)"
| "into_strs _ (cur, ok) = (cur, False)"

text \<open>A \<^verbatim>\<open>map[string]string\<close>: \<open>None\<close> is the nil map.\<close>

fun into_strmap :: "json \<Rightarrow> (string \<times> string) list option decoded \<Rightarrow> (string \<times> string) list option decoded" where
  "into_strmap (JObj kvs) (cur, ok) =
     (\<lambda>(m, ok'). (Some m, ok')) (fold (\<lambda>(k, v) (m, ok'). case into_str v ([], True) of (s, ok'') \<Rightarrow>
            (mput k s m, ok' \<and> ok''))
       kvs (case cur of None \<Rightarrow> [] | Some m \<Rightarrow> m, ok))"
| "into_strmap JNull (cur, ok) = (None, ok)"
| "into_strmap _ (cur, ok) = (cur, False)"

text \<open>The members of an object that go to the field \<open>name\<close>, in order, and the members of the
  top-level value of a struct.\<close>

definition field :: "string \<Rightarrow> (string \<times> json) list \<Rightarrow> json list" where
  "field name kvs = map snd (filter (\<lambda>(k, v). equal_fold k name) kvs)"

fun obj_members :: "json \<Rightarrow> (string \<times> json) list decoded" where
  "obj_members (JObj kvs) = (kvs, True)"
| "obj_members JNull = ([], True)"
| "obj_members _ = ([], False)"

definition get_str :: "string \<Rightarrow> (string \<times> json) list \<Rightarrow> string decoded" where
  "get_str name kvs = fold into_str (field name kvs) ([], True)"

definition get_bool :: "string \<Rightarrow> (string \<times> json) list \<Rightarrow> bool decoded" where
  "get_bool name kvs = fold into_bool (field name kvs) (False, True)"

definition get_int :: "string \<Rightarrow> (string \<times> json) list \<Rightarrow> int decoded" where
  "get_int name kvs = fold into_int (field name kvs) (0, True)"

definition get_strs :: "string \<Rightarrow> (string \<times> json) list \<Rightarrow> string list option decoded" where
  "get_strs name kvs = fold into_strs (field name kvs) (None, True)"

text \<open>A \<^verbatim>\<open>json.RawMessage\<close> takes any value, \<^verbatim>\<open>null\<close> included.\<close>

definition get_raw :: "string \<Rightarrow> (string \<times> json) list \<Rightarrow> json option" where
  "get_raw name kvs = (let vs = field name kvs in if vs = [] then None else Some (last vs))"

section \<open>Encoding\<close>

text \<open>A member with \<^verbatim>\<open>omitempty\<close>.\<close>

definition omit_str :: "string \<Rightarrow> string \<Rightarrow> (string \<times> json) list" where
  "omit_str k s = (if s = [] then [] else [(k, JStr s)])"

definition omit_strs :: "string \<Rightarrow> string list \<Rightarrow> (string \<times> json) list" where
  "omit_strs k ss = (if ss = [] then [] else [(k, JArr (map JStr ss))])"

text \<open>A \<^verbatim>\<open>map[string]string\<close> is written with its keys sorted.\<close>

definition enc_strmap :: "(string \<times> string) list \<Rightarrow> json" where
  "enc_strmap m = JObj (map (\<lambda>(k, s). (k, JStr s)) (sort_key fst m))"

lemma field_Nil [simp]: "field n [] = []"
  by (simp add: field_def)

lemma field_Cons [simp]: "field n ((k, v) # kvs) = (if equal_fold k n then v # field n kvs else field n kvs)"
  by (simp add: field_def)

lemma field_append [simp]: "field n (kvs @ kvs') = field n kvs @ field n kvs'"
  by (simp add: field_def)

lemma field_omit_str [simp]:
  "field n (omit_str k s) = (if equal_fold k n \<and> s \<noteq> [] then [JStr s] else [])"
  by (simp add: omit_str_def)

lemma field_omit_strs [simp]:
  "field n (omit_strs k ss) = (if equal_fold k n \<and> ss \<noteq> [] then [JArr (map JStr ss)] else [])"
  by (simp add: omit_strs_def)

lemma into_strs_JStr [simp]: "into_strs (JArr (map JStr ss)) (cur, ok) = (Some ss, ok)"
  by (simp add: o_def list_all_iff)

lemma equal_fold_refl [simp]: "equal_fold s s"
  by (simp add: equal_fold_def)

section \<open>The message envelope\<close>

text \<open>A raw payload: its value and the length of its text. A nil payload is \<open>None\<close>.\<close>

type_synonym raw = "json \<times> nat"

record message =
  mType :: string
  mFrom :: string
  mTo :: string
  mRoom :: string
  mPayload :: "raw option"

definition mk_message :: "string \<Rightarrow> json \<Rightarrow> message" where
  "mk_message ty payload = \<lparr>mType = ty, mFrom = [], mTo = [], mRoom = [], mPayload = Some (payload, 0)\<rparr>"

definition marshal_message :: "message \<Rightarrow> json" where
  "marshal_message m = JObj ([(''type'', JStr (mType m))] @ omit_str ''from'' (mFrom m) @ omit_str ''to'' (mTo m) @
     omit_str ''room'' (mRoom m) @ (case mPayload m of None \<Rightarrow> [] | Some (v, _) \<Rightarrow> [(''payload'', v)]))"

text \<open>\<^verbatim>\<open>json.Unmarshal(data, &msg)\<close>; \<open>n\<close> is the length of the text of the payload.\<close>

definition unmarshal_message :: "nat \<Rightarrow> json \<Rightarrow> message decoded" where
  "unmarshal_message n v = (let (kvs, ok0) = obj_members v;
        (ty, ok1) = get_str ''type'' kvs; (fr, ok2) = get_str ''from'' kvs;
        (t, ok3) = get_str ''to'' kvs; (rm, ok4) = get_str ''room'' kvs
      in (\<lparr>mType = ty, mFrom = fr, mTo = t, mRoom = rm, mPayload = map_option (\<lambda>p. (p, n)) (get_raw ''payload'' kvs)\<rparr>,
          ok0 \<and> ok1 \<and> ok2 \<and> ok3 \<and> ok4))"

lemma member_names [simp]:
  "\<not> equal_fold ''type'' ''from''" "\<not> equal_fold ''type'' ''to''" "\<not> equal_fold ''type'' ''room''"
  "\<not> equal_fold ''type'' ''payload''" "\<not> equal_fold ''from'' ''type''" "\<not> equal_fold ''from'' ''to''"
  "\<not> equal_fold ''from'' ''room''" "\<not> equal_fold ''from'' ''payload''" "\<not> equal_fold ''to'' ''type''"
  "\<not> equal_fold ''to'' ''from''" "\<not> equal_fold ''to'' ''room''" "\<not> equal_fold ''to'' ''payload''"
  "\<not> equal_fold ''room'' ''type''" "\<not> equal_fold ''room'' ''from''" "\<not> equal_fold ''room'' ''to''"
  "\<not> equal_fold ''room'' ''payload''" "\<not> equal_fold ''payload'' ''type''" "\<not> equal_fold ''payload'' ''from''"
  "\<not> equal_fold ''payload'' ''to''" "\<not> equal_fold ''payload'' ''room''"
  by (simp_all add: equal_fold_def to_lower_def lower_char_def)

lemma unmarshal_marshal:
  "\<forall>v k. mPayload m = Some (v, k) \<longrightarrow> k = n \<Longrightarrow> unmarshal_message n (marshal_message m) = (m, True)"
  by (cases m) (auto simp: unmarshal_message_def marshal_message_def get_str_def get_raw_def split: option.splits)

definition dec_message :: "nat \<Rightarrow> json \<Rightarrow> message option" where
  "dec_message n v = (let (m, ok) = unmarshal_message n v in if ok then Some m else None)"

interpretation envelope: codec marshal_message "dec_message n" "\<lambda>m. \<forall>v k. mPayload m = Some (v, k) \<longrightarrow> k = n" for n
  by unfold_locales (simp add: dec_message_def unmarshal_marshal)

end
