(* ===== verification/Guards.thy ===== *)
theory Guards
  imports Gotext
begin

text \<open>
  The guards of the server, \<^verbatim>\<open>src/server/main.go\<close>: the sliding-window rate limiter that protects
  logins, connections and joins, and the dashboard's session tokens. Times are nanoseconds, and the
  clock reading \<^verbatim>\<open>time.Now()\<close> is an argument; random bytes from \<^verbatim>\<open>crypto/rand\<close> are too.
\<close>

section \<open>Rate limiter\<close>

record rateLimiter =
  counts :: "(string \<times> int list) list"
  rl_max :: int
  rl_window :: int

definition newRateLimiter :: "int \<Rightarrow> int \<Rightarrow> rateLimiter" where
  "newRateLimiter m w = \<lparr>counts = [], rl_max = m, rl_window = w\<rparr>"

definition time_minute :: int where "time_minute = 60000000000"
definition time_hour :: int where "time_hour = 3600000000000"

definition loginLimiter0 :: rateLimiter where "loginLimiter0 = newRateLimiter 5 time_minute"
definition wsLimiter0 :: rateLimiter where "wsLimiter0 = newRateLimiter 20 time_minute"
definition joinLimiter0 :: rateLimiter where "joinLimiter0 = newRateLimiter 10 time_minute"

definition rl_times :: "rateLimiter \<Rightarrow> string \<Rightarrow> int list" where
  "rl_times rl key = (case mget (counts rl) key of None \<Rightarrow> [] | Some ts \<Rightarrow> ts)"

definition rl_allow :: "rateLimiter \<Rightarrow> string \<Rightarrow> int \<Rightarrow> rateLimiter \<times> bool" where
  "rl_allow rl key now =
     (let cutoff = now - rl_window rl;
          valid = filter (\<lambda>t. t > cutoff) (rl_times rl key)
      in if int (length valid) \<ge> rl_max rl then (rl\<lparr>counts := mput key valid (counts rl)\<rparr>, False)
         else (rl\<lparr>counts := mput key (valid @ [now]) (counts rl)\<rparr>, True))"

text \<open>A sequence of calls \<^verbatim>\<open>(key, now)\<close>; the result lists the answers.\<close>

fun rl_run :: "rateLimiter \<Rightarrow> (string \<times> int) list \<Rightarrow> rateLimiter \<times> bool list" where
  "rl_run rl [] = (rl, [])"
| "rl_run rl ((key, now) # calls) =
     (let (rl1, b) = rl_allow rl key now; (rl2, bs) = rl_run rl1 calls in (rl2, b # bs))"

text \<open>What the limiter promises, over the full history \<open>h\<close> of granted calls, of which it keeps only
  the recent part: a call is granted iff fewer than \<^verbatim>\<open>max\<close> calls of its key were granted in the
  window that ends now.\<close>

definition granted_in :: "(string \<times> int) list \<Rightarrow> string \<Rightarrow> int \<Rightarrow> int \<Rightarrow> int list" where
  "granted_in h key lo hi = filter (\<lambda>t. lo < t \<and> t \<le> hi) (map snd (filter (\<lambda>(k, t). k = key) h))"

fun rl_spec :: "int \<Rightarrow> int \<Rightarrow> (string \<times> int) list \<Rightarrow> (string \<times> int) list \<Rightarrow> bool list" where
  "rl_spec m w h [] = []"
| "rl_spec m w h ((key, now) # calls) =
     (if int (length (granted_in h key (now - w) now)) < m then True # rl_spec m w (h @ [(key, now)]) calls
      else False # rl_spec m w h calls)"

text \<open>The granted calls of a sequence.\<close>

definition granted :: "(string \<times> int) list \<Rightarrow> bool list \<Rightarrow> (string \<times> int) list" where
  "granted calls bs = map fst (filter snd (zip calls bs))"

text \<open>Abstraction: the stored list of a key is the granted calls of the key after some past cutoff.\<close>

definition rl_abs :: "rateLimiter \<Rightarrow> (string \<times> int) list \<Rightarrow> int \<Rightarrow> bool" where
  "rl_abs rl h now \<longleftrightarrow> 0 < rl_window rl \<and> (\<forall>(k, t) \<in> set h. t \<le> now) \<and>
     (\<forall>key. \<exists>c. c \<le> now - rl_window rl \<and>
        rl_times rl key = filter (\<lambda>t. c < t) (map snd (filter (\<lambda>(k, t). k = key) h)))"

lemma rl_allow_params [simp]:
  "rl_max (fst (rl_allow rl key now)) = rl_max rl" "rl_window (fst (rl_allow rl key now)) = rl_window rl"
  by (auto simp: rl_allow_def Let_def)

lemma rl_abs_mono: "rl_abs rl h now \<Longrightarrow> now \<le> now' \<Longrightarrow> rl_abs rl h now'"
  unfolding rl_abs_def by (clarsimp, intro conjI ballI allI) (auto dest: bspec, meson diff_right_mono order.trans)

lemma rl_valid:
  assumes "rl_abs rl h now"
  shows "filter (\<lambda>t. t > now - rl_window rl) (rl_times rl key) = granted_in h key (now - rl_window rl) now"
proof -
  from assms obtain c where c: "c \<le> now - rl_window rl"
    "rl_times rl key = filter (\<lambda>t. c < t) (map snd (filter (\<lambda>(k, t). k = key) h))"
    unfolding rl_abs_def by blast
  have past: "t \<le> now" if "t \<in> set (map snd (filter (\<lambda>(k, t). k = key) h))" for t
    using assms that unfolding rl_abs_def by auto
  show ?thesis unfolding c(2) granted_in_def filter_filter
    by (rule filter_cong [OF refl]) (use c(1) past in auto)
qed

text \<open>One call refines the specification's step.\<close>

lemma rl_allow_times:
  assumes "rl_abs rl h now"
  defines "ok \<equiv> \<lambda>key. int (length (granted_in h key (now - rl_window rl) now)) < rl_max rl"
  shows "snd (rl_allow rl key now) = ok key"
    and "rl_times (fst (rl_allow rl key now)) key =
      filter (\<lambda>t. now - rl_window rl < t) (map snd (filter (\<lambda>(k, t). k = key) h)) @ (if ok key then [now] else [])"
proof -
  note v = rl_valid [OF assms(1), of key]
  show "snd (rl_allow rl key now) = ok key" by (simp add: rl_allow_def v ok_def Let_def)
  have "granted_in h key (now - rl_window rl) now =
      filter (\<lambda>t. now - rl_window rl < t) (map snd (filter (\<lambda>(k, t). k = key) h))"
    unfolding granted_in_def by (rule filter_cong) (use assms(1) in \<open>auto simp: rl_abs_def\<close>)
  then show "rl_times (fst (rl_allow rl key now)) key =
      filter (\<lambda>t. now - rl_window rl < t) (map snd (filter (\<lambda>(k, t). k = key) h)) @ (if ok key then [now] else [])"
    by (auto simp: rl_allow_def rl_times_def v [unfolded rl_times_def] ok_def Let_def)
qed

lemma rl_allow_abs:
  assumes "rl_abs rl h now"
  shows "rl_abs (fst (rl_allow rl key now)) (if snd (rl_allow rl key now) then h @ [(key, now)] else h) now"
proof -
  let ?h = "if snd (rl_allow rl key now) then h @ [(key, now)] else h"
  have "\<exists>c. c \<le> now - rl_window rl \<and> rl_times (fst (rl_allow rl key now)) k =
      filter (\<lambda>t. c < t) (map snd (filter (\<lambda>(k', t). k' = k) ?h))" for k
  proof (cases "k = key")
    case True
    with assms show ?thesis
      by (intro exI [of _ "now - rl_window rl"])
         (simp add: rl_allow_times [OF assms], simp add: rl_abs_def)
  next
    case False
    then have "rl_times (fst (rl_allow rl key now)) k = rl_times rl k"
      by (simp add: rl_allow_def rl_times_def Let_def)
    with False assms show ?thesis by (auto simp: rl_abs_def)
  qed
  with assms show ?thesis by (auto simp: rl_abs_def)
qed

lemma rl_run_spec:
  assumes "rl_abs rl h now" "sorted (map snd calls)" "\<forall>(k, t) \<in> set calls. now \<le> t"
  shows "snd (rl_run rl calls) = rl_spec (rl_max rl) (rl_window rl) h calls"
  using assms
proof (induction calls arbitrary: rl h now)
  case (Cons c calls)
  obtain key t where c [simp]: "c = (key, t)" by (cases c)
  from Cons.prems have abs: "rl_abs rl h t" by (auto elim: rl_abs_mono)
  have ge: "\<forall>(k, t') \<in> set calls. t \<le> t'" and so: "sorted (map snd calls)" using Cons.prems(2) by auto
  show ?case
    using Cons.IH [OF rl_allow_abs [OF abs, of key] so ge] rl_allow_times(1) [OF abs, of key]
    by (auto simp: split_beta Let_def)
qed simp

lemma rl_abs_new: "0 < w \<Longrightarrow> rl_abs (newRateLimiter m w) [] now"
  by (auto simp: rl_abs_def newRateLimiter_def rl_times_def intro: exI [of _ "now - w"])

lemma granted_Cons [simp]:
  "granted (c # calls) (b # bs) = (if b then c # granted calls bs else granted calls bs)"
  by (simp add: granted_def)

lemma granted_Nil [simp]: "granted [] bs = []"
  by (simp add: granted_def)

lemma granted_in_append [simp]: "granted_in (h @ h') k lo hi = granted_in h k lo hi @ granted_in h' k lo hi"
  by (simp add: granted_in_def)

text \<open>The specification never grants more than \<^verbatim>\<open>max\<close> calls of a key in a window.\<close>

lemma rl_spec_bound:
  assumes "sorted (map snd calls)" "\<forall>(k, s) \<in> set calls. \<forall>(k', s') \<in> set h. s' \<le> s"
    and "0 \<le> m" "\<And>t. int (length (granted_in h key (t - w) t)) \<le> m"
  shows "int (length (granted_in (h @ granted calls (rl_spec m w h calls)) key (t - w) t)) \<le> m"
  using assms(1,2,4)
proof (induction calls arbitrary: h)
  case (Cons c calls)
  obtain k s where c [simp]: "c = (k, s)" by (cases c)
  show ?case
  proof (cases "int (length (granted_in h k (s - w) s)) < m")
    case False
    then show ?thesis using Cons.IH [of h] Cons.prems by auto
  next
    case True
    have b: "int (length (granted_in (h @ [(k, s)]) key (u - w) u)) \<le> m" for u
    proof (cases "k = key \<and> u - w < s \<and> s \<le> u")
      case False
      then have "granted_in [(k, s)] key (u - w) u = []" by (auto simp: granted_in_def)
      then show ?thesis using Cons.prems(3) [of u] by simp
    next
      case inside: True
      have "length (granted_in h key (u - w) u) \<le> length (granted_in h key (s - w) s)"
      proof -
        have "granted_in h key (u - w) u = filter (\<lambda>t. u - w < t) (granted_in h key (s - w) s)"
          unfolding granted_in_def filter_filter
          by (rule filter_cong) (use inside Cons.prems(2) in auto)
        then show ?thesis by simp
      qed
      then show ?thesis using True inside by (auto simp: granted_in_def)
    qed
    have "sorted (map snd calls)" "\<forall>(k', s') \<in> set calls. \<forall>(k'', s'') \<in> set (h @ [(k, s)]). s'' \<le> s'"
      using Cons.prems(1,2) by auto
    from Cons.IH [OF this b] True show ?thesis by simp
  qed
qed simp

text \<open>Claim C16.
  The limiter's answers to any sequence of calls, made at non-decreasing times, are exactly those of
  the specification over the full history: a call is granted iff fewer than the maximum number of
  calls of its key were granted in the window ending at the call. In particular no window of
  that length ever holds more granted calls of one key than the maximum.\<close>

theorem rate_limiter_bound:
  assumes "sorted (map snd calls)" "0 < w" "0 \<le> m"
  defines "bs \<equiv> snd (rl_run (newRateLimiter m w) calls)"
  shows "bs = rl_spec m w [] calls \<and> int (length (granted_in (granted calls bs) key (t - w) t)) \<le> m"
proof -
  have "bs = rl_spec m w [] calls"
  proof (cases calls)
    case (Cons c cs)
    then have "\<forall>(k, t) \<in> set calls. snd c \<le> t" using assms(1) by auto
    then show ?thesis
      using rl_run_spec [OF rl_abs_new [of w m "snd c"] assms(1)] assms(2)
      by (simp add: bs_def newRateLimiter_def)
  qed (simp add: bs_def)
  moreover have "int (length (granted_in (granted calls (rl_spec m w [] calls)) key (t - w) t)) \<le> m"
    using rl_spec_bound [of calls "[]" m key w t] assms(1,3) by (simp add: granted_in_def)
  ultimately show ?thesis by simp
qed

theorem rate_limiter_bound_witness:
  "snd (rl_run (newRateLimiter 2 10) [(''a'', 0), (''a'', 3), (''b'', 4), (''a'', 5), (''a'', 11)])
      = rl_spec 2 10 [] [(''a'', 0), (''a'', 3), (''b'', 4), (''a'', 5), (''a'', 11)] \<and>
   snd (rl_run (newRateLimiter 2 10) [(''a'', 0), (''a'', 3), (''b'', 4), (''a'', 5), (''a'', 11)])
      = [True, True, True, False, True]"
  using rate_limiter_bound [of "[(''a'', 0), (''a'', 3), (''b'', 4), (''a'', 5), (''a'', 11)]" 10 2 "''a''" 11]
  by (simp add: newRateLimiter_def rl_allow_def rl_times_def Let_def)

section \<open>Identifiers and sessions\<close>

text \<open>\<^verbatim>\<open>generateID\<close> and \<^verbatim>\<open>generateToken\<close> on the bytes drawn.\<close>

definition generateID :: "bytes \<Rightarrow> string" where
  "generateID rnd = hex_enc (take 8 rnd)"

definition generateToken :: "nat \<Rightarrow> bytes \<Rightarrow> string" where
  "generateToken n rnd = hex_enc (take n rnd)"

type_synonym session_map = "(string \<times> int) list"

definition sessionMaxAge :: int where "sessionMaxAge = 24 * time_hour"

definition createSession :: "session_map \<Rightarrow> bytes \<Rightarrow> int \<Rightarrow> session_map \<times> string" where
  "createSession ss rnd now = (let token = generateToken 32 rnd in (mput token now ss, token))"

definition validSession :: "session_map \<Rightarrow> string \<Rightarrow> int \<Rightarrow> session_map \<times> bool" where
  "validSession ss token now =
     (if token = [] then (ss, False)
      else case mget ss token of None \<Rightarrow> (ss, False)
           | Some created \<Rightarrow> if now - created > sessionMaxAge then (mdel token ss, False) else (ss, True))"

text \<open>A token is accepted iff it was issued at most 24 hours ago and not yet discarded; checking
  it changes the session table only by discarding an expired token, and a discarded token is never
  accepted again; a newly created token is accepted until it is 24 hours old.\<close>

theorem session_lifetime:
  assumes "length rnd = 32" "createSession ss rnd created = (ss', token)"
  shows "(snd (validSession ss' token now) \<longleftrightarrow> now \<le> created + 24 * 3600000000000) \<and>
    (\<not> snd (validSession ss' token now) \<longrightarrow> \<not> snd (validSession (fst (validSession ss' token now)) token later)) \<and>
    (\<forall>t. t \<noteq> token \<longrightarrow> mget (fst (validSession ss' token now)) t = mget ss t)"
proof -
  have token: "token = hex_enc rnd" "ss' = mput token created ss" "token \<noteq> []"
    using assms by (auto simp: createSession_def generateToken_def Let_def dest: arg_cong [of _ _ length])
  show ?thesis
    using token(2,3) by (simp add: validSession_def sessionMaxAge_def time_hour_def)
qed

theorem session_lifetime_witness:
  "snd (validSession (fst (createSession [] (replicate 32 7) 5)) (snd (createSession [] (replicate 32 7) 5)) 6) = True"
  using session_lifetime [of "replicate 32 7" "[]" 5 "fst (createSession [] (replicate 32 7) 5)"
      "snd (createSession [] (replicate 32 7) 5)" 6 0] by simp

end
