(* ===== verification/Server_State.thy ===== *)
theory Server_State
  imports Json Guards
begin

text \<open>
  The state of the signalling server and its elementary effects.

  A \<^verbatim>\<open>*Client\<close> is an address of the heap \<open>s_heap\<close>; a \<^verbatim>\<open>*Room\<close> is the entry of
  \<^verbatim>\<open>Hub.rooms\<close> under its key. The channel \<^verbatim>\<open>Client.send\<close> is the list \<open>c_send\<close> of buffered
  messages with the flag \<open>c_open\<close>: sending on a closed channel and closing it twice panic, which
  ends the server process and is the value \<open>None\<close>. \<open>c_conn\<close> says whether the WebSocket is open and
  \<open>c_wire\<close> is what has been written to it, one list of messages per WebSocket frame.

  The goroutines that a handler starts with \<^verbatim>\<open>go\<close> and the clients queued on \<^verbatim>\<open>Hub.unregister\<close> are
  work lists of the state (\<open>s_closing\<close>, \<open>s_lookups\<close>, \<open>s_unregister\<close>): they run later, in any order
  relative to other handlers. A handler itself is one step.
\<close>

section \<open>Records\<close>

record ipInfo =
  ip_IP :: string
  ip_Country :: string
  ip_Region :: string
  ip_City :: string
  ip_ISP :: string
  ip_Org :: string
  ip_Summary :: string

record client =
  c_id :: string
  c_room :: string
  c_roomKey :: string
  c_status :: string
  c_name :: string
  c_services :: "string list"
  c_endpoint :: string
  c_natType :: string
  c_ipInfo :: "ipInfo option"
  c_features :: "(string \<times> string) list"
  c_send :: "json list"
  c_open :: bool
  c_conn :: bool
  c_wire :: "json list list"

record room =
  r_Name :: string
  r_PasswordHash :: string
  r_Key :: string
  r_Clients :: "(string \<times> nat) list"
  r_Blacklist :: "(string \<times> bool) list"
  r_BytesRelayed :: int
  r_CreatedAt :: int
  r_OwnerID :: string
  r_OwnerName :: string
  r_Persistent :: bool
  r_RelayDisabled :: bool
  r_Locked :: bool

text \<open>The two tables of the SQLite database. A row of \<^verbatim>\<open>rooms\<close> holds the creation time as the
  seconds that its RFC 3339 text denotes (\<open>None\<close>: a text that does not parse). \<open>db_ok\<close> tells whether
  statements currently succeed; the sources ignore or log their errors.\<close>

record room_row =
  rr_name :: string
  rr_password_hash :: string
  rr_created_at :: "int option"
  rr_bytes_relayed :: int
  rr_persistent :: int

record db =
  db_rooms :: "(string \<times> room_row) list"
  db_bans :: "(string \<times> string) list"
  db_ok :: bool

record srv =
  s_heap :: "nat \<Rightarrow> client"
  s_next :: nat
  s_rooms :: "(string \<times> room) list"
  s_store :: "db option"
  s_globalRelayOff :: bool
  s_sessions :: session_map
  s_loginLimiter :: rateLimiter
  s_wsLimiter :: rateLimiter
  s_joinLimiter :: rateLimiter
  s_activeConns :: int
  s_maxConns :: int
  s_authToken :: string
  s_ipCache :: "(string \<times> ipInfo) list"
  s_unregister :: "nat list"
  s_closing :: "nat list"
  s_lookups :: "(nat \<times> string) list"

section \<open>Elementary effects\<close>

definition upd_client :: "nat \<Rightarrow> (client \<Rightarrow> client) \<Rightarrow> srv \<Rightarrow> srv" where
  "upd_client p f s = s\<lparr>s_heap := (s_heap s)(p := f (s_heap s p))\<rparr>"

definition put_room :: "string \<Rightarrow> room \<Rightarrow> srv \<Rightarrow> srv" where
  "put_room k r s = s\<lparr>s_rooms := mput k r (s_rooms s)\<rparr>"

definition del_room :: "string \<Rightarrow> srv \<Rightarrow> srv" where
  "del_room k s = s\<lparr>s_rooms := mdel k (s_rooms s)\<rparr>"

text \<open>The capacity of \<^verbatim>\<open>make(chan []byte, 4096)\<close> in \<^verbatim>\<open>serveWs\<close>.\<close>

definition send_cap :: nat where "send_cap = 4096"

text \<open>\<^verbatim>\<open>select { case c.send <- data: default: }\<close>.\<close>

definition try_send :: "nat \<Rightarrow> json \<Rightarrow> srv \<Rightarrow> srv option" where
  "try_send p data s =
     (let c = s_heap s p in
      if \<not> c_open c then None
      else if length (c_send c) < send_cap then Some (upd_client p (c_send_update (\<lambda>q. q @ [data])) s)
      else Some s)"

text \<open>\<^verbatim>\<open>close(c.send)\<close> and \<^verbatim>\<open>c.conn.Close()\<close>.\<close>

definition close_send :: "nat \<Rightarrow> srv \<Rightarrow> srv option" where
  "close_send p s = (if c_open (s_heap s p) then Some (upd_client p (c_open_update (\<lambda>_. False)) s) else None)"

definition close_conn :: "nat \<Rightarrow> srv \<Rightarrow> srv" where
  "close_conn p s = upd_client p (c_conn_update (\<lambda>_. False)) s"

definition error_msg :: "string \<Rightarrow> json" where
  "error_msg e = marshal_message (mk_message ''error'' (JObj [(''error'', JStr e)]))"

definition sendError :: "nat \<Rightarrow> string \<Rightarrow> srv \<Rightarrow> srv option" where
  "sendError p e s = try_send p (error_msg e) s"

section \<open>What the effects leave unchanged\<close>

lemma upd_client_heap [simp]: "s_heap (upd_client p f s) q = (if q = p then f (s_heap s p) else s_heap s q)"
  by (simp add: upd_client_def)

lemma upd_client_frame [frame_simps]:
  "s_rooms (upd_client p f s) = s_rooms s" "s_store (upd_client p f s) = s_store s"
  "s_next (upd_client p f s) = s_next s" "s_closing (upd_client p f s) = s_closing s"
  "s_globalRelayOff (upd_client p f s) = s_globalRelayOff s" "s_unregister (upd_client p f s) = s_unregister s"
  "s_joinLimiter (upd_client p f s) = s_joinLimiter s" "s_lookups (upd_client p f s) = s_lookups s"
  by (simp_all add: upd_client_def)

lemma put_room_frame [frame_simps]:
  "s_heap (put_room k r s) = s_heap s" "s_store (put_room k r s) = s_store s"
  "s_next (put_room k r s) = s_next s" "s_closing (put_room k r s) = s_closing s"
  "s_rooms (put_room k r s) = mput k r (s_rooms s)" "s_globalRelayOff (put_room k r s) = s_globalRelayOff s"
  by (simp_all add: put_room_def)

lemma del_room_frame [frame_simps]:
  "s_heap (del_room k s) = s_heap s" "s_store (del_room k s) = s_store s"
  "s_next (del_room k s) = s_next s" "s_closing (del_room k s) = s_closing s"
  "s_rooms (del_room k s) = mdel k (s_rooms s)" "s_globalRelayOff (del_room k s) = s_globalRelayOff s"
  by (simp_all add: del_room_def)

text \<open>A change of the heap alone: sends change only the buffers (\<open>send_eq\<close>), closing a list of
  channels touches only their clients (\<open>touches\<close>).\<close>

definition send_eq :: "srv \<Rightarrow> srv \<Rightarrow> bool" where
  "send_eq s t \<longleftrightarrow> (\<exists>h. t = s\<lparr>s_heap := h\<rparr> \<and> (\<forall>p. \<exists>q. h p = (s_heap s p)\<lparr>c_send := c_send (s_heap s p) @ q\<rparr>))"

definition touches :: "nat set \<Rightarrow> srv \<Rightarrow> srv \<Rightarrow> bool" where
  "touches P s t \<longleftrightarrow> (\<exists>h. t = s\<lparr>s_heap := h\<rparr> \<and> (\<forall>p. p \<notin> P \<longrightarrow> h p = s_heap s p))"

lemma send_eq_refl [simp]: "send_eq s s"
  unfolding send_eq_def by (rule exI [of _ "s_heap s"]) (simp add: exI [of _ "[]"])

lemma send_eq_trans [trans]: "send_eq s t \<Longrightarrow> send_eq t u \<Longrightarrow> send_eq s u"
proof -
  assume "send_eq s t" "send_eq t u"
  then obtain h g where h: "t = s\<lparr>s_heap := h\<rparr>" "\<forall>p. \<exists>q. h p = (s_heap s p)\<lparr>c_send := c_send (s_heap s p) @ q\<rparr>"
    and g: "u = t\<lparr>s_heap := g\<rparr>" "\<forall>p. \<exists>q. g p = (s_heap t p)\<lparr>c_send := c_send (s_heap t p) @ q\<rparr>"
    by (auto simp: send_eq_def)
  have "\<exists>q. g p = (s_heap s p)\<lparr>c_send := c_send (s_heap s p) @ q\<rparr>" for p
  proof -
    obtain q where q: "h p = (s_heap s p)\<lparr>c_send := c_send (s_heap s p) @ q\<rparr>" using h(2) by blast
    obtain q' where "g p = (h p)\<lparr>c_send := c_send (h p) @ q'\<rparr>" using g(2) h(1) by auto
    with q show ?thesis by (intro exI [of _ "q @ q'"]) simp
  qed
  with h(1) g(1) show ?thesis unfolding send_eq_def by (intro exI [of _ g]) simp
qed

lemma send_eq_frame:
  assumes "send_eq s t"
  shows "s_rooms t = s_rooms s" "s_store t = s_store s" "s_next t = s_next s" "s_closing t = s_closing s"
    "s_globalRelayOff t = s_globalRelayOff s" "s_unregister t = s_unregister s" "s_sessions t = s_sessions s"
    "s_joinLimiter t = s_joinLimiter s"
  using assms by (auto simp: send_eq_def)

lemma send_eq_at:
  assumes "send_eq s t"
  shows "c_id (s_heap t p) = c_id (s_heap s p)" "c_roomKey (s_heap t p) = c_roomKey (s_heap s p)"
    "c_open (s_heap t p) = c_open (s_heap s p)" "c_name (s_heap t p) = c_name (s_heap s p)"
    "c_room (s_heap t p) = c_room (s_heap s p)" "c_status (s_heap t p) = c_status (s_heap s p)"
    "c_conn (s_heap t p) = c_conn (s_heap s p)"
proof -
  obtain h where "t = s\<lparr>s_heap := h\<rparr>" "\<forall>p. \<exists>q. h p = (s_heap s p)\<lparr>c_send := c_send (s_heap s p) @ q\<rparr>"
    using assms by (auto simp: send_eq_def)
  then obtain q where "s_heap t p = (s_heap s p)\<lparr>c_send := c_send (s_heap s p) @ q\<rparr>" by auto
  then show "c_id (s_heap t p) = c_id (s_heap s p)" "c_roomKey (s_heap t p) = c_roomKey (s_heap s p)"
    "c_open (s_heap t p) = c_open (s_heap s p)" "c_name (s_heap t p) = c_name (s_heap s p)"
    "c_room (s_heap t p) = c_room (s_heap s p)" "c_status (s_heap t p) = c_status (s_heap s p)"
    "c_conn (s_heap t p) = c_conn (s_heap s p)" by simp_all
qed

lemma touches_frame:
  assumes "touches P s t"
  shows "s_rooms t = s_rooms s" "s_store t = s_store s" "s_next t = s_next s" "s_closing t = s_closing s"
    "s_globalRelayOff t = s_globalRelayOff s" "s_unregister t = s_unregister s" "p \<notin> P \<Longrightarrow> s_heap t p = s_heap s p"
  using assms by (auto simp: touches_def)

lemma touches_refl [simp]: "touches P s s"
  unfolding touches_def by (rule exI [of _ "s_heap s"]) simp

lemma touches_trans: "touches P s t \<Longrightarrow> touches Q t u \<Longrightarrow> touches (P \<union> Q) s u"
  unfolding touches_def by force

lemma touches_upd [simp]: "p \<in> P \<Longrightarrow> touches P s (upd_client p f s)"
  unfolding touches_def upd_client_def by (rule exI [of _ "(s_heap s)(p := f (s_heap s p))"]) auto

lemma try_send_open:
  assumes "c_open (s_heap s p)"
  obtains t where "try_send p m s = Some t" "send_eq s t" "touches {p} s t" "c_open (s_heap t p)"
proof (cases "length (c_send (s_heap s p)) < send_cap")
  case True
  let ?t = "upd_client p (c_send_update (\<lambda>q. q @ [m])) s"
  have "send_eq s ?t" unfolding send_eq_def upd_client_def
    by (intro exI [of _ "(s_heap s)(p := c_send_update (\<lambda>q. q @ [m]) (s_heap s p))"] conjI allI)
       (auto intro: exI [of _ "[m]"] exI [of _ "[]"])
  with that [of ?t] assms True show ?thesis by (simp add: try_send_def Let_def)
next
  case False
  with that [of s] assms show ?thesis by (simp add: try_send_def Let_def)
qed

lemma try_send_closed: "\<not> c_open (s_heap s p) \<Longrightarrow> try_send p m s = None"
  by (simp add: try_send_def)

lemma try_send_eq:
  assumes "try_send p m s = Some t"
  shows "send_eq s t \<and> touches {p} s t"
proof -
  have "c_open (s_heap s p)" using assms try_send_closed by force
  then show ?thesis by (rule try_send_open [of s p m]) (use assms in simp)
qed

lemma close_send_open: "c_open (s_heap s p) \<Longrightarrow> close_send p s = Some (upd_client p (c_open_update (\<lambda>_. False)) s)"
  by (simp add: close_send_def)

lemma close_conn_touches [simp]: "p \<in> P \<Longrightarrow> touches P s (close_conn p s)"
  by (simp add: close_conn_def)

lemma close_conn_at [simp]:
  "c_id (s_heap (close_conn p s) q) = c_id (s_heap s q)" "c_roomKey (s_heap (close_conn p s) q) = c_roomKey (s_heap s q)"
  "c_open (s_heap (close_conn p s) q) = c_open (s_heap s q)" "c_name (s_heap (close_conn p s) q) = c_name (s_heap s q)"
  "c_send (s_heap (close_conn p s) q) = c_send (s_heap s q)"
  by (simp_all add: close_conn_def)

text \<open>Loops over members: an action that succeeds on an open client and touches only it succeeds on
  a list of distinct open clients and touches only these.\<close>

lemma foldM_touches:
  assumes act: "\<And>p s. c_open (s_heap s p) \<Longrightarrow> \<exists>t. act p s = Some t \<and> touches {p} s t"
    and "distinct (map snd ms)" "\<forall>(id, p) \<in> set ms. c_open (s_heap s p)"
  shows "\<exists>t. foldM (\<lambda>(id, p). act p) ms s = Some t \<and> touches (snd ` set ms) s t"
  using assms(2,3)
proof (induction ms arbitrary: s)
  case (Cons m ms)
  obtain id p where m [simp]: "m = (id, p)" by (cases m)
  from Cons.prems act [of s p] obtain t where t: "act p s = Some t" "touches {p} s t" by auto
  have "\<forall>(id, q) \<in> set ms. c_open (s_heap t q)"
    using Cons.prems touches_frame(7) [OF t(2)] by (auto simp: image_iff) (metis (no_types, lifting) case_prodD snd_conv)
  then obtain u where "foldM (\<lambda>(id, p). act p) ms t = Some u" "touches (snd ` set ms) t u"
    using Cons.IH [of t] Cons.prems(1) by auto
  with t touches_trans [OF t(2), of "snd ` set ms" u] show ?case by auto
qed simp

lemma foldM_send:
  assumes "\<forall>(id, p) \<in> set ms. c_open (s_heap s p)"
  shows "\<exists>t. foldM (\<lambda>(id, p) s. if P id then Some s else try_send p m s) ms s = Some t \<and> send_eq s t"
  using assms
proof (induction ms arbitrary: s)
  case (Cons x ms)
  obtain id p where x [simp]: "x = (id, p)" by (cases x)
  from Cons.prems have "c_open (s_heap s p)" by simp
  then obtain t where t: "(if P id then Some s else try_send p m s) = Some t" "send_eq s t"
    by (cases "P id") (auto elim: try_send_open [of s p m])
  with Cons.prems have "\<forall>(id, p) \<in> set ms. c_open (s_heap t p)" by (simp add: send_eq_at)
  with Cons.IH [of t] t send_eq_trans show ?case by fastforce
qed simp

end
