(* ===== verification/Store.thy ===== *)
theory Store
  imports Server_State
begin

text \<open>
  The persistence of rooms and bans, \<^verbatim>\<open>src/server/store.go\<close>: each method is the effect of its SQL
  statement on the two tables, and nothing when the database refuses statements (\<open>db_ok\<close> false),
  since the methods drop the error. The interface the hub relies on is the locale \<open>room_store\<close>.
\<close>

section \<open>Operations\<close>

definition row_of_room :: "room \<Rightarrow> room_row" where
  "row_of_room r = \<lparr>rr_name = r_Name r, rr_password_hash = r_PasswordHash r,
     rr_created_at = Some (r_CreatedAt r div 1000000000), rr_bytes_relayed = r_BytesRelayed r,
     rr_persistent = (if r_Persistent r then 1 else 0)\<rparr>"

definition SaveRoom :: "room \<Rightarrow> db \<Rightarrow> db" where
  "SaveRoom r d = (if db_ok d then d\<lparr>db_rooms := mput (r_Key r) (row_of_room r) (db_rooms d)\<rparr> else d)"

definition DeleteRoom :: "string \<Rightarrow> db \<Rightarrow> db" where
  "DeleteRoom k d = (if db_ok d
     then d\<lparr>db_rooms := mdel k (db_rooms d), db_bans := filter (\<lambda>(rk, cid). rk \<noteq> k) (db_bans d)\<rparr> else d)"

definition SaveBan :: "string \<Rightarrow> string \<Rightarrow> db \<Rightarrow> db" where
  "SaveBan k cid d = (if db_ok d \<and> (k, cid) \<notin> set (db_bans d)
     then d\<lparr>db_bans := db_bans d @ [(k, cid)]\<rparr> else d)"

definition DeleteBan :: "string \<Rightarrow> string \<Rightarrow> db \<Rightarrow> db" where
  "DeleteBan k cid d = (if db_ok d then d\<lparr>db_bans := filter (\<lambda>b. b \<noteq> (k, cid)) (db_bans d)\<rparr> else d)"

definition UpdateBytesRelayed :: "string \<Rightarrow> int \<Rightarrow> db \<Rightarrow> db" where
  "UpdateBytesRelayed k n d = (if db_ok d then
     (case mget (db_rooms d) k of None \<Rightarrow> d
      | Some row \<Rightarrow> d\<lparr>db_rooms := mput k (row\<lparr>rr_bytes_relayed := n\<rparr>) (db_rooms d)\<rparr>) else d)"

text \<open>\<^verbatim>\<open>LoadRooms\<close>: the first loop builds a room per row, the second reads its bans.\<close>

definition room_of_row :: "int \<Rightarrow> string \<Rightarrow> room_row \<Rightarrow> room" where
  "room_of_row now k row = \<lparr>r_Name = rr_name row, r_PasswordHash = rr_password_hash row, r_Key = k,
     r_Clients = [], r_Blacklist = [], r_BytesRelayed = rr_bytes_relayed row,
     r_CreatedAt = (case rr_created_at row of None \<Rightarrow> now | Some sec \<Rightarrow> sec * 1000000000),
     r_OwnerID = [], r_OwnerName = [], r_Persistent = (rr_persistent row = 1),
     r_RelayDisabled = False, r_Locked = False\<rparr>"

definition load_bans :: "db \<Rightarrow> room \<Rightarrow> room" where
  "load_bans d r = r\<lparr>r_Blacklist := fold (\<lambda>(rk, cid) bl. if rk = r_Key r then mput cid True bl else bl)
     (db_bans d) (r_Blacklist r)\<rparr>"

definition LoadRooms :: "int \<Rightarrow> db \<Rightarrow> room list" where
  "LoadRooms now d = (if db_ok d then map (load_bans d) (map (\<lambda>(k, row). room_of_row now k row) (db_rooms d)) else [])"

section \<open>The interface\<close>

text \<open>What the hub relies on: the rooms and bans that a later load returns, as a function of the
  operations made. The client of the interface is the hub with its map of rooms; \<open>mirrors\<close> says that
  every persistent room and each of its bans is in the store.\<close>

definition loaded :: "db \<Rightarrow> string \<Rightarrow> (string \<times> string) option" where
  "loaded d k = map_option (\<lambda>row. (rr_name row, rr_password_hash row))
     (case mget (db_rooms d) k of Some row \<Rightarrow> if rr_persistent row = 1 then Some row else None | None \<Rightarrow> None)"

definition loaded_ban :: "db \<Rightarrow> string \<Rightarrow> string \<Rightarrow> bool" where
  "loaded_ban d k cid \<longleftrightarrow> (k, cid) \<in> set (db_bans d)"

locale room_store =
  fixes ready :: "'d \<Rightarrow> bool"
    and save :: "room \<Rightarrow> 'd \<Rightarrow> 'd" and delete :: "string \<Rightarrow> 'd \<Rightarrow> 'd"
    and ban :: "string \<Rightarrow> string \<Rightarrow> 'd \<Rightarrow> 'd" and unban :: "string \<Rightarrow> string \<Rightarrow> 'd \<Rightarrow> 'd"
    and sync :: "string \<Rightarrow> int \<Rightarrow> 'd \<Rightarrow> 'd"
    and has :: "'d \<Rightarrow> string \<Rightarrow> (string \<times> string) option" and banned :: "'d \<Rightarrow> string \<Rightarrow> string \<Rightarrow> bool"
  assumes ready [simp]: "ready (save r d) = ready d" "ready (delete k d) = ready d" "ready (ban k c d) = ready d"
      "ready (unban k c d) = ready d" "ready (sync k n d) = ready d"
    and has_save: "ready d \<Longrightarrow> r_Persistent r \<Longrightarrow>
      has (save r d) k = (if k = r_Key r then Some (r_Name r, r_PasswordHash r) else has d k)"
    and has_delete: "ready d \<Longrightarrow> has (delete k d) k' = (if k' = k then None else has d k')"
    and has_other: "has (ban k c d) k' = has d k'" "has (unban k c d) k' = has d k'" "has (sync k n d) k' = has d k'"
    and banned_ban: "ready d \<Longrightarrow> banned (ban k c d) k' c' \<longleftrightarrow> (k' = k \<and> c' = c) \<or> banned d k' c'"
    and banned_unban: "ready d \<Longrightarrow> banned (unban k c d) k' c' \<longleftrightarrow> \<not> (k' = k \<and> c' = c) \<and> banned d k' c'"
    and banned_other: "banned (save r d) k' c' = banned d k' c'" "banned (sync k n d) k' c' = banned d k' c'"
    and banned_delete: "ready d \<Longrightarrow> banned (delete k d) k' c' \<longleftrightarrow> k' \<noteq> k \<and> banned d k' c'"
begin

text \<open>The hub's rooms and the store agree: the persistent rooms are exactly the stored ones, and
  each ban of a persistent room is stored.\<close>

definition mirrors :: "(string \<times> room) list \<Rightarrow> 'd \<Rightarrow> bool" where
  "mirrors rooms d \<longleftrightarrow> ready d \<and>
     (\<forall>k. has d k = (case mget rooms k of Some r \<Rightarrow> if r_Persistent r then Some (r_Name r, r_PasswordHash r) else None
                     | None \<Rightarrow> None)) \<and>
     (\<forall>k r c. mget rooms k = Some r \<longrightarrow> r_Persistent r \<longrightarrow> mget (r_Blacklist r) c = Some True \<longrightarrow> banned d k c)"

lemma mirrors_create:
  assumes "mirrors rooms d" "r_Key r = k" "r_Persistent r" "r_Blacklist r = []"
  shows "mirrors (mput k r rooms) (save r d)"
  using assms by (auto simp: mirrors_def has_save banned_other)

lemma mirrors_create_volatile:
  assumes "mirrors rooms d" "mget rooms k = None" "\<not> r_Persistent r"
  shows "mirrors (mput k r rooms) d"
  using assms by (auto simp: mirrors_def)

lemma mirrors_delete: "mirrors rooms d \<Longrightarrow> mirrors (mdel k rooms) (delete k d)"
  by (auto simp: mirrors_def has_delete banned_delete)

lemma mirrors_delete_volatile: "mirrors rooms d \<Longrightarrow> mget rooms k = Some r \<Longrightarrow> \<not> r_Persistent r \<Longrightarrow> mirrors (mdel k rooms) d"
  by (auto simp: mirrors_def)

lemma mirrors_ban:
  assumes "mirrors rooms d" "mget rooms k = Some r"
  shows "mirrors (mput k (r\<lparr>r_Blacklist := mput c True (r_Blacklist r)\<rparr>) rooms) (ban k c d)"
  using assms by (auto simp: mirrors_def has_other banned_ban)

lemma mirrors_unban:
  assumes "mirrors rooms d" "mget rooms k = Some r"
  shows "mirrors (mput k (r\<lparr>r_Blacklist := mdel c (r_Blacklist r)\<rparr>) rooms) (unban k c d)"
  using assms by (auto simp: mirrors_def has_other banned_unban)

lemma mirrors_sync: "mirrors rooms d \<Longrightarrow> mirrors rooms (sync k n d)"
  by (auto simp: mirrors_def has_other banned_other)

text \<open>Changes of a room that keep its name, password, ban list and persistence need no store.\<close>

lemma mirrors_update:
  assumes "mirrors rooms d" "mget rooms k = Some r"
    and "r_Name r' = r_Name r" "r_PasswordHash r' = r_PasswordHash r" "r_Blacklist r' = r_Blacklist r"
      "r_Persistent r' = r_Persistent r"
  shows "mirrors (mput k r' rooms) d"
  using assms by (auto simp: mirrors_def)

end

lemma loaded_simps:
  "loaded (SaveBan k c d) k' = loaded d k'" "loaded (DeleteBan k c d) k' = loaded d k'"
  "loaded (UpdateBytesRelayed k n d) k' = loaded d k'"
  by (auto simp: loaded_def SaveBan_def DeleteBan_def UpdateBytesRelayed_def split: option.splits)

interpretation sqlite: room_store db_ok SaveRoom DeleteRoom SaveBan DeleteBan UpdateBytesRelayed loaded loaded_ban
  by unfold_locales
     (auto simp: loaded_simps, auto simp: SaveRoom_def DeleteRoom_def SaveBan_def DeleteBan_def
        UpdateBytesRelayed_def loaded_def loaded_ban_def row_of_room_def split: option.splits if_splits)

section \<open>Loading\<close>

lemma load_bans_simps [simp]:
  "r_Name (load_bans d r) = r_Name r" "r_PasswordHash (load_bans d r) = r_PasswordHash r"
  "r_Key (load_bans d r) = r_Key r" "r_Persistent (load_bans d r) = r_Persistent r"
  "r_Clients (load_bans d r) = r_Clients r" "r_BytesRelayed (load_bans d r) = r_BytesRelayed r"
  by (simp_all add: load_bans_def)

lemma room_of_row_simps:
  "r_Name (room_of_row now k row) = rr_name row" "r_PasswordHash (room_of_row now k row) = rr_password_hash row"
  "r_Key (room_of_row now k row) = k" "r_Clients (room_of_row now k row) = []" "r_Blacklist (room_of_row now k row) = []"
  by (simp_all add: room_of_row_def)

lemma fold_bans:
  "mget (fold (\<lambda>(rk, cid) bl. if rk = k then mput cid True bl else bl) bs bl) c =
     (if (k, c) \<in> set bs then Some True else mget bl c)"
  by (induction bs arbitrary: bl) (auto simp: fun_eq_iff split: if_splits)

lemma load_bans_blacklist:
  "r_Blacklist r = [] \<Longrightarrow> mget (r_Blacklist (load_bans d r)) c = (if loaded_ban d (r_Key r) c then Some True else None)"
  by (simp add: load_bans_def fold_bans loaded_ban_def)

end
