(* ===== verification/Hub.thy ===== *)
theory Hub
  imports Store
begin

text \<open>
  The hub, \<^verbatim>\<open>src/server/hub.go\<close> and \<^verbatim>\<open>src/server/stats.go\<close>: rooms, membership, moderation, and the
  peer lists that are broadcast to the members. A loop over a Go map follows the order of the
  association list, which is arbitrary. Logging is left out, but not the arguments of the log
  calls that can panic.
\<close>

section \<open>Peer lists and broadcasts\<close>

definition marshal_ipInfo :: "ipInfo \<Rightarrow> json" where
  "marshal_ipInfo i = JObj ([(''ip'', JStr (ip_IP i)), (''country'', JStr (ip_Country i)), (''region'', JStr (ip_Region i)),
     (''city'', JStr (ip_City i)), (''isp'', JStr (ip_ISP i))] @ omit_str ''org'' (ip_Org i) @
     [(''summary'', JStr (ip_Summary i))])"

text \<open>The \<^verbatim>\<open>PeerInfo\<close> of a client, as it is marshalled.\<close>

definition marshal_peer :: "client \<Rightarrow> json" where
  "marshal_peer c = JObj ([(''id'', JStr (c_id c)), (''status'', JStr (c_status c))] @
     omit_str ''name'' (c_name c) @ omit_strs ''services'' (c_services c) @ omit_str ''endpoint'' (c_endpoint c) @
     omit_str ''nat_type'' (c_natType c) @
     (if c_features c = [] then [] else [(''features'', enc_strmap (c_features c))]) @
     (case c_ipInfo c of None \<Rightarrow> [] | Some i \<Rightarrow> [(''ip_info'', marshal_ipInfo i)]))"

definition getPeerList :: "srv \<Rightarrow> room \<Rightarrow> json list" where
  "getPeerList s r = map (\<lambda>(id, p). marshal_peer (s_heap s p)) (r_Clients r)"

definition peer_list_msg :: "srv \<Rightarrow> room \<Rightarrow> json" where
  "peer_list_msg s r = marshal_message (mk_message ''peer_list'' (JArr (getPeerList s r)))"

definition broadcast :: "room \<Rightarrow> json \<Rightarrow> string \<Rightarrow> srv \<Rightarrow> srv option" where
  "broadcast r msg exclude s =
     foldM (\<lambda>(id, p) s. if id = exclude then Some s else try_send p msg s) (r_Clients r) s"

definition broadcastPeerList :: "room \<Rightarrow> srv \<Rightarrow> srv option" where
  "broadcastPeerList r s = foldM (\<lambda>(id, p). try_send p (peer_list_msg s r)) (r_Clients r) s"

section \<open>Rooms\<close>

definition roomKey :: "string \<Rightarrow> string \<Rightarrow> string" where
  "roomKey name passwordHash = (if passwordHash = [] then name else name @ '':'' @ passwordHash)"

text \<open>\<^verbatim>\<open>findRoomByName\<close>: the result is the key of the room found, or the reason.\<close>

fun find_room_loop :: "string \<Rightarrow> string \<Rightarrow> (string \<times> room) list \<Rightarrow> bool \<Rightarrow> string + string" where
  "find_room_loop name h [] found =
     Inl (if found then ''incorrect room password'' else ''room does not exist'')"
| "find_room_loop name h ((k, r) # rs) found =
     (if r_Name r = name then
        (if r_PasswordHash r = h then Inr k else find_room_loop name h rs True)
      else find_room_loop name h rs found)"

definition findRoomByName :: "string \<Rightarrow> string \<Rightarrow> srv \<Rightarrow> string + string" where
  "findRoomByName name h s = find_room_loop name h (s_rooms s) False"

definition with_store :: "(db \<Rightarrow> db) \<Rightarrow> srv \<Rightarrow> srv" where
  "with_store f s = s\<lparr>s_store := map_option f (s_store s)\<rparr>"

definition new_room :: "string \<Rightarrow> string \<Rightarrow> string \<Rightarrow> string \<Rightarrow> int \<Rightarrow> room" where
  "new_room name h ownerID ownerName now = \<lparr>r_Name = name, r_PasswordHash = h, r_Key = roomKey name h,
     r_Clients = [], r_Blacklist = [], r_BytesRelayed = 0, r_CreatedAt = now, r_OwnerID = ownerID,
     r_OwnerName = ownerName, r_Persistent = (ownerID = []), r_RelayDisabled = False, r_Locked = False\<rparr>"

text \<open>\<^verbatim>\<open>getOrCreateRoom\<close>; the log line of a client-owned room slices the owner's ID, \<^verbatim>\<open>ownerID[:8]\<close>.\<close>

definition getOrCreateRoom :: "string \<Rightarrow> string \<Rightarrow> string \<Rightarrow> string \<Rightarrow> int \<Rightarrow> srv \<Rightarrow> (srv \<times> string) option" where
  "getOrCreateRoom name h ownerID ownerName now s =
     (let key = roomKey name h in
      case mget (s_rooms s) key of Some _ \<Rightarrow> Some (s, key)
      | None \<Rightarrow> do {
          let r = new_room name h ownerID ownerName now;
          let s = put_room key r s;
          _ \<leftarrow> (if r_Persistent r then Some [] else slice ownerID 0 8);
          Some (if r_Persistent r then with_store (SaveRoom r) s else s, key) })"

text \<open>\<^verbatim>\<open>newHub\<close>: the rooms of the store.\<close>

definition newHub :: "int \<Rightarrow> db option \<Rightarrow> (string \<times> room) list" where
  "newHub now st = (case st of None \<Rightarrow> []
     | Some d \<Rightarrow> fold (\<lambda>r rooms. mput (r_Key r) r rooms) (LoadRooms now d) [])"

definition syncBytesToStore :: "srv \<Rightarrow> srv" where
  "syncBytesToStore s = fold (\<lambda>(k, r). with_store (UpdateBytesRelayed (r_Key r) (r_BytesRelayed r))) (s_rooms s) s"

text \<open>\<^verbatim>\<open>removeClientFromRoom\<close>. The three ends: the owner of a client-owned room leaves, the room is
  empty and client-owned, or the remaining members get a new peer list.\<close>

definition close_member :: "nat \<Rightarrow> srv \<Rightarrow> srv option" where
  "close_member p s = do {
     s \<leftarrow> try_send p (error_msg ''room closed (owner left)'') s;
     close_send p s }"

definition removeClientFromRoom :: "nat \<Rightarrow> srv \<Rightarrow> srv option" where
  "removeClientFromRoom p s =
     (let c = s_heap s p in
      if c_roomKey c = [] then Some s
      else case mget (s_rooms s) (c_roomKey c) of None \<Rightarrow> Some s
      | Some r \<Rightarrow> do {
          let r = r\<lparr>r_Clients := mdel (c_id c) (r_Clients r)\<rparr>;
          let s = put_room (c_roomKey c) r s;
          let isEmpty = (r_Clients r = []);
          let isOwner = (r_OwnerID r \<noteq> [] \<and> r_OwnerID r = c_id c);
          s \<leftarrow> (if isOwner \<and> \<not> r_Persistent r then do {
                  s \<leftarrow> foldM (\<lambda>(id, q). close_member q) (r_Clients r) s;
                  Some (del_room (r_Key r) s) }
                else if isEmpty \<and> \<not> r_Persistent r then Some (del_room (r_Key r) s)
                else broadcastPeerList r s);
          Some (upd_client p (\<lambda>c. c\<lparr>c_room := [], c_roomKey := []\<rparr>) s) })"

fun find_client_loop :: "string \<Rightarrow> (string \<times> room) list \<Rightarrow> nat option" where
  "find_client_loop cid [] = None"
| "find_client_loop cid ((k, r) # rs) =
     (case mget (r_Clients r) cid of Some p \<Rightarrow> Some p | None \<Rightarrow> find_client_loop cid rs)"

definition findClient :: "string \<Rightarrow> srv \<Rightarrow> nat option" where
  "findClient cid s = find_client_loop cid (s_rooms s)"

definition disconnectExisting :: "string \<Rightarrow> srv \<Rightarrow> srv option" where
  "disconnectExisting cid s =
     foldM (\<lambda>(k, r) s. case mget (r_Clients r) cid of None \<Rightarrow> Some s
              | Some old \<Rightarrow> do {
                  s \<leftarrow> close_send old s;
                  Some (put_room k (r\<lparr>r_Clients := mdel cid (r_Clients r)\<rparr>) (close_conn old s)) })
       (s_rooms s) s"

section \<open>Moderation\<close>

definition rooms_named :: "string \<Rightarrow> srv \<Rightarrow> (string \<times> room) list" where
  "rooms_named name s = filter (\<lambda>(k, r). r_Name r = name) (s_rooms s)"

definition deleteRoom :: "string \<Rightarrow> srv \<Rightarrow> (srv \<times> bool) option" where
  "deleteRoom name s = do {
     let toDelete = rooms_named name s;
     s \<leftarrow> foldM (\<lambda>(k, r). foldM (\<lambda>(id, p). close_send p) (r_Clients r)) toDelete s;
     let s = fold (\<lambda>(k, r) s. with_store (DeleteRoom k) (del_room k s)) toDelete s;
     Some (s, toDelete \<noteq> []) }"

definition IsBanned :: "room \<Rightarrow> string \<Rightarrow> bool" where
  "IsBanned r cid = (case mget (r_Blacklist r) cid of None \<Rightarrow> False | Some b \<Rightarrow> b)"

text \<open>The loop of \<^verbatim>\<open>banClient\<close>, \<^verbatim>\<open>kickClient\<close> and \<^verbatim>\<open>unbanClient\<close> that stops at the first room of the name.\<close>

definition target_room :: "string \<Rightarrow> srv \<Rightarrow> (string \<times> room) option" where
  "target_room name s = (case rooms_named name s of [] \<Rightarrow> None | kr # _ \<Rightarrow> Some kr)"

definition banClient :: "string \<Rightarrow> string \<Rightarrow> srv \<Rightarrow> (srv \<times> bool) option" where
  "banClient roomName cid s = (case target_room roomName s of None \<Rightarrow> Some (s, False)
     | Some (k, r) \<Rightarrow> do {
         let r = r\<lparr>r_Blacklist := mput cid True (r_Blacklist r)\<rparr>;
         let s = with_store (SaveBan (r_Key r) cid) (put_room k r s);
         s \<leftarrow> (case mget (r_Clients r) cid of None \<Rightarrow> Some s
               | Some p \<Rightarrow> do {
                   s \<leftarrow> try_send p (error_msg ''banned from this room'') s;
                   close_send p s });
         Some (s, True) })"

definition kickClient :: "string \<Rightarrow> string \<Rightarrow> srv \<Rightarrow> (srv \<times> bool) option" where
  "kickClient roomName cid s = (case target_room roomName s of None \<Rightarrow> Some (s, False)
     | Some (k, r) \<Rightarrow>
         (case mget (r_Clients r) cid of None \<Rightarrow> Some (s, False)
          | Some p \<Rightarrow> do {
              let r = r\<lparr>r_Clients := mdel cid (r_Clients r)\<rparr>;
              let s = put_room k r s;
              s \<leftarrow> try_send p (error_msg ''kicked by admin'') s;
              s \<leftarrow> close_send p s;
              s \<leftarrow> broadcastPeerList r (close_conn p s);
              Some (s, True) }))"

definition unbanClient :: "string \<Rightarrow> string \<Rightarrow> srv \<Rightarrow> srv \<times> bool" where
  "unbanClient roomName cid s = (case target_room roomName s of None \<Rightarrow> (s, False)
     | Some (k, r) \<Rightarrow>
         (with_store (DeleteBan (r_Key r) cid) (put_room k (r\<lparr>r_Blacklist := mdel cid (r_Blacklist r)\<rparr>) s), True))"

section \<open>Snapshots for the dashboard\<close>

record roomInfo =
  ri_Name :: string
  ri_Protected :: bool
  ri_Persistent :: bool
  ri_RelayDisabled :: bool
  ri_Locked :: bool
  ri_OwnerName :: string
  ri_OwnerID :: string
  ri_Peers :: "json list"
  ri_BytesRelayed :: int
  ri_CreatedAt :: int
  ri_Blacklist :: "string list"

definition room_info :: "srv \<Rightarrow> room \<Rightarrow> roomInfo" where
  "room_info s r = \<lparr>ri_Name = r_Name r, ri_Protected = (r_PasswordHash r \<noteq> []), ri_Persistent = r_Persistent r,
     ri_RelayDisabled = r_RelayDisabled r, ri_Locked = r_Locked r, ri_OwnerName = r_OwnerName r,
     ri_OwnerID = r_OwnerID r, ri_Peers = getPeerList s r, ri_BytesRelayed = r_BytesRelayed r,
     ri_CreatedAt = r_CreatedAt r div 1000000000, ri_Blacklist = map fst (r_Blacklist r)\<rparr>"

definition getRoomsInfo :: "srv \<Rightarrow> roomInfo list" where
  "getRoomsInfo s = map (\<lambda>(k, r). room_info s r) (s_rooms s)"

record serverStats =
  st_TotalRooms :: nat
  st_TotalPeers :: nat
  st_TotalBytes :: int
  st_ActiveConns :: int
  st_Rooms :: "roomInfo list"

definition getStats :: "srv \<Rightarrow> serverStats" where
  "getStats s = (let rooms = getRoomsInfo s in
     \<lparr>st_TotalRooms = length rooms, st_TotalPeers = sum_list (map (\<lambda>r. length (ri_Peers r)) rooms),
      st_TotalBytes = sum_list (map ri_BytesRelayed rooms), st_ActiveConns = 0, st_Rooms = rooms\<rparr>)"

end
