(* ===== verification/Peer.thy ===== *)
theory Peer
  imports Hub
begin

text \<open>
  A connected peer, \<^verbatim>\<open>src/server/client.go\<close>, with the data relay \<^verbatim>\<open>src/server/relay.go\<close> and the
  address look-up \<^verbatim>\<open>src/server/ipinfo.go\<close>. \<open>p\<close> is the address of the peer's \<^verbatim>\<open>Client\<close>. The
  handlers are called by \<open>readPump_frame\<close>, one WebSocket frame at a time.
\<close>

section \<open>Relay\<close>

definition sessionKey :: "string \<Rightarrow> string \<Rightarrow> string" where
  "sessionKey a b = (if a < b then a @ '':'' @ b else b @ '':'' @ a)"

record relaySession =
  rs_PeerA :: string
  rs_PeerB :: string
  rs_Room :: string

definition createRelaySession ::
  "string \<Rightarrow> string \<Rightarrow> string \<Rightarrow> (string \<times> relaySession) list \<Rightarrow> (string \<times> relaySession) list \<times> string" where
  "createRelaySession a b room m =
     (let key = sessionKey a b in
      case mget m key of Some _ \<Rightarrow> (m, key)
      | None \<Rightarrow> (mput key \<lparr>rs_PeerA = a, rs_PeerB = b, rs_Room = room\<rparr> m, key))"

definition removeRelaySession :: "string \<Rightarrow> (string \<times> relaySession) list \<Rightarrow> (string \<times> relaySession) list" where
  "removeRelaySession key m = (case mget m key of Some _ \<Rightarrow> mdel key m | None \<Rightarrow> m)"

definition isDataRelay :: "raw option \<Rightarrow> bool" where
  "isDataRelay data = (case data of None \<Rightarrow> False
     | Some (v, n) \<Rightarrow>
         (let (kvs, ok0) = obj_members v; (ty, ok1) = get_str ''type'' kvs in
          if \<not> (ok0 \<and> ok1) then False
          else if ty \<in> {''tunnel_data'', ''speed_test_data'', ''file_data''} then True
          else if ty = ''encrypted'' then n > 8192
          else False))"

definition relayData :: "string \<Rightarrow> string \<Rightarrow> raw option \<Rightarrow> srv \<Rightarrow> srv option" where
  "relayData from to data s =
     (case (findClient from s, findClient to s) of
        (Some sp, Some tp) \<Rightarrow>
          (let sender = s_heap s sp; target = s_heap s tp in
           if c_roomKey sender = [] \<or> c_roomKey sender \<noteq> c_roomKey target then Some s
           else
             (let relayOff = (s_globalRelayOff s \<or>
                    (case mget (s_rooms s) (c_roomKey target) of Some r \<Rightarrow> r_RelayDisabled r | None \<Rightarrow> False))
              in if relayOff \<and> isDataRelay data then Some s
                 else
                   (let dataLen = (case data of None \<Rightarrow> 0 | Some (v, n) \<Rightarrow> int n);
                        s1 = (case mget (s_rooms s) (c_roomKey target) of None \<Rightarrow> s
                              | Some r \<Rightarrow> put_room (c_roomKey target) (r\<lparr>r_BytesRelayed := r_BytesRelayed r + dataLen\<rparr>) s);
                        msg = \<lparr>mType = ''relay_data'', mFrom = from, mTo = to, mRoom = [], mPayload = data\<rparr>
                    in try_send tp (marshal_message msg) s1)))
      | _ \<Rightarrow> Some s)"

section \<open>Handlers\<close>

definition handleLeave :: "nat \<Rightarrow> srv \<Rightarrow> srv option" where
  "handleLeave p s = (if c_roomKey (s_heap s p) = [] then Some s else removeClientFromRoom p s)"

text \<open>The payload of a join: room name, password hash, and the updates of the client's name and
  services. Decoding errors are ignored.\<close>

definition join_payload :: "message \<Rightarrow> nat \<Rightarrow> srv \<Rightarrow> srv \<times> string \<times> string" where
  "join_payload msg p s = (case mPayload msg of None \<Rightarrow> (s, mRoom msg, [])
     | Some (v, _) \<Rightarrow>
         (let kvs = fst (obj_members v); room = fst (get_str ''room'' kvs); hash = fst (get_str ''password_hash'' kvs);
              nm = fst (get_str ''name'' kvs); svc = fst (get_strs ''services'' kvs)
          in (upd_client p (\<lambda>c. c\<lparr>c_name := (if nm \<noteq> [] then nm else c_name c),
                                  c_services := (case svc of None \<Rightarrow> c_services c | Some l \<Rightarrow> l)\<rparr>) s,
              if room \<noteq> [] then room else mRoom msg, hash)))"

text \<open>The members with the joining client's name under another ID, which are dropped from the room
  and closed by goroutines.\<close>

definition stale_names :: "nat \<Rightarrow> room \<Rightarrow> srv \<Rightarrow> (string \<times> nat) list" where
  "stale_names p r s = filter (\<lambda>(id, q). id \<noteq> c_id (s_heap s p) \<and> c_name (s_heap s q) = c_name (s_heap s p)) (r_Clients r)"

definition enter_room :: "nat \<Rightarrow> string \<Rightarrow> srv \<Rightarrow> srv" where
  "enter_room p key s =
     (case mget (s_rooms s) key of None \<Rightarrow> s
      | Some r \<Rightarrow>
          (let c = s_heap s p;
               stale = (if c_name c = [] then [] else stale_names p r s);
               members = filter (\<lambda>m. m \<notin> set stale) (r_Clients r)
           in put_room key (r\<lparr>r_Clients := mput (c_id c) p members\<rparr>) (s\<lparr>s_closing := s_closing s @ map snd stale\<rparr>)))"

definition room_config_msg :: "bool \<Rightarrow> json" where
  "room_config_msg b = marshal_message (mk_message ''room_config'' (JObj [(''relay_disabled'', JBool b)]))"

definition admit :: "nat \<Rightarrow> string \<Rightarrow> string \<Rightarrow> string \<Rightarrow> srv \<Rightarrow> srv option" where
  "admit p roomName rkey key s = do {
     let s = upd_client p (\<lambda>c. c\<lparr>c_room := roomName, c_roomKey := rkey, c_status := ''connecting''\<rparr>) s;
     let s = enter_room p key s;
     case mget (s_rooms s) key of None \<Rightarrow> Some s
     | Some r \<Rightarrow> do {
         s \<leftarrow> broadcastPeerList r s;
         if r_RelayDisabled r \<or> s_globalRelayOff s then try_send p (room_config_msg True) s else Some s } }"

text \<open>\<^verbatim>\<open>handleJoin\<close> after the payload is read and the rate limiter passed.\<close>

definition join_room :: "nat \<Rightarrow> string \<Rightarrow> string \<Rightarrow> int \<Rightarrow> srv \<Rightarrow> srv option" where
  "join_room p roomName h now s = do {
     s \<leftarrow> (if c_roomKey (s_heap s p) \<noteq> [] then handleLeave p s else Some s);
     case (case findRoomByName roomName h s of
             Inr k \<Rightarrow> Some (s, Inr k)
           | Inl reason \<Rightarrow>
               if reason = ''incorrect room password'' then Some (s, Inl reason)
               else map_option (\<lambda>(s, k). (s, Inr k))
                      (getOrCreateRoom roomName h (c_id (s_heap s p)) (c_name (s_heap s p)) now s)) of
       None \<Rightarrow> None
     | Some (s, Inl reason) \<Rightarrow> sendError p reason s
     | Some (s, Inr k) \<Rightarrow>
         (case mget (s_rooms s) k of None \<Rightarrow> Some s
          | Some r \<Rightarrow>
              if IsBanned r (c_id (s_heap s p)) then sendError p ''you are banned from this room'' s
              else if r_Locked r then sendError p ''room is locked, no new connections allowed'' s
              else admit p roomName (r_Key r) k s) }"

definition handleJoin :: "nat \<Rightarrow> message \<Rightarrow> int \<Rightarrow> srv \<Rightarrow> srv option" where
  "handleJoin p msg now s =
     (let (s, roomName, h) = join_payload msg p s in
      if roomName = [] then sendError p ''room name required'' s
      else
        (let (rl, ok) = rl_allow (s_joinLimiter s) (c_id (s_heap s p)) now; s = s\<lparr>s_joinLimiter := rl\<rparr> in
         if \<not> ok then sendError p ''too many join attempts, please wait. Repeated attempts may result in IP ban.'' s
         else join_room p roomName h now s))"

definition forwardToTarget :: "message \<Rightarrow> srv \<Rightarrow> srv option" where
  "forwardToTarget msg s = (if mTo msg = [] then Some s
     else case findClient (mTo msg) s of None \<Rightarrow> Some s
     | Some q \<Rightarrow> try_send q (marshal_message msg) s)"

definition broadcastToRoom :: "nat \<Rightarrow> message \<Rightarrow> srv \<Rightarrow> srv option" where
  "broadcastToRoom p msg s =
     (let c = s_heap s p in
      if c_roomKey c = [] then Some s
      else case mget (s_rooms s) (c_roomKey c) of None \<Rightarrow> Some s
           | Some r \<Rightarrow> broadcast r (marshal_message msg) (c_id c) s)"

text \<open>The status of a \<^verbatim>\<open>status_update\<close>: a JSON string, or an object with a string \<^verbatim>\<open>status\<close>.\<close>

definition payload_status :: "json \<Rightarrow> string option" where
  "payload_status v = (case into_str v ([], True) of (st, True) \<Rightarrow> Some st
     | (_, False) \<Rightarrow> (case (obj_members v, get_str ''status'' (fst (obj_members v))) of
          ((_, True), (st, True)) \<Rightarrow> Some st | _ \<Rightarrow> None))"

definition handleStatusUpdate :: "nat \<Rightarrow> message \<Rightarrow> srv \<Rightarrow> srv option" where
  "handleStatusUpdate p msg s = (case mPayload msg of None \<Rightarrow> Some s
     | Some (v, _) \<Rightarrow>
         (case payload_status v of None \<Rightarrow> Some s
          | Some st \<Rightarrow>
              if st \<notin> {''connecting'', ''direct'', ''relay''} then Some s
              else
                (let s = upd_client p (c_status_update (\<lambda>_. st)) s; key = c_roomKey (s_heap s p) in
                 if key = [] then Some s
                 else case mget (s_rooms s) key of None \<Rightarrow> Some s | Some r \<Rightarrow> broadcastPeerList r s)))"

definition handleFeatureUpdate :: "nat \<Rightarrow> message \<Rightarrow> srv \<Rightarrow> srv" where
  "handleFeatureUpdate p msg s = (case mPayload msg of None \<Rightarrow> s
     | Some (v, _) \<Rightarrow>
         (case into_strmap v (None, True) of
            (m, True) \<Rightarrow> upd_client p (c_features_update (\<lambda>_. case m of None \<Rightarrow> [] | Some fs \<Rightarrow> fs)) s
          | (_, False) \<Rightarrow> s))"

definition handleRelayData :: "nat \<Rightarrow> message \<Rightarrow> srv \<Rightarrow> srv option" where
  "handleRelayData p msg s = (if mTo msg = [] then Some s
     else relayData (c_id (s_heap s p)) (mTo msg) (mPayload msg) s)"

text \<open>The \<^verbatim>\<open>stun_info\<close> case: endpoint and NAT type are stored, a look-up of a new address is started.\<close>

definition store_stun_info :: "nat \<Rightarrow> message \<Rightarrow> srv \<Rightarrow> srv" where
  "store_stun_info p msg s = (case mPayload msg of None \<Rightarrow> s
     | Some (v, _) \<Rightarrow>
         (let kvs = fst (obj_members v); addr = fst (get_str ''addr'' kvs); nat_type = fst (get_str ''nat_type'' kvs);
              old = c_endpoint (s_heap s p);
              s1 = (if addr \<noteq> [] then
                      (let s1 = upd_client p (c_endpoint_update (\<lambda>_. addr)) s in
                       if addr \<noteq> old then s1\<lparr>s_lookups := s_lookups s1 @ [(p, addr)]\<rparr> else s1)
                    else s)
          in if nat_type \<noteq> [] then upd_client p (c_natType_update (\<lambda>_. nat_type)) s1 else s1))"

definition handleMessage :: "nat \<Rightarrow> message \<Rightarrow> int \<Rightarrow> srv \<Rightarrow> srv option" where
  "handleMessage p msg now s =
     (let ty = mType msg in
      if ty = ''join'' then handleJoin p msg now s
      else if ty = ''leave'' then handleLeave p s
      else if ty \<in> {''offer'', ''answer'', ''ice-candidate''} then forwardToTarget msg s
      else if ty = ''stun_info'' then
        (let s = store_stun_info p msg s in
         if mTo msg = [] then broadcastToRoom p msg s else forwardToTarget msg s)
      else if ty \<in> {''open_tunnel'', ''tunnel_data'', ''close_tunnel'', ''tunnel_opened'', ''tunnel_error'', ''tunnel_rejected''}
        then forwardToTarget msg s
      else if ty = ''status_update'' then handleStatusUpdate p msg s
      else if ty = ''feature_update'' then Some (handleFeatureUpdate p msg s)
      else if ty = ''relay_data'' then handleRelayData p msg s
      else Some s)"

section \<open>Pumps and goroutines\<close>

text \<open>One iteration of \<^verbatim>\<open>readPump\<close> on a frame: \<open>None\<close> is a text that is not JSON.\<close>

definition readPump_frame :: "nat \<Rightarrow> json option \<Rightarrow> nat \<Rightarrow> int \<Rightarrow> srv \<Rightarrow> srv option" where
  "readPump_frame p data n now s = (case data of None \<Rightarrow> Some s
     | Some v \<Rightarrow>
         (case unmarshal_message n v of (msg, ok) \<Rightarrow>
            if \<not> ok then Some s else handleMessage p (msg\<lparr>mFrom := c_id (s_heap s p)\<rparr>) now s))"

text \<open>The end of \<^verbatim>\<open>readPump\<close>: the client is queued for removal, the connection closed, and the
  goroutine of \<^verbatim>\<open>serveWs\<close> decrements the connection count.\<close>

definition readPump_exit :: "nat \<Rightarrow> srv \<Rightarrow> srv" where
  "readPump_exit p s =
     (let s = close_conn p (s\<lparr>s_unregister := s_unregister s @ [p]\<rparr>) in s\<lparr>s_activeConns := s_activeConns s - 1\<rparr>)"

text \<open>One iteration of \<^verbatim>\<open>writePump\<close>'s receive case: a message and everything queued behind it go out as
  one frame; on a closed and drained channel the connection is closed. The write can fail at
  \<^verbatim>\<open>NextWriter\<close>, after one message was taken from the channel, or at \<^verbatim>\<open>Close\<close>, after all were.\<close>

datatype write_result = WriteOk | NextWriterErr | WriteCloseErr

definition writePump_step :: "nat \<Rightarrow> write_result \<Rightarrow> srv \<Rightarrow> srv" where
  "writePump_step p res s =
     (let c = s_heap s p in
      case c_send c of
        [] \<Rightarrow> if c_open c then s else close_conn p s
      | m # q \<Rightarrow>
          (case res of
             WriteOk \<Rightarrow> upd_client p (\<lambda>c. c\<lparr>c_send := [], c_wire := c_wire c @ [m # q]\<rparr>) s
           | NextWriterErr \<Rightarrow> close_conn p (upd_client p (c_send_update (\<lambda>_. q)) s)
           | WriteCloseErr \<Rightarrow> close_conn p (upd_client p (c_send_update (\<lambda>_. [])) s)))"

text \<open>\<^verbatim>\<open>Hub.run\<close>'s unregister case, and the goroutine started by \<^verbatim>\<open>handleJoin\<close> for a stale connection.\<close>

definition run_unregister :: "srv \<Rightarrow> srv option" where
  "run_unregister s = (case s_unregister s of [] \<Rightarrow> Some s
     | p # ps \<Rightarrow> removeClientFromRoom p (s\<lparr>s_unregister := ps\<rparr>))"

definition run_closing :: "srv \<Rightarrow> srv option" where
  "run_closing s = (case s_closing s of [] \<Rightarrow> Some s
     | p # ps \<Rightarrow> do { s \<leftarrow> close_send p (s\<lparr>s_closing := ps\<rparr>); Some (close_conn p s) })"

section \<open>Address look-up\<close>

text \<open>\<^verbatim>\<open>parseIP2Region\<close> of a result \<^verbatim>\<open>country|area|province|city|ISP\<close>.\<close>

definition pad5 :: "string list \<Rightarrow> string list" where
  "pad5 parts = parts @ replicate (5 - length parts) []"

definition parseIP2Region :: "string \<Rightarrow> string \<Rightarrow> ipInfo" where
  "parseIP2Region ip result =
     (let parts = map (\<lambda>s. if s = ''0'' then [] else s) (pad5 (split_on (CHR ''|'') result));
          country = parts ! 0; region = parts ! 2; city = parts ! 3; isp = parts ! 4;
          summaryParts = (if region \<noteq> [] then [region] else []) @ (if city \<noteq> [] \<and> city \<noteq> region then [city] else []) @
            (if isp \<noteq> [] then [isp] else []);
          summary = join_with '' '' summaryParts
      in \<lparr>ip_IP = ip, ip_Country = country, ip_Region = region, ip_City = city, ip_ISP = isp, ip_Org = [],
          ip_Summary = (if summary = [] then country else summary)\<rparr>)"

text \<open>The summary of a private address, in UTF-8.\<close>

definition private_summary :: string where
  "private_summary = map char_of [0xE5 :: nat, 0x86, 0x85, 0xE7, 0xBD, 0x91, 0xE5, 0x9C, 0xB0, 0xE5, 0x9D, 0x80]"

text \<open>\<^verbatim>\<open>lookupIP\<close>. \<open>local\<close> says that the text is no IP address or a loopback, private or link-local
  one; \<open>search\<close> is the ip2region searcher, \<open>None\<close> when no database is loaded, and its answer for an
  address, \<open>None\<close> an error.\<close>

definition lookupIP ::
  "(string \<Rightarrow> bool) \<Rightarrow> (string \<Rightarrow> string option) option \<Rightarrow> string \<Rightarrow> (string \<times> ipInfo) list \<Rightarrow>
     (string \<times> ipInfo) list \<times> ipInfo option" where
  "lookupIP local search ip cache =
     (case mget cache ip of Some i \<Rightarrow> (cache, Some i)
      | None \<Rightarrow>
          if local ip then
            (let i = \<lparr>ip_IP = ip, ip_Country = ''Private'', ip_Region = [], ip_City = [], ip_ISP = [], ip_Org = [],
                      ip_Summary = private_summary\<rparr> in (mput ip i cache, Some i))
          else case search of None \<Rightarrow> (cache, None)
          | Some f \<Rightarrow> (case f ip of None \<Rightarrow> (cache, None)
              | Some res \<Rightarrow> (let i = parseIP2Region ip res in (mput ip i cache, Some i))))"

definition lookupEndpoint ::
  "(string \<Rightarrow> bool) \<Rightarrow> (string \<Rightarrow> string option) option \<Rightarrow> string \<Rightarrow> (string \<times> ipInfo) list \<Rightarrow>
     (string \<times> ipInfo) list \<times> ipInfo option" where
  "lookupEndpoint local search ep cache =
     (if ep = [] then (cache, None)
      else lookupIP local search (case split_host_port ep of Some (h, _) \<Rightarrow> h | None \<Rightarrow> ep) cache)"

definition run_lookup :: "(string \<Rightarrow> bool) \<Rightarrow> (string \<Rightarrow> string option) option \<Rightarrow> srv \<Rightarrow> srv" where
  "run_lookup local search s = (case s_lookups s of [] \<Rightarrow> s
     | (p, ep) # ls \<Rightarrow>
         (case lookupEndpoint local search ep (s_ipCache s) of
            (cache, i) \<Rightarrow>
              (let s = s\<lparr>s_lookups := ls, s_ipCache := cache\<rparr> in
               case i of None \<Rightarrow> s | Some info \<Rightarrow> upd_client p (c_ipInfo_update (\<lambda>_. Some info)) s)))"

end
