(* ===== verification/Api.thy ===== *)
theory Api
  imports Peer
begin

text \<open>
  The HTTP side of the server, \<^verbatim>\<open>src/server/main.go\<close>: WebSocket admission and the dashboard API
  behind its session check. A request is a record of what the handlers read of it (\<open>rq_body\<close> is the
  JSON value of the body, \<open>None\<close> when it does not decode); the response is its status with the body.
  Handlers that change the hub can panic through it. The random bytes drawn, the clock and
  SHA-256 are arguments.
\<close>

section \<open>Requests and responses\<close>

record http_req =
  rq_method :: string
  rq_path :: string
  rq_remote :: string
  rq_cookie :: "string option"
  rq_authorization :: string
  rq_query :: "(string \<times> string) list"
  rq_body :: "json option"

datatype http_body = BErr string | BJson json | BRooms "roomInfo list" | BStats serverStats | BUpgraded | BOther

type_synonym http_resp = "nat \<times> http_body"

definition query_get :: "http_req \<Rightarrow> string \<Rightarrow> string" where
  "query_get r k = (case mget (rq_query r) k of None \<Rightarrow> [] | Some v \<Rightarrow> v)"

definition clientIP :: "http_req \<Rightarrow> string" where
  "clientIP r = (case split_host_port (rq_remote r) of None \<Rightarrow> rq_remote r | Some (h, _) \<Rightarrow> h)"

definition getSessionToken :: "http_req \<Rightarrow> string" where
  "getSessionToken r = (case rq_cookie r of Some v \<Rightarrow> v
     | None \<Rightarrow> if has_prefix (rq_authorization r) ''Bearer '' then trim_prefix (rq_authorization r) ''Bearer '' else [])"

type_synonym handler = "http_req \<Rightarrow> srv \<Rightarrow> (srv \<times> http_resp) option"

definition requireAuth :: "int \<Rightarrow> handler \<Rightarrow> handler" where
  "requireAuth now next r s =
     (let (ss, ok) = validSession (s_sessions s) (getSessionToken r) now; s = s\<lparr>s_sessions := ss\<rparr> in
      if \<not> ok then Some (s, (401, BErr ''unauthorized'')) else next r s)"

section \<open>WebSocket admission\<close>

definition new_client :: "string \<Rightarrow> client" where
  "new_client cid = \<lparr>c_id = cid, c_room = [], c_roomKey = [], c_status = ''connecting'', c_name = [], c_services = [],
     c_endpoint = [], c_natType = [], c_ipInfo = None, c_features = [], c_send = [], c_open = True, c_conn = True,
     c_wire = []\<rparr>"

definition welcome_msg :: "string \<Rightarrow> json" where
  "welcome_msg cid = marshal_message (mk_message ''welcome'' (JObj [(''id'', JStr cid)]))"

definition accept_client :: "string \<Rightarrow> srv \<Rightarrow> srv option" where
  "accept_client cid s = do {
     s \<leftarrow> disconnectExisting cid s;
     let p = s_next s;
     Some (s\<lparr>s_heap := (s_heap s)(p := (new_client cid)\<lparr>c_send := [welcome_msg cid]\<rparr>), s_next := Suc p\<rparr>) }"

text \<open>\<open>upgraded\<close> tells whether the WebSocket upgrade succeeded, \<open>rnd\<close> are the bytes of
  \<^verbatim>\<open>generateID\<close>.\<close>

definition serveWs :: "bool \<Rightarrow> bytes \<Rightarrow> int \<Rightarrow> handler" where
  "serveWs upgraded rnd now r s =
     (let (rl, ok) = rl_allow (s_wsLimiter s) (clientIP r) now; s = s\<lparr>s_wsLimiter := rl\<rparr> in
      if \<not> ok then Some (s, (429, BErr ''rate limited''))
      else if s_activeConns s \<ge> s_maxConns s then Some (s, (503, BErr ''server full''))
      else if \<not> upgraded then Some (s, (400, BOther))
      else do {
        let s = s\<lparr>s_activeConns := s_activeConns s + 1\<rparr>;
        let clientID = (let q = query_get r ''client_id'' in if q = [] then generateID rnd else q);
        s \<leftarrow> accept_client clientID s;
        Some (s, (101, BUpgraded)) })"

section \<open>Dashboard\<close>

definition method_not_allowed :: "srv \<Rightarrow> (srv \<times> http_resp) option" where
  "method_not_allowed s = Some (s, (405, BErr ''method not allowed''))"

definition apiLogin :: "bytes \<Rightarrow> int \<Rightarrow> handler" where
  "apiLogin rnd now r s =
     (if rq_method r \<noteq> ''POST'' then method_not_allowed s
      else
        (let (rl, ok) = rl_allow (s_loginLimiter s) (clientIP r) now; s = s\<lparr>s_loginLimiter := rl\<rparr> in
         if \<not> ok then Some (s, (429, BErr ''too many attempts''))
         else case rq_body r of None \<Rightarrow> Some (s, (400, BErr ''invalid request''))
         | Some v \<Rightarrow>
             (let (kvs, ok0) = obj_members v; (pw, ok1) = get_str ''password'' kvs in
              if \<not> (ok0 \<and> ok1) then Some (s, (400, BErr ''invalid request''))
              else if pw \<noteq> s_authToken s then Some (s, (401, BErr ''invalid password''))
              else
                (let (ss, token) = createSession (s_sessions s) rnd now in
                 Some (s\<lparr>s_sessions := ss\<rparr>, (200, BJson (JObj [(''token'', JStr token)])))))))"

definition apiRooms :: "(bytes \<Rightarrow> bytes) \<Rightarrow> int \<Rightarrow> handler" where
  "apiRooms sha256 now r s =
     (if rq_method r = ''GET'' then Some (s, (200, BRooms (getRoomsInfo s)))
      else if rq_method r = ''POST'' then
        (case rq_body r of None \<Rightarrow> Some (s, (400, BErr ''invalid request''))
         | Some v \<Rightarrow>
             (let (kvs, ok0) = obj_members v; (nm, ok1) = get_str ''name'' kvs; (pw, ok2) = get_str ''password'' kvs in
              if \<not> (ok0 \<and> ok1 \<and> ok2) then Some (s, (400, BErr ''invalid request''))
              else
                (let name = trim_space nm in
                 if name = [] \<or> length name > 128 then Some (s, (400, BErr ''invalid room name''))
                 else do {
                   let passHash = (if pw \<noteq> [] then hex_enc (sha256 (str_bytes pw)) else []);
                   (s, k) \<leftarrow> getOrCreateRoom name passHash [] [] now s;
                   Some (s, (200, BJson (JObj [(''name'', JStr name), (''protected'', JBool (pw \<noteq> []))]))) })))
      else if rq_method r = ''DELETE'' then
        (let name = query_get r ''name'' in
         if name = [] then Some (s, (400, BErr ''room name required''))
         else do {
           (s, b) \<leftarrow> deleteRoom name s;
           Some (s, (200, BJson (JObj [(''deleted'', JBool b)]))) })
      else method_not_allowed s)"

definition apiAuthCheck :: handler where
  "apiAuthCheck r s = Some (s, (200, BJson (JObj [(''ok'', JBool True)])))"

text \<open>The request body of ban, kick and unban: both fields are required.\<close>

definition moderation_req :: "http_req \<Rightarrow> (string \<times> string) option" where
  "moderation_req r = (case rq_body r of None \<Rightarrow> None
     | Some v \<Rightarrow>
         (let (kvs, ok0) = obj_members v; (room, ok1) = get_str ''room'' kvs; (cid, ok2) = get_str ''client_id'' kvs in
          if \<not> (ok0 \<and> ok1 \<and> ok2) \<or> room = [] \<or> cid = [] then None else Some (room, cid)))"

definition moderation :: "(string \<Rightarrow> string \<Rightarrow> srv \<Rightarrow> (srv \<times> bool) option) \<Rightarrow> handler" where
  "moderation act r s =
     (if rq_method r \<noteq> ''POST'' then method_not_allowed s
      else case moderation_req r of None \<Rightarrow> Some (s, (400, BErr ''room and client_id required''))
      | Some (room, cid) \<Rightarrow> do {
          (s, b) \<leftarrow> act room cid s;
          Some (s, (200, BJson (JObj [(''ok'', JBool b)]))) })"

definition apiBan :: handler where "apiBan = moderation banClient"
definition apiKick :: handler where "apiKick = moderation kickClient"
definition apiUnban :: handler where "apiUnban = moderation (\<lambda>room cid s. Some (unbanClient room cid s))"

definition apiStats :: handler where
  "apiStats r s = Some (s, (200, BStats ((getStats s)\<lparr>st_ActiveConns := s_activeConns s\<rparr>)))"

definition apiRelayToggle :: handler where
  "apiRelayToggle r s =
     (if rq_method r \<noteq> ''POST'' then
        Some (s, (200, BJson (JObj [(''global_relay_disabled'', JBool (s_globalRelayOff s))])))
      else case rq_body r of None \<Rightarrow> Some (s, (400, BErr ''invalid request''))
      | Some v \<Rightarrow>
          (let (kvs, ok0) = obj_members v; (room, ok1) = get_str ''room'' kvs; (disabled, ok2) = get_bool ''disabled'' kvs in
           if \<not> (ok0 \<and> ok1 \<and> ok2) then Some (s, (400, BErr ''invalid request''))
           else do {
             s \<leftarrow> (if room = [] then Some (s\<lparr>s_globalRelayOff := disabled\<rparr>)
                   else case target_room room s of None \<Rightarrow> Some s
                   | Some (k, rm) \<Rightarrow>
                       (let rm = rm\<lparr>r_RelayDisabled := disabled\<rparr> in
                        broadcast rm (room_config_msg disabled) [] (put_room k rm s)));
             Some (s, (200, BJson (JObj [(''ok'', JBool True)]))) }))"

definition apiLockToggle :: handler where
  "apiLockToggle r s =
     (if rq_method r \<noteq> ''POST'' then method_not_allowed s
      else case rq_body r of None \<Rightarrow> Some (s, (400, BErr ''room required''))
      | Some v \<Rightarrow>
          (let (kvs, ok0) = obj_members v; (room, ok1) = get_str ''room'' kvs; (locked, ok2) = get_bool ''locked'' kvs in
           if \<not> (ok0 \<and> ok1 \<and> ok2) \<or> room = [] then Some (s, (400, BErr ''room required''))
           else
             (let s = (case target_room room s of None \<Rightarrow> s
                       | Some (k, rm) \<Rightarrow> put_room k (rm\<lparr>r_Locked := locked\<rparr>) s) in
              Some (s, (200, BJson (JObj [(''ok'', JBool True)]))))))"

definition apiHealth :: handler where
  "apiHealth r s = Some (s, (200, BJson (JObj [(''status'', JStr ''ok''), (''conns'', JNum (s_activeConns s))])))"

section \<open>Routing\<close>

text \<open>The mux of \<^verbatim>\<open>main\<close>; the STUN statistics proxy and the static files do not touch the state.\<close>

definition serve :: "(bytes \<Rightarrow> bytes) \<Rightarrow> bool \<Rightarrow> bytes \<Rightarrow> int \<Rightarrow> handler" where
  "serve sha256 upgraded rnd now r =
     (let path = rq_path r in
      if path = ''/ws'' then serveWs upgraded rnd now r
      else if path = ''/health'' then apiHealth r
      else if path = ''/api/login'' then apiLogin rnd now r
      else if path = ''/api/rooms'' then requireAuth now (apiRooms sha256 now) r
      else if path = ''/api/rooms/kick'' then requireAuth now apiKick r
      else if path = ''/api/relay'' then requireAuth now apiRelayToggle r
      else if path = ''/api/rooms/lock'' then requireAuth now apiLockToggle r
      else if path = ''/api/rooms/ban'' then requireAuth now apiBan r
      else if path = ''/api/rooms/unban'' then requireAuth now apiUnban r
      else if path = ''/api/auth'' then requireAuth now apiAuthCheck r
      else if path = ''/api/stats'' then requireAuth now apiStats r
      else if path = ''/api/stun'' then requireAuth now (\<lambda>r s. Some (s, (200, BOther))) r
      else (\<lambda>s. Some (s, (200, BOther))))"

text \<open>The state at start-up: the rooms of the store, a dashboard password from the flag or drawn.\<close>

definition start_server :: "int \<Rightarrow> db \<Rightarrow> string \<Rightarrow> bytes \<Rightarrow> int \<Rightarrow> srv" where
  "start_server now d webPass rnd maxC = \<lparr>s_heap = (\<lambda>_. new_client []), s_next = 0, s_rooms = newHub now (Some d),
     s_store = Some d, s_globalRelayOff = False, s_sessions = [], s_loginLimiter = loginLimiter0,
     s_wsLimiter = wsLimiter0, s_joinLimiter = joinLimiter0, s_activeConns = 0, s_maxConns = maxC,
     s_authToken = (if webPass \<noteq> [] then webPass else generateToken 16 rnd), s_ipCache = [], s_unregister = [],
     s_closing = [], s_lookups = []\<rparr>"

end
