(* ===== verification/Server_Safety.thy ===== *)
theory Server_Safety
  imports Api
begin

text \<open>
  The server as a transition system. \<open>srv_ok\<close> is the invariant of the hub: the registry of rooms is
  well formed, every member of a room is a live connection that agrees on where it is, and the
  connections whose closing is pending are in no room. Each operation that keeps it is
  shown not to panic from it, and the whole server is an instance of \<open>transition_system\<close>.
\<close>

section \<open>The invariant\<close>

definition member :: "srv \<Rightarrow> string \<Rightarrow> string \<Rightarrow> nat \<Rightarrow> bool" where
  "member s k cid p \<longleftrightarrow> (\<exists>r. mget (s_rooms s) k = Some r \<and> mget (r_Clients r) cid = Some p)"

definition rooms_wf :: "(string \<times> room) list \<Rightarrow> bool" where
  "rooms_wf rs \<longleftrightarrow> mwf rs \<and> (\<forall>k r. mget rs k = Some r \<longrightarrow> r_Key r = k \<and> k \<noteq> [] \<and> mwf (r_Clients r))"

definition members_ok :: "srv \<Rightarrow> bool" where
  "members_ok s \<longleftrightarrow> (\<forall>k cid p. member s k cid p \<longrightarrow>
     p < s_next s \<and> c_id (s_heap s p) = cid \<and> c_roomKey (s_heap s p) = k \<and> c_open (s_heap s p))"

definition closing_ok :: "srv \<Rightarrow> bool" where
  "closing_ok s \<longleftrightarrow> distinct (s_closing s) \<and>
     (\<forall>p \<in> set (s_closing s). p < s_next s \<and> c_open (s_heap s p) \<and> (\<forall>k cid. \<not> member s k cid p))"

definition srv_ok :: "srv \<Rightarrow> bool" where
  "srv_ok s \<longleftrightarrow> rooms_wf (s_rooms s) \<and> members_ok s \<and> closing_ok s"

lemma member_put_room [simp]:
  "member (put_room k r s) k' cid p \<longleftrightarrow> (if k' = k then mget (r_Clients r) cid = Some p else member s k' cid p)"
  by (auto simp: member_def frame_simps)

lemma member_del_room [simp]: "member (del_room k s) k' cid p \<longleftrightarrow> k' \<noteq> k \<and> member s k' cid p"
  by (auto simp: member_def frame_simps)

lemma member_upd_client [simp]: "member (upd_client q f s) k cid p = member s k cid p"
  by (simp add: member_def frame_simps)

lemma member_cong: "s_rooms t = s_rooms s \<Longrightarrow> member t k cid p = member s k cid p"
  by (simp add: member_def)

lemma member_send: "send_eq s t \<Longrightarrow> member t = member s"
  by (simp add: member_def fun_eq_iff send_eq_frame)

lemma member_touches: "touches P s t \<Longrightarrow> member t = member s"
  by (simp add: member_def fun_eq_iff touches_frame)

lemma memberI: "mget (s_rooms s) k = Some r \<Longrightarrow> mget (r_Clients r) cid = Some p \<Longrightarrow> member s k cid p"
  by (auto simp: member_def)

lemma member_listI: "rooms_wf (s_rooms s) \<Longrightarrow> mget (s_rooms s) k = Some r \<Longrightarrow> (cid, p) \<in> set (r_Clients r) \<Longrightarrow> member s k cid p"
  by (auto simp: member_def rooms_wf_def)

lemma member_ptr: "rooms_wf (s_rooms s) \<Longrightarrow> mget (s_rooms s) k = Some r \<Longrightarrow> p \<in> snd ` set (r_Clients r) \<Longrightarrow> \<exists>cid. member s k cid p"
  using member_listI by fastforce

lemma rooms_wf_put: "rooms_wf rs \<Longrightarrow> r_Key r = k \<Longrightarrow> k \<noteq> [] \<Longrightarrow> mwf (r_Clients r) \<Longrightarrow> rooms_wf (mput k r rs)"
  by (auto simp: rooms_wf_def)

lemma rooms_wf_del: "rooms_wf rs \<Longrightarrow> rooms_wf (mdel k rs)"
  by (auto simp: rooms_wf_def)

lemma rooms_wf_at: "rooms_wf rs \<Longrightarrow> mget rs k = Some r \<Longrightarrow> r_Key r = k \<and> k \<noteq> [] \<and> mwf (r_Clients r)"
  by (auto simp: rooms_wf_def)

lemma srv_ok_member:
  "srv_ok s \<Longrightarrow> member s k cid p \<Longrightarrow>
     p < s_next s \<and> c_id (s_heap s p) = cid \<and> c_roomKey (s_heap s p) = k \<and> c_open (s_heap s p)"
  by (auto simp: srv_ok_def members_ok_def)

lemma srv_ok_open:
  assumes "srv_ok s" "mget (s_rooms s) k = Some r"
  shows "\<forall>(cid, p) \<in> set (r_Clients r). c_open (s_heap s p)"
  using assms by (auto simp: srv_ok_def members_ok_def dest: member_listI)

text \<open>Different members of a room are different clients.\<close>

lemma srv_ok_distinct:
  assumes "srv_ok s" "mget (s_rooms s) k = Some r"
  shows "distinct (map snd (r_Clients r))"
proof -
  have m: "mwf (r_Clients r)" "\<forall>(cid, p) \<in> set (r_Clients r). c_id (s_heap s p) = cid"
    using assms by (auto simp: srv_ok_def members_ok_def rooms_wf_at dest: member_listI)
  then have "map fst (r_Clients r) = map (\<lambda>p. c_id (s_heap s p)) (map snd (r_Clients r))" by auto
  with m(1) show ?thesis by (metis distinct_map)
qed

lemma srv_ok_send:
  assumes "send_eq s t" "srv_ok s"
  shows "srv_ok t"
  using assms(2) unfolding srv_ok_def members_ok_def closing_ok_def
    send_eq_frame [OF assms(1)] send_eq_at [OF assms(1)] member_send [OF assms(1)] .

text \<open>A client update that keeps identity and channel keeps the invariant.\<close>

lemma srv_ok_upd:
  assumes "srv_ok s" "\<And>c. c_id (f c) = c_id c" "\<And>c. c_roomKey (f c) = c_roomKey c" "\<And>c. c_open (f c) = c_open c"
  shows "srv_ok (upd_client p f s)"
proof -
  have at: "c_id (s_heap (upd_client p f s) q) = c_id (s_heap s q)" "c_roomKey (s_heap (upd_client p f s) q) = c_roomKey (s_heap s q)"
    "c_open (s_heap (upd_client p f s) q) = c_open (s_heap s q)" for q using assms(2-) by simp_all
  show ?thesis using assms(1) unfolding srv_ok_def members_ok_def closing_ok_def upd_client_frame member_upd_client at .
qed

lemma srv_ok_cong:
  assumes "srv_ok s" "s_rooms t = s_rooms s" "s_heap t = s_heap s" "s_next t = s_next s" "s_closing t = s_closing s"
  shows "srv_ok t"
proof -
  have "member t = member s" by (simp add: member_def fun_eq_iff assms)
  then show ?thesis using assms by (simp add: srv_ok_def members_ok_def closing_ok_def)
qed

text \<open>Operations that only remove members: what is left agrees with the state before.\<close>

definition shrinks :: "srv \<Rightarrow> srv \<Rightarrow> bool" where
  "shrinks s t \<longleftrightarrow> rooms_wf (s_rooms t) \<and> (\<forall>k cid p. member t k cid p \<longrightarrow> member s k cid p) \<and>
     s_next t = s_next s \<and> s_closing t = s_closing s \<and>
     (\<forall>k cid p. member t k cid p \<longrightarrow>
        c_id (s_heap t p) = c_id (s_heap s p) \<and> c_roomKey (s_heap t p) = c_roomKey (s_heap s p) \<and>
        c_open (s_heap t p) = c_open (s_heap s p)) \<and>
     (\<forall>p \<in> set (s_closing s). c_open (s_heap t p) = c_open (s_heap s p))"

lemma shrinksI:
  assumes "rooms_wf (s_rooms t)" "s_next t = s_next s" "s_closing t = s_closing s"
    and "\<And>k cid p. member t k cid p \<Longrightarrow> member s k cid p \<and> c_id (s_heap t p) = c_id (s_heap s p) \<and>
      c_roomKey (s_heap t p) = c_roomKey (s_heap s p) \<and> c_open (s_heap t p) = c_open (s_heap s p)"
    and "\<And>p. p \<in> set (s_closing s) \<Longrightarrow> c_open (s_heap t p) = c_open (s_heap s p)"
  shows "shrinks s t"
  unfolding shrinks_def using assms by blast

lemma shrinksD:
  assumes "shrinks s t"
  shows "rooms_wf (s_rooms t)" "s_next t = s_next s" "s_closing t = s_closing s"
    and "member t k cid p \<Longrightarrow> member s k cid p \<and> c_id (s_heap t p) = c_id (s_heap s p) \<and>
      c_roomKey (s_heap t p) = c_roomKey (s_heap s p) \<and> c_open (s_heap t p) = c_open (s_heap s p)"
    and "p \<in> set (s_closing s) \<Longrightarrow> c_open (s_heap t p) = c_open (s_heap s p)"
  using assms unfolding shrinks_def by blast+

lemma srv_ok_shrinks:
  assumes "srv_ok s" "shrinks s t"
  shows "srv_ok t"
proof -
  have "members_ok t" unfolding members_ok_def
  proof (intro allI impI)
    fix k cid p assume "member t k cid p"
    from shrinksD(4) [OF assms(2) this] srv_ok_member [OF assms(1), of k cid p] shrinksD(2) [OF assms(2)]
    show "p < s_next t \<and> c_id (s_heap t p) = cid \<and> c_roomKey (s_heap t p) = k \<and> c_open (s_heap t p)" by simp
  qed
  moreover have "closing_ok t"
  proof -
    have "closing_ok s" using assms(1) by (simp add: srv_ok_def)
    then show ?thesis unfolding closing_ok_def shrinksD(2,3) [OF assms(2)]
      using shrinksD(4,5) [OF assms(2)] by blast
  qed
  ultimately show ?thesis using assms(2) by (simp add: srv_ok_def shrinks_def)
qed

lemma shrinks_refl: "srv_ok s \<Longrightarrow> shrinks s s"
  by (simp add: shrinks_def srv_ok_def)

lemma shrinks_trans:
  assumes "shrinks s t" "shrinks t u"
  shows "shrinks s u"
proof (rule shrinksI)
  show "rooms_wf (s_rooms u)" by (rule shrinksD(1) [OF assms(2)])
  show "s_next u = s_next s" "s_closing u = s_closing s" by (simp_all add: shrinksD(2,3) [OF assms(1)] shrinksD(2,3) [OF assms(2)])
  show "c_open (s_heap u p) = c_open (s_heap s p)" if "p \<in> set (s_closing s)" for p
    using that shrinksD(5) [OF assms(1), of p] shrinksD(5) [OF assms(2), of p] shrinksD(3) [OF assms(1)] by simp
  show "member s k cid p \<and> c_id (s_heap u p) = c_id (s_heap s p) \<and> c_roomKey (s_heap u p) = c_roomKey (s_heap s p) \<and>
      c_open (s_heap u p) = c_open (s_heap s p)" if "member u k cid p" for k cid p
    using shrinksD(4) [OF assms(2) that] shrinksD(4) [OF assms(1), of k cid p] by simp
qed

lemma shrinks_send:
  assumes "shrinks s t" "send_eq t u"
  shows "shrinks s u"
  using assms(1) unfolding shrinks_def send_eq_frame [OF assms(2)] send_eq_at [OF assms(2)] member_send [OF assms(2)] .

section \<open>Broadcasts\<close>

lemma broadcast_ok:
  assumes "\<forall>(cid, p) \<in> set (r_Clients r). c_open (s_heap s p)"
  shows "\<exists>t. broadcast r m x s = Some t \<and> send_eq s t"
  unfolding broadcast_def by (rule foldM_send [OF assms])

lemma broadcastPeerList_ok:
  assumes "\<forall>(cid, p) \<in> set (r_Clients r). c_open (s_heap s p)"
  shows "\<exists>t. broadcastPeerList r s = Some t \<and> send_eq s t"
  using foldM_send [OF assms, where P = "\<lambda>_. False"] by (simp add: broadcastPeerList_def)

lemma foldM_closed_member:
  assumes "(cid, p) \<in> set ms" "\<not> c_open (s_heap s p)" "\<not> P cid"
  shows "foldM (\<lambda>(cid, p) s. if P cid then Some s else try_send p m s) ms s = None"
  using assms
proof (induction ms arbitrary: s)
  case (Cons x ms)
  obtain cid' q where x [simp]: "x = (cid', q)" by (cases x)
  show ?case
  proof (cases "x = (cid, p)")
    case True
    then show ?thesis using Cons.prems by (simp add: try_send_closed)
  next
    case False
    then have mem: "(cid, p) \<in> set ms" using Cons.prems(1) by auto
    show ?thesis
    proof (cases "P cid' \<or> \<not> c_open (s_heap s q)")
      case True
      then show ?thesis using Cons.IH [OF mem Cons.prems(2,3)] by (auto simp: try_send_closed)
    next
      case False
      then obtain t where t: "try_send q m s = Some t" "send_eq s t" by (auto elim: try_send_open)
      then show ?thesis using Cons.IH [OF mem _ Cons.prems(3), of t] Cons.prems(2) False by (simp add: send_eq_at)
    qed
  qed
qed simp

section \<open>Leaving\<close>

lemma close_member_ok: "c_open (s_heap s p) \<Longrightarrow> \<exists>t. close_member p s = Some t \<and> touches {p} s t"
proof -
  assume "c_open (s_heap s p)"
  then obtain t where t: "try_send p (error_msg ''room closed (owner left)'') s = Some t" "touches {p} s t"
    "c_open (s_heap t p)" by (rule try_send_open)
  have "touches {p} s (upd_client p (c_open_update (\<lambda>_. False)) t)"
    using touches_trans [OF t(2) touches_upd [of p "{p}" t "c_open_update (\<lambda>_. False)"]] by simp
  with t show ?thesis by (simp add: close_member_def close_send_open)
qed

lemma close_send_touches: "c_open (s_heap s p) \<Longrightarrow> \<exists>t. close_send p s = Some t \<and> touches {p} s t"
  by (simp add: close_send_open)

text \<open>Removing the clients \<open>P\<close> of one room and then touching only them, and forgetting the room of
  \<open>p\<close>, shrinks the hub.\<close>

lemma shrinks_touches:
  assumes ok: "srv_ok s" and rooms: "rooms_wf (s_rooms t)" "\<And>k cid p. member t k cid p \<Longrightarrow> member s k cid p"
    and fr: "s_next t = s_next s" "s_closing t = s_closing s"
    and heap: "\<And>p. p \<notin> P \<Longrightarrow> s_heap t p = s_heap s p"
    and gone: "\<And>k cid p. member t k cid p \<Longrightarrow> p \<notin> P" "\<And>p. p \<in> P \<Longrightarrow> p \<notin> set (s_closing s)"
  shows "shrinks s t"
proof -
  have "s_heap t p = s_heap s p" if "member t k cid p" for k cid p using heap gone(1) [OF that] by simp
  moreover have "s_heap t p = s_heap s p" if "p \<in> set (s_closing s)" for p using heap gone(2) that by blast
  ultimately show ?thesis using rooms fr by (intro shrinksI) simp_all
qed

text \<open>A client that is in some room is not pending; its room and ID are determined.\<close>

lemma srv_ok_unique: "srv_ok s \<Longrightarrow> member s k cid p \<Longrightarrow> member s k' cid' p \<Longrightarrow> k' = k \<and> cid' = cid"
  by (metis srv_ok_member)

lemma srv_ok_not_closing: "srv_ok s \<Longrightarrow> member s k cid p \<Longrightarrow> p \<notin> set (s_closing s)"
  by (auto simp: srv_ok_def closing_ok_def)

text \<open>Where a client is: \<open>p\<close> is in no room but possibly the one it names, under its own ID.\<close>

lemma srv_ok_where: "srv_ok s \<Longrightarrow> member s k cid p \<Longrightarrow> k = c_roomKey (s_heap s p) \<and> cid = c_id (s_heap s p)"
  by (metis srv_ok_member)

lemma shrinks_forget:
  assumes "shrinks s t" "\<And>k cid. \<not> member t k cid p" "\<And>c. c_open (f c) = c_open c"
  shows "shrinks s (upd_client p f t)"
  using assms unfolding shrinks_def by (auto simp: frame_simps)

lemma shrinks_del_member:
  assumes "srv_ok s" "mget (s_rooms s) k = Some r"
  shows "shrinks s (put_room k (r\<lparr>r_Clients := mdel cid (r_Clients r)\<rparr>) s)"
  using assms by (auto simp: shrinks_def frame_simps srv_ok_def rooms_wf_put rooms_wf_at member_def split: if_splits)

lemma shrinks_close:
  assumes ok: "srv_ok s" and r: "mget (s_rooms s) k = Some r" and t: "touches (snd ` set (r_Clients r)) s t"
  shows "shrinks s (del_room k t)"
proof (rule shrinks_touches [OF ok])
  have wf: "rooms_wf (s_rooms s)" using ok by (simp add: srv_ok_def)
  show "rooms_wf (s_rooms (del_room k t))" using wf t by (simp add: frame_simps touches_frame rooms_wf_del)
  show mem: "member s k' cid p" if "member (del_room k t) k' cid p" for k' cid p
    using that member_touches [OF t] by simp
  show "s_next (del_room k t) = s_next s" "s_closing (del_room k t) = s_closing s"
    using t by (simp_all add: frame_simps touches_frame)
  show "s_heap (del_room k t) p = s_heap s p" if "p \<notin> snd ` set (r_Clients r)" for p
    using that t by (simp add: frame_simps touches_frame)
  have inside: "\<exists>cid. member s k cid p" if "p \<in> snd ` set (r_Clients r)" for p
    by (rule member_ptr [OF wf r that])
  show "p \<notin> snd ` set (r_Clients r)" if "member (del_room k t) k' cid p" for k' cid p
    using that mem [OF that] inside srv_ok_unique [OF ok] by (metis member_del_room)
  show "p \<notin> set (s_closing s)" if "p \<in> snd ` set (r_Clients r)" for p
    using inside [OF that] srv_ok_not_closing [OF ok] by auto
qed

text \<open>The branch of \<^verbatim>\<open>removeClientFromRoom\<close> that finds the room \<open>r0\<close>: the room loses the client's ID, then
  either it is deleted, its remaining members closed or there being none, or the members get a
  peer list. Clients that are not remaining members are left alone.\<close>

definition same_client :: "client \<Rightarrow> client \<Rightarrow> bool" where
  "same_client c d \<longleftrightarrow> c_id c = c_id d \<and> c_name c = c_name d \<and> c_roomKey c = c_roomKey d \<and> c_open c = c_open d"

definition without :: "string \<Rightarrow> room \<Rightarrow> room" where
  "without cid r = r\<lparr>r_Clients := mdel cid (r_Clients r)\<rparr>"

lemma removeClientFromRoom_found:
  assumes ok: "srv_ok s" and k: "c_roomKey (s_heap s p) = k" and r0: "mget (s_rooms s) k = Some r0"
    and r: "r = without (c_id (s_heap s p)) r0" and s1: "s1 = put_room k r s"
  shows "\<exists>u. removeClientFromRoom p s = Some (upd_client p (\<lambda>c. c\<lparr>c_room := [], c_roomKey := []\<rparr>) u) \<and> shrinks s1 u \<and>
    (s_rooms u = mdel k (s_rooms s1) \<or> s_rooms u = s_rooms s1) \<and>
    (\<forall>q. q \<notin> snd ` set (r_Clients r) \<longrightarrow> same_client (s_heap u q) (s_heap s q))"
proof -
  have wf: "r_Key r0 = k" "k \<noteq> []" using rooms_wf_at [of "s_rooms s" k r0] ok r0 by (auto simp: srv_ok_def)
  have ok1: "srv_ok s1"
    unfolding s1 r without_def by (rule srv_ok_shrinks [OF ok shrinks_del_member [OF ok r0]])
  have r1: "mget (s_rooms s1) k = Some r" by (simp add: s1 frame_simps)
  have heap1: "s_heap s1 = s_heap s" by (simp add: s1 frame_simps)
  let ?fin = "upd_client p (\<lambda>c. c\<lparr>c_room := [], c_roomKey := []\<rparr>)"
  have eq: "removeClientFromRoom p s =
      (if (r_OwnerID r \<noteq> [] \<and> r_OwnerID r = c_id (s_heap s p)) \<and> \<not> r_Persistent r
       then foldM (\<lambda>(cid, q). close_member q) (r_Clients r) s1 \<bind> (\<lambda>t. Some (del_room k t))
       else if r_Clients r = [] \<and> \<not> r_Persistent r then Some (del_room k s1)
       else broadcastPeerList r s1) \<bind> (\<lambda>t. Some (?fin t))"
    using r0 k wf by (simp add: removeClientFromRoom_def Let_def r s1 without_def cong: if_cong split del: if_split)
  obtain t1 where t1: "foldM (\<lambda>(cid, q). close_member q) (r_Clients r) s1 = Some t1" "touches (snd ` set (r_Clients r)) s1 t1"
    using foldM_touches [of close_member, OF close_member_ok srv_ok_distinct [OF ok1 r1] srv_ok_open [OF ok1 r1]] by auto
  obtain t2 where t2: "broadcastPeerList r s1 = Some t2" "send_eq s1 t2"
    using broadcastPeerList_ok [OF srv_ok_open [OF ok1 r1]] by auto
  consider (owner) "(r_OwnerID r \<noteq> [] \<and> r_OwnerID r = c_id (s_heap s p)) \<and> \<not> r_Persistent r"
    | (empty) "\<not> ((r_OwnerID r \<noteq> [] \<and> r_OwnerID r = c_id (s_heap s p)) \<and> \<not> r_Persistent r)" "r_Clients r = [] \<and> \<not> r_Persistent r"
    | (other) "\<not> ((r_OwnerID r \<noteq> [] \<and> r_OwnerID r = c_id (s_heap s p)) \<and> \<not> r_Persistent r)" "\<not> (r_Clients r = [] \<and> \<not> r_Persistent r)"
    by blast
  then show ?thesis
  proof cases
    case owner
    have "removeClientFromRoom p s = Some (?fin (del_room k t1))" unfolding eq if_P [OF owner] by (simp add: t1(1))
    then show ?thesis using shrinks_close [OF ok1 r1 t1(2)] touches_frame [OF t1(2)]
      by (intro exI [of _ "del_room k t1"]) (simp add: frame_simps heap1 same_client_def)
  next
    case empty
    have "removeClientFromRoom p s = Some (?fin (del_room k s1))" unfolding eq if_not_P [OF empty(1)] if_P [OF empty(2)] by simp
    then show ?thesis using shrinks_close [OF ok1 r1 touches_refl]
      by (intro exI [of _ "del_room k s1"]) (simp add: frame_simps heap1 same_client_def)
  next
    case other
    have "removeClientFromRoom p s = Some (?fin t2)" unfolding eq if_not_P [OF other(1)] if_not_P [OF other(2)] by (simp add: t2(1))
    then show ?thesis using shrinks_send [OF shrinks_refl [OF ok1] t2(2)]
      by (intro exI [of _ t2]) (simp add: send_eq_frame [OF t2(2)] send_eq_at [OF t2(2)] heap1 same_client_def)
  qed
qed

lemma removeClientFromRoom_none:
  assumes ok: "srv_ok s" and none: "c_roomKey (s_heap s p) = [] \<or> mget (s_rooms s) (c_roomKey (s_heap s p)) = None"
  shows "removeClientFromRoom p s = Some s" "\<not> member s k cid p"
proof -
  show "removeClientFromRoom p s = Some s" using none by (auto simp: removeClientFromRoom_def Let_def)
  show "\<not> member s k cid p"
  proof
    assume m: "member s k cid p"
    then obtain r where r: "mget (s_rooms s) k = Some r" by (auto simp: member_def)
    with rooms_wf_at [of "s_rooms s" k r] ok have "k \<noteq> []" by (simp add: srv_ok_def)
    with none srv_ok_where [OF ok m] r show False by simp
  qed
qed

lemma removeClientFromRoom_ok:
  assumes ok: "srv_ok s"
  shows "\<exists>t. removeClientFromRoom p s = Some t \<and> shrinks s t \<and> (\<forall>k cid. \<not> member t k cid p) \<and>
    c_id (s_heap t p) = c_id (s_heap s p) \<and> c_name (s_heap t p) = c_name (s_heap s p) \<and>
    c_open (s_heap t p) = c_open (s_heap s p)"
proof (cases "c_roomKey (s_heap s p) = [] \<or> mget (s_rooms s) (c_roomKey (s_heap s p)) = None")
  case True
  then show ?thesis using removeClientFromRoom_none [OF ok True] shrinks_refl [OF ok] by simp
next
  case False
  define k where "k = c_roomKey (s_heap s p)"
  from False obtain r0 where r0: "mget (s_rooms s) k = Some r0" by (auto simp: k_def)
  define r where "r = without (c_id (s_heap s p)) r0"
  define s1 where "s1 = put_room k r s"
  have sh1: "shrinks s s1" unfolding s1_def r_def without_def by (rule shrinks_del_member [OF ok r0])
  have ok1: "srv_ok s1" by (rule srv_ok_shrinks [OF ok sh1])
  have r1: "mget (s_rooms s1) k = Some r" by (simp add: s1_def frame_simps)
  have out1: "\<not> member s1 k' cid p" for k' cid
  proof
    assume m: "member s1 k' cid p"
    then have "k' = k" "cid = c_id (s_heap s p)" using shrinksD(4) [OF sh1 m] srv_ok_where [OF ok] by (auto simp: k_def)
    with m show False by (simp add: s1_def r_def without_def)
  qed
  have notin: "p \<notin> snd ` set (r_Clients r)"
    using out1 member_ptr [of s1 k r p] ok1 r1 by (auto simp: srv_ok_def)
  obtain u where u: "removeClientFromRoom p s = Some (upd_client p (\<lambda>c. c\<lparr>c_room := [], c_roomKey := []\<rparr>) u)" "shrinks s1 u"
    "same_client (s_heap u p) (s_heap s p)"
    using removeClientFromRoom_found [OF ok k_def [symmetric] r0 r_def s1_def] notin by blast
  have out: "\<not> member u k cid p" for k cid using shrinksD(4) [OF u(2)] out1 by blast
  have "shrinks s (upd_client p (\<lambda>c. c\<lparr>c_room := [], c_roomKey := []\<rparr>) u)"
    by (rule shrinks_forget [OF shrinks_trans [OF sh1 u(2)] out]) simp
  with u(1,3) out show ?thesis by (simp add: same_client_def)
qed

section \<open>Disconnecting\<close>

text \<open>One member is taken out of its room and its client closed.\<close>

lemma shrinks_evict:
  assumes ok: "srv_ok s" and r: "mget (s_rooms s) k = Some r" and p: "mget (r_Clients r) cid = Some p"
    and t: "s_rooms t = mput k (r\<lparr>r_Clients := mdel cid (r_Clients r)\<rparr>) (s_rooms s)" "s_next t = s_next s"
      "s_closing t = s_closing s" "\<And>q. q \<noteq> p \<Longrightarrow> s_heap t q = s_heap s q"
  shows "shrinks s t"
proof (rule shrinks_touches [OF ok])
  let ?u = "put_room k (r\<lparr>r_Clients := mdel cid (r_Clients r)\<rparr>) s"
  have sh: "shrinks s ?u" by (rule shrinks_del_member [OF ok r])
  have rooms: "s_rooms t = s_rooms ?u" by (simp add: t(1) frame_simps)
  have memu: "member t = member ?u" by (simp add: member_def fun_eq_iff rooms)
  show "rooms_wf (s_rooms t)" using sh by (simp add: rooms shrinks_def)
  show mem: "member s k' cid' q" if "member t k' cid' q" for k' cid' q
    using that sh unfolding memu shrinks_def by blast
  show "s_next t = s_next s" "s_closing t = s_closing s" by (fact t)+
  show "s_heap t q = s_heap s q" if "q \<notin> {p}" for q using that t(4) by simp
  have inside: "member s k cid p" by (rule memberI [OF r p])
  show "q \<notin> {p}" if m: "member t k' cid' q" for k' cid' q
  proof
    assume "q \<in> {p}"
    with srv_ok_unique [OF ok inside] mem [OF m] have "k' = k" "cid' = cid" by auto
    with m show False unfolding memu by simp
  qed
  show "q \<notin> set (s_closing s)" if "q \<in> {p}" for q
    using that srv_ok_not_closing [OF ok inside] by simp
qed

definition disconnect_in :: "string \<Rightarrow> string \<times> room \<Rightarrow> srv \<Rightarrow> srv option" where
  "disconnect_in cid = (\<lambda>(k, r) s. case mget (r_Clients r) cid of None \<Rightarrow> Some s
     | Some old \<Rightarrow> do {
         s \<leftarrow> close_send old s;
         Some (put_room k (r\<lparr>r_Clients := mdel cid (r_Clients r)\<rparr>) (close_conn old s)) })"

lemma disconnectExisting_alt: "disconnectExisting cid s = foldM (disconnect_in cid) (s_rooms s) s"
  by (simp add: disconnectExisting_def disconnect_in_def)

lemma disconnect_in_ok:
  assumes ok: "srv_ok s" and r: "mget (s_rooms s) k = Some r"
  shows "\<exists>t. disconnect_in cid (k, r) s = Some t \<and> shrinks s t \<and> (\<forall>k'. k' \<noteq> k \<longrightarrow> mget (s_rooms t) k' = mget (s_rooms s) k')"
proof (cases "mget (r_Clients r) cid")
  case None
  then show ?thesis using shrinks_refl [OF ok] by (simp add: disconnect_in_def)
next
  case (Some p)
  have "c_open (s_heap s p)" using srv_ok_member [OF ok memberI [OF r Some]] by simp
  then have eq: "disconnect_in cid (k, r) s = Some (put_room k (r\<lparr>r_Clients := mdel cid (r_Clients r)\<rparr>)
      (close_conn p (upd_client p (c_open_update (\<lambda>_. False)) s)))"
    by (simp add: disconnect_in_def Some close_send_open)
  show ?thesis unfolding eq
    by (auto simp: frame_simps close_conn_def intro!: shrinks_evict [OF ok r Some])
qed

lemma disconnect_loop_ok:
  assumes "srv_ok s" "mwf rs" "\<forall>(k, r) \<in> set rs. mget (s_rooms s) k = Some r"
  shows "\<exists>t. foldM (disconnect_in cid) rs s = Some t \<and> shrinks s t"
  using assms
proof (induction rs arbitrary: s)
  case Nil
  then show ?case by (simp add: shrinks_refl)
next
  case (Cons x rs)
  obtain k r where x [simp]: "x = (k, r)" by (cases x)
  from disconnect_in_ok [of s k r cid] Cons.prems obtain t where t: "disconnect_in cid (k, r) s = Some t" "shrinks s t"
    "\<forall>k'. k' \<noteq> k \<longrightarrow> mget (s_rooms t) k' = mget (s_rooms s) k'" by auto
  have "\<forall>(k', r') \<in> set rs. mget (s_rooms t) k' = Some r'"
  proof safe
    fix k' r' assume kr: "(k', r') \<in> set rs"
    then have "k' \<noteq> k" using Cons.prems(2) by (auto simp: image_iff)
    then show "mget (s_rooms t) k' = Some r'" using Cons.prems(3) t(3) kr by auto
  qed
  from Cons.IH [OF srv_ok_shrinks [OF Cons.prems(1) t(2)] _ this] Cons.prems(2) obtain u
    where "foldM (disconnect_in cid) rs t = Some u" "shrinks t u" by auto
  with t shrinks_trans show ?case by auto
qed

lemma rooms_self: "mwf rs \<Longrightarrow> \<forall>(k, r) \<in> set rs. mget rs k = Some r"
  by auto

lemma disconnectExisting_ok: "srv_ok s \<Longrightarrow> \<exists>t. disconnectExisting cid s = Some t \<and> shrinks s t"
  unfolding disconnectExisting_alt
  by (rule disconnect_loop_ok) (auto simp: srv_ok_def rooms_wf_def rooms_self)

lemma accept_client_ok:
  assumes "srv_ok s"
  shows "\<exists>t. accept_client cid s = Some t \<and> srv_ok t"
proof -
  from disconnectExisting_ok [OF assms] obtain u where u: "disconnectExisting cid s = Some u" "shrinks s u" by blast
  have ok: "srv_ok u" by (rule srv_ok_shrinks [OF assms u(2)])
  let ?t = "u\<lparr>s_heap := (s_heap u)(s_next u := (new_client cid)\<lparr>c_send := [welcome_msg cid]\<rparr>), s_next := Suc (s_next u)\<rparr>"
  have mem: "member ?t k cid' p = member u k cid' p" for k cid' p by (simp add: member_def)
  have "members_ok ?t" unfolding members_ok_def mem using srv_ok_member [OF ok] by fastforce
  moreover have "closing_ok ?t" using ok unfolding srv_ok_def closing_ok_def mem by fastforce
  ultimately have "srv_ok ?t" using ok by (simp add: srv_ok_def)
  with u(1) show ?thesis by (simp add: accept_client_def Let_def)
qed

section \<open>Moderation\<close>

lemma target_room_Some: "rooms_wf (s_rooms s) \<Longrightarrow> target_room n s = Some (k, r) \<Longrightarrow> mget (s_rooms s) k = Some r \<and> r_Name r = n"
proof -
  assume wf: "rooms_wf (s_rooms s)" and "target_room n s = Some (k, r)"
  then have "(k, r) \<in> set (rooms_named n s)" by (auto simp: target_room_def split: list.splits)
  with wf show ?thesis by (auto simp: rooms_named_def rooms_wf_def)
qed

lemma kickClient_ok:
  assumes ok: "srv_ok s"
  shows "\<exists>t b. kickClient n cid s = Some (t, b) \<and> srv_ok t"
proof (cases "target_room n s")
  case None
  then show ?thesis using ok by (auto simp: kickClient_def)
next
  case (Some kr)
  obtain k r where kr [simp]: "kr = (k, r)" by (cases kr)
  have r: "mget (s_rooms s) k = Some r" using target_room_Some [of s n k r] Some ok by (simp add: srv_ok_def)
  show ?thesis
  proof (cases "mget (r_Clients r) cid")
    case None
    then show ?thesis using Some ok by (auto simp: kickClient_def)
  next
    case p: (Some p)
    let ?r = "r\<lparr>r_Clients := mdel cid (r_Clients r)\<rparr>"
    have "c_open (s_heap (put_room k ?r s) p)"
      using srv_ok_member [OF ok memberI [OF r p]] by (simp add: frame_simps)
    then obtain t where t: "try_send p (error_msg ''kicked by admin'') (put_room k ?r s) = Some t"
      "touches {p} (put_room k ?r s) t" "c_open (s_heap t p)" by (rule try_send_open)
    define u where "u = close_conn p (upd_client p (c_open_update (\<lambda>_. False)) t)"
    have u: "touches {p} (put_room k ?r s) u"
      using touches_trans [OF touches_trans [OF t(2) touches_upd [of p "{p}"]] close_conn_touches [of p "{p}"]] by (simp add: u_def)
    have sh: "shrinks s u"
      by (rule shrinks_evict [OF ok r p]) (use touches_frame [OF u] in \<open>simp_all add: frame_simps\<close>)
    have ok': "srv_ok u" by (rule srv_ok_shrinks [OF ok sh])
    have "mget (s_rooms u) k = Some ?r" using touches_frame(1) [OF u] by (simp add: frame_simps)
    from broadcastPeerList_ok [OF srv_ok_open [OF ok' this]] obtain v where v: "broadcastPeerList ?r u = Some v" "send_eq u v"
      by blast
    have "kickClient n cid s = Some (v, True)"
      using Some p t(1,3) v(1) by (simp add: kickClient_def close_send_open u_def)
    with srv_ok_send [OF v(2) ok'] show ?thesis by blast
  qed
qed

text \<open>A change of a room that keeps its key and members keeps the invariant, and so does the store.\<close>

lemma srv_ok_room:
  assumes "srv_ok s" "mget (s_rooms s) k = Some r" "r_Key r' = r_Key r" "r_Clients r' = r_Clients r"
  shows "srv_ok (put_room k r' s)"
proof (rule srv_ok_shrinks [OF assms(1)])
  show "shrinks s (put_room k r' s)"
    using assms by (auto simp: shrinks_def frame_simps srv_ok_def rooms_wf_put rooms_wf_at member_def split: if_splits)
qed

lemma srv_ok_with_store [simp]: "srv_ok (with_store f s) = srv_ok s"
  by (auto simp: with_store_def srv_ok_def members_ok_def closing_ok_def member_def)

lemma banClient_absent_ok:
  assumes ok: "srv_ok s" and absent: "\<And>k r. target_room n s = Some (k, r) \<Longrightarrow> mget (r_Clients r) cid = None"
  shows "\<exists>t b. banClient n cid s = Some (t, b) \<and> srv_ok t"
proof (cases "target_room n s")
  case None
  then show ?thesis using ok by (auto simp: banClient_def)
next
  case (Some kr)
  obtain k r where kr [simp]: "kr = (k, r)" by (cases kr)
  have r: "mget (s_rooms s) k = Some r" using target_room_Some [of s n k r] Some ok by (simp add: srv_ok_def)
  show ?thesis using Some absent [of k r] srv_ok_room [OF ok r] by (auto simp: banClient_def Let_def)
qed

lemma unbanClient_ok:
  assumes ok: "srv_ok s"
  shows "srv_ok (fst (unbanClient n cid s))"
proof (cases "target_room n s")
  case (Some kr)
  then have "mget (s_rooms s) (fst kr) = Some (snd kr)"
    using target_room_Some [of s n "fst kr" "snd kr"] ok by (simp add: srv_ok_def)
  then show ?thesis using Some srv_ok_room [OF ok] by (simp add: unbanClient_def split_beta)
qed (use ok in \<open>simp add: unbanClient_def\<close>)

definition room_ptrs :: "(string \<times> room) list \<Rightarrow> nat set" where
  "room_ptrs rs = (\<Union>(k, r) \<in> set rs. snd ` set (r_Clients r))"

lemma room_ptrs_Cons [simp]: "room_ptrs ((k, r) # rs) = snd ` set (r_Clients r) \<union> room_ptrs rs"
  by (simp add: room_ptrs_def)

lemma room_ptrs_member:
  assumes "srv_ok s" "\<forall>(k, r) \<in> set rs. mget (s_rooms s) k = Some r" "p \<in> room_ptrs rs"
  shows "\<exists>k cid. k \<in> mkeys rs \<and> member s k cid p"
  using assms by (force simp: room_ptrs_def srv_ok_def intro: member_listI)

lemma close_rooms_ok:
  assumes "srv_ok s" "touches P s t" "mwf rs" "\<forall>(k, r) \<in> set rs. mget (s_rooms s) k = Some r" "P \<inter> room_ptrs rs = {}"
  shows "\<exists>u. foldM (\<lambda>(k, r). foldM (\<lambda>(cid, p). close_send p) (r_Clients r)) rs t = Some u \<and> touches (P \<union> room_ptrs rs) s u"
  using assms(2-)
proof (induction rs arbitrary: P t)
  case Nil
  then show ?case by (auto simp: room_ptrs_def)
next
  case (Cons x rs)
  obtain k r where x [simp]: "x = (k, r)" by (cases x)
  let ?Q = "snd ` set (r_Clients r)"
  have r: "mget (s_rooms s) k = Some r" using Cons.prems by simp
  have "\<forall>(cid, p) \<in> set (r_Clients r). c_open (s_heap t p)"
    using srv_ok_open [OF assms(1) r] Cons.prems(1,4) touches_frame(7) [OF Cons.prems(1)]
    by (fastforce simp: room_ptrs_def)
  with foldM_touches [of close_send, OF close_send_touches srv_ok_distinct [OF assms(1) r]]
  obtain v where v: "foldM (\<lambda>(cid, p). close_send p) (r_Clients r) t = Some v" "touches ?Q t v" by blast
  have "?Q \<inter> room_ptrs rs = {}"
  proof (rule ccontr)
    assume "?Q \<inter> room_ptrs rs \<noteq> {}"
    then obtain p where p: "p \<in> ?Q" "p \<in> room_ptrs rs" by blast
    then obtain cid where "member s k cid p"
      using member_ptr [of s k r p] r assms(1) by (auto simp: srv_ok_def)
    moreover obtain k' cid' where "k' \<in> mkeys rs" "member s k' cid' p"
      using room_ptrs_member [OF assms(1) _ p(2)] Cons.prems(3) by auto
    ultimately have "k' = k" using srv_ok_unique [OF assms(1)] by blast
    with \<open>k' \<in> mkeys rs\<close> show False using Cons.prems(2) by simp
  qed
  then have "(P \<union> ?Q) \<inter> room_ptrs rs = {}" using Cons.prems(4) by auto
  with Cons.IH [OF touches_trans [OF Cons.prems(1) v(2)]] Cons.prems(2,3) obtain u
    where "foldM (\<lambda>(k, r). foldM (\<lambda>(cid, p). close_send p) (r_Clients r)) rs v = Some u"
      "touches (P \<union> ?Q \<union> room_ptrs rs) s u" by auto
  with v show ?case by (auto simp: Un_assoc)
qed

lemma del_rooms_frame:
  "s_heap (fold (\<lambda>(k, r) s. with_store (DeleteRoom k) (del_room k s)) rs s) = s_heap s"
  "s_next (fold (\<lambda>(k, r) s. with_store (DeleteRoom k) (del_room k s)) rs s) = s_next s"
  "s_closing (fold (\<lambda>(k, r) s. with_store (DeleteRoom k) (del_room k s)) rs s) = s_closing s"
  "s_rooms (fold (\<lambda>(k, r) s. with_store (DeleteRoom k) (del_room k s)) rs s) = fold (\<lambda>(k, r). mdel k) rs (s_rooms s)"
  by (induction rs arbitrary: s) (auto simp: with_store_def del_room_def)

lemma fold_mdel:
  "mget (fold (\<lambda>(k, r). mdel k) rs m) k = (if k \<in> mkeys rs then None else mget m k)"
  "mwf m \<Longrightarrow> mwf (fold (\<lambda>(k, r). mdel k) rs m)"
  by (induction rs arbitrary: m) (auto split: if_splits)

lemma deleteRoom_ok:
  assumes ok: "srv_ok s"
  shows "\<exists>t b. deleteRoom n s = Some (t, b) \<and> srv_ok t"
proof -
  let ?rs = "rooms_named n s"
  have rs: "mwf ?rs" "\<forall>(k, r) \<in> set ?rs. mget (s_rooms s) k = Some r"
    using ok by (auto simp: rooms_named_def srv_ok_def rooms_wf_def distinct_map_filter)
  from close_rooms_ok [OF ok touches_refl rs, of "{}"] obtain u
    where u: "foldM (\<lambda>(k, r). foldM (\<lambda>(cid, p). close_send p) (r_Clients r)) ?rs s = Some u" "touches (room_ptrs ?rs) s u"
    by auto
  let ?t = "fold (\<lambda>(k, r) s. with_store (DeleteRoom k) (del_room k s)) ?rs u"
  have rooms: "s_rooms ?t = fold (\<lambda>(k, r). mdel k) ?rs (s_rooms s)"
    using touches_frame(1) [OF u(2)] by (simp add: del_rooms_frame)
  have mem: "member ?t k cid p \<longleftrightarrow> k \<notin> mkeys ?rs \<and> member s k cid p" for k cid p
    by (auto simp: member_def rooms fold_mdel)
  have "shrinks s ?t"
  proof (rule shrinks_touches [OF ok])
    have "rooms_wf (s_rooms s)" using ok by (simp add: srv_ok_def)
    then show "rooms_wf (s_rooms ?t)" unfolding rooms_wf_def rooms fold_mdel(1) using fold_mdel(2) by (auto split: if_splits)
    show "p \<notin> room_ptrs ?rs" if "member ?t k cid p" for k cid p
      using that room_ptrs_member [OF ok rs(2), of p] srv_ok_unique [OF ok] unfolding mem by blast
    show "p \<notin> set (s_closing s)" if "p \<in> room_ptrs ?rs" for p
      using room_ptrs_member [OF ok rs(2) that] srv_ok_not_closing [OF ok] by blast
    show "s_heap ?t p = s_heap s p" if "p \<notin> room_ptrs ?rs" for p
      using that touches_frame(7) [OF u(2)] by (simp add: del_rooms_frame)
    show "s_next ?t = s_next s" "s_closing ?t = s_closing s" by (simp_all add: del_rooms_frame touches_frame [OF u(2)])
    show "member s k cid p" if "member ?t k cid p" for k cid p using that by (simp add: mem)
  qed
  from srv_ok_shrinks [OF ok this] u(1) show ?thesis by (auto simp: deleteRoom_def Let_def)
qed

section \<open>Joining\<close>

text \<open>A connection that may handle a frame: it exists, its channel is open, no closing is pending.\<close>

definition live :: "srv \<Rightarrow> nat \<Rightarrow> bool" where
  "live s p \<longleftrightarrow> p < s_next s \<and> c_open (s_heap s p) \<and> p \<notin> set (s_closing s)"

lemma sendError_ok: "srv_ok s \<Longrightarrow> c_open (s_heap s p) \<Longrightarrow> \<exists>t. sendError p e s = Some t \<and> srv_ok t"
  unfolding sendError_def by (erule try_send_open [of s p "error_msg e"]) (auto dest: srv_ok_send)

lemma handleLeave_ok:
  assumes "srv_ok s"
  shows "\<exists>t. handleLeave p s = Some t \<and> shrinks s t \<and> (\<forall>k cid. \<not> member t k cid p) \<and>
    c_id (s_heap t p) = c_id (s_heap s p) \<and> c_name (s_heap t p) = c_name (s_heap s p) \<and>
    c_open (s_heap t p) = c_open (s_heap s p)"
  using removeClientFromRoom_ok [OF assms, of p]
  by (auto simp: handleLeave_def removeClientFromRoom_def)

text \<open>An update of a client that is in no room, and keeps its channel.\<close>

lemma srv_ok_upd_outside:
  assumes ok: "srv_ok s" and out: "\<And>k cid. \<not> member s k cid p" and f: "\<And>c. c_open (f c) = c_open c"
  shows "srv_ok (upd_client p f s)"
proof (rule srv_ok_shrinks [OF ok shrinks_forget [OF shrinks_refl [OF ok] out f]])
qed

text \<open>Some members leave the room and are queued for closing.\<close>

lemma srv_ok_defer:
  assumes ok: "srv_ok s" and r: "mget (s_rooms s) k = Some r" and st_def: "st = filter P (r_Clients r)"
  shows "srv_ok (put_room k (r\<lparr>r_Clients := filter (\<lambda>m. m \<notin> set st) (r_Clients r)\<rparr>) (s\<lparr>s_closing := s_closing s @ map snd st\<rparr>))"
    (is "srv_ok ?t")
proof -
  have wf: "rooms_wf (s_rooms s)" "r_Key r = k" "k \<noteq> []" "mwf (r_Clients r)"
    using rooms_wf_at [of "s_rooms s" k r] ok r by (auto simp: srv_ok_def)
  have wfm: "mwf (filter (\<lambda>m. m \<notin> set st) (r_Clients r))" using wf(4) by (simp add: distinct_map_filter)
  have mem: "member ?t k' cid q \<longleftrightarrow> member s k' cid q \<and> (k' = k \<longrightarrow> (cid, q) \<notin> set st)" for k' cid q
    using wf(4) wfm by (auto simp: member_def frame_simps r)
  have st_mem: "member s k cid q" if "(cid, q) \<in> set st" for cid q
    using that member_listI [OF wf(1) r] by (simp add: st_def)
  have "members_ok ?t"
    unfolding members_ok_def mem by (auto simp: frame_simps dest: srv_ok_member [OF ok])
  moreover have "closing_ok ?t"
  proof -
    have d: "distinct (s_closing s @ map snd st)"
      using ok srv_ok_distinct [OF ok r] srv_ok_not_closing [OF ok st_mem]
      by (auto simp: srv_ok_def closing_ok_def st_def distinct_map_filter)
    have "q < s_next s \<and> c_open (s_heap s q) \<and> (\<forall>k' cid. \<not> member ?t k' cid q)" if "(cid, q) \<in> set st" for cid q
      using srv_ok_member [OF ok st_mem [OF that]] srv_ok_unique [OF ok st_mem [OF that]] that unfolding mem by blast
    moreover have "q < s_next s \<and> c_open (s_heap s q) \<and> (\<forall>k' cid. \<not> member ?t k' cid q)" if "q \<in> set (s_closing s)" for q
      using ok that unfolding srv_ok_def closing_ok_def mem by blast
    ultimately have a: "\<forall>q \<in> set (s_closing s @ map snd st). q < s_next s \<and> c_open (s_heap s q) \<and> (\<forall>k' cid. \<not> member ?t k' cid q)"
      by fastforce
    have "s_closing ?t = s_closing s @ map snd st" "s_next ?t = s_next s" "s_heap ?t = s_heap s" by (simp_all add: frame_simps)
    with a d show ?thesis unfolding closing_ok_def by metis
  qed
  ultimately show ?thesis using wf wfm by (simp add: srv_ok_def frame_simps rooms_wf_put)
qed

text \<open>A live client in no room, which names the room \<open>k\<close>, enters it.\<close>

lemma srv_ok_add:
  assumes ok: "srv_ok s" and p: "live s p" "\<And>k cid. \<not> member s k cid p" "c_roomKey (s_heap s p) = k"
    and r: "mget (s_rooms s) k = Some r"
  shows "srv_ok (put_room k (r\<lparr>r_Clients := mput (c_id (s_heap s p)) p (r_Clients r)\<rparr>) s)" (is "srv_ok ?t")
proof -
  have wf: "rooms_wf (s_rooms s)" "r_Key r = k" "k \<noteq> []" "mwf (r_Clients r)"
    using rooms_wf_at [of "s_rooms s" k r] ok r by (auto simp: srv_ok_def)
  have mem: "member ?t k' cid q \<Longrightarrow> (k' = k \<and> cid = c_id (s_heap s p) \<and> q = p) \<or> member s k' cid q" for k' cid q
    by (auto simp: member_def frame_simps r split: if_splits)
  have "members_ok ?t" unfolding members_ok_def
  proof (intro allI impI)
    fix k' cid q assume "member ?t k' cid q"
    from mem [OF this] p(1,3) srv_ok_member [OF ok]
    show "q < s_next ?t \<and> c_id (s_heap ?t q) = cid \<and> c_roomKey (s_heap ?t q) = k' \<and> c_open (s_heap ?t q)"
      by (auto simp: frame_simps live_def)
  qed
  moreover have "closing_ok ?t"
    using ok p(1) mem unfolding closing_ok_def srv_ok_def put_room_frame live_def by blast
  ultimately show ?thesis using wf by (simp add: srv_ok_def frame_simps rooms_wf_put)
qed

lemma mput_twice [simp]: "mput k v (mput k w m) = mput k v m"
  by (induction m) auto

lemma put_room_twice: "put_room k r (put_room k r' s) = put_room k r s"
  by (simp add: put_room_def)

lemma srv_ok_enter:
  assumes ok: "srv_ok s" and p: "live s p" "\<And>k cid. \<not> member s k cid p" "c_roomKey (s_heap s p) = k"
    and r: "mget (s_rooms s) k = Some r"
  shows "srv_ok (enter_room p k s) \<and> (\<exists>r'. mget (s_rooms (enter_room p k s)) k = Some r')"
proof -
  define st where "st = (if c_name (s_heap s p) = [] then [] else stale_names p r s)"
  define P where "P = (\<lambda>(cid, q). c_name (s_heap s p) \<noteq> [] \<and> cid \<noteq> c_id (s_heap s p) \<and> c_name (s_heap s q) = c_name (s_heap s p))"
  have st: "st = filter P (r_Clients r)" by (auto simp: st_def P_def stale_names_def intro!: filter_cong)
  define t where "t = put_room k (r\<lparr>r_Clients := filter (\<lambda>m. m \<notin> set st) (r_Clients r)\<rparr>) (s\<lparr>s_closing := s_closing s @ map snd st\<rparr>)"
  have ok': "srv_ok t" unfolding t_def by (rule srv_ok_defer [OF ok r st])
  have heap: "s_heap t = s_heap s" "s_next t = s_next s" "s_closing t = s_closing s @ map snd st"
    by (simp_all add: t_def frame_simps)
  have wf: "rooms_wf (s_rooms s)" "mwf (r_Clients r)" using rooms_wf_at [of "s_rooms s" k r] ok r by (auto simp: srv_ok_def)
  have "p \<notin> snd ` set st"
    using p(2) member_ptr [OF wf(1) r, of p] unfolding st by auto
  then have live: "live t p" using p(1) by (simp add: live_def heap)
  have out: "\<not> member t k' cid p" for k' cid
  proof
    assume "member t k' cid p"
    then have "p \<in> snd ` set (r_Clients r) \<or> member s k' cid p"
      using wf(2) by (auto simp: t_def member_def frame_simps distinct_map_filter rev_image_eqI split: if_splits)
    then show False using p(2) member_ptr [OF wf(1) r, of p] by blast
  qed
  have rt: "mget (s_rooms t) k = Some (r\<lparr>r_Clients := filter (\<lambda>m. m \<notin> set st) (r_Clients r)\<rparr>)"
    by (simp add: t_def frame_simps)
  have eq: "enter_room p k s = put_room k (r\<lparr>r_Clients := mput (c_id (s_heap t p)) p (filter (\<lambda>m. m \<notin> set st) (r_Clients r))\<rparr>) t"
    by (simp add: enter_room_def r Let_def st_def t_def put_room_twice frame_simps)
  show ?thesis using srv_ok_add [OF ok' live out _ rt] p(3) by (simp add: eq heap frame_simps)
qed

lemma roomKey_nonempty [simp]: "n \<noteq> [] \<Longrightarrow> roomKey n h \<noteq> []"
  by (simp add: roomKey_def)

lemma getOrCreateRoom_ok:
  assumes ok: "srv_ok s" and n: "n \<noteq> []" and own: "own = [] \<or> 8 \<le> length own"
  shows "\<exists>t k r. getOrCreateRoom n h own nm now s = Some (t, k) \<and> srv_ok t \<and> mget (s_rooms t) k = Some r \<and>
    member t = member s \<and> s_heap t = s_heap s \<and> s_next t = s_next s \<and> s_closing t = s_closing s"
proof (cases "mget (s_rooms s) (roomKey n h)")
  case (Some r)
  then show ?thesis using ok by (simp add: getOrCreateRoom_def)
next
  case None
  let ?k = "roomKey n h" and ?r = "new_room n h own nm now"
  let ?u = "put_room ?k ?r s"
  have mem: "member ?u = member s" using None by (auto simp: fun_eq_iff new_room_def member_def frame_simps)
  have wf: "rooms_wf (s_rooms ?u)" using ok n by (simp add: srv_ok_def frame_simps rooms_wf_put new_room_def)
  have "srv_ok ?u"
    by (rule srv_ok_shrinks [OF ok], rule shrinksI [OF wf]) (simp_all add: frame_simps mem)
  moreover define t where "t = (if own = [] then with_store (SaveRoom ?r) ?u else ?u)"
  ultimately have "srv_ok t" by auto
  moreover have "s_rooms t = s_rooms ?u" "s_heap t = s_heap s" "s_next t = s_next s" "s_closing t = s_closing s"
    by (simp_all add: with_store_def frame_simps t_def)
  moreover have "member t = member s" using mem calculation(2) by (simp add: member_def fun_eq_iff)
  moreover have "getOrCreateRoom n h own nm now s = Some (t, ?k)"
    using None own by (auto simp: getOrCreateRoom_def Let_def t_def new_room_def)
  ultimately show ?thesis by (auto simp: frame_simps)
qed

lemma find_room_loop_Inr: "find_room_loop n h rs b = Inr k \<Longrightarrow> \<exists>r. (k, r) \<in> set rs \<and> r_Name r = n \<and> r_PasswordHash r = h"
  by (induction n h rs b rule: find_room_loop.induct) (auto split: if_splits)

lemma findRoomByName_Some:
  "rooms_wf (s_rooms s) \<Longrightarrow> findRoomByName n h s = Inr k \<Longrightarrow>
     \<exists>r. mget (s_rooms s) k = Some r \<and> r_Name r = n \<and> r_PasswordHash r = h"
  by (force simp: findRoomByName_def rooms_wf_def dest: find_room_loop_Inr)

lemma admit_ok:
  assumes ok: "srv_ok s" and p: "live s p" "\<And>k cid. \<not> member s k cid p" and r: "mget (s_rooms s) k = Some r"
  shows "\<exists>t. admit p n (r_Key r) k s = Some t \<and> srv_ok t"
proof -
  let ?u = "upd_client p (\<lambda>c. c\<lparr>c_room := n, c_roomKey := k, c_status := ''connecting''\<rparr>) s"
  have key: "r_Key r = k" using rooms_wf_at [of "s_rooms s" k r] ok r by (simp add: srv_ok_def)
  have "srv_ok ?u" by (rule srv_ok_upd_outside [OF ok p(2)]) simp
  moreover have "live ?u p" using p(1) by (simp add: live_def frame_simps)
  moreover have "mget (s_rooms ?u) k = Some r" using r by (simp add: frame_simps)
  ultimately obtain r' where e: "srv_ok (enter_room p k ?u)" "mget (s_rooms (enter_room p k ?u)) k = Some r'"
    using srv_ok_enter [of ?u p k r] p(2) by auto
  obtain v where v: "broadcastPeerList r' (enter_room p k ?u) = Some v" "send_eq (enter_room p k ?u) v"
    using broadcastPeerList_ok [OF srv_ok_open [OF e]] by blast
  have okv: "srv_ok v" by (rule srv_ok_send [OF v(2) e(1)])
  have "s_heap (enter_room p k ?u) = s_heap ?u"
    by (simp add: enter_room_def Let_def frame_simps split: option.splits)
  then have "c_open (s_heap v p)" using p(1) by (simp add: send_eq_at [OF v(2)] live_def)
  then obtain w where "try_send p (room_config_msg True) v = Some w" "send_eq v w" by (rule try_send_open)
  with v(1) e(2) okv srv_ok_send show ?thesis by (auto simp: admit_def key Let_def)
qed

lemma join_room_ok:
  assumes ok: "srv_ok s" and p: "live s p" and n: "n \<noteq> []" and len: "8 \<le> length (c_id (s_heap s p))"
  shows "\<exists>t. join_room p n h now s = Some t \<and> srv_ok t"
proof -
  obtain s1 where s1: "(if c_roomKey (s_heap s p) \<noteq> [] then handleLeave p s else Some s) = Some s1" "shrinks s s1"
    "\<And>k cid. \<not> member s1 k cid p" "c_id (s_heap s1 p) = c_id (s_heap s p)" "c_open (s_heap s1 p) = c_open (s_heap s p)"
    using handleLeave_ok [OF ok, of p] by (auto simp: handleLeave_def split: if_splits)
  have ok1: "srv_ok s1" by (rule srv_ok_shrinks [OF ok s1(2)])
  have live1: "live s1 p" using p s1(5) by (simp add: live_def shrinksD(2,3) [OF s1(2)])
  note err = sendError_ok [OF _ live_def [THEN iffD1, THEN conjunct2, THEN conjunct1]]
  have step: "\<exists>t. (case mget (s_rooms u) k of None \<Rightarrow> Some u
        | Some r \<Rightarrow> if IsBanned r (c_id (s_heap u p)) then sendError p ''you are banned from this room'' u
                    else if r_Locked r then sendError p ''room is locked, no new connections allowed'' u
                    else admit p n (r_Key r) k u) = Some t \<and> srv_ok t"
    if u: "srv_ok u" "live u p" "member u = member s1" "mget (s_rooms u) k = Some r" for u k r
    using admit_ok [OF u(1,2) _ u(4), of n] err [OF u(1,2)] s1(3) u(3,4) by auto
  show ?thesis
  proof (cases "findRoomByName n h s1")
    case (Inr k)
    then obtain r where "mget (s_rooms s1) k = Some r" using findRoomByName_Some [of s1 n h k] ok1 by (auto simp: srv_ok_def)
    from step [OF ok1 live1 refl this] s1(1) Inr show ?thesis by (simp add: join_room_def)
  next
    case (Inl reason)
    obtain u k r where u: "getOrCreateRoom n h (c_id (s_heap s1 p)) (c_name (s_heap s1 p)) now s1 = Some (u, k)" "srv_ok u"
      "mget (s_rooms u) k = Some r" "member u = member s1" "s_heap u = s_heap s1" "s_next u = s_next s1" "s_closing u = s_closing s1"
      using getOrCreateRoom_ok [OF ok1 n, of "c_id (s_heap s1 p)" h "c_name (s_heap s1 p)" now] len s1(4) by auto
    have "live u p" using live1 u(5-7) by (simp add: live_def)
    from step [OF u(2) this u(4,3)] err [OF ok1 live1, of reason] s1(1) Inl u(1) show ?thesis
      by (auto simp: join_room_def)
  qed
qed

lemma join_payload_ok:
  assumes "srv_ok s" "join_payload msg p s = (s', n, h)"
  shows "srv_ok s'" "live s' q = live s q" "c_id (s_heap s' q) = c_id (s_heap s q)"
  using assms by (auto simp: join_payload_def Let_def live_def frame_simps split: option.splits prod.splits if_splits
      intro!: srv_ok_upd)

lemma handleJoin_ok:
  assumes ok: "srv_ok s" and p: "live s p" and len: "8 \<le> length (c_id (s_heap s p))"
  shows "\<exists>t. handleJoin p msg now s = Some t \<and> srv_ok t"
proof -
  obtain s1 n h where j: "join_payload msg p s = (s1, n, h)" by (metis prod_cases3)
  note j' = join_payload_ok [OF ok j]
  obtain rl b where rl: "rl_allow (s_joinLimiter s1) (c_id (s_heap s1 p)) now = (rl, b)" by force
  let ?s2 = "s1\<lparr>s_joinLimiter := rl\<rparr>"
  have ok2: "srv_ok ?s2" by (rule srv_ok_cong [OF j'(1)]) simp_all
  have live2: "live ?s2 p" using p j'(2) by (simp add: live_def)
  have op: "c_open (s_heap s1 p)" using p j'(2) [of p] by (simp add: live_def)
  show ?thesis
    using j rl sendError_ok [OF j'(1) op] sendError_ok [OF ok2, of p] op
      join_room_ok [OF ok2 live2, of n h now] len j'(3)
    by (auto simp: handleJoin_def Let_def)
qed

section \<open>Messages\<close>

lemma findClient_member: "rooms_wf (s_rooms s) \<Longrightarrow> findClient cid s = Some p \<Longrightarrow> \<exists>k. member s k cid p"
proof -
  assume wf: "rooms_wf (s_rooms s)" and f: "findClient cid s = Some p"
  have "find_client_loop cid rs = Some p \<Longrightarrow> \<exists>(k, r) \<in> set rs. mget (r_Clients r) cid = Some p" for rs
    by (induction rs) (auto split: option.splits)
  from this [of "s_rooms s"] f obtain k r where "(k, r) \<in> set (s_rooms s)" "mget (r_Clients r) cid = Some p"
    by (auto simp: findClient_def)
  with wf have "member s k cid p" by (simp add: member_def rooms_wf_def exI [of _ r])
  then show ?thesis by blast
qed

lemma send_member_ok:
  assumes "srv_ok s" "findClient cid s = Some p"
  shows "\<exists>t. try_send p m s = Some t \<and> srv_ok t \<and> send_eq s t"
proof -
  obtain k where "member s k cid p" using findClient_member [of s cid p] assms by (auto simp: srv_ok_def)
  then have "c_open (s_heap s p)" using srv_ok_member [OF assms(1)] by blast
  then show ?thesis by (rule try_send_open [of s p m]) (use assms(1) srv_ok_send in blast)
qed

lemma forwardToTarget_ok: "srv_ok s \<Longrightarrow> \<exists>t. forwardToTarget msg s = Some t \<and> srv_ok t"
  using send_member_ok [of s "mTo msg" _ "marshal_message msg"] by (auto simp: forwardToTarget_def split: option.splits)

lemma broadcastToRoom_ok: "srv_ok s \<Longrightarrow> \<exists>t. broadcastToRoom p msg s = Some t \<and> srv_ok t"
  using broadcast_ok [OF srv_ok_open] srv_ok_send
  by (fastforce simp: broadcastToRoom_def Let_def split: option.splits)

lemma handleStatusUpdate_ok:
  assumes ok: "srv_ok s"
  shows "\<exists>t. handleStatusUpdate p msg s = Some t \<and> srv_ok t"
proof -
  have ok': "srv_ok (upd_client p (c_status_update (\<lambda>_. st)) s)" for st by (rule srv_ok_upd [OF ok]) simp_all
  have "\<exists>t. broadcastPeerList r (upd_client p (c_status_update (\<lambda>_. st)) s) = Some t \<and> srv_ok t"
    if "mget (s_rooms s) k = Some r" for k r st
    using broadcastPeerList_ok [OF srv_ok_open [OF ok' [of st], of k r]] srv_ok_send [OF _ ok' [of st]] that
    by (auto simp: frame_simps)
  then show ?thesis using ok ok'
    by (auto simp: handleStatusUpdate_def Let_def frame_simps split: option.splits)
qed

lemma relayData_ok:
  assumes ok: "srv_ok s"
  shows "\<exists>t. relayData from to data s = Some t \<and> srv_ok t"
proof (cases "findClient to s")
  case None
  then show ?thesis using ok by (auto simp: relayData_def split: option.splits)
next
  case (Some tp)
  let ?k = "c_roomKey (s_heap s tp)"
  have "\<exists>t. try_send tp m (case mget (s_rooms s) ?k of None \<Rightarrow> s | Some r \<Rightarrow>
      put_room ?k (r\<lparr>r_BytesRelayed := r_BytesRelayed r + n\<rparr>) s) = Some t \<and> srv_ok t" for m n
  proof -
    let ?u = "case mget (s_rooms s) ?k of None \<Rightarrow> s | Some r \<Rightarrow> put_room ?k (r\<lparr>r_BytesRelayed := r_BytesRelayed r + n\<rparr>) s"
    have u: "srv_ok ?u" "s_heap ?u = s_heap s" using ok by (auto simp: frame_simps intro: srv_ok_room split: option.splits)
    obtain k where "member s k to tp" using findClient_member [of s to tp] Some ok by (auto simp: srv_ok_def)
    then have "c_open (s_heap ?u tp)" using srv_ok_member [OF ok] u(2) by metis
    then show ?thesis by (rule try_send_open [of ?u tp m]) (use srv_ok_send u(1) in blast)
  qed
  then show ?thesis using Some ok by (auto simp: relayData_def Let_def split: option.splits)
qed

lemma store_stun_info_ok:
  assumes ok: "srv_ok s"
  shows "srv_ok (store_stun_info p msg s)"
proof -
  have upd: "srv_ok u \<Longrightarrow> srv_ok (upd_client p (c_endpoint_update f) u)"
    "srv_ok u \<Longrightarrow> srv_ok (upd_client p (c_natType_update f) u)" "srv_ok u \<Longrightarrow> srv_ok (u\<lparr>s_lookups := l\<rparr>)" for u f l
    by (auto intro: srv_ok_upd srv_ok_cong)
  show ?thesis using ok by (auto simp: store_stun_info_def Let_def upd split: option.splits)
qed

lemma handleFeatureUpdate_ok: "srv_ok s \<Longrightarrow> srv_ok (handleFeatureUpdate p msg s)"
  by (auto simp: handleFeatureUpdate_def split: option.splits prod.splits bool.splits intro!: srv_ok_upd)

definition safe :: "srv option \<Rightarrow> bool" where
  "safe x \<longleftrightarrow> (\<exists>t. x = Some t \<and> srv_ok t)"

lemma safe_Some [simp]: "safe (Some t) = srv_ok t"
  by (simp add: safe_def)

lemma safe_if: "safe x \<Longrightarrow> safe y \<Longrightarrow> safe (if b then x else y)"
  by simp

lemma handleMessage_ok:
  assumes ok: "srv_ok s" and p: "live s p" and len: "8 \<le> length (c_id (s_heap s p))"
  shows "\<exists>t. handleMessage p msg now s = Some t \<and> srv_ok t"
proof -
  have leave: "\<exists>t. handleLeave p s = Some t \<and> srv_ok t"
    using handleLeave_ok [OF ok] srv_ok_shrinks [OF ok] by blast
  note stun = store_stun_info_ok [OF ok, of p msg]
  have "safe (handleMessage p msg now s)"
    unfolding handleMessage_def Let_def handleRelayData_def
    using handleJoin_ok [OF assms, of msg now] leave forwardToTarget_ok [OF ok, of msg] broadcastToRoom_ok [OF stun, of p msg]
      forwardToTarget_ok [OF stun, of msg] handleStatusUpdate_ok [OF ok, of p msg] handleFeatureUpdate_ok [OF ok, of p msg]
      relayData_ok [OF ok, of "c_id (s_heap s p)" "mTo msg" "mPayload msg"] ok
    unfolding safe_def [symmetric] by (intro safe_if) simp_all
  then show ?thesis by (simp add: safe_def)
qed

lemma readPump_frame_ok:
  assumes "srv_ok s" "live s p" "8 \<le> length (c_id (s_heap s p))"
  shows "\<exists>t. readPump_frame p data n now s = Some t \<and> srv_ok t"
  using assms handleMessage_ok [OF assms] by (auto simp: readPump_frame_def split: option.splits prod.splits)

section \<open>Goroutines\<close>

lemma readPump_exit_ok: "srv_ok s \<Longrightarrow> srv_ok (readPump_exit p s)"
  unfolding readPump_exit_def Let_def close_conn_def
  by (rule srv_ok_cong [OF srv_ok_upd [of "s\<lparr>s_unregister := s_unregister s @ [p]\<rparr>" "c_conn_update (\<lambda>_. False)" p]])
     (auto intro: srv_ok_cong)

lemma writePump_step_ok: "srv_ok s \<Longrightarrow> srv_ok (writePump_step p res s)"
  by (auto simp: writePump_step_def close_conn_def Let_def split: list.splits write_result.splits intro!: srv_ok_upd)

lemma run_unregister_ok: "srv_ok s \<Longrightarrow> \<exists>t. run_unregister s = Some t \<and> srv_ok t"
proof (cases "s_unregister s")
  case (Cons p ps)
  assume ok: "srv_ok s"
  have "srv_ok (s\<lparr>s_unregister := ps\<rparr>)" by (rule srv_ok_cong [OF ok]) simp_all
  from removeClientFromRoom_ok [OF this, of p] srv_ok_shrinks [OF this] Cons show ?thesis
    by (auto simp: run_unregister_def)
qed (simp add: run_unregister_def)

lemma run_closing_ok:
  assumes ok: "srv_ok s"
  shows "\<exists>t. run_closing s = Some t \<and> srv_ok t"
proof (cases "s_closing s")
  case Nil
  then show ?thesis using ok by (simp add: run_closing_def)
next
  case (Cons p ps)
  have cl: "distinct (p # ps)" "c_open (s_heap s p)" "\<forall>k cid. \<not> member s k cid p" "\<forall>q \<in> set ps. q < s_next s \<and> c_open (s_heap s q) \<and> (\<forall>k cid. \<not> member s k cid q)"
    using ok Cons by (auto simp: srv_ok_def closing_ok_def)
  define t where "t = close_conn p (upd_client p (c_open_update (\<lambda>_. False)) (s\<lparr>s_closing := ps\<rparr>))"
  have fr: "s_rooms t = s_rooms s" "s_next t = s_next s" "s_closing t = ps" by (simp_all add: t_def close_conn_def frame_simps)
  have heap: "q \<noteq> p \<Longrightarrow> s_heap t q = s_heap s q" for q by (simp add: t_def close_conn_def)
  have mem: "member t = member s" by (simp add: member_def fun_eq_iff fr)
  have "members_ok t" unfolding members_ok_def mem
  proof (intro allI impI)
    fix k cid q assume m: "member s k cid q"
    then have "q \<noteq> p" using cl(3) by blast
    with srv_ok_member [OF ok m] heap show "q < s_next t \<and> c_id (s_heap t q) = cid \<and> c_roomKey (s_heap t q) = k \<and> c_open (s_heap t q)"
      by (simp add: fr)
  qed
  moreover have "closing_ok t" unfolding closing_ok_def mem fr
  proof (intro conjI ballI)
    show "distinct ps" using cl(1) by simp
    fix q assume q: "q \<in> set ps"
    then have "q \<noteq> p" using cl(1) by auto
    then show "q < s_next s" "c_open (s_heap t q)" "\<forall>k cid. \<not> member s k cid q" using cl(4) q heap by simp_all
  qed
  ultimately have "srv_ok t" using ok by (simp add: srv_ok_def fr)
  moreover have "run_closing s = Some t" using Cons cl(2) by (simp add: run_closing_def close_send_open t_def)
  ultimately show ?thesis by blast
qed

lemma run_lookup_ok: "srv_ok s \<Longrightarrow> srv_ok (run_lookup loc search s)"
  by (auto simp: run_lookup_def Let_def split: list.splits prod.splits option.splits
      intro!: srv_ok_upd intro: srv_ok_cong)

lemma syncBytesToStore_ok: "srv_ok s \<Longrightarrow> srv_ok (syncBytesToStore s)"
proof -
  have "srv_ok u \<Longrightarrow> srv_ok (fold (\<lambda>(k, r). with_store (UpdateBytesRelayed (r_Key r) (r_BytesRelayed r))) rs u)" for rs u
    by (induction rs arbitrary: u) auto
  then show "srv_ok s \<Longrightarrow> srv_ok (syncBytesToStore s)" by (simp add: syncBytesToStore_def)
qed

section \<open>Requests\<close>

text \<open>The request is not a ban of a connected member: the one dashboard operation that leaves a
  closed channel in a room.\<close>

definition no_ban_of_member :: "http_req \<Rightarrow> srv \<Rightarrow> bool" where
  "no_ban_of_member r s \<longleftrightarrow> (rq_path r = ''/api/rooms/ban'' \<longrightarrow>
     (case moderation_req r of None \<Rightarrow> True
      | Some (room, cid) \<Rightarrow> (case target_room room s of None \<Rightarrow> True | Some (k, rm) \<Rightarrow> mget (r_Clients rm) cid = None)))"

definition safe_http :: "(srv \<times> http_resp) option \<Rightarrow> bool" where
  "safe_http x \<longleftrightarrow> (\<exists>t resp. x = Some (t, resp) \<and> srv_ok t)"

lemma safe_http_Some [simp]: "safe_http (Some (t, resp)) = srv_ok t"
  by (simp add: safe_http_def)

lemma safe_http_if: "safe_http x \<Longrightarrow> safe_http y \<Longrightarrow> safe_http (if b then x else y)"
  by simp

lemma serveWs_ok:
  assumes ok: "srv_ok s"
  shows "safe_http (serveWs up rnd now r s)"
proof -
  obtain rl b where rl: "rl_allow (s_wsLimiter s) (clientIP r) now = (rl, b)" by force
  let ?u = "s\<lparr>s_wsLimiter := rl, s_activeConns := s_activeConns s + 1\<rparr>"
  have "srv_ok ?u" by (rule srv_ok_cong [OF ok]) simp_all
  then have "safe_http (accept_client cid ?u \<bind> (\<lambda>s. Some (s, resp)))" for cid resp
    using accept_client_ok [of ?u cid] by auto
  moreover have "srv_ok (s\<lparr>s_wsLimiter := rl\<rparr>)" by (rule srv_ok_cong [OF ok]) simp_all
  ultimately show ?thesis by (simp add: serveWs_def rl Let_def)
qed

lemma moderation_ok:
  assumes "srv_ok s" "\<And>room cid. moderation_req r = Some (room, cid) \<Longrightarrow> \<exists>t b. act room cid s = Some (t, b) \<and> srv_ok t"
  shows "safe_http (moderation act r s)"
  using assms by (fastforce simp: moderation_def method_not_allowed_def split: option.splits prod.splits)

lemma apiRooms_ok: "srv_ok s \<Longrightarrow> safe_http (apiRooms sha now r s)"
proof -
  assume ok: "srv_ok s"
  have create: "n \<noteq> [] \<Longrightarrow> \<exists>t k. getOrCreateRoom n h [] [] now s = Some (t, k) \<and> srv_ok t" for n h
    using getOrCreateRoom_ok [OF ok, of n "[]" h "[]" now] by auto
  have "safe_http (getOrCreateRoom n h [] [] now s \<bind> (\<lambda>(s, k). Some (s, resp)))" if "n \<noteq> []" for n h resp
    using create [OF that, of h] by auto
  moreover have "safe_http (deleteRoom n s \<bind> (\<lambda>(s, b). Some (s, f b)))" for n f
    using deleteRoom_ok [OF ok, of n] by auto
  ultimately show ?thesis using ok
    by (auto simp: apiRooms_def Let_def method_not_allowed_def split: option.splits prod.splits)
qed

lemma apiRelayToggle_ok:
  assumes ok: "srv_ok s"
  shows "safe_http (apiRelayToggle r s)"
proof -
  have "safe_http (broadcast (rm\<lparr>r_RelayDisabled := d\<rparr>) m [] (put_room k (rm\<lparr>r_RelayDisabled := d\<rparr>) s) \<bind> (\<lambda>s. Some (s, resp)))"
    if "target_room n s = Some (k, rm)" for n k rm d m resp
  proof -
    have rm: "mget (s_rooms s) k = Some rm" using target_room_Some that ok by (auto simp: srv_ok_def)
    let ?u = "put_room k (rm\<lparr>r_RelayDisabled := d\<rparr>) s"
    have "srv_ok ?u" by (rule srv_ok_room [OF ok rm]) simp_all
    moreover have "mget (s_rooms ?u) k = Some (rm\<lparr>r_RelayDisabled := d\<rparr>)" by (simp add: frame_simps)
    ultimately obtain v where "broadcast (rm\<lparr>r_RelayDisabled := d\<rparr>) m [] ?u = Some v" "srv_ok v"
      using broadcast_ok [OF srv_ok_open, of ?u k] srv_ok_send [of ?u] by blast
    then show ?thesis by simp
  qed
  moreover have "srv_ok (s\<lparr>s_globalRelayOff := d\<rparr>)" for d by (rule srv_ok_cong [OF ok]) simp_all
  ultimately show ?thesis using ok
    by (auto simp: apiRelayToggle_def Let_def split: option.splits prod.splits)
qed

lemma apiLockToggle_ok:
  assumes ok: "srv_ok s"
  shows "safe_http (apiLockToggle r s)"
proof -
  have "srv_ok (put_room k (rm\<lparr>r_Locked := d\<rparr>) s)" if "target_room n s = Some (k, rm)" for n k rm d
    using that target_room_Some [of s n k rm] srv_ok_room [OF ok, of k rm] ok by (auto simp: srv_ok_def)
  then show ?thesis using ok
    by (auto simp: apiLockToggle_def method_not_allowed_def Let_def split: option.splits prod.splits)
qed

lemma apiLogin_ok: "srv_ok s \<Longrightarrow> safe_http (apiLogin rnd now r s)"
  by (auto simp: apiLogin_def method_not_allowed_def Let_def split: option.splits prod.splits
      intro: srv_ok_cong)

lemma requireAuth_ok:
  assumes "srv_ok s" "\<And>ss. safe_http (f r (s\<lparr>s_sessions := ss\<rparr>))"
  shows "safe_http (requireAuth now f r s)"
proof -
  have "srv_ok (s\<lparr>s_sessions := ss\<rparr>)" for ss by (rule srv_ok_cong [OF assms(1)]) simp_all
  with assms(2) show ?thesis by (auto simp: requireAuth_def Let_def split: prod.splits)
qed

text \<open>No request other than a ban of a connected member makes the server panic.\<close>

lemma serve_ok:
  assumes ok: "srv_ok s" and ban: "no_ban_of_member r s"
  shows "safe_http (serve sha up rnd now r s)"
proof -
  have ok': "srv_ok (s\<lparr>s_sessions := ss\<rparr>)" for ss by (rule srv_ok_cong [OF ok]) simp_all
  have target: "target_room n (s\<lparr>s_sessions := ss\<rparr>) = target_room n s" for n ss
    by (simp add: target_room_def rooms_named_def)
  have "rq_path r = ''/api/rooms/ban'' \<Longrightarrow> safe_http (requireAuth now apiBan r s)"
    unfolding apiBan_def
    by (intro requireAuth_ok [OF ok] moderation_ok [OF ok'] banClient_absent_ok [OF ok'])
       (use ban in \<open>auto simp: no_ban_of_member_def target\<close>)
  moreover have "safe_http (requireAuth now apiKick r s)" "safe_http (requireAuth now apiUnban r s)"
    unfolding apiKick_def apiUnban_def
    using unbanClient_ok [OF ok'] kickClient_ok [OF ok']
    by (auto intro!: requireAuth_ok [OF ok] moderation_ok [OF ok'] simp del: Option.bind_eq_Some_conv) (metis prod.collapse)
  moreover have "safe_http (requireAuth now (apiRooms sha now) r s)" "safe_http (requireAuth now apiRelayToggle r s)"
    "safe_http (requireAuth now apiLockToggle r s)" "safe_http (requireAuth now apiAuthCheck r s)"
    "safe_http (requireAuth now apiStats r s)" "safe_http (requireAuth now (\<lambda>r s. Some (s, (200, BOther))) r s)"
    using ok' by (auto intro!: requireAuth_ok [OF ok] apiRooms_ok apiRelayToggle_ok apiLockToggle_ok
        simp: apiAuthCheck_def apiStats_def)
  ultimately show ?thesis
    using serveWs_ok [OF ok] apiLogin_ok [OF ok] ok by (simp add: serve_def Let_def apiHealth_def)
qed

section \<open>The transition system\<close>

text \<open>The steps of the server. The state \<open>None\<close> is a crashed process. The premises of \<open>step_http\<close> and
  \<open>step_frame\<close> are the conditions under which the code is safe: a request does not ban a
  connected member, and a frame is handled for a connection whose channel is open, for which no
  closing is pending and whose ID has at least eight bytes. The section on crashes shows that none
  can be dropped.\<close>

inductive srv_step :: "srv option \<Rightarrow> srv option \<Rightarrow> bool" where
  step_http: "no_ban_of_member r s \<Longrightarrow> srv_step (Some s) (map_option fst (serve sha up rnd now r s))"
| step_frame: "live s p \<Longrightarrow> 8 \<le> length (c_id (s_heap s p)) \<Longrightarrow> srv_step (Some s) (readPump_frame p data n now s)"
| step_exit: "srv_step (Some s) (Some (readPump_exit p s))"
| step_write: "srv_step (Some s) (Some (writePump_step p res s))"
| step_unregister: "srv_step (Some s) (run_unregister s)"
| step_closing: "srv_step (Some s) (run_closing s)"
| step_lookup: "srv_step (Some s) (Some (run_lookup loc search s))"
| step_sync: "srv_step (Some s) (Some (syncBytesToStore s))"

inductive_cases srv_step_Some: "srv_step (Some s) x"
inductive_simps srv_step_None: "srv_step None x"

definition srv_init :: "srv option \<Rightarrow> bool" where
  "srv_init x \<longleftrightarrow> (\<exists>now d pw rnd maxC. mwf (db_rooms d) \<and> [] \<notin> mkeys (db_rooms d) \<and> x = Some (start_server now d pw rnd maxC))"

lemma newHub_rooms:
  assumes "mwf (db_rooms d)"
  shows "mwf (newHub now (Some d))"
    and "mget (newHub now (Some d)) k = (if db_ok d then map_option (\<lambda>row. load_bans d (room_of_row now k row)) (mget (db_rooms d) k) else None)"
proof -
  have fold: "mwf m \<Longrightarrow> mwf (fold (\<lambda>r rooms. mput (r_Key r) r rooms) rs m)" for rs and m :: "(string \<times> room) list"
    by (induction rs arbitrary: m) auto
  show "mwf (newHub now (Some d))" by (simp add: newHub_def fold)
  have "mwf rows \<Longrightarrow> (\<And>k'. k' \<in> mkeys rows \<Longrightarrow> mget m k' = None) \<Longrightarrow>
      mget (fold (\<lambda>r rooms. mput (r_Key r) r rooms) (map (load_bans d) (map (\<lambda>(k, row). room_of_row now k row) rows)) m) k =
      (case mget rows k of Some row \<Rightarrow> Some (load_bans d (room_of_row now k row)) | None \<Rightarrow> mget m k)" for rows m
  proof (induction rows arbitrary: m)
    case (Cons x rows)
    obtain k1 row1 where x: "x = (k1, row1)" by (cases x)
    let ?m = "mput k1 (load_bans d (room_of_row now k1 row1)) m"
    have key: "r_Key (room_of_row now k1 row1) = k1" by (simp add: room_of_row_def)
    have "k' \<in> mkeys rows \<Longrightarrow> mget ?m k' = None" for k' using Cons.prems x by auto
    moreover have "mget rows k1 = None" using Cons.prems(1) x by (simp add: map_of_eq_None_iff)
    ultimately show ?case using Cons.IH [of ?m] Cons.prems(1) by (auto simp: x key split: option.splits)
  qed simp
  from this [OF assms, of "[]"] show "mget (newHub now (Some d)) k =
      (if db_ok d then map_option (\<lambda>row. load_bans d (room_of_row now k row)) (mget (db_rooms d) k) else None)"
    by (auto simp: newHub_def LoadRooms_def split: option.splits)
qed

lemma start_server_ok:
  assumes "mwf (db_rooms d)" "[] \<notin> mkeys (db_rooms d)"
  shows "srv_ok (start_server now d pw rnd maxC)"
proof -
  let ?s = "start_server now d pw rnd maxC"
  have room: "\<exists>row. mget (db_rooms d) k = Some row \<and> r = load_bans d (room_of_row now k row)"
    if "mget (s_rooms ?s) k = Some r" for k r
    using that by (auto simp: start_server_def newHub_rooms [OF assms(1)] split: if_splits)
  have "rooms_wf (s_rooms ?s)" unfolding rooms_wf_def
  proof (intro conjI allI impI)
    show "mwf (s_rooms ?s)" by (simp add: start_server_def newHub_rooms [OF assms(1)])
    fix k r assume r: "mget (s_rooms ?s) k = Some r"
    from room [OF r] show "r_Key r = k" "mwf (r_Clients r)" by (auto simp: room_of_row_def)
    from room [OF r] show "k \<noteq> []" using assms(2) by (force dest: map_of_SomeD)
  qed
  moreover have "\<not> member ?s k cid p" for k cid p
    by (auto simp: member_def room_of_row_def dest!: room)
  ultimately show ?thesis by (simp add: srv_ok_def members_ok_def closing_ok_def start_server_def)
qed

lemma srv_step_ok:
  assumes "srv_step (Some s) x" "srv_ok s"
  shows "\<exists>t. x = Some t \<and> srv_ok t"
  using assms(1)
proof (rule srv_step_Some)
  fix r sha up rnd now assume "x = map_option fst (serve sha up rnd now r s)" "no_ban_of_member r s"
  then show ?thesis using serve_ok [OF assms(2), of r sha up rnd now] by (auto simp: safe_http_def)
next
  fix p data n now assume "x = readPump_frame p data n now s" "live s p" "8 \<le> length (c_id (s_heap s p))"
  then show ?thesis using readPump_frame_ok [OF assms(2)] by blast
qed (simp_all add: assms(2) readPump_exit_ok writePump_step_ok run_unregister_ok run_closing_ok run_lookup_ok syncBytesToStore_ok)

interpretation server: transition_system srv_init srv_step "\<lambda>x. \<exists>s. x = Some s \<and> srv_ok s"
proof unfold_locales
  show "srv_init x \<Longrightarrow> \<exists>s. x = Some s \<and> srv_ok s" for x
    by (auto simp: srv_init_def start_server_ok)
  show "\<exists>s. x = Some s \<and> srv_ok s \<Longrightarrow> srv_step x y \<Longrightarrow> \<exists>s. y = Some s \<and> srv_ok s" for x y
    using srv_step_ok by blast
qed

text \<open>Claim C1.
  From start-up on a well-formed database, no sequence of WebSocket frames, disconnections,
  dashboard requests, goroutine steps and timer ticks crashes the server, as long as no connected
  member is banned and frames are handled only for live connections with IDs of at least eight
  bytes; and in every state reached, each member of a room is an open connection that has
  the room's key and is registered under its own ID.\<close>

theorem server_never_panics:
  assumes "mwf (db_rooms d)" "[] \<notin> mkeys (db_rooms d)"
    and "srv_step\<^sup>*\<^sup>* (Some (start_server now d pw rnd maxC)) x"
  shows "\<exists>s. x = Some s \<and> (\<forall>k cid p. member s k cid p \<longrightarrow>
    c_open (s_heap s p) \<and> c_roomKey (s_heap s p) = k \<and> c_id (s_heap s p) = cid)"
proof -
  have "srv_init (Some (start_server now d pw rnd maxC))" using assms(1,2) unfolding srv_init_def by blast
  from server.inv_reachable [OF this assms(3)] show ?thesis by (auto dest: srv_ok_member)
qed

theorem server_never_panics_witness:
  "\<exists>s. run_unregister (start_server 0 \<lparr>db_rooms = [], db_bans = [], db_ok = True\<rparr> ''pw'' [] 10) = Some s \<and>
     (\<forall>k cid p. member s k cid p \<longrightarrow> c_open (s_heap s p) \<and> c_roomKey (s_heap s p) = k \<and> c_id (s_heap s p) = cid)"
  by (rule server_never_panics [of "\<lparr>db_rooms = [], db_bans = [], db_ok = True\<rparr>" 0 "''pw''" "[]" 10])
     (auto intro: srv_step.intros)

end
