(* ===== verification/Server_Props.thy ===== *)
theory Server_Props
  imports Server_Safety
begin

text \<open>
  What the server guarantees its users: who is admitted to a room, who can reach whom through the
  relay, what happens when an owner leaves, what the dashboard may change without a session, in
  which order messages are delivered; and the runs that crash it or drop a connection.
\<close>

section \<open>Room keys\<close>

text \<open>Two rooms whose names hold no colon and whose password hashes hold none either have the same key
  only if they have the same name and the same password hash.\<close>

theorem roomKey_inject:
  assumes "CHR '':'' \<notin> set n" "CHR '':'' \<notin> set n'" "roomKey n h = roomKey n' h'"
  shows "n = n' \<and> h = h'"
proof -
  have split: "split_on (CHR '':'') (roomKey m g) = m # (if g = [] then [] else split_on (CHR '':'') g)"
    if "CHR '':'' \<notin> set m" for m g
    using that split_on_append [OF that, of g] by (simp add: roomKey_def split_on_clean)
  have eq: "n # (if h = [] then [] else split_on (CHR '':'') h) = n' # (if h' = [] then [] else split_on (CHR '':'') h')"
    using split [OF assms(1), of h] split [OF assms(2), of h'] assms(3) by simp
  then have "n = n'" by simp
  with assms(3) eq show ?thesis by (auto simp: roomKey_def split: if_splits)
qed

theorem roomKey_inject_witness:
  "roomKey ''lab'' ''9f'' = roomKey ''lab'' ''9f'' \<and> ''lab'' = ''lab'' \<and> ''9f'' = ''9f''"
  using roomKey_inject [of "''lab''" "''lab''" "''9f''" "''9f''"] by simp

text \<open>The key does not separate names with a colon: the open room \<^verbatim>\<open>a:b\<close> and the room \<^verbatim>\<open>a\<close> with password
  hash \<^verbatim>\<open>b\<close> share a key, so that asking to create the first when only the second exists returns the
  second.\<close>

theorem roomKey_collision:
  assumes "h \<noteq> []" "mget (s_rooms s) (roomKey n h) = Some r"
  shows "getOrCreateRoom (n @ '':'' @ h) [] own nm now s = Some (s, roomKey n h)"
  using assms by (simp add: getOrCreateRoom_def roomKey_def)

theorem roomKey_collision_witness:
  "getOrCreateRoom ''a:b'' [] [] [] 1 ((start_server 0 \<lparr>db_rooms = [], db_bans = [], db_ok = True\<rparr> [] [] 1)
      \<lparr>s_rooms := [(''a:b'', new_room ''a'' ''b'' [] [] 0)]\<rparr>) =
   Some ((start_server 0 \<lparr>db_rooms = [], db_bans = [], db_ok = True\<rparr> [] [] 1)
      \<lparr>s_rooms := [(''a:b'', new_room ''a'' ''b'' [] [] 0)]\<rparr>, ''a:b'')"
  using roomKey_collision [of "''b''" "(start_server 0 \<lparr>db_rooms = [], db_bans = [], db_ok = True\<rparr> [] [] 1)
      \<lparr>s_rooms := [(''a:b'', new_room ''a'' ''b'' [] [] 0)]\<rparr>" "''a''" "new_room ''a'' ''b'' [] [] 0" "[]" "[]" 1]
  by (simp add: roomKey_def)

section \<open>Admission\<close>

lemma getOrCreateRoom_rooms:
  assumes "getOrCreateRoom n h own nm now s = Some (t, k)"
  shows "k = roomKey n h" "s_heap t = s_heap s" "s_closing t = s_closing s"
    "\<And>k'. mget (s_rooms t) k' = (if k' = k \<and> mget (s_rooms s) k = None then Some (new_room n h own nm now) else mget (s_rooms s) k')"
  using assms by (auto simp: getOrCreateRoom_def Let_def frame_simps with_store_def split: option.splits if_splits Option.bind_splits)

lemma sendError_eq: "sendError p e s = Some t \<Longrightarrow> send_eq s t"
  unfolding sendError_def by (simp add: try_send_eq)

lemma enter_room_at:
  assumes "mget (s_rooms s) k = Some r"
  shows "\<exists>r'. mget (s_rooms (enter_room p k s)) k = Some r' \<and> r_Name r' = r_Name r \<and> r_PasswordHash r' = r_PasswordHash r \<and>
    r_Blacklist r' = r_Blacklist r \<and> r_Locked r' = r_Locked r \<and> mget (r_Clients r') (c_id (s_heap s p)) = Some p"
  and "s_heap (enter_room p k s) = s_heap s"
  and "k' \<noteq> k \<Longrightarrow> mget (s_rooms (enter_room p k s)) k' = mget (s_rooms s) k'"
  using assms by (auto simp: enter_room_def Let_def frame_simps)

lemma foldM_send_eq:
  assumes "foldM (\<lambda>(cid, p). try_send p m) ms s = Some t"
  shows "send_eq s t"
  using assms
proof (induction ms arbitrary: s)
  case (Cons x ms)
  obtain cid p where x [simp]: "x = (cid, p)" by (cases x)
  from Cons.prems obtain u where u: "try_send p m s = Some u" "foldM (\<lambda>(cid, p). try_send p m) ms u = Some t"
    by (auto split: Option.bind_splits)
  then have "send_eq s u" by (simp add: try_send_eq)
  with Cons.IH [OF u(2)] send_eq_trans show ?case by blast
qed simp

lemma admit_rooms:
  assumes "mget (s_rooms s) k = Some r" "admit p n rkey k s = Some t"
  shows "\<exists>r'. mget (s_rooms t) k = Some r' \<and> r_Name r' = r_Name r \<and> r_PasswordHash r' = r_PasswordHash r \<and>
    r_Blacklist r' = r_Blacklist r \<and> r_Locked r' = r_Locked r \<and> mget (r_Clients r') (c_id (s_heap s p)) = Some p"
proof -
  let ?u = "upd_client p (\<lambda>c. c\<lparr>c_room := n, c_roomKey := rkey, c_status := ''connecting''\<rparr>) s"
  have ru: "mget (s_rooms ?u) k = Some r" using assms(1) by (simp add: frame_simps)
  obtain r' where r': "mget (s_rooms (enter_room p k ?u)) k = Some r'" "r_Name r' = r_Name r" "r_PasswordHash r' = r_PasswordHash r"
    "r_Blacklist r' = r_Blacklist r" "r_Locked r' = r_Locked r" "mget (r_Clients r') (c_id (s_heap s p)) = Some p"
    using enter_room_at(1) [OF ru, of p] by auto
  obtain v where v: "broadcastPeerList r' (enter_room p k ?u) = Some v"
    "(if r_RelayDisabled r' \<or> s_globalRelayOff v then try_send p (room_config_msg True) v else Some v) = Some t"
  proof -
    have "broadcastPeerList r' (enter_room p k ?u) \<bind> (\<lambda>s. if r_RelayDisabled r' \<or> s_globalRelayOff s
        then try_send p (room_config_msg True) s else Some s) = Some t"
      using assms(2) unfolding admit_def Let_def r'(1) option.case .
    with that show thesis by (cases "broadcastPeerList r' (enter_room p k ?u)") simp_all
  qed
  have "send_eq (enter_room p k ?u) v" using v(1) by (simp add: broadcastPeerList_def foldM_send_eq)
  moreover have "send_eq v t"
    using v(2) by (auto simp: try_send_eq split: if_splits)
  ultimately have "s_rooms t = s_rooms (enter_room p k ?u)" by (simp add: send_eq_frame(1))
  with r' show ?thesis by simp
qed

text \<open>The rooms a join can lead to.\<close>

lemma join_room_target:
  assumes ok: "srv_ok s" and p: "\<And>k cid. \<not> member s k cid p" "c_roomKey (s_heap s p) = []"
    and t: "join_room p n h now s = Some t" "srv_ok t" "member t k cid p"
  shows "\<exists>r. mget (s_rooms t) k = Some r \<and> \<not> IsBanned r (c_id (s_heap s p)) \<and> \<not> r_Locked r \<and>
    cid = c_id (s_heap s p) \<and> (r_Name r = n \<and> r_PasswordHash r = h \<or> k = roomKey n h)"
proof -
  define gate where "gate = (\<lambda>k u. case mget (s_rooms u) k of None \<Rightarrow> Some u
     | Some r \<Rightarrow> if IsBanned r (c_id (s_heap u p)) then sendError p ''you are banned from this room'' u
                 else if r_Locked r then sendError p ''room is locked, no new connections allowed'' u
                 else admit p n (r_Key r) k u)"
  have gate: "\<exists>r. mget (s_rooms t) k = Some r \<and> \<not> IsBanned r (c_id (s_heap s p)) \<and> \<not> r_Locked r \<and> cid = c_id (s_heap s p) \<and>
      r_Name r = r_Name r1 \<and> r_PasswordHash r = r_PasswordHash r1 \<and> k = k1"
    if u: "gate k1 u = Some t" "mget (s_rooms u) k1 = Some r1" "s_heap u = s_heap s" "\<And>k cid. \<not> member u k cid p" for k1 u r1
  proof (cases "IsBanned r1 (c_id (s_heap u p)) \<or> r_Locked r1")
    case True
    then have "send_eq u t" using u(1,2) by (auto simp: gate_def sendError_eq split: if_splits)
    then show ?thesis using u(4) t(3) member_send by metis
  next
    case False
    then have adm: "admit p n (r_Key r1) k1 u = Some t" using u(1,2) by (simp add: gate_def)
    from admit_rooms [OF u(2) adm] obtain r where r: "mget (s_rooms t) k1 = Some r" "r_Name r = r_Name r1"
      "r_PasswordHash r = r_PasswordHash r1" "r_Blacklist r = r_Blacklist r1" "r_Locked r = r_Locked r1"
      "mget (r_Clients r) (c_id (s_heap u p)) = Some p" by blast
    have "k = k1 \<and> cid = c_id (s_heap u p)" using srv_ok_unique [OF t(2) memberI [OF r(1,6)] t(3)] by simp
    with r False u(3) show ?thesis by (auto simp: IsBanned_def)
  qed
  show ?thesis
  proof (cases "findRoomByName n h s")
    case (Inr k1)
    then obtain r1 where r1: "mget (s_rooms s) k1 = Some r1" "r_Name r1 = n" "r_PasswordHash r1 = h"
      using findRoomByName_Some [of s n h k1] ok by (auto simp: srv_ok_def)
    have "gate k1 s = Some t" using t(1) p(2) Inr by (simp add: join_room_def gate_def)
    from gate [OF this r1(1) refl p(1)] r1 show ?thesis by auto
  next
    case (Inl reason)
    show ?thesis
    proof (cases "reason = ''incorrect room password''")
      case True
      then have "send_eq s t" using t(1) p(2) Inl by (simp add: join_room_def sendError_eq)
      then show ?thesis using p(1) t(3) member_send by metis
    next
      case False
      then obtain u k1 where u: "getOrCreateRoom n h (c_id (s_heap s p)) (c_name (s_heap s p)) now s = Some (u, k1)" "gate k1 u = Some t"
        using t(1) p(2) Inl by (auto simp: join_room_def gate_def split: option.splits)
      note g = getOrCreateRoom_rooms [OF u(1)]
      obtain r1 where r1: "mget (s_rooms u) k1 = Some r1" by (cases "mget (s_rooms s) k1") (auto simp: g(4))
      have "\<not> member u k' cid' p" for k' cid' using p(1) [of k' cid'] by (auto simp: member_def g(4) new_room_def split: if_splits)
      from gate [OF u(2) r1 g(2) this] g(1) show ?thesis by auto
    qed
  qed
qed

text \<open>Claim C3.
  A connection that is in no room and asks to join is handled without a crash, and ends up in a room
  only if the room has the name and password hash it gave (or the key built from them), it is not
  banned there and the room is not locked; it is then registered under its own ID. Otherwise it
  stays outside every room.\<close>

theorem join_admission:
  assumes ok: "srv_ok s" and p: "live s p" "c_roomKey (s_heap s p) = []" and n: "n \<noteq> []"
    and len: "8 \<le> length (c_id (s_heap s p))"
  shows "\<exists>t. join_room p n h now s = Some t \<and>
    (\<forall>k cid. member t k cid p \<longrightarrow> cid = c_id (s_heap s p) \<and>
       (\<exists>r. mget (s_rooms t) k = Some r \<and> \<not> IsBanned r cid \<and> \<not> r_Locked r \<and>
            (r_Name r = n \<and> r_PasswordHash r = h \<or> k = roomKey n h)))"
proof -
  obtain t where t: "join_room p n h now s = Some t" "srv_ok t" using join_room_ok [OF ok p(1) n len] by blast
  have "\<not> member s k cid p" for k cid
    using srv_ok_where [OF ok, of k cid p] p(2) ok by (auto simp: srv_ok_def member_def rooms_wf_at dest: rooms_wf_at)
  from join_room_target [OF ok this p(2) t] t(1) show ?thesis by blast
qed

text \<open>A state for the witnesses: one open connection \<open>0\<close> with the given ID, an empty hub.\<close>

definition demo_state :: "string \<Rightarrow> srv" where
  "demo_state cid = (start_server 0 \<lparr>db_rooms = [], db_bans = [], db_ok = True\<rparr> ''pw'' [] 10)
     \<lparr>s_heap := (\<lambda>_. new_client cid), s_next := 1\<rparr>"

lemma demo_ok: "srv_ok (demo_state cid)"
  by (simp add: srv_ok_def demo_state_def start_server_def newHub_def LoadRooms_def rooms_wf_def members_ok_def
      closing_ok_def member_def)

theorem join_admission_witness:
  "\<exists>t. join_room 0 ''lab'' [] 5 (demo_state ''abcdefgh'') = Some t \<and>
    (\<forall>k cid. member t k cid 0 \<longrightarrow> cid = ''abcdefgh'' \<and>
       (\<exists>r. mget (s_rooms t) k = Some r \<and> \<not> IsBanned r cid \<and> \<not> r_Locked r \<and>
            (r_Name r = ''lab'' \<and> r_PasswordHash r = [] \<or> k = roomKey ''lab'' [])))"
  using join_admission [OF demo_ok [of "''abcdefgh''"], of 0 "''lab''" "[]" 5]
  by (simp add: live_def demo_state_def start_server_def new_client_def)

text \<open>A state with two members: connection \<open>0\<close> owns the room \<^verbatim>\<open>lab\<close> and \<open>1\<close> is in it.\<close>

definition demo_lab :: srv where
  "demo_lab = (demo_state ''alice001'')\<lparr>
     s_heap := (\<lambda>p. (new_client (if p = 0 then ''alice001'' else ''bob00002''))\<lparr>c_roomKey := ''lab'', c_room := ''lab''\<rparr>),
     s_next := 2,
     s_rooms := [(''lab'', (new_room ''lab'' [] ''alice001'' [] 0)\<lparr>r_Clients := [(''alice001'', 0), (''bob00002'', 1)]\<rparr>)]\<rparr>"

lemmas demo_lab_simps = demo_lab_def demo_state_def start_server_def new_room_def roomKey_def new_client_def

lemma demo_lab_ok: "srv_ok demo_lab"
  by (auto simp: srv_ok_def rooms_wf_def members_ok_def closing_ok_def member_def demo_lab_simps split: if_splits)

section \<open>Relay\<close>

text \<open>Claim C4.
  A \<^verbatim>\<open>relay_data\<close> message reaches at most one queue, at most once, and only when some room has both
  the named sender and the target as members; what is queued is the payload under the sender's
  ID. Nothing else of any client changes.\<close>

theorem relay_isolation:
  assumes ok: "srv_ok s" and t: "relayData from to data s = Some t" and p: "s_heap t p \<noteq> s_heap s p"
  shows "\<exists>k q. member s k from q \<and> member s k to p \<and>
    s_heap t p = (s_heap s p)\<lparr>c_send := c_send (s_heap s p) @
      [marshal_message \<lparr>mType = ''relay_data'', mFrom = from, mTo = to, mRoom = [], mPayload = data\<rparr>]\<rparr>"
proof -
  let ?m = "marshal_message \<lparr>mType = ''relay_data'', mFrom = from, mTo = to, mRoom = [], mPayload = data\<rparr>"
  have ne: "t \<noteq> s" using p by auto
  obtain sp tp where f: "findClient from s = Some sp" "findClient to s = Some tp"
    using t ne by (auto simp: relayData_def split: option.splits)
  have same: "c_roomKey (s_heap s sp) = c_roomKey (s_heap s tp)"
    using t ne f by (auto simp: relayData_def Let_def split: if_splits)
  have "\<exists>u. s_heap u = s_heap s \<and> try_send tp ?m u = Some t"
    using t ne f by (auto simp: relayData_def Let_def split: if_splits option.splits) (metis put_room_frame(1))+
  then obtain u where u: "s_heap u = s_heap s" "try_send tp ?m u = Some t" by blast
  have "p = tp \<and> s_heap t p = (s_heap s p)\<lparr>c_send := c_send (s_heap s p) @ [?m]\<rparr>"
    using u p by (auto simp: try_send_def Let_def split: if_splits)
  moreover obtain k1 k2 where m: "member s k1 from sp" "member s k2 to tp"
    using findClient_member [of s "from" sp] findClient_member [of s to tp] f ok by (auto simp: srv_ok_def)
  moreover have "k1 = k2" using srv_ok_where [OF ok m(1)] srv_ok_where [OF ok m(2)] same by simp
  ultimately show ?thesis by blast
qed

theorem relay_isolation_witness:
  "\<exists>k q. member demo_lab k ''alice001'' q \<and> member demo_lab k ''bob00002'' 1 \<and>
    s_heap (the (relayData ''alice001'' ''bob00002'' None demo_lab)) 1 = (s_heap demo_lab 1)\<lparr>c_send :=
      [marshal_message \<lparr>mType = ''relay_data'', mFrom = ''alice001'', mTo = ''bob00002'', mRoom = [], mPayload = None\<rparr>]\<rparr>"
proof -
  obtain t where t: "relayData ''alice001'' ''bob00002'' None demo_lab = Some t" "s_heap t 1 \<noteq> s_heap demo_lab 1"
    by (auto simp: relayData_def findClient_def try_send_def send_cap_def isDataRelay_def Let_def demo_lab_simps put_room_def)
  from relay_isolation [OF demo_lab_ok t] show ?thesis using t(1) by (simp add: demo_lab_simps)
qed

text \<open>While the relay is switched off, for all rooms or for the target's room, a payload of tunnel, file or
  speed-test data, or an encrypted one of more than 8192 bytes, is dropped and changes nothing.\<close>

theorem relay_disabled_blocks:
  assumes "s_globalRelayOff s \<or> (\<forall>p k r. findClient to s = Some p \<longrightarrow> c_roomKey (s_heap s p) = k \<longrightarrow>
      mget (s_rooms s) k = Some r \<longrightarrow> r_RelayDisabled r)"
    and "srv_ok s" "ty \<in> {''tunnel_data'', ''speed_test_data'', ''file_data''} \<or> (ty = ''encrypted'' \<and> 8192 < n)"
  shows "relayData from to (Some (JObj ((''type'', JStr ty) # [(''payload'', v)]), n)) s = Some s"
proof -
  let ?data = "Some (JObj ((''type'', JStr ty) # [(''payload'', v)]), n)"
  have bulk: "isDataRelay ?data" using assms(3) by (auto simp: isDataRelay_def get_str_def)
  show ?thesis
  proof (cases "findClient to s")
    case None
    then show ?thesis by (auto simp: relayData_def split: option.splits)
  next
    case (Some tp)
    obtain k where m: "member s k to tp" using findClient_member [of s to tp] Some assms(2) by (auto simp: srv_ok_def)
    then obtain r where r: "mget (s_rooms s) (c_roomKey (s_heap s tp)) = Some r"
      using srv_ok_where [OF assms(2) m] by (auto simp: member_def)
    then have "s_globalRelayOff s \<or> r_RelayDisabled r" using assms(1) Some by auto
    then show ?thesis using Some r bulk by (auto simp: relayData_def Let_def split: option.splits)
  qed
qed

theorem relay_disabled_blocks_witness:
  "relayData ''alice'' ''bob'' (Some (JObj [(''type'', JStr ''file_data''), (''payload'', JNull)], 900))
     ((demo_state ''bob'')\<lparr>s_globalRelayOff := True\<rparr>) = Some ((demo_state ''bob'')\<lparr>s_globalRelayOff := True\<rparr>)"
  using relay_disabled_blocks [of "(demo_state ''bob'')\<lparr>s_globalRelayOff := True\<rparr>" "''bob''" "''file_data''" 900 "''alice''" JNull]
    srv_ok_cong [OF demo_ok [of "''bob''"], of "(demo_state ''bob'')\<lparr>s_globalRelayOff := True\<rparr>"] by simp

section \<open>Leaving\<close>

lemma close_member_closed:
  assumes "c_open (s_heap s p)"
  shows "\<exists>t. close_member p s = Some t \<and> touches {p} s t \<and> \<not> c_open (s_heap t p)"
proof -
  obtain u where u: "try_send p (error_msg ''room closed (owner left)'') s = Some u" "c_open (s_heap u p)"
    using assms by (rule try_send_open)
  then have "close_member p s = Some (upd_client p (c_open_update (\<lambda>_. False)) u)"
    by (simp add: close_member_def close_send_open)
  then show ?thesis using close_member_ok [OF assms] by auto
qed

lemma close_members_spec:
  assumes "distinct (map snd ms)" "\<forall>(cid, p) \<in> set ms. c_open (s_heap s p)"
  shows "\<exists>t. foldM (\<lambda>(cid, p). close_member p) ms s = Some t \<and> touches (snd ` set ms) s t \<and>
    (\<forall>(cid, p) \<in> set ms. \<not> c_open (s_heap t p))"
  using assms
proof (induction ms arbitrary: s)
  case (Cons x ms)
  obtain cid p where x [simp]: "x = (cid, p)" by (cases x)
  obtain u where u: "close_member p s = Some u" "touches {p} s u" "\<not> c_open (s_heap u p)"
    using Cons.prems(2) close_member_closed [of s p] by auto
  have "\<forall>(cid', q) \<in> set ms. c_open (s_heap u q)"
  proof safe
    fix cid' q assume q: "(cid', q) \<in> set ms"
    then have "q \<noteq> p" using Cons.prems(1) by (auto simp: image_iff)
    then show "c_open (s_heap u q)" using touches_frame(7) [OF u(2), of q] Cons.prems(2) q by auto
  qed
  with Cons.IH [of u] Cons.prems(1) obtain t where t: "foldM (\<lambda>(cid, p). close_member p) ms u = Some t"
    "touches (snd ` set ms) u t" "\<forall>(cid, p) \<in> set ms. \<not> c_open (s_heap t p)" by auto
  have "p \<notin> snd ` set ms" using Cons.prems(1) by auto
  with t(2) u(3) have "\<not> c_open (s_heap t p)" by (simp add: touches_frame(7) [OF t(2)])
  with t u touches_trans [OF u(2) t(2)] show ?case by auto
qed simp

text \<open>When the owner of a client-owned room leaves, the room is gone and every other member's channel is
  closed.\<close>

theorem owner_leaves_closes_room:
  assumes ok: "srv_ok s" and m: "member s k (c_id (s_heap s p)) p" and r: "mget (s_rooms s) k = Some r"
    and own: "r_OwnerID r = c_id (s_heap s p)" "r_OwnerID r \<noteq> []" "\<not> r_Persistent r"
  shows "\<exists>t. handleLeave p s = Some t \<and> mget (s_rooms t) k = None \<and> c_roomKey (s_heap t p) = [] \<and>
    (\<forall>cid q. member s k cid q \<longrightarrow> q \<noteq> p \<longrightarrow> \<not> c_open (s_heap t q))"
proof -
  let ?r = "r\<lparr>r_Clients := mdel (c_id (s_heap s p)) (r_Clients r)\<rparr>" and ?s1 = "put_room k (r\<lparr>r_Clients := mdel (c_id (s_heap s p)) (r_Clients r)\<rparr>) s"
  have key: "c_roomKey (s_heap s p) = k" "k \<noteq> []" "r_Key r = k"
    using srv_ok_member [OF ok m] rooms_wf_at [of "s_rooms s" k r] ok r by (auto simp: srv_ok_def)
  have ok1: "srv_ok ?s1" by (rule srv_ok_shrinks [OF ok shrinks_del_member [OF ok r]])
  have r1: "mget (s_rooms ?s1) k = Some ?r" by (simp add: frame_simps)
  obtain t1 where t1: "foldM (\<lambda>(cid, q). close_member q) (r_Clients ?r) ?s1 = Some t1"
    "\<forall>(cid, q) \<in> set (r_Clients ?r). \<not> c_open (s_heap t1 q)"
    using close_members_spec [OF srv_ok_distinct [OF ok1 r1] srv_ok_open [OF ok1 r1]] by blast
  let ?t = "upd_client p (\<lambda>c. c\<lparr>c_room := [], c_roomKey := []\<rparr>) (del_room k t1)"
  have "handleLeave p s = Some ?t"
    using key r own t1(1) by (simp add: handleLeave_def removeClientFromRoom_def Let_def)
  moreover have "\<not> c_open (s_heap ?t q)" if q: "member s k cid q" "q \<noteq> p" for cid q
  proof -
    have "cid \<noteq> c_id (s_heap s p)" using q m by (auto simp: member_def)
    then have "(cid, q) \<in> set (r_Clients ?r)" using q(1) r by (auto simp: member_def mem_mdel dest: map_of_SomeD)
    then show ?thesis using t1(2) q(2) by (auto simp: frame_simps)
  qed
  ultimately show ?thesis by (auto simp: frame_simps)
qed

theorem owner_leaves_closes_room_witness:
  "\<exists>t. handleLeave 0 demo_lab = Some t \<and> mget (s_rooms t) ''lab'' = None \<and> c_roomKey (s_heap t 0) = [] \<and>
    (\<forall>cid q. member demo_lab ''lab'' cid q \<longrightarrow> q \<noteq> 0 \<longrightarrow> \<not> c_open (s_heap t q))"
  by (rule owner_leaves_closes_room [OF demo_lab_ok, where r = "snd (hd (s_rooms demo_lab))"])
     (simp_all add: member_def demo_lab_simps)

section \<open>Runs that crash the server or lose a connection\<close>

text \<open>Claim C18.
  A ban closes the channel of a connected member but leaves the member in the room: after it, the
  next peer-list broadcast of that room sends on the closed channel and panics.\<close>

theorem ban_breaks_broadcast:
  assumes ok: "srv_ok s" and tr: "target_room n s = Some (k, r)" and m: "mget (r_Clients r) cid = Some p"
  shows "\<exists>t r'. banClient n cid s = Some (t, True) \<and> mget (s_rooms t) k = Some r' \<and> mget (r_Clients r') cid = Some p \<and>
    \<not> c_open (s_heap t p) \<and> broadcastPeerList r' t = None"
proof -
  have r: "mget (s_rooms s) k = Some r" using target_room_Some [of s n k r] tr ok by (simp add: srv_ok_def)
  let ?r = "r\<lparr>r_Blacklist := mput cid True (r_Blacklist r)\<rparr>"
  let ?u = "with_store (SaveBan (r_Key r) cid) (put_room k ?r s)"
  have op: "c_open (s_heap ?u p)" using srv_ok_member [OF ok memberI [OF r m]] by (simp add: with_store_def frame_simps)
  then obtain v where v: "try_send p (error_msg ''banned from this room'') ?u = Some v" "touches {p} ?u v" "c_open (s_heap v p)"
    by (rule try_send_open)
  let ?t = "upd_client p (c_open_update (\<lambda>_. False)) v"
  have ban: "banClient n cid s = Some (?t, True)"
    using tr m v(1,3) by (simp add: banClient_def Let_def close_send_open)
  have rooms: "mget (s_rooms ?t) k = Some ?r"
    using touches_frame(1) [OF v(2)] by (simp add: frame_simps with_store_def)
  have "(cid, p) \<in> set (r_Clients ?r)" using m by (simp add: map_of_SomeD)
  moreover have closed: "\<not> c_open (s_heap ?t p)" by simp
  ultimately have "broadcastPeerList ?r ?t = None"
    unfolding broadcastPeerList_def
    using foldM_closed_member [where P = "\<lambda>_. False" and ms = "r_Clients ?r" and s = ?t and cid = cid and p = p] by simp
  with ban rooms m closed show ?thesis by auto
qed

theorem ban_breaks_broadcast_witness:
  "\<exists>t r'. banClient ''lab'' ''bob00002'' demo_lab = Some (t, True) \<and> mget (s_rooms t) ''lab'' = Some r' \<and>
    mget (r_Clients r') ''bob00002'' = Some 1 \<and> \<not> c_open (s_heap t 1) \<and> broadcastPeerList r' t = None"
  by (rule ban_breaks_broadcast [OF demo_lab_ok, where r = "snd (hd (s_rooms demo_lab))"])
     (simp_all add: target_room_def rooms_named_def demo_lab_simps)

text \<open>A client whose ID, which it chooses in the connection URL, has fewer than eight bytes crashes the
  server by joining a room that does not exist.\<close>

theorem short_id_join_panics:
  assumes "c_roomKey (s_heap s p) = []" "findRoomByName n h s = Inl ''room does not exist''"
    and "mget (s_rooms s) (roomKey n h) = None" "c_id (s_heap s p) \<noteq> []" "length (c_id (s_heap s p)) < 8"
  shows "join_room p n h now s = None"
  using assms by (auto simp: join_room_def getOrCreateRoom_def Let_def new_room_def slice_def)

theorem short_id_join_panics_witness: "join_room 0 ''lab'' [] 5 (demo_state ''me'') = None"
  using short_id_join_panics [of "demo_state ''me''" 0 "''lab''" "[]" 5]
  by (simp add: demo_state_def start_server_def new_client_def findRoomByName_def newHub_def LoadRooms_def)

text \<open>The removal of a stale connection goes by ID: when a client has reconnected and joined its room again
  (connection \<open>q\<close>) before the old connection \<open>p\<close> is unregistered, unregistering the old one takes the
  new one out of the room, and the new connection stays open without knowing.\<close>

theorem stale_unregister_drops_reconnected:
  assumes ok: "srv_ok s" and q: "member s k cid q" and p: "p \<noteq> q" "c_id (s_heap s p) = cid" "c_roomKey (s_heap s p) = k"
  shows "\<exists>t. removeClientFromRoom p s = Some t \<and> (\<forall>q'. \<not> member t k cid q') \<and> c_roomKey (s_heap t q) = k \<and> c_open (s_heap t q)"
proof -
  from q obtain r0 where r0: "mget (s_rooms s) k = Some r0" by (auto simp: member_def)
  define r where "r = without (c_id (s_heap s p)) r0"
  define s1 where "s1 = put_room k r s"
  have ok1: "srv_ok s1"
    unfolding s1_def r_def without_def by (rule srv_ok_shrinks [OF ok shrinks_del_member [OF ok r0]])
  have gone: "\<not> member s1 k cid q'" for q' by (simp add: s1_def r_def without_def p(2))
  have "q \<notin> snd ` set (r_Clients r)"
  proof
    assume "q \<in> snd ` set (r_Clients r)"
    then obtain cid' where m: "member s1 k cid' q"
      using member_ptr [of s1 k r q] ok1 by (auto simp: srv_ok_def s1_def frame_simps)
    then have "cid' = cid" using srv_ok_member [OF ok1 m] srv_ok_member [OF ok q] by (simp add: s1_def frame_simps)
    with m gone show False by simp
  qed
  then obtain u where u: "removeClientFromRoom p s = Some (upd_client p (\<lambda>c. c\<lparr>c_room := [], c_roomKey := []\<rparr>) u)" "shrinks s1 u"
    "same_client (s_heap u q) (s_heap s q)"
    using removeClientFromRoom_found [OF ok p(3) r0 r_def s1_def] by blast
  have "\<not> member u k cid q'" for q' using shrinksD(4) [OF u(2)] gone by blast
  with u(1,3) p(1) srv_ok_member [OF ok q] show ?thesis by (simp add: same_client_def)
qed

text \<open>The reconnected member \<open>1\<close> and the stale connection \<open>2\<close> with the same ID.\<close>

definition demo_stale :: srv where
  "demo_stale = demo_lab\<lparr>s_heap := (s_heap demo_lab)(2 := s_heap demo_lab 1), s_next := 3\<rparr>"

lemma demo_stale_ok: "srv_ok demo_stale"
  by (auto simp: srv_ok_def rooms_wf_def members_ok_def closing_ok_def member_def demo_stale_def demo_lab_simps split: if_splits)

theorem stale_unregister_drops_reconnected_witness:
  "\<exists>t. removeClientFromRoom 2 demo_stale = Some t \<and> (\<forall>q'. \<not> member t ''lab'' ''bob00002'' q') \<and>
     c_roomKey (s_heap t 1) = ''lab'' \<and> c_open (s_heap t 1)"
  by (rule stale_unregister_drops_reconnected [OF demo_stale_ok])
     (simp_all add: member_def demo_stale_def demo_lab_simps)

text \<open>The relay checks the room of the first connection found under the sender's ID, not of the
  connection that sent the message: a second connection with the ID of a member, itself in another
  room, reaches the members of that room.\<close>

theorem relay_checks_id_not_connection:
  assumes ok: "srv_ok s" and f: "findClient cid s = Some q" "findClient to s = Some tp"
    and same: "c_roomKey (s_heap s q) = c_roomKey (s_heap s tp)" and p: "c_id (s_heap s p) = cid"
    and msg: "mTo msg = to" "to \<noteq> []" "mPayload msg = Some (v, n)" "\<not> isDataRelay (mPayload msg)"
    and buf: "length (c_send (s_heap s tp)) < send_cap"
  shows "\<exists>t. handleRelayData p msg s = Some t \<and> c_send (s_heap t tp) = c_send (s_heap s tp) @
    [marshal_message \<lparr>mType = ''relay_data'', mFrom = cid, mTo = to, mRoom = [], mPayload = mPayload msg\<rparr>]"
proof -
  obtain k1 where m1: "member s k1 cid q" using findClient_member [of s cid q] f ok by (auto simp: srv_ok_def)
  have ne: "c_roomKey (s_heap s q) \<noteq> []"
  proof -
    obtain r where "mget (s_rooms s) k1 = Some r" using m1 by (auto simp: member_def)
    then show ?thesis using rooms_wf_at [of "s_rooms s" k1 r] ok srv_ok_member [OF ok m1] by (auto simp: srv_ok_def)
  qed
  obtain k2 where m2: "member s k2 to tp" using findClient_member [of s to tp] f ok by (auto simp: srv_ok_def)
  have op: "c_open (s_heap s tp)" using srv_ok_member [OF ok m2] by simp
  show ?thesis
    using f same ne op p msg buf
    by (auto simp: handleRelayData_def relayData_def Let_def try_send_def frame_simps split: option.splits)
qed

text \<open>\<open>2\<close> claims the ID of \<open>0\<close> and is in no room.\<close>

theorem relay_checks_id_not_connection_witness:
  "\<exists>t. handleRelayData 2 \<lparr>mType = ''relay_data'', mFrom = [], mTo = ''bob00002'', mRoom = [], mPayload = Some (JNull, 4)\<rparr>
      (demo_lab\<lparr>s_heap := (s_heap demo_lab)(2 := new_client ''alice001'')\<rparr>) = Some t \<and>
     c_send (s_heap t 1) = [marshal_message \<lparr>mType = ''relay_data'', mFrom = ''alice001'', mTo = ''bob00002'', mRoom = [],
       mPayload = Some (JNull, 4)\<rparr>]"
proof -
  let ?s = "demo_lab\<lparr>s_heap := (s_heap demo_lab)(2 := new_client ''alice001'')\<rparr>"
  have ok: "srv_ok ?s"
    by (auto simp: srv_ok_def rooms_wf_def members_ok_def closing_ok_def member_def demo_lab_simps split: if_splits)
  from relay_checks_id_not_connection [OF ok, of "''alice001''" 0 "''bob00002''" 1 2
      "\<lparr>mType = ''relay_data'', mFrom = [], mTo = ''bob00002'', mRoom = [], mPayload = Some (JNull, 4)\<rparr>" JNull 4]
  show ?thesis by (simp add: findClient_def isDataRelay_def get_str_def send_cap_def demo_lab_simps)
qed

section \<open>Delivery and authorisation\<close>

text \<open>Queueing appends at the end (or drops when the buffer is full) and each successful write sends the
  whole queue as one frame, so that what has been written followed by what is queued is always
  the sequence of messages accepted: messages to a client arrive in order, without loss or repetition.\<close>

theorem delivery_in_order:
  "concat (c_wire (s_heap (writePump_step p WriteOk s) q)) @ c_send (s_heap (writePump_step p WriteOk s) q)
     = concat (c_wire (s_heap s q)) @ c_send (s_heap s q) \<and>
   (case try_send p m s of None \<Rightarrow> \<not> c_open (s_heap s p)
    | Some t \<Rightarrow> concat (c_wire (s_heap t q)) @ c_send (s_heap t q) = concat (c_wire (s_heap s q)) @ c_send (s_heap s q) @
        (if q = p \<and> length (c_send (s_heap s p)) < send_cap then [m] else []))"
  by (auto simp: writePump_step_def close_conn_def try_send_def Let_def split: list.splits)

text \<open>The session table after a token has been presented: an expired entry of this token is dropped.\<close>

definition sessions_after :: "session_map \<Rightarrow> string \<Rightarrow> int \<Rightarrow> session_map" where
  "sessions_after ss token now =
     (case mget ss token of Some created \<Rightarrow> if token \<noteq> [] \<and> now - created > 24 * time_hour then mdel token ss else ss | None \<Rightarrow> ss)"

lemma validSession_denied:
  assumes "token = [] \<or> (\<forall>created. mget ss token = Some created \<longrightarrow> now - created > 24 * time_hour)"
  shows "validSession ss token now = (sessions_after ss token now, False)"
  using assms by (auto simp: validSession_def sessions_after_def sessionMaxAge_def split: option.split)

lemma requireAuth_denied:
  "validSession (s_sessions s) (getSessionToken r) now = (ss, False) \<Longrightarrow> requireAuth now f r s = Some (s\<lparr>s_sessions := ss\<rparr>, (401, BErr ''unauthorized''))"
  by (simp add: requireAuth_def Let_def)

text \<open>Claim C17.
  A request to any API path other than login and health, whose token is empty, unknown or older than 24 hours, is answered with
  401. The server's state stays exactly as it is, but for the entry of the presented token, which is removed from the session table
  if it has expired: no other session ends, none begins, and no room, member, ban or setting changes.\<close>

theorem api_requires_session:
  assumes "rq_path r \<in> {''/api/rooms'', ''/api/rooms/kick'', ''/api/relay'', ''/api/rooms/lock'', ''/api/rooms/ban'',
      ''/api/rooms/unban'', ''/api/auth'', ''/api/stats'', ''/api/stun''}"
    and "getSessionToken r = [] \<or> (\<forall>created. mget (s_sessions s) (getSessionToken r) = Some created \<longrightarrow> now - created > 24 * time_hour)"
  shows "serve sha up rnd now r s
    = Some (s\<lparr>s_sessions := sessions_after (s_sessions s) (getSessionToken r) now\<rparr>, (401, BErr ''unauthorized''))"
  using assms(1) requireAuth_denied [OF validSession_denied [OF assms(2)]]
  by (elim insertE emptyE) (simp_all add: serve_def)

theorem api_requires_session_witness:
  "serve (\<lambda>b. b) True [] (25 * time_hour) \<lparr>rq_method = ''POST'', rq_path = ''/api/rooms/ban'', rq_remote = ''10.0.0.1:5'', rq_cookie = None,
      rq_authorization = ''Bearer 00'', rq_query = [], rq_body = None\<rparr> (demo_lab\<lparr>s_sessions := [(''00'', 0), (''11'', 0)]\<rparr>)
    = Some (demo_lab\<lparr>s_sessions := [(''11'', 0)]\<rparr>, (401, BErr ''unauthorized''))"
proof -
  let ?r = "\<lparr>rq_method = ''POST'', rq_path = ''/api/rooms/ban'', rq_remote = ''10.0.0.1:5'', rq_cookie = None,
      rq_authorization = ''Bearer 00'', rq_query = [], rq_body = None\<rparr>"
  let ?s = "demo_lab\<lparr>s_sessions := [(''00'', 0), (''11'', 0)]\<rparr>"
  have t: "getSessionToken ?r = ''00''" by (simp add: getSessionToken_def has_prefix_def trim_prefix_def)
  have "sessions_after [(''00'', 0), (''11'', 0)] ''00'' (25 * time_hour) = [(''11'', 0)]"
    by (simp add: sessions_after_def time_hour_def)
  with api_requires_session [of ?r ?s "25 * time_hour"] show ?thesis
    unfolding t by (simp add: time_hour_def)
qed

end
