(* ===== verification/Server_Persist.thy ===== *)
theory Server_Persist
  imports Server_Safety
begin

text \<open>
  Persistence: the store always mirrors the persistent rooms of the hub, so that a restart brings them
  back with their passwords and bans. The argument is a refinement: \<open>pview\<close> is what of the hub's map
  a restart must preserve; operations either leave it and the store alone (\<open>quiet\<close>) or change both in
  step, by the laws of the interface \<open>room_store\<close>.
\<close>

section \<open>The view that survives\<close>

definition pview :: "(string \<times> room) list \<Rightarrow> string \<Rightarrow> (string \<times> string \<times> (string \<times> bool) list) option" where
  "pview rs k = (case mget rs k of None \<Rightarrow> None
     | Some r \<Rightarrow> if r_Persistent r then Some (r_Name r, r_PasswordHash r, r_Blacklist r) else None)"

definition quiet :: "srv \<Rightarrow> srv \<Rightarrow> bool" where
  "quiet s t \<longleftrightarrow> s_store t = s_store s \<and> pview (s_rooms t) = pview (s_rooms s)"

definition persisted :: "srv \<Rightarrow> bool" where
  "persisted s \<longleftrightarrow> (\<exists>d. s_store s = Some d \<and> mwf (db_rooms d) \<and> sqlite.mirrors (s_rooms s) d)"

lemma mirrors_pview:
  "sqlite.mirrors rs d \<longleftrightarrow> db_ok d \<and> (\<forall>k. loaded d k = map_option (\<lambda>(n, h, b). (n, h)) (pview rs k)) \<and>
     (\<forall>k n h b c. pview rs k = Some (n, h, b) \<longrightarrow> mget b c = Some True \<longrightarrow> loaded_ban d k c)"
  by (auto simp: sqlite.mirrors_def pview_def split: option.splits if_splits)

lemma persisted_quiet: "quiet s t \<Longrightarrow> persisted s \<Longrightarrow> persisted t"
  by (simp add: persisted_def quiet_def mirrors_pview)

lemma quiet_refl [simp]: "quiet s s"
  by (simp add: quiet_def)

lemma quiet_trans: "quiet s t \<Longrightarrow> quiet t u \<Longrightarrow> quiet s u"
  by (simp add: quiet_def)

lemma quiet_frame: "s_rooms t = s_rooms s \<Longrightarrow> s_store t = s_store s \<Longrightarrow> quiet s t"
  by (simp add: quiet_def)

lemma quiet_send: "send_eq s t \<Longrightarrow> quiet s t"
  by (simp add: quiet_frame send_eq_frame)

lemma quiet_upd [simp]: "quiet s (upd_client p f s)"
  by (simp add: quiet_frame frame_simps)

lemma quiet_put:
  assumes "mget (s_rooms s) k = Some r" "r_Name r' = r_Name r" "r_PasswordHash r' = r_PasswordHash r"
    "r_Blacklist r' = r_Blacklist r" "r_Persistent r' = r_Persistent r"
  shows "quiet s (put_room k r' s)"
  using assms by (simp add: quiet_def frame_simps pview_def fun_eq_iff)

lemma quiet_del: "mget (s_rooms s) k = Some r \<Longrightarrow> \<not> r_Persistent r \<Longrightarrow> quiet s (del_room k s)"
  by (simp add: quiet_def frame_simps pview_def fun_eq_iff)

lemma quiet_close_send: "close_send p s = Some t \<Longrightarrow> quiet s t"
  by (auto simp: close_send_def split: if_splits)

lemma quiet_close_conn [simp]: "quiet s (close_conn p s)"
  by (simp add: close_conn_def)

lemma quiet_foldM:
  assumes "foldM f xs s = Some t" "\<And>x s t. f x s = Some t \<Longrightarrow> quiet s t"
  shows "quiet s t"
  using foldM_keeps [where P = "quiet s", OF assms(1) quiet_refl] assms(2) quiet_trans by blast

lemma quiet_close_member: "close_member p s = Some t \<Longrightarrow> quiet s t \<and> s_rooms t = s_rooms s"
  by (auto simp: close_member_def close_send_def frame_simps send_eq_frame dest!: try_send_eq
      intro: quiet_frame split: if_splits Option.bind_splits)

section \<open>Quiet operations\<close>

lemma removeClientFromRoom_quiet:
  assumes "srv_ok s" "removeClientFromRoom p s = Some t"
  shows "quiet s t"
proof (cases "c_roomKey (s_heap s p) = [] \<or> mget (s_rooms s) (c_roomKey (s_heap s p)) = None")
  case True
  then show ?thesis using removeClientFromRoom_none(1) [OF assms(1) True] assms(2) by simp
next
  case False
  define k where "k = c_roomKey (s_heap s p)"
  from False obtain r0 where r0: "mget (s_rooms s) k = Some r0" by (auto simp: k_def)
  have key: "r_Key r0 = k" using rooms_wf_at [of "s_rooms s" k r0] assms(1) r0 by (simp add: srv_ok_def)
  define r where "r = without (c_id (s_heap s p)) r0"
  define s1 where "s1 = put_room k r s"
  have q1: "quiet s s1" unfolding s1_def by (rule quiet_put [OF r0]) (simp_all add: r_def without_def)
  have r1: "mget (s_rooms s1) k = Some r" "r_Key r = k" by (simp_all add: s1_def frame_simps r_def without_def key)
  have "removeClientFromRoom p s =
      (if (r_OwnerID r \<noteq> [] \<and> r_OwnerID r = c_id (s_heap s p)) \<and> \<not> r_Persistent r
       then foldM (\<lambda>(cid, q). close_member q) (r_Clients r) s1 \<bind> (\<lambda>t. Some (del_room k t))
       else if r_Clients r = [] \<and> \<not> r_Persistent r then Some (del_room k s1)
       else broadcastPeerList r s1) \<bind> (\<lambda>t. Some (upd_client p (\<lambda>c. c\<lparr>c_room := [], c_roomKey := []\<rparr>) t))"
    using r0 False key by (simp add: removeClientFromRoom_def Let_def r_def s1_def k_def without_def cong: if_cong split del: if_split)
  then obtain u where u: "t = upd_client p (\<lambda>c. c\<lparr>c_room := [], c_roomKey := []\<rparr>) u" and
    cases: "(\<exists>v. foldM (\<lambda>(cid, q). close_member q) (r_Clients r) s1 = Some v \<and> u = del_room k v \<and> \<not> r_Persistent r) \<or>
      (u = del_room k s1 \<and> \<not> r_Persistent r) \<or> broadcastPeerList r s1 = Some u"
    using assms(2) by (auto split: Option.bind_splits if_splits)
  have "quiet s1 u"
    using cases
  proof (elim disjE exE conjE)
    fix v assume v: "foldM (\<lambda>(cid, q). close_member q) (r_Clients r) s1 = Some v" "u = del_room k v" "\<not> r_Persistent r"
    have "quiet s1 v \<and> s_rooms v = s_rooms s1"
      by (rule foldM_keeps [where P = "\<lambda>v. quiet s1 v \<and> s_rooms v = s_rooms s1", OF v(1)])
         (auto dest!: quiet_close_member intro: quiet_trans)
    then show "quiet s1 u" using v r1 quiet_del [of v k r] quiet_trans by auto
  next
    assume "broadcastPeerList r s1 = Some u"
    then show "quiet s1 u"
      by (auto simp: broadcastPeerList_def dest!: try_send_eq elim!: quiet_foldM intro: quiet_send)
  qed (use quiet_del [OF r1(1)] in simp)
  then show ?thesis unfolding u using q1 quiet_trans by fastforce
qed

lemma broadcastPeerList_quiet: "broadcastPeerList r s = Some t \<Longrightarrow> quiet s t"
  by (auto simp: broadcastPeerList_def dest!: try_send_eq elim!: quiet_foldM intro: quiet_send)

lemma broadcast_quiet: "broadcast r m x s = Some t \<Longrightarrow> quiet s t"
  by (auto simp: broadcast_def dest!: try_send_eq elim!: quiet_foldM intro: quiet_send split: if_splits)

lemma try_send_quiet: "try_send p m s = Some t \<Longrightarrow> quiet s t"
  using try_send_eq quiet_send by blast

lemma handleLeave_quiet: "srv_ok s \<Longrightarrow> handleLeave p s = Some t \<Longrightarrow> quiet s t"
  by (auto simp: handleLeave_def intro: removeClientFromRoom_quiet split: if_splits)

lemma enter_room_quiet: "quiet s (enter_room p k s)"
proof (cases "mget (s_rooms s) k")
  case (Some r)
  have "quiet s (put_room k r' (s\<lparr>s_closing := c\<rparr>))" if "r' = r\<lparr>r_Clients := m\<rparr>" for r' c m
    using quiet_put [of "s\<lparr>s_closing := c\<rparr>" k r r'] Some that by (simp add: quiet_def)
  then show ?thesis using Some by (simp add: enter_room_def Let_def)
qed (simp add: enter_room_def)

lemma admit_quiet:
  assumes "admit p n rkey k s = Some t"
  shows "quiet s t"
proof -
  let ?e = "enter_room p k (upd_client p (\<lambda>c. c\<lparr>c_room := n, c_roomKey := rkey, c_status := ''connecting''\<rparr>) s)"
  have e: "quiet s ?e" by (rule quiet_trans [OF quiet_upd enter_room_quiet])
  show ?thesis
  proof (cases "mget (s_rooms ?e) k")
    case None
    then show ?thesis using assms e unfolding admit_def Let_def by simp
  next
    case (Some r)
    then have "broadcastPeerList r ?e \<bind> (\<lambda>s. if r_RelayDisabled r \<or> s_globalRelayOff s
        then try_send p (room_config_msg True) s else Some s) = Some t"
      using assms unfolding admit_def Let_def by simp
    then obtain u where "broadcastPeerList r ?e = Some u" "try_send p (room_config_msg True) u = Some t \<or> t = u"
      by (cases "broadcastPeerList r ?e") (auto split: if_splits)
    with e show ?thesis by (meson broadcastPeerList_quiet try_send_quiet quiet_trans quiet_refl)
  qed
qed

lemma getOrCreateRoom_volatile:
  assumes "getOrCreateRoom n h own nm now s = Some (t, k)" "own \<noteq> []"
  shows "quiet s t"
proof (cases "mget (s_rooms s) (roomKey n h)")
  case None
  then have "t = put_room (roomKey n h) (new_room n h own nm now) s"
    using assms by (auto simp: getOrCreateRoom_def Let_def new_room_def split: Option.bind_splits)
  then show ?thesis using None assms(2) by (simp add: quiet_def frame_simps pview_def new_room_def fun_eq_iff)
qed (use assms in \<open>simp add: getOrCreateRoom_def\<close>)

lemma join_room_quiet:
  assumes "srv_ok s" "join_room p n h now s = Some t" "c_id (s_heap s p) \<noteq> []"
  shows "quiet s t"
proof -
  obtain s1 where s1: "(if c_roomKey (s_heap s p) \<noteq> [] then handleLeave p s else Some s) = Some s1"
    using assms(2) by (auto simp: join_room_def split: Option.bind_splits)
  have q1: "quiet s s1" using s1 handleLeave_quiet [OF assms(1)] by (auto split: if_splits)
  have cid: "c_id (s_heap s1 p) \<noteq> []"
    using s1 handleLeave_ok [OF assms(1), of p] assms(3) by (auto split: if_splits)
  have gate: "quiet u t"
    if "(case mget (s_rooms u) k of None \<Rightarrow> Some u
        | Some r \<Rightarrow> if IsBanned r (c_id (s_heap u p)) then sendError p ''you are banned from this room'' u
                    else if r_Locked r then sendError p ''room is locked, no new connections allowed'' u
                    else admit p n (r_Key r) k u) = Some t" for u k
    using that by (auto simp: sendError_def intro: try_send_quiet admit_quiet split: option.splits if_splits)
  have "quiet s1 t"
  proof (cases "findRoomByName n h s1")
    case (Inr k)
    then show ?thesis using assms(2) s1 gate by (simp add: join_room_def)
  next
    case (Inl reason)
    show ?thesis
    proof (cases "reason = ''incorrect room password''")
      case True
      then show ?thesis using assms(2) s1 Inl by (simp add: join_room_def sendError_def try_send_quiet)
    next
      case False
      then obtain u k where u: "getOrCreateRoom n h (c_id (s_heap s1 p)) (c_name (s_heap s1 p)) now s1 = Some (u, k)"
        using assms(2) s1 Inl by (auto simp: join_room_def split: option.splits)
      have "quiet s1 u" by (rule getOrCreateRoom_volatile [OF u cid])
      moreover have "quiet u t" using gate assms(2) s1 Inl False u by (simp add: join_room_def)
      ultimately show ?thesis by (rule quiet_trans)
    qed
  qed
  with q1 show ?thesis by (rule quiet_trans)
qed

lemma handleJoin_quiet:
  assumes "srv_ok s" "handleJoin p msg now s = Some t" "c_id (s_heap s p) \<noteq> []"
  shows "quiet s t"
proof -
  obtain s1 n h where j: "join_payload msg p s = (s1, n, h)" by (metis prod_cases3)
  obtain rl b where rl: "rl_allow (s_joinLimiter s1) (c_id (s_heap s1 p)) now = (rl, b)" by force
  let ?s2 = "s1\<lparr>s_joinLimiter := rl\<rparr>"
  have q1: "quiet s s1" using j by (auto simp: join_payload_def Let_def split: option.splits)
  have q2: "quiet s ?s2" using q1 by (simp add: quiet_def)
  have ok2: "srv_ok ?s2" using join_payload_ok(1) [OF assms(1) j] by (rule srv_ok_cong) simp_all
  have "c_id (s_heap ?s2 p) \<noteq> []" using assms(3) join_payload_ok(3) [OF assms(1) j] by simp
  then have "quiet ?s2 t \<or> quiet s1 t"
    using assms(2) j rl join_room_quiet [OF ok2, of p n h now t]
    by (auto simp: handleJoin_def sendError_def Let_def intro: try_send_quiet split: if_splits)
  with q1 q2 quiet_trans show ?thesis by blast
qed

lemma handleStatusUpdate_quiet: "handleStatusUpdate p msg s = Some t \<Longrightarrow> quiet s t"
  using quiet_trans [OF quiet_upd broadcastPeerList_quiet]
  by (auto simp: handleStatusUpdate_def Let_def split: option.splits if_splits)

lemma relayData_quiet:
  assumes "relayData from to data s = Some t"
  shows "quiet s t"
proof (cases "findClient from s = None \<or> findClient to s = None")
  case True
  then show ?thesis using assms by (auto simp: relayData_def split: option.splits)
next
  case False
  then obtain sp tp where f: "findClient from s = Some sp" "findClient to s = Some tp" by auto
  let ?k = "c_roomKey (s_heap s tp)"
  have q: "quiet s (case mget (s_rooms s) ?k of None \<Rightarrow> s | Some r \<Rightarrow> put_room ?k (r\<lparr>r_BytesRelayed := r_BytesRelayed r + n\<rparr>) s)" for n
    by (cases "mget (s_rooms s) ?k") (auto intro: quiet_put)
  show ?thesis using assms f quiet_trans [OF q try_send_quiet]
    by (simp add: relayData_def Let_def split: if_splits)
qed

lemma store_stun_info_quiet: "quiet s (store_stun_info p msg s)"
  by (auto simp: store_stun_info_def Let_def quiet_def frame_simps split: option.splits)

lemma handleMessage_quiet:
  assumes "srv_ok s" "handleMessage p msg now s = Some t" "c_id (s_heap s p) \<noteq> []"
  shows "quiet s t"
proof -
  have fwd: "forwardToTarget msg u = Some t \<Longrightarrow> quiet u t" "broadcastToRoom p msg u = Some t \<Longrightarrow> quiet u t" for u
    by (auto simp: forwardToTarget_def broadcastToRoom_def Let_def intro: try_send_quiet broadcast_quiet split: if_splits option.splits)
  have feat: "quiet s (handleFeatureUpdate p msg s)"
    by (auto simp: handleFeatureUpdate_def split: option.splits prod.splits bool.splits)
  have cases: "handleJoin p msg now s = Some t \<or> handleLeave p s = Some t \<or> forwardToTarget msg s = Some t \<or>
      forwardToTarget msg (store_stun_info p msg s) = Some t \<or> broadcastToRoom p msg (store_stun_info p msg s) = Some t \<or>
      handleStatusUpdate p msg s = Some t \<or> t = handleFeatureUpdate p msg s \<or> t = s \<or>
      relayData (c_id (s_heap s p)) (mTo msg) (mPayload msg) s = Some t"
    using assms(2) unfolding handleMessage_def Let_def handleRelayData_def by (simp split: if_splits)
  then show ?thesis
    by (elim disjE)
       (auto dest: handleJoin_quiet [OF assms(1) _ assms(3)] handleLeave_quiet [OF assms(1)] fwd handleStatusUpdate_quiet
          relayData_quiet intro: feat quiet_trans [OF store_stun_info_quiet])
qed

section \<open>Operations that write the store\<close>

lemma persisted_store: "s_store t = Some d \<Longrightarrow> mwf (db_rooms d) \<Longrightarrow> sqlite.mirrors (s_rooms t) d \<Longrightarrow> persisted t"
  by (auto simp: persisted_def)

lemma store_mwf:
  "mwf (db_rooms d) \<Longrightarrow> mwf (db_rooms (SaveRoom r d))" "mwf (db_rooms d) \<Longrightarrow> mwf (db_rooms (DeleteRoom k d))"
  "mwf (db_rooms d) \<Longrightarrow> mwf (db_rooms (SaveBan k c d))" "mwf (db_rooms d) \<Longrightarrow> mwf (db_rooms (DeleteBan k c d))"
  "mwf (db_rooms d) \<Longrightarrow> mwf (db_rooms (UpdateBytesRelayed k n d))"
  by (auto simp: SaveRoom_def DeleteRoom_def SaveBan_def DeleteBan_def UpdateBytesRelayed_def split: option.splits)

lemma getOrCreateRoom_persisted:
  assumes "persisted s" "getOrCreateRoom n h own nm now s = Some (t, k)"
  shows "persisted t"
proof (cases "own \<noteq> [] \<or> mget (s_rooms s) (roomKey n h) \<noteq> None")
  case True
  then show ?thesis using getOrCreateRoom_volatile [OF assms(2)] persisted_quiet [OF _ assms(1)] assms
    by (auto simp: getOrCreateRoom_def)
next
  case False
  let ?r = "new_room n h own nm now"
  obtain d where d: "s_store s = Some d" "mwf (db_rooms d)" "sqlite.mirrors (s_rooms s) d" using assms(1) by (auto simp: persisted_def)
  have "t = with_store (SaveRoom ?r) (put_room (roomKey n h) ?r s)"
    using False assms(2) by (auto simp: getOrCreateRoom_def Let_def new_room_def)
  then show ?thesis
    using d False sqlite.mirrors_create [OF d(3), of ?r "roomKey n h"]
    by (intro persisted_store [of t "SaveRoom ?r d"]) (simp_all add: with_store_def frame_simps store_mwf, simp_all add: new_room_def)
qed

lemma banClient_persisted:
  assumes ok: "srv_ok s" and "persisted s" "banClient n cid s = Some (t, b)"
  shows "persisted t"
proof (cases "target_room n s")
  case None
  then show ?thesis using assms by (simp add: banClient_def)
next
  case (Some kr)
  obtain k r where kr: "kr = (k, r)" by (cases kr)
  have r: "mget (s_rooms s) k = Some r" "r_Key r = k"
    using target_room_Some [of s n k r] Some kr rooms_wf_at [of "s_rooms s" k r] ok by (auto simp: srv_ok_def)
  obtain d where d: "s_store s = Some d" "mwf (db_rooms d)" "sqlite.mirrors (s_rooms s) d" using assms(2) by (auto simp: persisted_def)
  let ?u = "with_store (SaveBan k cid) (put_room k (r\<lparr>r_Blacklist := mput cid True (r_Blacklist r)\<rparr>) s)"
  have "persisted ?u"
    by (rule persisted_store [of ?u "SaveBan k cid d"])
       (simp_all add: with_store_def frame_simps d(1) d(2) store_mwf sqlite.mirrors_ban [OF d(3) r(1)])
  moreover have "quiet ?u t"
    using assms(3) Some kr r(2)
    by (auto simp: banClient_def Let_def split: option.splits Option.bind_splits
        dest!: try_send_quiet quiet_close_send intro: quiet_trans)
  ultimately show ?thesis by (rule persisted_quiet [rotated])
qed

lemma unbanClient_persisted:
  assumes ok: "srv_ok s" and "persisted s"
  shows "persisted (fst (unbanClient n cid s))"
proof (cases "target_room n s")
  case None
  then show ?thesis using assms by (simp add: unbanClient_def)
next
  case (Some kr)
  obtain k r where kr: "kr = (k, r)" by (cases kr)
  have r: "mget (s_rooms s) k = Some r" "r_Key r = k"
    using target_room_Some [of s n k r] Some kr rooms_wf_at [of "s_rooms s" k r] ok by (auto simp: srv_ok_def)
  obtain d where d: "s_store s = Some d" "mwf (db_rooms d)" "sqlite.mirrors (s_rooms s) d" using assms(2) by (auto simp: persisted_def)
  show ?thesis unfolding unbanClient_def Some kr
    by (rule persisted_store [where d = "DeleteBan k cid d"])
       (simp_all add: with_store_def frame_simps d(1) d(2) r(2) store_mwf sqlite.mirrors_unban [OF d(3) r(1)])
qed

lemma deleteRoom_persisted:
  assumes ok: "srv_ok s" and "persisted s" "deleteRoom n s = Some (t, b)"
  shows "persisted t"
proof -
  obtain u where u: "foldM (\<lambda>(k, r). foldM (\<lambda>(cid, p). close_send p) (r_Clients r)) (rooms_named n s) s = Some u"
    "t = fold (\<lambda>(k, r) s. with_store (DeleteRoom k) (del_room k s)) (rooms_named n s) u"
    using assms(3) by (auto simp: deleteRoom_def Let_def split: Option.bind_splits)
  have "quiet s u"
    by (rule quiet_foldM [OF u(1)]) (auto elim!: quiet_foldM dest: quiet_close_send)
  then have "persisted u" by (rule persisted_quiet [OF _ assms(2)])
  moreover have "persisted v \<Longrightarrow> persisted (fold (\<lambda>(k, r) s. with_store (DeleteRoom k) (del_room k s)) rs v)" for rs v
  proof (induction rs arbitrary: v)
    case (Cons x rs)
    obtain k r where x: "x = (k, r)" by (cases x)
    obtain d where d: "s_store v = Some d" "mwf (db_rooms d)" "sqlite.mirrors (s_rooms v) d" using Cons.prems by (auto simp: persisted_def)
    have "persisted (with_store (DeleteRoom k) (del_room k v))"
      by (rule persisted_store [where d = "DeleteRoom k d"])
         (simp_all add: with_store_def frame_simps d(1) d(2) store_mwf sqlite.mirrors_delete [OF d(3)])
    then show ?case using Cons.IH x by simp
  qed simp
  ultimately show ?thesis unfolding u(2) by blast
qed

lemma sync_persisted:
  assumes "persisted s"
  shows "persisted (syncBytesToStore s)"
proof -
  have "persisted v \<Longrightarrow> persisted (fold (\<lambda>(k, r). with_store (UpdateBytesRelayed (r_Key r) (r_BytesRelayed r))) rs v)" for rs v
  proof (induction rs arbitrary: v)
    case (Cons x rs)
    obtain k r where x: "x = (k, r)" by (cases x)
    obtain d where d: "s_store v = Some d" "mwf (db_rooms d)" "sqlite.mirrors (s_rooms v) d" using Cons.prems by (auto simp: persisted_def)
    have "persisted (with_store (UpdateBytesRelayed (r_Key r) (r_BytesRelayed r)) v)"
      by (rule persisted_store [where d = "UpdateBytesRelayed (r_Key r) (r_BytesRelayed r) d"])
         (simp_all add: with_store_def d(1) d(2) store_mwf sqlite.mirrors_sync [OF d(3)])
    then show ?case using Cons.IH x by simp
  qed simp
  with assms show ?thesis by (simp add: syncBytesToStore_def)
qed

section \<open>Requests and steps\<close>

lemma accept_client_persisted:
  assumes ok: "srv_ok s" and s: "accept_client cid s = Some t"
  shows "quiet s t"
proof -
  obtain u where u: "disconnectExisting cid s = Some u" "quiet u t"
    using s by (auto simp: accept_client_def Let_def quiet_def split: Option.bind_splits)
  have "srv_ok v \<Longrightarrow> mwf rs \<Longrightarrow> \<forall>(k, r) \<in> set rs. mget (s_rooms v) k = Some r \<Longrightarrow>
      foldM (disconnect_in cid) rs v = Some w \<Longrightarrow> quiet v w" for rs v w
  proof (induction rs arbitrary: v)
    case (Cons x rs)
    obtain k r where x: "x = (k, r)" by (cases x)
    then have r: "mget (s_rooms v) k = Some r" using Cons.prems(3) by simp
    obtain v1 where v1: "disconnect_in cid (k, r) v = Some v1" "shrinks v v1" "\<forall>k'. k' \<noteq> k \<longrightarrow> mget (s_rooms v1) k' = mget (s_rooms v) k'"
      using disconnect_in_ok [OF Cons.prems(1) r] by blast
    have rest: "foldM (disconnect_in cid) rs v1 = Some w" using Cons.prems(4) x v1(1) by simp
    have "\<forall>(k', r') \<in> set rs. mget (s_rooms v1) k' = Some r'"
      using v1(3) Cons.prems(2,3) x by (fastforce simp: image_iff)
    from Cons.IH [OF srv_ok_shrinks [OF Cons.prems(1) v1(2)] _ this rest] Cons.prems(2) x have "quiet v1 w" by simp
    moreover have "quiet v v1"
    proof (cases "mget (r_Clients r) cid")
      case None
      then show ?thesis using v1(1) by (simp add: disconnect_in_def)
    next
      case (Some old)
      then obtain y where y: "close_send old v = Some y" "v1 = put_room k (r\<lparr>r_Clients := mdel cid (r_Clients r)\<rparr>) (close_conn old y)"
        using v1(1) by (auto simp: disconnect_in_def split: Option.bind_splits)
      have "quiet v (close_conn old y)" using quiet_close_send [OF y(1)] quiet_trans quiet_close_conn by blast
      moreover have "s_rooms (close_conn old y) = s_rooms v"
        using y(1) by (auto simp: close_send_def close_conn_def frame_simps split: if_splits)
      ultimately show ?thesis unfolding y(2)
        using quiet_trans quiet_put [of "close_conn old y" k r "r\<lparr>r_Clients := mdel cid (r_Clients r)\<rparr>"] r by simp
    qed
    ultimately show ?case using quiet_trans by blast
  qed simp
  from this [of s "s_rooms s" u] u(1) ok have "quiet s u"
    by (auto simp: disconnectExisting_alt srv_ok_def rooms_wf_def rooms_self)
  with u(2) quiet_trans show ?thesis by blast
qed

lemma kickClient_quiet:
  assumes ok: "srv_ok s" and k: "kickClient n cid s = Some (t, b)"
  shows "quiet s t"
proof (cases "target_room n s")
  case None
  then show ?thesis using k by (simp add: kickClient_def)
next
  case (Some kr)
  obtain key r where kr: "kr = (key, r)" by (cases kr)
  have r: "mget (s_rooms s) key = Some r" using target_room_Some [of s n key r] Some kr ok by (simp add: srv_ok_def)
  have q: "quiet s (put_room key (r\<lparr>r_Clients := mdel cid (r_Clients r)\<rparr>) s)" by (rule quiet_put [OF r]) simp_all
  show ?thesis
  proof (cases "mget (r_Clients r) cid")
    case None
    then show ?thesis using k Some kr by (simp add: kickClient_def)
  next
    case p: (Some p)
    then obtain u v w where "try_send p (error_msg ''kicked by admin'') (put_room key (r\<lparr>r_Clients := mdel cid (r_Clients r)\<rparr>) s) = Some u"
      "close_send p u = Some v" "broadcastPeerList (r\<lparr>r_Clients := mdel cid (r_Clients r)\<rparr>) (close_conn p v) = Some t"
      using k Some kr by (auto simp: kickClient_def Let_def split: Option.bind_splits)
    then show ?thesis using q try_send_quiet quiet_close_send broadcastPeerList_quiet quiet_close_conn quiet_trans by meson
  qed
qed

lemma moderation_persisted:
  assumes "moderation act r s = Some (t, resp)" "persisted s"
    "\<And>room cid t b. act room cid s = Some (t, b) \<Longrightarrow> persisted t"
  shows "persisted t"
  using assms by (auto simp: moderation_def method_not_allowed_def split: if_splits option.splits Option.bind_splits)

lemma serveWs_quiet:
  assumes ok: "srv_ok s" and t: "serveWs up rnd now r s = Some (t, resp)"
  shows "quiet s t"
proof -
  obtain rl b where rl: "rl_allow (s_wsLimiter s) (clientIP r) now = (rl, b)" by force
  let ?u = "s\<lparr>s_wsLimiter := rl, s_activeConns := s_activeConns s + 1\<rparr>"
  have ok': "srv_ok ?u" by (rule srv_ok_cong [OF ok]) simp_all
  have "t = s\<lparr>s_wsLimiter := rl\<rparr> \<or> (\<exists>cid. accept_client cid ?u = Some t)"
    using t by (auto simp: serveWs_def rl Let_def split: if_splits Option.bind_splits)
  then show ?thesis using accept_client_persisted [OF ok'] by (auto simp: quiet_def)
qed

lemma apiRooms_persisted:
  assumes ok: "srv_ok s" and p: "persisted s" and t: "apiRooms sha now r s = Some (t, resp)"
  shows "persisted t"
proof -
  have "t = s \<or> (\<exists>n h k. getOrCreateRoom n h [] [] now s = Some (t, k)) \<or> (\<exists>n b. deleteRoom n s = Some (t, b))"
    using t by (auto simp: apiRooms_def method_not_allowed_def Let_def split: if_splits option.splits prod.splits Option.bind_splits)
  then show ?thesis using p getOrCreateRoom_persisted deleteRoom_persisted [OF ok p] by blast
qed

lemma apiRelayToggle_quiet:
  assumes ok: "srv_ok s" and t: "apiRelayToggle r s = Some (t, resp)"
  shows "quiet s t"
proof -
  have "t = s \<or> (\<exists>d. t = s\<lparr>s_globalRelayOff := d\<rparr>) \<or> (\<exists>n k rm d m. target_room n s = Some (k, rm) \<and>
      broadcast (rm\<lparr>r_RelayDisabled := d\<rparr>) m [] (put_room k (rm\<lparr>r_RelayDisabled := d\<rparr>) s) = Some t)"
    using t by (auto simp: apiRelayToggle_def Let_def split: if_splits option.splits prod.splits Option.bind_splits)
  moreover have "quiet s t" if "target_room n s = Some (k, rm)"
    "broadcast (rm\<lparr>r_RelayDisabled := d\<rparr>) m [] (put_room k (rm\<lparr>r_RelayDisabled := d\<rparr>) s) = Some t" for n k rm d m
  proof -
    have "quiet s (put_room k (rm\<lparr>r_RelayDisabled := d\<rparr>) s)"
      using quiet_put [of s k rm "rm\<lparr>r_RelayDisabled := d\<rparr>"] target_room_Some [of s n k rm] that(1) ok by (simp add: srv_ok_def)
    with broadcast_quiet [OF that(2)] quiet_trans show ?thesis by blast
  qed
  ultimately show ?thesis by (auto simp: quiet_def)
qed

lemma apiLockToggle_quiet:
  assumes ok: "srv_ok s" and t: "apiLockToggle r s = Some (t, resp)"
  shows "quiet s t"
proof -
  have "t = s \<or> (\<exists>n k rm d. target_room n s = Some (k, rm) \<and> t = put_room k (rm\<lparr>r_Locked := d\<rparr>) s)"
    using t by (auto simp: apiLockToggle_def method_not_allowed_def Let_def split: if_splits option.splits prod.splits)
  then show ?thesis using quiet_put target_room_Some ok by (fastforce simp: srv_ok_def)
qed

text \<open>Every request keeps the store in step.\<close>

lemma serve_persisted:
  assumes ok: "srv_ok s" and p: "persisted s" and t: "serve sha up rnd now r s = Some (t, resp)"
  shows "persisted t"
proof -
  let ?ss = "fst (validSession (s_sessions s) (getSessionToken r) now)"
  let ?u = "s\<lparr>s_sessions := ?ss\<rparr>"
  have ok': "srv_ok ?u" by (rule srv_ok_cong [OF ok]) simp_all
  have p': "persisted ?u" by (rule persisted_quiet [OF _ p]) (simp add: quiet_def)
  have auth: "requireAuth now f r s = Some (t, resp) \<Longrightarrow> t = ?u \<or> f r ?u = Some (t, resp)" for f
    by (auto simp: requireAuth_def Let_def split_beta split: if_splits)
  have act: "persisted v" if "act \<in> {kickClient, banClient, \<lambda>room cid s. Some (unbanClient room cid s)}" "act room cid ?u = Some (v, b)" for act room cid v b
    using that kickClient_quiet [OF ok', of room cid v b] persisted_quiet [OF _ p'] banClient_persisted [OF ok' p', of room cid v b]
      unbanClient_persisted [OF ok' p', of room cid] by auto
  have mod: "apiKick r ?u = Some (t, resp) \<Longrightarrow> persisted t" "apiBan r ?u = Some (t, resp) \<Longrightarrow> persisted t"
    "apiUnban r ?u = Some (t, resp) \<Longrightarrow> persisted t"
    unfolding apiKick_def apiBan_def apiUnban_def by (erule moderation_persisted [OF _ p']; erule act [rotated]; simp)+
  have other: "apiRooms sha now r ?u = Some (t, resp) \<Longrightarrow> persisted t" "apiRelayToggle r ?u = Some (t, resp) \<Longrightarrow> persisted t"
    "apiLockToggle r ?u = Some (t, resp) \<Longrightarrow> persisted t" "serveWs up rnd now r s = Some (t, resp) \<Longrightarrow> persisted t"
    using apiRooms_persisted [OF ok' p'] apiRelayToggle_quiet [OF ok'] apiLockToggle_quiet [OF ok'] serveWs_quiet [OF ok]
      persisted_quiet [OF _ p'] persisted_quiet [OF _ p] by blast+
  have login: "apiLogin rnd now r s = Some (t, resp) \<Longrightarrow> persisted t"
    by (rule persisted_quiet [OF _ p])
       (auto simp: apiLogin_def method_not_allowed_def Let_def quiet_def split: if_splits option.splits prod.splits)
  have "serveWs up rnd now r s = Some (t, resp) \<or> t = s \<or> t = ?u \<or> apiLogin rnd now r s = Some (t, resp) \<or>
      apiRooms sha now r ?u = Some (t, resp) \<or> apiRelayToggle r ?u = Some (t, resp) \<or> apiLockToggle r ?u = Some (t, resp) \<or>
      apiKick r ?u = Some (t, resp) \<or> apiBan r ?u = Some (t, resp) \<or> apiUnban r ?u = Some (t, resp)"
    using t auth unfolding serve_def Let_def
    by (simp add: apiHealth_def split: if_splits) (auto simp: apiAuthCheck_def apiStats_def dest!: auth)
  then show ?thesis using other login p p' mod by blast
qed

lemma srv_step_persisted:
  assumes "srv_step (Some s) (Some t)" "srv_ok s" "persisted s"
  shows "persisted t"
  using assms(1)
proof (rule srv_step_Some)
  fix r sha up rnd now assume "Some t = map_option fst (serve sha up rnd now r s)"
  then obtain resp where "serve sha up rnd now r s = Some (t, resp)" by (cases "serve sha up rnd now r s") auto
  then show ?thesis by (rule serve_persisted [OF assms(2,3)])
next
  fix p data n now assume f: "Some t = readPump_frame p data n now s" "8 \<le> length (c_id (s_heap s p))"
  then have "c_id (s_heap s p) \<noteq> []" by auto
  then have "quiet s t" using f(1) handleMessage_quiet [OF assms(2)]
    by (auto simp: readPump_frame_def split: option.splits prod.splits if_splits)
  then show ?thesis by (rule persisted_quiet [OF _ assms(3)])
next
  fix p assume "Some t = Some (readPump_exit p s)"
  then show ?thesis by (intro persisted_quiet [OF _ assms(3)]) (simp add: readPump_exit_def quiet_def close_conn_def frame_simps Let_def)
next
  fix p res assume "Some t = Some (writePump_step p res s)"
  then show ?thesis by (intro persisted_quiet [OF _ assms(3)])
    (auto simp: writePump_step_def quiet_def close_conn_def frame_simps Let_def split: list.splits write_result.splits)
next
  assume u: "Some t = run_unregister s"
  then have "t = s \<or> (\<exists>p ps. removeClientFromRoom p (s\<lparr>s_unregister := ps\<rparr>) = Some t)"
    by (auto simp: run_unregister_def split: list.splits)
  moreover have "srv_ok (s\<lparr>s_unregister := ps\<rparr>)" for ps by (rule srv_ok_cong [OF assms(2)]) simp_all
  ultimately have "quiet s t" using removeClientFromRoom_quiet by (fastforce simp: quiet_def)
  then show ?thesis by (rule persisted_quiet [OF _ assms(3)])
next
  assume "Some t = run_closing s"
  then show ?thesis by (intro persisted_quiet [OF _ assms(3)])
    (auto simp: run_closing_def quiet_def close_conn_def close_send_def frame_simps split: list.splits if_splits)
next
  fix loc search assume "Some t = Some (run_lookup loc search s)"
  then show ?thesis by (intro persisted_quiet [OF _ assms(3)])
    (auto simp: run_lookup_def quiet_def frame_simps Let_def split: list.splits prod.splits option.splits)
next
  assume "Some t = Some (syncBytesToStore s)"
  then show ?thesis using sync_persisted [OF assms(3)] by simp
qed

section \<open>Restart\<close>

interpretation persistence: transition_system
  "\<lambda>x. srv_init x \<and> (\<exists>s. x = Some s \<and> persisted s)" srv_step "\<lambda>x. \<exists>s. x = Some s \<and> srv_ok s \<and> persisted s"
proof unfold_locales
  show "srv_init x \<and> (\<exists>s. x = Some s \<and> persisted s) \<Longrightarrow> \<exists>s. x = Some s \<and> srv_ok s \<and> persisted s" for x
    using server.inv_init by auto
  show "\<exists>s. x = Some s \<and> srv_ok s \<and> persisted s \<Longrightarrow> srv_step x y \<Longrightarrow> \<exists>s. y = Some s \<and> srv_ok s \<and> persisted s" for x y
    using srv_step_ok srv_step_persisted by blast
qed

text \<open>A database that the server can start on: its statements work, its keys are distinct and not
  empty, and every stored room is marked as persistent.\<close>

definition db_wf :: "db \<Rightarrow> bool" where
  "db_wf d \<longleftrightarrow> db_ok d \<and> mwf (db_rooms d) \<and> [] \<notin> mkeys (db_rooms d)"

lemma start_persisted:
  assumes "db_wf d"
  shows "persisted (start_server now d pw rnd maxC)"
proof -
  have wf: "mwf (db_rooms d)" "db_ok d" using assms by (simp_all add: db_wf_def)
  have ban: "mget (r_Blacklist (load_bans d (room_of_row now k row))) c = (if loaded_ban d k c then Some True else None)" for k row c
    using load_bans_blacklist [of "room_of_row now k row" d c] by (simp add: room_of_row_def)
  have "sqlite.mirrors (newHub now (Some d)) d"
    unfolding mirrors_pview
  proof (intro conjI allI impI)
    show "db_ok d" by (fact wf)
    show "loaded d k = map_option (\<lambda>(n, h, b). (n, h)) (pview (newHub now (Some d)) k)" for k
      by (auto simp: loaded_def pview_def newHub_rooms [OF wf(1)] wf(2) room_of_row_def split: option.splits)
    show "loaded_ban d k c" if "pview (newHub now (Some d)) k = Some (n, h, b)" "mget b c = Some True" for k n h b c
      using that ban by (auto simp: pview_def newHub_rooms [OF wf(1)] wf(2) split: option.splits if_splits)
  qed
  with wf show ?thesis by (simp add: persisted_def start_server_def)
qed

text \<open>Claim C2.
  At any time after a start on a well-formed database that accepts statements, a restart restores
  exactly the persistent rooms of the hub: each with its name and password hash, as persistent, empty
  of members, and with every client banned that was banned before.\<close>

theorem restart_restores_rooms:
  assumes "db_wf d" "srv_step\<^sup>*\<^sup>* (Some (start_server now d pw rnd maxC)) (Some s)"
  shows "\<exists>d'. s_store s = Some d' \<and>
    (\<forall>k. (\<exists>r. mget (s_rooms s) k = Some r \<and> r_Persistent r) \<longleftrightarrow> (\<exists>r'. mget (newHub later (Some d')) k = Some r' \<and> r_Persistent r')) \<and>
    (\<forall>k r. mget (s_rooms s) k = Some r \<longrightarrow> r_Persistent r \<longrightarrow>
       (\<exists>r'. mget (newHub later (Some d')) k = Some r' \<and> r_Name r' = r_Name r \<and> r_PasswordHash r' = r_PasswordHash r \<and>
             r_Clients r' = [] \<and> (\<forall>c. IsBanned r c \<longrightarrow> IsBanned r' c)))"
proof -
  have init: "srv_init (Some (start_server now d pw rnd maxC)) \<and> (\<exists>s. Some (start_server now d pw rnd maxC) = Some s \<and> persisted s)"
    using assms(1) start_persisted [OF assms(1)] unfolding srv_init_def db_wf_def by blast
  from persistence.inv_reachable [OF init assms(2)] obtain d' where d': "s_store s = Some d'" "mwf (db_rooms d')"
    "sqlite.mirrors (s_rooms s) d'" by (auto simp: persisted_def)
  have load: "mget (newHub later (Some d')) k = map_option (\<lambda>row. load_bans d' (room_of_row later k row)) (mget (db_rooms d') k)" for k
    using d'(3) by (simp add: newHub_rooms [OF d'(2)] mirrors_pview)
  have ban: "IsBanned (load_bans d' (room_of_row later k row)) c = loaded_ban d' k c" for k row c
    using load_bans_blacklist [of "room_of_row later k row" d' c] by (simp add: IsBanned_def room_of_row_def)
  have view: "loaded d' k = map_option (\<lambda>(n, h, b). (n, h)) (pview (s_rooms s) k)"
    "pview (s_rooms s) k = Some (n, h, b) \<Longrightarrow> mget b c = Some True \<Longrightarrow> loaded_ban d' k c" for k n h b c
    using d'(3) unfolding mirrors_pview by blast+
  have persistent: "(\<exists>r'. mget (newHub later (Some d')) k = Some r' \<and> r_Persistent r') \<longleftrightarrow> loaded d' k \<noteq> None" for k
    unfolding load loaded_def by (cases "mget (db_rooms d') k") (simp_all add: room_of_row_def)
  have hub: "(\<exists>r. mget (s_rooms s) k = Some r \<and> r_Persistent r) \<longleftrightarrow> loaded d' k \<noteq> None" for k
    unfolding view(1) pview_def by (cases "mget (s_rooms s) k") simp_all
  have restored: "\<exists>r'. mget (newHub later (Some d')) k = Some r' \<and> r_Name r' = r_Name r \<and> r_PasswordHash r' = r_PasswordHash r \<and>
      r_Clients r' = [] \<and> (\<forall>c. IsBanned r c \<longrightarrow> IsBanned r' c)" if r: "mget (s_rooms s) k = Some r" "r_Persistent r" for k r
  proof -
    have "loaded d' k = Some (r_Name r, r_PasswordHash r)" using view(1) [of k] r by (simp add: pview_def)
    then obtain row where row: "mget (db_rooms d') k = Some row" "rr_name row = r_Name r" "rr_password_hash row = r_PasswordHash r"
      by (auto simp: loaded_def split: option.splits if_splits)
    have "IsBanned r c \<Longrightarrow> loaded_ban d' k c" for c
      using view(2) [of k "r_Name r" "r_PasswordHash r" "r_Blacklist r" c] r by (simp add: pview_def IsBanned_def split: option.splits)
    with row ban show ?thesis unfolding load row(1) by (simp add: room_of_row_simps)
  qed
  show ?thesis
    using d'(1) hub persistent restored by (intro exI [of _ d'] conjI allI impI) simp_all
qed

theorem restart_restores_rooms_witness:
  "\<exists>d'. s_store (syncBytesToStore (start_server 0 \<lparr>db_rooms = [(''lab'', \<lparr>rr_name = ''lab'', rr_password_hash = [],
        rr_created_at = Some 7, rr_bytes_relayed = 0, rr_persistent = 1\<rparr>)], db_bans = [(''lab'', ''eve'')], db_ok = True\<rparr> ''pw'' [] 10)) = Some d' \<and>
    (\<exists>r'. mget (newHub 9 (Some d')) ''lab'' = Some r' \<and> r_Persistent r')"
proof -
  let ?d = "\<lparr>db_rooms = [(''lab'', \<lparr>rr_name = ''lab'', rr_password_hash = [],
        rr_created_at = Some 7, rr_bytes_relayed = 0, rr_persistent = 1\<rparr>)], db_bans = [(''lab'', ''eve'')], db_ok = True\<rparr>"
  let ?s = "syncBytesToStore (start_server 0 ?d ''pw'' [] 10)"
  have "srv_step\<^sup>*\<^sup>* (Some (start_server 0 ?d ''pw'' [] 10)) (Some ?s)" by (auto intro: srv_step.intros)
  moreover have "db_wf ?d" by (simp add: db_wf_def)
  ultimately obtain d' where "s_store ?s = Some d'" and
    "\<forall>k. (\<exists>r. mget (s_rooms ?s) k = Some r \<and> r_Persistent r) \<longleftrightarrow> (\<exists>r'. mget (newHub 9 (Some d')) k = Some r' \<and> r_Persistent r')"
    using restart_restores_rooms [of ?d 0 "''pw''" "[]" 10 ?s 9] by blast
  moreover have "\<exists>r. mget (s_rooms ?s) ''lab'' = Some r \<and> r_Persistent r"
    by (simp add: syncBytesToStore_def start_server_def newHub_def LoadRooms_def room_of_row_def load_bans_def with_store_def)
  ultimately show ?thesis by blast
qed

end
