(* ===== verification/Secure.thy ===== *)
theory Secure
  imports Prelude
begin

text \<open>
  Encryption and compression of peer traffic, \<^verbatim>\<open>src/client/core/crypto.go\<close> and
  \<^verbatim>\<open>src/client/core/compress.go\<close>. The primitives are arguments of the definitions: \<open>pub\<close> and
  \<open>ecdh\<close> (X25519, which fails on an invalid key), \<open>sha256\<close>, \<open>seal\<close> and \<open>opn\<close> (XChaCha20-Poly1305
  on key, nonce and text), \<open>deflate\<close> and \<open>inflate\<close> (\<^verbatim>\<open>compress/flate\<close>). What the code relies on of
  them appears as hypotheses of the theorems.
\<close>

section \<open>Compression\<close>

definition Compress :: "(bytes \<Rightarrow> bytes) \<Rightarrow> bytes \<Rightarrow> bytes" where
  "Compress deflate data =
     (if length data < 128 then 0 # data
      else
        (let buf = 1 # deflate data in
         if length buf \<ge> length data + 1 then 0 # data else buf))"

definition Decompress :: "(bytes \<Rightarrow> bytes option) \<Rightarrow> bytes \<Rightarrow> bytes option" where
  "Decompress inflate data = (case data of [] \<Rightarrow> Some []
     | b # rest \<Rightarrow> if b = 0 then Some rest else inflate rest)"

text \<open>Whatever the compressor does, provided its output decompresses, a compressed payload is read back
  as it was, and it is never more than one byte longer than the payload.\<close>

theorem compress_roundtrip:
  assumes "\<And>d. inflate (deflate d) = Some d"
  shows "Decompress inflate (Compress deflate data) = Some data \<and> length (Compress deflate data) \<le> length data + 1"
  using assms by (auto simp: Compress_def Decompress_def Let_def)

theorem compress_roundtrip_witness:
  "Decompress (\<lambda>d. Some (rev d)) (Compress rev [1, 2, 3]) = Some [1, 2, 3] \<and> length (Compress rev [1, 2, 3]) \<le> length [1, 2, 3 :: byte] + 1"
  using compress_roundtrip [of "\<lambda>d. Some (rev d)" rev "[1, 2, 3]"] by simp

section \<open>Peer encryption\<close>

definition xcNonceSize :: nat where "xcNonceSize = 24"

text \<open>\<open>cr_key\<close> is the key of the AEAD, \<open>None\<close> while \<^verbatim>\<open>aead\<close> is nil.\<close>

record peerCrypto =
  cr_PrivKey :: bytes
  cr_PubKey :: bytes
  cr_key :: "bytes option"
  cr_encrypted :: bool
  cr_nonceCounter :: u64

text \<open>\<^verbatim>\<open>NewPeerCrypto\<close> on the private key and the start of the counter drawn.\<close>

definition NewPeerCrypto :: "(bytes \<Rightarrow> bytes) \<Rightarrow> bytes \<Rightarrow> u64 \<Rightarrow> peerCrypto" where
  "NewPeerCrypto pub priv start = \<lparr>cr_PrivKey = priv, cr_PubKey = pub priv, cr_key = None, cr_encrypted = False,
     cr_nonceCounter = start\<rparr>"

definition DeriveKey ::
  "(bytes \<Rightarrow> bytes \<Rightarrow> bytes option) \<Rightarrow> (bytes \<Rightarrow> bytes) \<Rightarrow> bytes \<Rightarrow> peerCrypto \<Rightarrow> peerCrypto option" where
  "DeriveKey ecdh sha256 peerPub pc = (case ecdh (cr_PrivKey pc) peerPub of None \<Rightarrow> None
     | Some shared \<Rightarrow> Some (pc\<lparr>cr_key := Some (sha256 shared), cr_encrypted := True\<rparr>))"

definition IsEncrypted :: "peerCrypto \<Rightarrow> bool" where
  "IsEncrypted pc = cr_encrypted pc"

text \<open>\<^verbatim>\<open>binary.LittleEndian.PutUint64\<close>.\<close>

definition le64 :: "u64 \<Rightarrow> bytes" where
  "le64 v = map (\<lambda>i. ucast (drop_bit (8 * i) v)) [0..<8]"

definition nextNonce :: "peerCrypto \<Rightarrow> peerCrypto \<times> bytes" where
  "nextNonce pc = (let n = cr_nonceCounter pc + 1 in (pc\<lparr>cr_nonceCounter := n\<rparr>, replicate 16 0 @ le64 n))"

definition Encrypt :: "(bytes \<Rightarrow> bytes \<Rightarrow> bytes \<Rightarrow> bytes) \<Rightarrow> bytes \<Rightarrow> peerCrypto \<Rightarrow> peerCrypto \<times> bytes" where
  "Encrypt seal plaintext pc = (case (cr_encrypted pc, cr_key pc) of
       (True, Some k) \<Rightarrow> (let (pc, nonce) = nextNonce pc in (pc, nonce @ seal k nonce plaintext))
     | _ \<Rightarrow> (pc, plaintext))"

definition Decrypt :: "(bytes \<Rightarrow> bytes \<Rightarrow> bytes \<Rightarrow> bytes option) \<Rightarrow> bytes \<Rightarrow> peerCrypto \<Rightarrow> bytes option" where
  "Decrypt opn data pc = (case (cr_encrypted pc, cr_key pc) of
       (True, Some k) \<Rightarrow> (if length data < xcNonceSize then None else opn k (take xcNonceSize data) (drop xcNonceSize data))
     | _ \<Rightarrow> Some data)"

section \<open>Nonces\<close>

lemma le64_inject: "le64 v = le64 w \<longleftrightarrow> v = w"
proof
  assume eq: "le64 v = le64 w"
  have byte: "(ucast (drop_bit (8 * i) v) :: byte) = ucast (drop_bit (8 * i) w)" if "i < 8" for i
  proof -
    have "le64 v ! i = le64 w ! i" using eq by simp
    with that show ?thesis by (simp add: le64_def)
  qed
  show "v = w"
  proof (rule bit_word_eqI)
    fix n :: nat assume n: "n < LENGTH(64)"
    then have "n div 8 < 8" "n mod 8 < 8" by auto
    with byte [of "n div 8"] have "bit (ucast (drop_bit (8 * (n div 8)) v) :: byte) (n mod 8) =
        bit (ucast (drop_bit (8 * (n div 8)) w) :: byte) (n mod 8)" by simp
    then show "bit v n = bit w n" using n by (simp add: bit_simps)
  qed
qed simp

fun nonces :: "nat \<Rightarrow> peerCrypto \<Rightarrow> bytes list" where
  "nonces 0 pc = []"
| "nonces (Suc n) pc = (let (pc', b) = nextNonce pc in b # nonces n pc')"

lemma nonces_map: "nonces n pc = map (\<lambda>i. replicate 16 0 @ le64 (cr_nonceCounter pc + 1 + of_nat i)) [0..<n]"
proof (induction n arbitrary: pc)
  case (Suc n)
  have "[0..<Suc n] = 0 # map Suc [0..<n]" by (simp add: upt_conv_Cons map_Suc_upt del: upt_Suc)
  then show ?case by (simp add: Suc nextNonce_def Let_def o_def add_ac del: upt_Suc)
qed simp

text \<open>Claim C24.
  The nonces of one side of a session are pairwise distinct for up to \<open>2 ^ 64\<close> packets, wherever the
  counter starts, and each has 24 bytes.\<close>

theorem nonces_unique:
  assumes "n \<le> 2 ^ 64"
  shows "distinct (nonces n pc) \<and> (\<forall>b \<in> set (nonces n pc). length b = xcNonceSize)"
proof -
  have inj: "i = j" if "i < n" "j < n" "(of_nat i :: u64) = of_nat j" for i j
  proof -
    have "unat (of_nat i :: u64) = i" "unat (of_nat j :: u64) = j"
      using that(1,2) assms by (simp_all add: unat_of_nat)
    with that(3) show ?thesis by metis
  qed
  have "distinct (nonces n pc)"
    unfolding nonces_map by (auto simp: distinct_map inj_on_def le64_inject dest: inj)
  moreover have "length b = xcNonceSize" if "b \<in> set (nonces n pc)" for b
    using that by (auto simp: nonces_map le64_def xcNonceSize_def)
  ultimately show ?thesis by blast
qed

theorem nonces_unique_witness:
  "distinct (nonces 3 (NewPeerCrypto (\<lambda>k. k) [1] (-1)))"
  using nonces_unique [of 3 "NewPeerCrypto (\<lambda>k. k) [1] (-1)"] by simp

section \<open>The encrypted channel\<close>

text \<open>Two peers that have exchanged public keys decrypt what the other encrypts: if the key agreement
  yields the same secret on both sides and the AEAD opens what it sealed, every packet of one peer
  is opened by the other to its plaintext, at any counter position.\<close>

theorem encrypted_channel:
  assumes agree: "ecdh a (pub b) = Some z" "ecdh b (pub a) = Some z"
    and aead: "\<And>k n m. opn k n (seal k n m) = Some m"
    and A: "DeriveKey ecdh sha (cr_PubKey (NewPeerCrypto pub b s2)) (NewPeerCrypto pub a s1) = Some pa"
    and B: "DeriveKey ecdh sha (cr_PubKey (NewPeerCrypto pub a s1)) (NewPeerCrypto pub b s2) = Some pb"
  shows "Decrypt opn (snd (Encrypt seal m (pa\<lparr>cr_nonceCounter := n\<rparr>))) pb = Some m \<and>
    Decrypt opn (snd (Encrypt seal m (pb\<lparr>cr_nonceCounter := n\<rparr>))) pa = Some m"
proof -
  have keys: "cr_key pa = Some (sha z)" "cr_encrypted pa" "cr_key pb = Some (sha z)" "cr_encrypted pb"
    using A B agree by (auto simp: DeriveKey_def NewPeerCrypto_def)
  have "Decrypt opn (snd (Encrypt seal m (x\<lparr>cr_nonceCounter := n\<rparr>))) y = Some m"
    if "cr_key x = Some (sha z)" "cr_encrypted x" "cr_key y = Some (sha z)" "cr_encrypted y" for x y
    using that aead by (simp add: Encrypt_def Decrypt_def nextNonce_def Let_def le64_def xcNonceSize_def)
  with keys show ?thesis by blast
qed

text \<open>An instance of the parameters: keys combine by concatenating the sorted pair of heads, sealing
  appends a tag.\<close>

theorem encrypted_channel_witness:
  "Decrypt (\<lambda>k n c. Some (butlast c)) (snd (Encrypt (\<lambda>k n m. m @ [0]) [7, 9]
      ((the (DeriveKey (\<lambda>x y. Some [hd x + hd y]) (\<lambda>z. z) [4] (NewPeerCrypto (\<lambda>k. k) [3] 0)))\<lparr>cr_nonceCounter := 5\<rparr>)))
      (the (DeriveKey (\<lambda>x y. Some [hd x + hd y]) (\<lambda>z. z) [3] (NewPeerCrypto (\<lambda>k. k) [4] 0))) = Some [7, 9]"
  using encrypted_channel [of "\<lambda>x y. Some [hd x + hd y]" "[3]" "\<lambda>k. k" "[4]" "[7]" "\<lambda>k n c. Some (butlast c)" "\<lambda>k n m. m @ [0]"
      "\<lambda>z. z" 0 0 "the (DeriveKey (\<lambda>x y. Some [hd x + hd y]) (\<lambda>z. z) [4] (NewPeerCrypto (\<lambda>k. k) [3] 0))"
      "the (DeriveKey (\<lambda>x y. Some [hd x + hd y]) (\<lambda>z. z) [3] (NewPeerCrypto (\<lambda>k. k) [4] 0))" "[7, 9]" 5]
  by (simp add: DeriveKey_def NewPeerCrypto_def)

end
