(* ===== verification/Stun.thy ===== *)
theory Stun
  imports Gotext
begin

text \<open>
  STUN: the discovery of the client's public address (\<^verbatim>\<open>src/client/core/stun.go\<close>), the STUN server
  that answers it (\<^verbatim>\<open>src/tools/stunserver/main.go\<close>), and the parser of the diagnostic tool
  (\<^verbatim>\<open>src/tools/natcheck/main.go\<close>). An IPv4 address is the 32-bit number of its four bytes. The
  receive buffer is explicit, because the client slices it beyond the bytes received: \<open>buf\<close> is the
  array of 1024 bytes, \<open>n\<close> the number received.
\<close>

section \<open>Messages\<close>

definition StunMagicCookie :: u32 where "StunMagicCookie = 0x2112A442"
definition StunBindingRequest :: u16 where "StunBindingRequest = 1"
definition StunAttrXorMapped :: u16 where "StunAttrXorMapped = 0x20"
definition StunHeaderSize :: nat where "StunHeaderSize = 20"

text \<open>The request of \<^verbatim>\<open>stunDiscover\<close> and \<^verbatim>\<open>stunQueryFresh\<close> on the transaction ID drawn.\<close>

definition stun_request :: "bytes \<Rightarrow> bytes" where
  "stun_request txID = bytes16 StunBindingRequest @ bytes16 0 @ bytes32 StunMagicCookie @ take 12 txID"

text \<open>\<^verbatim>\<open>net.IP.String\<close> of an IPv4 address.\<close>

definition ipv4_str :: "u32 \<Rightarrow> string" where
  "ipv4_str ip = join_with ''.'' (map (\<lambda>b. show_nat (unat b)) (bytes32 ip))"

definition addr_str :: "u32 \<Rightarrow> u16 \<Rightarrow> string" where
  "addr_str ip port = ipv4_str ip @ '':'' @ show_nat (unat port)"

section \<open>Client\<close>

text \<open>Errors are values \<open>Inl\<close>; \<open>None\<close> is a panic.\<close>

definition decodeXorAddress :: "bytes \<Rightarrow> bool \<Rightarrow> (string + string \<times> u16) option" where
  "decodeXorAddress data useXor =
     (if length data < 8 then Some (Inl ''XOR-MAPPED-ADDRESS too short'')
      else do {
        family \<leftarrow> index data 1;
        if family \<noteq> 1 then Some (Inl ''unsupported address family'')
        else do {
          xorPort \<leftarrow> u16at data 2;
          let port = (if useXor then xorPort XOR ucast (drop_bit 16 StunMagicCookie) else xorPort);
          xorIP \<leftarrow> u32at data 4;
          let ip = (if useXor then xorIP XOR StunMagicCookie else xorIP);
          Some (Inr (addr_str ip port, port)) } })"

definition attr_pad :: "nat \<Rightarrow> nat" where
  "attr_pad attrLen = (if attrLen mod 4 \<noteq> 0 then 4 - attrLen mod 4 else 0)"

text \<open>The loop of \<^verbatim>\<open>parseXorMappedAddress\<close> at an offset.\<close>

function xor_mapped_at :: "bytes \<Rightarrow> nat \<Rightarrow> (string + string) option" where
  "xor_mapped_at attrs offset =
     (if offset + 4 \<le> length attrs then
        (case (u16at attrs offset, u16at attrs (offset + 2)) of
           (Some attrType, Some lenw) \<Rightarrow>
             (let attrLen = unat lenw; off = offset + 4 in
              if off + attrLen > length attrs then Some (Inl ''XOR-MAPPED-ADDRESS not found in STUN response'')
              else if attrType = StunAttrXorMapped then
                (case slice attrs off (off + attrLen) of None \<Rightarrow> None
                 | Some v \<Rightarrow> map_option (map_sum id fst) (decodeXorAddress v True))
              else xor_mapped_at attrs (off + attrLen + attr_pad attrLen))
         | _ \<Rightarrow> None)
      else Some (Inl ''XOR-MAPPED-ADDRESS not found in STUN response''))"
  by pat_completeness auto
termination
  by (relation "measure (\<lambda>(attrs, offset). length attrs - offset)") auto

declare xor_mapped_at.simps [simp del]

definition parseXorMappedAddress :: "bytes \<Rightarrow> (string + string) option" where
  "parseXorMappedAddress attrs = xor_mapped_at attrs 0"

text \<open>The handling of a response in \<^verbatim>\<open>stunDiscover\<close>. A slice expression is bounded by the capacity, the
  whole buffer, not by the \<open>n\<close> bytes received.\<close>

definition stun_response :: "bytes \<Rightarrow> nat \<Rightarrow> bytes \<Rightarrow> (string + string) option" where
  "stun_response buf n txID =
     (if n < StunHeaderSize then Some (Inl ''STUN response too short'')
      else do {
        msgType \<leftarrow> u16at buf 0;
        if msgType \<noteq> 0x0101 then Some (Inl ''unexpected STUN message type'')
        else do {
          tx \<leftarrow> slice buf 8 20;
          if tx \<noteq> txID then Some (Inl ''STUN transaction ID mismatch'')
          else do {
            msgLen \<leftarrow> u16at buf 2;
            attrs \<leftarrow> slice buf StunHeaderSize (StunHeaderSize + unat msgLen);
            parseXorMappedAddress attrs } } })"

text \<open>The handling of a response in \<^verbatim>\<open>stunQueryFresh\<close>, which returns the empty string for every error.\<close>

definition stun_fresh :: "bytes \<Rightarrow> nat \<Rightarrow> bytes \<Rightarrow> string option" where
  "stun_fresh buf n txID =
     (if n < StunHeaderSize then Some []
      else do {
        msgType \<leftarrow> u16at buf 0;
        tx \<leftarrow> slice buf 8 20;
        if msgType \<noteq> 0x0101 \<or> tx \<noteq> txID then Some []
        else do {
          msgLen \<leftarrow> u16at buf 2;
          attrs \<leftarrow> slice buf StunHeaderSize (StunHeaderSize + unat msgLen);
          r \<leftarrow> parseXorMappedAddress attrs;
          Some (case r of Inl _ \<Rightarrow> [] | Inr a \<Rightarrow> a) } })"

section \<open>Server\<close>

definition softwareValue :: bytes where
  "softwareValue = str_bytes ''stun-max''"

text \<open>A response attribute with its padding.\<close>

definition stun_attr :: "u16 \<Rightarrow> bytes \<Rightarrow> bytes" where
  "stun_attr ty v = bytes16 ty @ bytes16 (of_nat (length v)) @ v @ replicate (attr_pad (length v)) 0"

text \<open>A UDP source address: an IPv4 address, or an IPv6 one, of which only the text is used.\<close>

datatype udpAddr = Addr4 u32 u16 | Addr6 string u16

primrec udp_ip_str :: "udpAddr \<Rightarrow> string" where
  "udp_ip_str (Addr4 ip port) = ipv4_str ip"
| "udp_ip_str (Addr6 ip port) = ip"

primrec udp_port :: "udpAddr \<Rightarrow> u16" where
  "udp_port (Addr4 ip port) = port"
| "udp_port (Addr6 ip port) = port"

primrec udp_str :: "udpAddr \<Rightarrow> string" where
  "udp_str (Addr4 ip port) = addr_str ip port"
| "udp_str (Addr6 ip port) = ''['' @ ip @ '']:'' @ show_nat (unat port)"

text \<open>\<^verbatim>\<open>buildBindingResponse\<close>; an IPv6 source gives a nil slice, which is sent as an empty datagram.\<close>

primrec buildBindingResponse :: "bytes \<Rightarrow> udpAddr \<Rightarrow> bytes" where
  "buildBindingResponse txID (Addr4 ip port) =
     (let xorMapped = stun_attr 0x20 ([0, 1] @ bytes16 (port XOR ucast (drop_bit 16 StunMagicCookie)) @
            bytes32 (ip XOR StunMagicCookie));
          mapped = stun_attr 1 ([0, 1] @ bytes16 port @ bytes32 ip);
          software = stun_attr 0x8022 softwareValue;
          attrs = xorMapped @ mapped @ software
      in bytes16 0x0101 @ bytes16 (of_nat (length attrs)) @ bytes32 StunMagicCookie @ txID @ attrs)"
| "buildBindingResponse txID (Addr6 ip port) = []"

text \<open>The table of recent clients, keyed by IP address, and the counters.\<close>

record clientInfo =
  ci_IP :: string
  ci_Port :: u16
  ci_PublicAddr :: string
  ci_FirstSeen :: int
  ci_LastSeen :: int
  ci_Requests :: nat

record stunServer =
  recentClients :: "(string \<times> clientInfo) list"
  totalRequests :: nat
  totalErrors :: nat

definition tracker_record :: "udpAddr \<Rightarrow> int \<Rightarrow> (string \<times> clientInfo) list \<Rightarrow> (string \<times> clientInfo) list" where
  "tracker_record addr now m =
     (let key = udp_ip_str addr in
      case mget m key of
        Some c \<Rightarrow> mput key (c\<lparr>ci_LastSeen := now, ci_Requests := ci_Requests c + 1, ci_Port := udp_port addr,
                          ci_PublicAddr := udp_str addr\<rparr>) m
      | None \<Rightarrow> mput key \<lparr>ci_IP = udp_ip_str addr, ci_Port = udp_port addr, ci_PublicAddr = udp_str addr,
                          ci_FirstSeen = now, ci_LastSeen = now, ci_Requests = 1\<rparr> m)"

definition tracker_cleanup :: "int \<Rightarrow> int \<Rightarrow> (string \<times> clientInfo) list \<Rightarrow> (string \<times> clientInfo) list" where
  "tracker_cleanup maxAge now m = filter (\<lambda>(k, c). \<not> ci_LastSeen c < now - maxAge) m"

text \<open>The snapshot of the table, the most recent client first.\<close>

definition tracker_snapshot :: "(string \<times> clientInfo) list \<Rightarrow> clientInfo list" where
  "tracker_snapshot m = sort_key (\<lambda>c. - ci_LastSeen c) (map snd m)"

text \<open>The statistics: \<^verbatim>\<open>StunStats\<close> and the pages \<^verbatim>\<open>/stats\<close> and \<^verbatim>\<open>/health\<close>. The uptime is given in nanoseconds, rounded to seconds and written as
  \<^verbatim>\<open>time.Duration\<close> is.\<close>

record stunStats =
  ss_Uptime :: string
  ss_TotalRequests :: nat
  ss_TotalErrors :: nat
  ss_UniqueClients :: nat
  ss_RecentClients :: "clientInfo list"
  ss_ListenAddr :: string

definition duration_text :: "nat \<Rightarrow> string" where
  "duration_text s =
     (if s \<ge> 3600 then show_nat (s div 3600) @ ''h'' @ show_nat (s mod 3600 div 60) @ ''m'' @ show_nat (s mod 60) @ ''s''
      else if s \<ge> 60 then show_nat (s div 60) @ ''m'' @ show_nat (s mod 60) @ ''s''
      else show_nat s @ ''s'')"

definition uptime_text :: "nat \<Rightarrow> string" where
  "uptime_text ns = duration_text ((ns + 500000000) div 1000000000)"

definition stats_page :: "string \<Rightarrow> nat \<Rightarrow> stunServer \<Rightarrow> stunStats" where
  "stats_page addr ns s =
     (let clients = tracker_snapshot (recentClients s) in
      \<lparr>ss_Uptime = uptime_text ns, ss_TotalRequests = totalRequests s, ss_TotalErrors = totalErrors s, ss_UniqueClients = length clients,
       ss_RecentClients = clients, ss_ListenAddr = addr\<rparr>)"

definition health_page :: "nat \<Rightarrow> stunServer \<Rightarrow> (string \<times> string \<times> nat)" where
  "health_page ns s = (''ok'', uptime_text ns, totalRequests s)"

text \<open>One round of the server's loop on the datagram \<open>dgram\<close> (\<open>None\<close>: the read failed); \<open>writeOk\<close>
  says whether the answer could be sent. The result is the new state and the answer.\<close>

definition stun_serve :: "bytes option \<Rightarrow> udpAddr \<Rightarrow> int \<Rightarrow> bool \<Rightarrow> stunServer \<Rightarrow> (stunServer \<times> bytes option) option" where
  "stun_serve dgram addr now writeOk s =
     (case dgram of
        None \<Rightarrow> Some (s\<lparr>totalErrors := totalErrors s + 1\<rparr>, None)
      | Some d \<Rightarrow>
         if length d < StunHeaderSize then Some (s, None)
         else do {
           msgType \<leftarrow> u16at d 0;
           if msgType \<noteq> StunBindingRequest then Some (s, None)
           else do {
             txID \<leftarrow> slice d 8 20;
             let s1 = s\<lparr>totalRequests := totalRequests s + 1, recentClients := tracker_record addr now (recentClients s)\<rparr>;
             let resp = buildBindingResponse txID addr;
             Some (if writeOk then s1 else s1\<lparr>totalErrors := totalErrors s1 + 1\<rparr>, Some resp) } })"

section \<open>Reading attributes\<close>

lemma u16at_field: "i = length xs \<Longrightarrow> u16at (xs @ bytes16 v @ ys) i = Some v"
  by (rule u16at_append)

lemma length_stun_attr [simp]: "length (stun_attr ty v) = 4 + length v + attr_pad (length v)"
  by (simp add: stun_attr_def)

lemma attr_at:
  assumes "attrs = xs @ stun_attr ty v @ ys" "length v < 65536"
  shows "u16at attrs (length xs) = Some ty" "u16at attrs (length xs + 2) = Some (of_nat (length v))"
    "slice attrs (length xs + 4) (length xs + 4 + length v) = Some v"
proof -
  show "u16at attrs (length xs) = Some ty"
    unfolding assms(1) stun_attr_def append_assoc by (rule u16at_append) simp
  have "u16at ((xs @ bytes16 ty) @ bytes16 (of_nat (length v)) @ v @ replicate (attr_pad (length v)) 0 @ ys) (length xs + 2)
      = Some (of_nat (length v))" by (rule u16at_append) simp
  then show "u16at attrs (length xs + 2) = Some (of_nat (length v))" by (simp add: assms(1) stun_attr_def)
  have "slice ((xs @ bytes16 ty @ bytes16 (of_nat (length v))) @ v @ replicate (attr_pad (length v)) 0 @ ys)
      (length xs + 4) (length xs + 4 + length v) = Some v" by (rule slice_append) simp_all
  then show "slice attrs (length xs + 4) (length xs + 4 + length v) = Some v" by (simp add: assms(1) stun_attr_def)
qed

lemma xor_mapped_found:
  assumes "attrs = xs @ stun_attr StunAttrXorMapped v @ ys" "length v < 65536"
  shows "xor_mapped_at attrs (length xs) = map_option (map_sum id fst) (decodeXorAddress v True)"
  using attr_at [OF assms] assms
  by (subst xor_mapped_at.simps) (simp add: Let_def of_nat_unat_u16)

lemma decode_encoded:
  "decodeXorAddress ([0, 1] @ bytes16 (port XOR ucast (drop_bit 16 StunMagicCookie)) @ bytes32 (ip XOR StunMagicCookie)) True
     = Some (Inr (addr_str ip port, port))" (is "decodeXorAddress ?d _ = _")
proof -
  have x: "(port XOR m) XOR m = port" "(ip XOR StunMagicCookie) XOR StunMagicCookie = ip" for m :: u16
    by (simp_all add: xor.assoc)
  have "u16at ?d 2 = Some (port XOR ucast (drop_bit 16 StunMagicCookie))"
    by (rule u16at_append) simp
  moreover have "u32at (([0, 1] @ bytes16 (port XOR ucast (drop_bit 16 StunMagicCookie))) @ bytes32 (ip XOR StunMagicCookie) @ []) 4
      = Some (ip XOR StunMagicCookie)"
    by (rule u32at_append) simp
  ultimately show ?thesis
    by (simp add: decodeXorAddress_def x Let_def del: u16at_Some)
qed

lemma stun_exchange:
  assumes "length txID = 12"
  shows "\<exists>s' resp. stun_serve (Some (stun_request txID)) (Addr4 ip port) now True s = Some (s', Some resp) \<and>
    stun_response (resp @ replicate (1024 - length resp) 0) (length resp) txID = Some (Inr (addr_str ip port))"
proof -
  let ?v = "[0, 1] @ bytes16 (port XOR ucast (drop_bit 16 StunMagicCookie)) @ bytes32 (ip XOR StunMagicCookie)"
  let ?rest = "stun_attr 1 ([0, 1] @ bytes16 port @ bytes32 ip) @ stun_attr 0x8022 softwareValue"
  let ?attrs = "stun_attr 0x20 ?v @ ?rest"
  have len: "length ?attrs = 36" by (simp add: attr_pad_def softwareValue_def)
  define resp where "resp = buildBindingResponse txID (Addr4 ip port)"
  have "resp = bytes16 0x0101 @ bytes16 (of_nat (length ?attrs)) @ bytes32 StunMagicCookie @ txID @ ?attrs"
    by (simp add: resp_def Let_def del: of_nat_add length_append length_stun_attr)
  then have resp: "resp = bytes16 0x0101 @ bytes16 36 @ bytes32 StunMagicCookie @ txID @ ?attrs"
    by (simp only: len of_nat_numeral)
  let ?z = "replicate (1024 - length resp) 0 :: bytes"
  have lresp: "length resp = 56" using assms len by (simp add: resp)
  have ty: "u16at (resp @ ?z) 0 = Some 0x0101"
    using u16at_append [of 0 "[]" "0x0101"] by (simp add: resp)
  have ml: "u16at (resp @ ?z) 2 = Some 36"
    using u16at_append [of 2 "bytes16 0x0101" 36] by (simp add: resp del: u16at_Some)
  have tx: "slice (resp @ ?z) 8 20 = Some txID"
    using slice_append [of 8 "bytes16 0x0101 @ bytes16 36 @ bytes32 StunMagicCookie" 20 txID "?attrs @ ?z"] assms
    by (simp add: resp)
  have at: "slice (resp @ ?z) 20 56 = Some ?attrs"
    using slice_append [of 20 "bytes16 0x0101 @ bytes16 36 @ bytes32 StunMagicCookie @ txID" 56 ?attrs ?z] assms len
    by (simp add: resp)
  have "parseXorMappedAddress ?attrs = Some (Inr (addr_str ip port))"
    using xor_mapped_found [of ?attrs "[]" ?v ?rest] decode_encoded [of port ip]
    by (simp add: parseXorMappedAddress_def StunAttrXorMapped_def)
  then have "stun_response (resp @ ?z) (length resp) txID = Some (Inr (addr_str ip port))"
    using ty ml tx at lresp by (simp add: stun_response_def StunHeaderSize_def del: u16at_Some slice_Some)
  moreover have "\<exists>s'. stun_serve (Some (stun_request txID)) (Addr4 ip port) now True s = Some (s', Some resp)"
  proof -
    have "u16at (stun_request txID) 0 = Some StunBindingRequest"
      using u16at_append [of 0 "[]" StunBindingRequest] by (simp add: stun_request_def)
    moreover have "slice (stun_request txID) 8 20 = Some txID"
      using slice_append [of 8 "bytes16 StunBindingRequest @ bytes16 0 @ bytes32 StunMagicCookie" 20 txID "[]"] assms
      by (simp add: stun_request_def)
    ultimately show ?thesis using assms
      by (simp add: stun_serve_def StunHeaderSize_def stun_request_def resp_def)
  qed
  ultimately show ?thesis by blast
qed

text \<open>Client and STUN server agree: the server answers the client's request, as it arrives from the
  address \<open>ip:port\<close>, and the client accepts the answer and reads exactly that address from it.\<close>

theorem stun_client_reads_server:
  assumes "length txID = 12"
  shows "\<exists>s' resp. stun_serve (Some (stun_request txID)) (Addr4 ip port) now True s = Some (s', Some resp) \<and>
    stun_response (resp @ replicate (1024 - length resp) 0) (length resp) txID = Some (Inr (addr_str ip port))"
  using assms by (rule stun_exchange)

theorem stun_client_reads_server_witness:
  "\<exists>s' resp. stun_serve (Some (stun_request (replicate 12 9))) (Addr4 0xCB007107 40000) 5 True
      \<lparr>recentClients = [], totalRequests = 0, totalErrors = 0\<rparr> = Some (s', Some resp) \<and>
    stun_response (resp @ replicate (1024 - length resp) 0) (length resp) (replicate 12 9) = Some (Inr ''203.0.113.7:40000'')"
proof -
  have "addr_str 0xCB007107 40000 = ''203.0.113.7:40000''"
    by (simp add: addr_str_def ipv4_str_def bytes32_def show_nat.simps char_of_def bit_0)
  then show ?thesis
    using stun_client_reads_server [of "replicate 12 9" "0xCB007107" 40000 5
      "\<lparr>recentClients = [], totalRequests = 0, totalErrors = 0\<rparr>"] by simp
qed

text \<open>The client trusts the length field of a response: one that matches the type and transaction ID but
  announces more than 1004 bytes of attributes makes it panic, whatever was received.\<close>

theorem stun_oversized_length_panics:
  assumes "length buf = 1024" "20 \<le> n" "u16at buf 0 = Some 0x0101" "slice buf 8 20 = Some txID"
    and "u16at buf 2 = Some msgLen" "1004 < unat msgLen"
  shows "stun_response buf n txID = None"
  using assms by (simp add: stun_response_def StunHeaderSize_def slice_def)

theorem stun_oversized_length_panics_witness:
  "stun_response ([1, 1, 4, 0] @ replicate 1020 0) 20 (replicate 12 0) = None"
proof -
  have "slice ([1, 1, 4, 0] @ replicate 1020 0 :: bytes) 8 20 = Some (replicate 12 0)" by (simp add: slice_def drop_Cons')
  then show ?thesis
    by (intro stun_oversized_length_panics [where msgLen = "0x400"]) (simp_all add: u16at_def be16_def)
qed

text \<open>Apart from that the parser of attributes is total: on any attribute bytes it returns an address or
  an error.\<close>

theorem parseXorMappedAddress_total: "\<exists>r. parseXorMappedAddress attrs = Some r"
proof -
  have decode: "\<exists>r. decodeXorAddress v x = Some r" for v x
    by (auto simp: decodeXorAddress_def index_def u16at_def u32at_def Let_def)
  have "\<exists>r. xor_mapped_at attrs off = Some r" for off
  proof (induction attrs off rule: xor_mapped_at.induct)
    case (1 attrs off)
    show ?case
    proof (cases "off + 4 \<le> length attrs")
      case True
      then have u: "u16at attrs off = Some (be16 (attrs ! off) (attrs ! Suc off))"
        "u16at attrs (off + 2) = Some (be16 (attrs ! (off + 2)) (attrs ! Suc (off + 2)))" by (simp_all add: u16at_def)
      show ?thesis
        using 1 [OF True _ u(1,2)] decode True
        by (subst xor_mapped_at.simps) (auto simp: u Let_def slice_def)
    next
      case False
      then show ?thesis by (subst xor_mapped_at.simps) simp
    qed
  qed
  then show ?thesis by (simp add: parseXorMappedAddress_def)
qed

section \<open>The statistics of the server\<close>

text \<open>The requests of the listed clients are among those counted, whatever datagrams were served and whenever the table was cleaned up.\<close>

definition table_requests :: "(string \<times> clientInfo) list \<Rightarrow> nat" where
  "table_requests m = sum_list (map (ci_Requests \<circ> snd) m)"

lemma table_requests_put:
  "table_requests (mput k c m) + (case mget m k of None \<Rightarrow> 0 | Some d \<Rightarrow> ci_Requests d) = table_requests m + ci_Requests c"
  by (induction m) (auto simp: table_requests_def)

lemma table_requests_record: "table_requests (tracker_record addr now m) = table_requests m + 1"
proof (cases "mget m (udp_ip_str addr)")
  case None
  then show ?thesis using table_requests_put [of "udp_ip_str addr" _ m] by (simp add: tracker_record_def Let_def)
next
  case (Some c)
  let ?c = "c\<lparr>ci_LastSeen := now, ci_Requests := ci_Requests c + 1, ci_Port := udp_port addr, ci_PublicAddr := udp_str addr\<rparr>"
  have "tracker_record addr now m = mput (udp_ip_str addr) ?c m" using Some by (simp add: tracker_record_def Let_def)
  then show ?thesis using table_requests_put [of "udp_ip_str addr" ?c m] Some by simp
qed

lemma table_requests_cleanup: "table_requests (tracker_cleanup maxAge now m) \<le> table_requests m"
  by (induction m) (auto simp: table_requests_def tracker_cleanup_def)

inductive stun_step :: "stunServer \<Rightarrow> stunServer \<Rightarrow> bool" where
  serve: "stun_serve dgram addr now writeOk s = Some (s', resp) \<Longrightarrow> stun_step s s'"
| cleanup: "stun_step s (s\<lparr>recentClients := tracker_cleanup maxAge now (recentClients s)\<rparr>)"

inductive_cases stun_stepE: "stun_step s s'"

definition requests_ok :: "stunServer \<Rightarrow> bool" where
  "requests_ok s \<longleftrightarrow> table_requests (recentClients s) \<le> totalRequests s"

lemma stun_step_requests: "stun_step s s' \<Longrightarrow> requests_ok s \<Longrightarrow> requests_ok s'"
proof (erule stun_stepE)
  fix dgram addr now writeOk resp
  assume "stun_serve dgram addr now writeOk s = Some (s', resp)" "requests_ok s"
  then show "requests_ok s'"
    by (auto simp: stun_serve_def requests_ok_def table_requests_record Let_def split: option.splits Option.bind_splits if_splits)
next
  fix maxAge now
  assume "s' = s\<lparr>recentClients := tracker_cleanup maxAge now (recentClients s)\<rparr>" "requests_ok s"
  then show "requests_ok s'" using table_requests_cleanup [of maxAge now "recentClients s"] by (simp add: requests_ok_def)
qed

definition stun_server0 :: stunServer where
  "stun_server0 = \<lparr>recentClients = [], totalRequests = 0, totalErrors = 0\<rparr>"

interpretation stun_server: transition_system "\<lambda>s. s = stun_server0" stun_step requests_ok
proof unfold_locales
  show "s = stun_server0 \<Longrightarrow> requests_ok s" for s by (simp add: stun_server0_def requests_ok_def table_requests_def)
  show "requests_ok s \<Longrightarrow> stun_step s t \<Longrightarrow> requests_ok t" for s t by (rule stun_step_requests)
qed

lemma sum_insort: "sum_list (map g (insort_key f x xs)) = g x + (sum_list (map g xs) :: nat)"
  by (induction xs) simp_all

lemma sum_sort: "sum_list (map g (sort_key f xs)) = (sum_list (map g xs) :: nat)"
  by (induction xs) (simp_all add: sum_insort)

theorem stats_consistent:
  assumes "stun_step\<^sup>*\<^sup>* stun_server0 s"
  shows "let p = stats_page addr ns s in sum_list (map ci_Requests (ss_RecentClients p)) \<le> ss_TotalRequests p \<and>
     ss_UniqueClients p = length (recentClients s) \<and> sorted (map (\<lambda>c. - ci_LastSeen c) (ss_RecentClients p))"
proof -
  have "requests_ok s" using stun_server.inv_reachable [OF refl assms] .
  then show ?thesis by (simp add: stats_page_def Let_def tracker_snapshot_def requests_ok_def table_requests_def sum_sort)
qed

end
