(* ===== verification/Cli_State.thy ===== *)
theory Cli_State
  imports Json Secure Rutp
begin

text \<open>
  The state of a client, \<^verbatim>\<open>Client\<close> of \<^verbatim>\<open>src/client/core/client.go\<close>, and its ways out: the signalling
  connection (\<^verbatim>\<open>sendMsg\<close>, \<^verbatim>\<open>sendRelay\<close>), the UDP socket (\<^verbatim>\<open>udpSend\<close>) and \<^verbatim>\<open>sendViaP2P\<close>, which prefers the
  second to the first.

  \<^item> \<open>c_ws\<close>, \<open>c_udp\<close> and \<open>c_tcp\<close> list what was written, oldest first: messages to the server,
    datagrams with their destination, bytes to local TCP connections. \<open>c_closed\<close> lists the closed
    connections.
  \<^item> A connection is a number; \<^verbatim>\<open>nil\<close> is \<open>None\<close>. A \<^verbatim>\<open>*Forward\<close> is the identity \<open>f_id\<close> of the object.
  \<^item> A \<^verbatim>\<open>*HopBridge\<close> is an index into \<open>c_bridges\<close>, because two maps share the object and one of them may
    keep it when the other has been overwritten.
  \<^item> Maps are association lists, as in the server; \<open>c_vport\<close> is the package variable \<^verbatim>\<open>virtualPortCounter\<close>.
  \<^item> The events for the graphical interface (\<^verbatim>\<open>emit\<close>) have no effect on the state and are left out,
    as are the locks: a handler is one step.
  \<^item> \<open>prims\<close> collects the code outside the repository that the client calls: the cryptographic
    primitives, the compressor, the text of JSON and name resolution.
\<close>

type_synonym endpoint = "u32 \<times> u16"
type_synonym conn = nat

record prims =
  p_pub :: "bytes \<Rightarrow> bytes"
  p_ecdh :: "bytes \<Rightarrow> bytes \<Rightarrow> bytes option"
  p_sha256 :: "bytes \<Rightarrow> bytes"
  p_seal :: "bytes \<Rightarrow> bytes \<Rightarrow> bytes \<Rightarrow> bytes"
  p_open :: "bytes \<Rightarrow> bytes \<Rightarrow> bytes \<Rightarrow> bytes option"
  p_deflate :: "bytes \<Rightarrow> bytes"
  p_inflate :: "bytes \<Rightarrow> bytes option"
  p_text :: "json \<Rightarrow> bytes"
  p_parse :: "bytes \<Rightarrow> json option"
  p_resolve :: "string \<Rightarrow> endpoint option"

section \<open>Data\<close>

record peerInfo =
  pi_ID :: string
  pi_Status :: string
  pi_Name :: string
  pi_NATType :: string

record peerConn =
  pc_PeerID :: string
  pc_Mode :: string
  pc_UDPAddr :: "endpoint option"
  pc_DirectTCP :: "conn option"
  pc_LastPunch :: int
  pc_PunchFails :: int
  pc_Crypto :: "peerCrypto option"
  pc_AutoHopVia :: string
  pc_AutoHopID :: string
  pc_NATType :: string

definition new_peerConn :: "string \<Rightarrow> string \<Rightarrow> peerConn" where
  "new_peerConn pid mode = \<lparr>pc_PeerID = pid, pc_Mode = mode, pc_UDPAddr = None, pc_DirectTCP = None, pc_LastPunch = 0,
     pc_PunchFails = 0, pc_Crypto = None, pc_AutoHopVia = [], pc_AutoHopID = [], pc_NATType = []\<rparr>"

record forward =
  f_id :: nat
  f_LocalPort :: int
  f_RemoteHost :: string
  f_RemotePort :: int
  f_PeerID :: string
  f_PeerName :: string
  f_ConnCount :: int
  f_cancelled :: bool
  f_ForceRelay :: bool
  f_BytesUp :: int
  f_BytesDown :: int
  f_LastUp :: int
  f_LastDown :: int

text \<open>\<open>tc_done\<close> says that the channel \<^verbatim>\<open>Done\<close> is closed. While a virtual port waits for its confirmation the
  entry has no connection.\<close>

record tunnelConn =
  tc_TunnelID :: string
  tc_PeerID :: string
  tc_Conn :: "conn option"
  tc_Forward :: "nat option"
  tc_RutpSender :: "rutp_sender option"
  tc_RutpRecv :: "rutp_receiver option"
  tc_RelayDedup :: "u64 list option"
  tc_done :: bool

definition new_tunnelConn :: "string \<Rightarrow> string \<Rightarrow> conn option \<Rightarrow> tunnelConn" where
  "new_tunnelConn tid pid cn = \<lparr>tc_TunnelID = tid, tc_PeerID = pid, tc_Conn = cn, tc_Forward = None,
     tc_RutpSender = None, tc_RutpRecv = None, tc_RelayDedup = None, tc_done = False\<rparr>"

record hopBridge =
  hb_HopID :: string
  hb_InboundTunnelID :: string
  hb_OutboundTunnelID :: string
  hb_OriginPeerID :: string
  hb_TargetPeerID :: string
  hb_LocalPort :: int
  hb_ViaPeerID :: string
  hb_RemoteHost :: string
  hb_RemotePort :: int
  hb_done :: bool

text \<open>A \<^verbatim>\<open>forwardNetstack\<close>: which side of it this client is, the registered virtual ports, those
  for file streams (with the index of the transfer) and the IP packets handed to the userspace TCP stack.\<close>

record fwdNetstack =
  fn_initiator :: bool
  fn_portMap :: "(u16 \<times> string) list"
  fn_filePortMap :: "(u16 \<times> nat) list"
  fn_injected :: "bytes list"

text \<open>The model of the NAT's port allocation; \<open>pm_DriftPos\<close> says that the rate \<^verbatim>\<open>DriftRate\<close> is positive.\<close>

record portModel =
  pm_Name :: string
  pm_DriftPos :: bool
  pm_Delta :: int
  pm_Anchor :: int

text \<open>A \<^verbatim>\<open>TunDevice\<close>. \<open>td_iface\<close> lists the packets written to the interface; \<open>td_proxy\<close> is the proxy for ICMP and
  says whether its raw socket could be opened; \<open>td_nsProxy\<close> lists the packets handed to the userspace stack.
  \<open>td_uid\<close> is the identity of the object; an address that did not parse is \<open>None\<close>, and addresses are IPv4. A
  network is its address and mask. An entry of the NAT table is the original source and the time
  it was last used.\<close>

record tunDevice =
  td_uid :: nat
  td_ifName :: string
  td_virtualIP :: "u32 option"
  td_peerIP :: "u32 option"
  td_subnet :: "(u32 \<times> u32) option"
  td_routes :: "string list"
  td_exitIP :: "u32 option"
  td_snatIP :: "u32 option"
  td_routeNets :: "(u32 \<times> u32) list"
  td_natTable :: "(string \<times> u32 \<times> int) list"
  td_proxy :: "bool option"
  td_nsProxy :: "bytes list option"
  td_serverHost :: string
  td_peerID :: string
  td_peerName :: string
  td_role :: string
  td_bytesUp :: int
  td_bytesDown :: int
  td_lastUp :: int
  td_lastDown :: int
  td_directMode :: int
  td_done :: bool
  td_iface :: "bytes list"

text \<open>What the platform code of \<^verbatim>\<open>tun_config_*.go\<close> is told to do.\<close>

datatype oscmd =
    AddRoute string string string
  | RemoveRoute string string
  | ProtectServer string
  | RemoveServerRoute string
  | EnableForwarding
  | EnableNAT string
  | DisableNAT string
  | SetupSNAT string u32
  | CleanupSNAT string "u32 option"
  | RemoveTun string
  | StopPlatformVPN

record vpnRestoreConfig =
  vr_PeerName :: string
  vr_Routes :: "string list"
  vr_ExitIP :: string
  vr_Role :: string

text \<open>An \<^verbatim>\<open>activeSpeedTest\<close>: \<open>st_uid\<close> is the identity of the object, \<open>st_cancel\<close> the channel \<^verbatim>\<open>cancel\<close>, \<open>None\<close> if nil
  and otherwise whether it is closed; \<open>st_StartTime\<close> is \<open>None\<close> for the zero time; \<open>st_UploadMbps\<close> is the number as
  received.\<close>

record speedTest =
  st_uid :: nat
  st_TestID :: string
  st_PeerID :: string
  st_Phase :: string
  st_TotalSize :: int
  st_Sent :: int
  st_Received :: int
  st_StartTime :: "int option"
  st_UploadMbps :: json
  st_Transport :: string
  st_ActualTransport :: string
  st_cancel :: "bool option"

text \<open>An \<^verbatim>\<open>activeFileTransfer\<close>: \<open>ft_File\<close> is the position of the open file, \<open>None\<close> for a nil or closed one;
  \<open>ft_NackCh\<close> is the content of the channel, \<open>None\<close> if nil; \<open>ft_RecvChunks\<close> maps sequence numbers to offsets.\<close>

record fileTransfer =
  ft_TransferID :: string
  ft_PeerID :: string
  ft_PeerName :: string
  ft_FileName :: string
  ft_FileSize :: int
  ft_FileHash :: string
  ft_FilePath :: string
  ft_Direction :: string
  ft_Status :: string
  ft_File :: "nat option"
  ft_BytesDone :: int
  ft_NackCh :: "(int \<times> int) list option"
  ft_RecvChunks :: "(int \<times> int) list"
  ft_done :: bool

text \<open>\<open>c_conn\<close> is \<open>None\<close> for a nil connection and tells otherwise whether writes succeed; \<open>c_udpConn\<close>
  says whether there is a UDP socket; \<open>c_localAddr\<close> is the local address and port of the host, empty if
  it has none. File transfers are shared by the map and by userspace streams, so the map holds indices into
  \<open>c_fts\<close>; \<open>c_disk\<close> is the file system; \<open>c_tunAckChs\<close> holds indices into \<open>c_ackChans\<close>,
  the contents of the channels, \<open>c_restores\<close> the
  arguments of the goroutines that will restart a VPN; \<open>c_icmp\<close> lists the echo
  requests sent (destination, identifier, sequence number, data); \<open>c_os\<close> lists what the platform was told. \<open>c_udp\<close> lists the
  datagrams handed to the UDP socket; \<open>c_udpErr\<close> holds the addresses for which \<^verbatim>\<open>WriteToUDP\<close> returns an error at present, and
  \<open>c_dials\<close> lists the targets of the TCP connections the client has dialled for its peers, successfully or not.\<close>

record cli =
  c_MyID :: string
  c_name :: string
  c_passwordHash :: string
  c_room :: string
  c_conn :: "bool option"
  c_udpConn :: bool
  c_publicAddr :: string
  c_localAddr :: string
  c_natType :: string
  c_portModel :: "portModel option"
  c_peers :: "peerInfo list"
  c_peerConns :: "(string \<times> peerConn) list"
  c_p2pMaps :: "(string \<times> string list) list"
  c_forwards :: "(int \<times> forward) list"
  c_tunnels :: "(string \<times> tunnelConn) list"
  c_bridges :: "hopBridge list"
  c_hops :: "(string \<times> nat) list"
  c_hopBridgeByTunnel :: "(string \<times> nat) list"
  c_fwdNetstacks :: "(string \<times> fwdNetstack) list"
  c_vport :: u32
  c_pendingLeaves :: "(string \<times> peerInfo) list"
  c_tunDevices :: "(string \<times> tunDevice) list"
  c_tunAckChs :: "(string \<times> nat) list"
  c_ackChans :: "string list list"
  c_vpnRestoreConfigs :: "(string \<times> vpnRestoreConfig) list"
  c_restores :: "(string \<times> string list \<times> string) list"
  c_speedTests :: "(string \<times> speedTest) list"
  c_fts :: "fileTransfer list"
  c_fileTransfers :: "(string \<times> nat) list"
  c_serverHost :: string
  c_allowVPN :: bool
  c_allowFileRecv :: bool
  c_allowForward :: bool
  c_localOnly :: bool
  c_allowHopRelay :: bool
  c_relayDisabled :: bool
  c_done :: bool
  c_ws :: "message list"
  c_udp :: "(endpoint \<times> bytes) list"
  c_tcp :: "(conn \<times> bytes) list"
  c_closed :: "conn list"
  c_disk :: "(string \<times> bytes) list"
  c_icmp :: "(u32 \<times> u16 \<times> u16 \<times> bytes) list"
  c_os :: "oscmd list"
  c_udpErr :: "endpoint list"
  c_dials :: "string list"

text \<open>\<^verbatim>\<open>NewClient\<close>; \<open>hash\<close> is the hexadecimal SHA-256 of the password, empty if there is none, \<open>host\<close> the host of
  the server URL.\<close>

definition NewClient :: "string \<Rightarrow> string \<Rightarrow> string \<Rightarrow> string \<Rightarrow> cli" where
  "NewClient room name hash host = \<lparr>c_MyID = [], c_name = name, c_passwordHash = hash, c_room = room, c_conn = None, c_udpConn = False,
     c_publicAddr = [], c_localAddr = [], c_natType = [], c_portModel = None, c_peers = [], c_peerConns = [], c_p2pMaps = [],
     c_forwards = [], c_tunnels = [], c_bridges = [], c_hops = [], c_hopBridgeByTunnel = [], c_fwdNetstacks = [], c_vport = 10000,
     c_pendingLeaves = [], c_tunDevices = [], c_tunAckChs = [], c_ackChans = [], c_vpnRestoreConfigs = [], c_restores = [], c_speedTests = [], c_fts = [], c_fileTransfers = [],
     c_serverHost = host, c_allowVPN = True, c_allowFileRecv = True, c_allowForward = True, c_localOnly = True, c_allowHopRelay = True,
     c_relayDisabled = False, c_done = False, c_ws = [], c_udp = [], c_tcp = [], c_closed = [], c_disk = [], c_icmp = [], c_os = [], c_udpErr = [], c_dials = []\<rparr>"

section \<open>Sending\<close>

definition sendMsg :: "message \<Rightarrow> cli \<Rightarrow> cli \<times> bool" where
  "sendMsg m c = (case c_conn c of None \<Rightarrow> (c, False)
     | Some ok \<Rightarrow> (if ok then (c\<lparr>c_ws := c_ws c @ [m]\<rparr>, True) else (c, False)))"

text \<open>\<^verbatim>\<open>udpSend\<close> tells whether the write succeeded; \<open>udpWrite\<close> is a write whose result the code ignores.\<close>

definition udpSend :: "bytes \<Rightarrow> endpoint \<Rightarrow> cli \<Rightarrow> cli \<times> bool" where
  "udpSend data addr c =
     (if \<not> c_udpConn c \<or> addr \<in> set (c_udpErr c) then (c, False)
      else (c\<lparr>c_udp := c_udp c @ [(addr, data)]\<rparr>, True))"

definition udpWrite :: "bytes \<Rightarrow> endpoint \<Rightarrow> cli \<Rightarrow> cli" where
  "udpWrite data addr c = (if c_udpConn c then c\<lparr>c_udp := c_udp c @ [(addr, data)]\<rparr> else c)"

text \<open>\<^verbatim>\<open>json.Marshal(RelayEnvelope{...})\<close>.\<close>

definition relayEnvelope :: "string \<Rightarrow> json \<Rightarrow> json" where
  "relayEnvelope ty payload = JObj [(''type'', JStr ty), (''payload'', payload)]"

definition sendRelay :: "prims \<Rightarrow> string \<Rightarrow> string \<Rightarrow> json \<Rightarrow> cli \<Rightarrow> cli \<times> bool" where
  "sendRelay P to' innerType innerPayload c =
     (let envelope = relayEnvelope innerType innerPayload;
          (c1, final) = (if innerType \<noteq> ''key_exchange'' then
             (case mget (c_peerConns c) to' of
                None \<Rightarrow> (c, envelope)
              | Some pc \<Rightarrow> (case pc_Crypto pc of
                    None \<Rightarrow> (c, envelope)
                  | Some cr \<Rightarrow>
                     if IsEncrypted cr then
                       (let (cr', encrypted) = Encrypt (p_seal P) (p_text P envelope) cr in
                        (c\<lparr>c_peerConns := mput to' (pc\<lparr>pc_Crypto := Some cr'\<rparr>) (c_peerConns c)\<rparr>,
                         relayEnvelope ''encrypted'' (JStr (b64_enc encrypted))))
                     else (c, envelope)))
             else (c, envelope))
      in sendMsg \<lparr>mType = ''relay_data'', mFrom = [], mTo = to', mRoom = [], mPayload = Some (final, 0)\<rparr> c1)"

definition sendViaP2P :: "prims \<Rightarrow> string \<Rightarrow> bytes \<Rightarrow> string \<Rightarrow> json \<Rightarrow> cli \<Rightarrow> cli" where
  "sendViaP2P P peerID udpPayload relayType relayPayload c =
     (let addr = (case mget (c_peerConns c) peerID of None \<Rightarrow> None
            | Some pc \<Rightarrow> if pc_Mode pc = ''direct'' then pc_UDPAddr pc else None)
      in case addr of
           Some a \<Rightarrow> (let (c1, ok) = udpSend udpPayload a c in
                      if ok then c1 else fst (sendRelay P peerID relayType relayPayload c1))
         | None \<Rightarrow> fst (sendRelay P peerID relayType relayPayload c))"

text \<open>\<^verbatim>\<open>sendTunnelData\<close> and \<^verbatim>\<open>sendTunnelClose\<close>.\<close>

definition tunnelData :: "string \<Rightarrow> string \<Rightarrow> json" where
  "tunnelData tid d = JObj [(''tunnel_id'', JStr tid), (''data'', JStr d)]"

definition tunnelClose :: "string \<Rightarrow> json" where
  "tunnelClose tid = JObj [(''tunnel_id'', JStr tid)]"

definition sendTunnelData :: "prims \<Rightarrow> string \<Rightarrow> string \<Rightarrow> bytes \<Rightarrow> cli \<Rightarrow> cli \<times> bool" where
  "sendTunnelData P peerID tunnelID data c = sendRelay P peerID ''tunnel_data'' (tunnelData tunnelID (b64_enc data)) c"

definition sendTunnelClose :: "prims \<Rightarrow> string \<Rightarrow> string \<Rightarrow> cli \<Rightarrow> cli" where
  "sendTunnelClose P peerID tunnelID c = fst (sendRelay P peerID ''close_tunnel'' (tunnelClose tunnelID) c)"

definition shortID :: "string \<Rightarrow> string" where
  "shortID i = (if length i > 12 then take 12 i else i)"

text \<open>\<^verbatim>\<open>getForwardMode\<close>, \<^verbatim>\<open>PeerMode\<close> and \<^verbatim>\<open>isPeerForwardForceRelay\<close>.\<close>

definition getForwardMode :: "cli \<Rightarrow> string \<Rightarrow> string" where
  "getForwardMode c peerID = (case mget (c_peerConns c) peerID of
       Some pc \<Rightarrow> if pc_Mode pc = ''direct'' then ''P2P'' else if pc_AutoHopVia pc \<noteq> [] then ''HOP'' else ''RELAY''
     | None \<Rightarrow> ''RELAY'')"

definition PeerMode :: "cli \<Rightarrow> string \<Rightarrow> string" where
  "PeerMode c peerID = (case mget (c_peerConns c) peerID of Some pc \<Rightarrow> pc_Mode pc | None \<Rightarrow> ''-'')"

definition isPeerForwardForceRelay :: "cli \<Rightarrow> string \<Rightarrow> bool" where
  "isPeerForwardForceRelay c peerID = list_ex (\<lambda>(p, f). f_PeerID f = peerID \<and> f_ForceRelay f) (c_forwards c)"

section \<open>Receiving relayed messages\<close>

text \<open>The opening of a \<^verbatim>\<open>relay_data\<close> message in \<^verbatim>\<open>handleRelayData\<close>: the type and payload to dispatch,
  or \<open>None\<close> when the message is dropped. The decrypted envelope is unmarshalled over the outer one, so
  that a member it lacks keeps the outer value.\<close>

definition dec_envelope :: "string \<times> json option \<Rightarrow> json \<Rightarrow> (string \<times> json option) option" where
  "dec_envelope cur v = (let (kvs, ok0) = obj_members v; (ty, ok1) = fold into_str (field ''type'' kvs) (fst cur, True) in
     if ok0 \<and> ok1 then Some (ty, case get_raw ''payload'' kvs of None \<Rightarrow> snd cur | Some p \<Rightarrow> Some p) else None)"

definition open_relay :: "prims \<Rightarrow> message \<Rightarrow> cli \<Rightarrow> (string \<times> json option) option" where
  "open_relay P m c = do {
     (payload, _) \<leftarrow> mPayload m;
     env \<leftarrow> dec_envelope ([], None) payload;
     if fst env = ''encrypted'' then do {
       p \<leftarrow> snd env;
       let (encData, ok) = into_str p ([], True);
       if \<not> ok then None
       else do {
         ciphertext \<leftarrow> b64_dec encData;
         pc \<leftarrow> mget (c_peerConns c) (mFrom m);
         cr \<leftarrow> pc_Crypto pc;
         if \<not> IsEncrypted cr then None
         else do {
           plaintext \<leftarrow> Decrypt (p_open P) ciphertext cr;
           v \<leftarrow> p_parse P plaintext;
           dec_envelope env v } } }
     else Some env }"

section \<open>What sending leaves alone\<close>

lemma sendMsg_frame [simp]:
  "c_peerConns (fst (sendMsg m c)) = c_peerConns c" "c_tunnels (fst (sendMsg m c)) = c_tunnels c"
  "c_udp (fst (sendMsg m c)) = c_udp c" "c_tcp (fst (sendMsg m c)) = c_tcp c"
  by (auto simp: sendMsg_def split: option.splits)

text \<open>A relayed message touches the outgoing messages and, when encrypted, the nonce counter of the
  peer it goes to; nothing else.\<close>

definition ws_only :: "cli \<Rightarrow> cli \<Rightarrow> bool" where
  "ws_only c c' \<longleftrightarrow> c' = c\<lparr>c_ws := c_ws c', c_peerConns := c_peerConns c'\<rparr>
     \<and> (\<forall>k. (mget (c_peerConns c') k = None) = (mget (c_peerConns c) k = None)
         \<and> (\<forall>pc pc'. mget (c_peerConns c) k = Some pc \<longrightarrow> mget (c_peerConns c') k = Some pc' \<longrightarrow>
              pc' = pc\<lparr>pc_Crypto := pc_Crypto pc'\<rparr> \<and>
              map_option (\<lambda>cr. cr\<lparr>cr_nonceCounter := 0\<rparr>) (pc_Crypto pc') = map_option (\<lambda>cr. cr\<lparr>cr_nonceCounter := 0\<rparr>) (pc_Crypto pc)))"

lemma ws_only_refl [simp]: "ws_only c c"
  by (simp add: ws_only_def)

lemma Encrypt_frame: "(cr' :: peerCrypto)\<lparr>cr_nonceCounter := 0\<rparr> = cr\<lparr>cr_nonceCounter := 0\<rparr>" if "Encrypt s d cr = (cr', e)"
  using that by (auto simp: Encrypt_def nextNonce_def Let_def split: option.splits bool.splits)

lemma sendRelay_ws_only: "ws_only c (fst (sendRelay P to' ty v c))"
  by (auto simp: sendRelay_def ws_only_def sendMsg_def Let_def Encrypt_frame split: option.splits prod.splits if_splits)

lemma sendRelay_eq: "fst (sendRelay P to' ty v c) = c\<lparr>c_ws := c_ws (fst (sendRelay P to' ty v c)), c_peerConns := c_peerConns (fst (sendRelay P to' ty v c))\<rparr>"
  using sendRelay_ws_only [of c P to' ty v] unfolding ws_only_def by blast

text \<open>Every other field is as before: \<open>f\<close> is any function that does not look at those two.\<close>

lemma sendRelay_other:
  assumes "\<And>c w p. f (c\<lparr>c_ws := w, c_peerConns := p\<rparr>) = f c"
  shows "f (fst (sendRelay P to' ty v c)) = f c"
  using assms by (subst sendRelay_eq) (rule assms)

lemma sendViaP2P_other:
  assumes "\<And>c w p. f (c\<lparr>c_ws := w, c_peerConns := p\<rparr>) = f c" "\<And>c u. f (c\<lparr>c_udp := u\<rparr>) = f c"
  shows "f (sendViaP2P P to' d ty v c) = f c"
proof -
  have "f (fst (sendRelay P to' ty v c')) = f c'" for c' by (rule sendRelay_other, rule assms(1))
  then show ?thesis by (simp add: sendViaP2P_def udpSend_def Let_def assms(2) split: option.splits)
qed

end
