(* ===== verification/Packet.thy ===== *)
theory Packet
  imports Secure Stun
begin

text \<open>
  IP packets of the VPN: the checksums of \<^verbatim>\<open>src/client/core/tun.go\<close> and \<^verbatim>\<open>src/client/core/tun_proxy.go\<close>, the
  packets that the proxy builds, the clamping of the TCP segment size and the choice of compression.

  \<^item> A packet is its list of bytes; \<open>None\<close> is a panic, except in the builders, where it is the nil slice.
  \<^item> An IPv4 address (\<^verbatim>\<open>To4\<close>) is the 32-bit number of its four bytes.
  \<^item> A packet is a slice of a larger array. Where the code slices beyond the length of the packet, the
    bytes of the array behind it are an argument, \<open>spare\<close>.
\<close>

section \<open>Checksums\<close>

text \<open>The summation loop and the folding of the carries, common to \<^verbatim>\<open>ipHeaderChecksum\<close>, \<^verbatim>\<open>icmpChecksum\<close>,
  \<^verbatim>\<open>tcpChecksumCalc\<close> and \<^verbatim>\<open>tcpChecksumFull\<close>.\<close>

fun sum16 :: "bytes \<Rightarrow> u32 \<Rightarrow> u32" where
  "sum16 (a # b # bs) acc = sum16 bs (acc + ucast (be16 a b))"
| "sum16 [a] acc = acc + push_bit 8 (ucast a)"
| "sum16 [] acc = acc"

lemma unat_carry_step:
  "unat (drop_bit 16 s + (s AND 0xffff) :: u32) = unat s div 65536 + unat s mod 65536"
proof -
  have "unat (drop_bit 16 s) = unat s div 65536"
    by (simp add: drop_bit_eq_div unat_div)
  moreover have "unat (s AND 0xffff) = unat s mod 65536"
  proof -
    have "s AND 0xffff = take_bit 16 s" by (simp add: take_bit_eq_mask mask_eq_exp_minus_1)
    then show ?thesis by (simp add: unsigned_take_bit_eq take_bit_eq_mod [of 16 "unat s"])
  qed
  ultimately show ?thesis using unat_u32_less [of s] by (simp add: unat_word_ariths)
qed

function carry :: "u32 \<Rightarrow> u32" where
  "carry s = (if s > 0xffff then carry (drop_bit 16 s + (s AND 0xffff)) else s)"
  by pat_completeness auto
termination
proof (relation "measure unat")
  fix s :: u32
  assume "0xffff < s"
  then have "65535 < unat s" by (simp add: word_less_nat_alt)
  moreover have "unat s = 65536 * (unat s div 65536) + unat s mod 65536" by simp
  ultimately show "(drop_bit 16 s + (s AND 0xffff), s) \<in> measure unat"
    by (simp only: in_measure unat_carry_step)
qed simp

declare carry.simps [simp del]

definition csum16 :: "bytes \<Rightarrow> u16" where
  "csum16 d = NOT (ucast (carry (sum16 d 0)))"

definition ipHeaderChecksum :: "bytes \<Rightarrow> u16" where
  "ipHeaderChecksum header = csum16 header"

definition icmpChecksum :: "bytes \<Rightarrow> u16" where
  "icmpChecksum data = csum16 data"

text \<open>The pseudo-header in front of a transport segment.\<close>

definition pseudo :: "u32 \<Rightarrow> u32 \<Rightarrow> byte \<Rightarrow> bytes \<Rightarrow> bytes" where
  "pseudo src dst proto seg = bytes32 src @ bytes32 dst @ [0, proto] @ bytes16 (of_nat (length seg)) @ seg"

definition tcpChecksumCalc :: "bytes \<Rightarrow> u32 \<Rightarrow> u32 \<Rightarrow> u16 option" where
  "tcpChecksumCalc tcpSeg src dst = map_option csum16 (put16at (pseudo src dst 6 tcpSeg) (12 + 16) 0)"

section \<open>Packets built by the proxy\<close>

text \<open>The IPv4 header: the code writes its fields into a zeroed array and computes the checksum over it
  while the checksum field is still zero.\<close>

definition ip_header :: "nat \<Rightarrow> byte \<Rightarrow> bytes \<Rightarrow> bytes \<Rightarrow> u16 \<Rightarrow> bytes" where
  "ip_header totalLen proto src dst ck =
     [0x45, 0] @ bytes16 (of_nat totalLen) @ [0, 0, 0, 0, 64, proto] @ bytes16 ck @ take 4 src @ take 4 dst"

definition buildICMPReplyPacket :: "bytes \<Rightarrow> bytes \<Rightarrow> u16 \<Rightarrow> u16 \<Rightarrow> bytes \<Rightarrow> bytes option" where
  "buildICMPReplyPacket src dst icmpID icmpSeq data =
     (if length src < 4 \<or> length dst < 4 then None
      else
        (let totalLen = 20 + (8 + length data);
             icmp = (\<lambda>ck. [0, 0] @ bytes16 ck @ bytes16 icmpID @ bytes16 icmpSeq @ data)
         in Some (ip_header totalLen 1 src dst (ipHeaderChecksum (ip_header totalLen 1 src dst 0)) @ icmp (icmpChecksum (icmp 0)))))"

definition buildUDPReplyPacket :: "bytes \<Rightarrow> bytes \<Rightarrow> u16 \<Rightarrow> u16 \<Rightarrow> bytes \<Rightarrow> bytes option" where
  "buildUDPReplyPacket src dst srcPort dstPort payload =
     (if length src < 4 \<or> length dst < 4 then None
      else
        (let udpLen = 8 + length payload; totalLen = 20 + udpLen
         in Some (ip_header totalLen 17 src dst (ipHeaderChecksum (ip_header totalLen 17 src dst 0)) @
              bytes16 srcPort @ bytes16 dstPort @ bytes16 (of_nat udpLen) @ bytes16 0 @ payload)))"

section \<open>Rewriting\<close>

definition ip_word_hi :: "u32 \<Rightarrow> u32" where
  "ip_word_hi ip = drop_bit 16 ip"

definition ip_word_lo :: "u32 \<Rightarrow> u32" where
  "ip_word_lo ip = ip AND 0xffff"

text \<open>\<^verbatim>\<open>fixTransportChecksum\<close>, in unsigned 32-bit arithmetic.\<close>

definition fixTransportChecksum :: "bytes \<Rightarrow> nat \<Rightarrow> u32 \<Rightarrow> u32 \<Rightarrow> bool \<Rightarrow> bytes option" where
  "fixTransportChecksum pkt ihl oldIP newIP isTCP =
     (let csumOff = (if isTCP then ihl + 16 else ihl + 6) in
      if length pkt < csumOff + 2 then Some pkt
      else do {
        oldCsum \<leftarrow> u16at pkt csumOff;
        if \<not> isTCP \<and> oldCsum = 0 then Some pkt
        else
          (let csum = ucast (NOT oldCsum) - ip_word_hi oldIP + ip_word_hi newIP - ip_word_lo oldIP + ip_word_lo newIP
           in put16at pkt csumOff (NOT (ucast (carry csum)))) })"

definition tunMSS :: u16 where "tunMSS = 1360"

text \<open>The walk over the TCP options: the position of the segment size, if there is one.\<close>

function find_mss :: "bytes \<Rightarrow> nat \<Rightarrow> nat option" where
  "find_mss opts i =
     (if i < length opts then
        (if opts ! i = 0 then None
         else if opts ! i = 1 then find_mss opts (i + 1)
         else if i + 1 \<ge> length opts then None
         else
           (let optLen = unat (opts ! (i + 1)) in
            if optLen < 2 \<or> i + optLen > length opts then None
            else if opts ! i = 2 \<and> optLen = 4 then Some (i + 2)
            else find_mss opts (i + optLen)))
      else None)"
  by pat_completeness auto
termination by (relation "measure (\<lambda>(opts, i). length opts - i)") auto

declare find_mss.simps [simp del]

definition clampMSS :: "bytes \<Rightarrow> bytes \<Rightarrow> bytes option" where
  "clampMSS pkt spare =
     (if length pkt < 20 \<or> drop_bit 4 (pkt ! 0) \<noteq> 4 then Some pkt
      else
        (let ihl = unat (pkt ! 0 AND 0x0f) * 4 in
         if pkt ! 9 \<noteq> 6 \<or> length pkt < ihl + 20 then Some pkt
         else if pkt ! (ihl + 13) AND 0x02 = 0 then Some pkt
         else
           (let dataOff = unat (drop_bit 4 (pkt ! (ihl + 12))) * 4 in
            if dataOff \<le> 20 then Some pkt
            else do {
              opts \<leftarrow> slice (pkt @ spare) (ihl + 20) (ihl + dataOff);
              case find_mss opts 0 of None \<Rightarrow> Some pkt
              | Some j \<Rightarrow> do {
                  mss \<leftarrow> u16at opts j;
                  if mss > tunMSS then do {
                    buf \<leftarrow> put16at (pkt @ spare) (ihl + 20 + j) tunMSS;
                    p \<leftarrow> put16at (take (length pkt) buf) (ihl + 16) 0;
                    src \<leftarrow> u32at p 12;
                    dst \<leftarrow> u32at p 16;
                    newCsum \<leftarrow> tcpChecksumCalc (drop ihl p) src dst;
                    put16at p (ihl + 16) newCsum }
                  else Some pkt } })))"

section \<open>Compression\<close>

definition compressRaw :: "bytes \<Rightarrow> bytes" where
  "compressRaw data = 0 # data"

text \<open>\<^verbatim>\<open>tunCompress\<close>: traffic that is compressed or encrypted already is framed as it is.\<close>

definition tunCompress :: "(bytes \<Rightarrow> bytes) \<Rightarrow> bytes \<Rightarrow> bytes option" where
  "tunCompress deflate pkt =
     (if length pkt < 20 \<or> drop_bit 4 (pkt ! 0) \<noteq> 4 then Some (Compress deflate pkt)
      else
        (let ihl = unat (pkt ! 0 AND 0x0f) * 4; proto = pkt ! 9 in do {
           media \<leftarrow> (if proto = 17 \<and> length pkt \<ge> ihl + 4
                    then do { dstPort \<leftarrow> u16at pkt (ihl + 2);
                              Some (dstPort = 443 \<or> (5004 \<le> dstPort \<and> dstPort \<le> 5100 \<and> dstPort mod 2 = 0) \<or> dstPort \<ge> 16384) }
                    else Some False);
           tls \<leftarrow> (if proto = 6 \<and> length pkt \<ge> ihl + 20
                  then do { dstPort \<leftarrow> u16at pkt (ihl + 2); srcPort \<leftarrow> u16at pkt ihl;
                            let dataOff = unat (drop_bit 4 (pkt ! (ihl + 12))) * 4;
                            Some (int (length pkt) - int ihl - int dataOff > 512 \<and> (dstPort = 443 \<or> srcPort = 443)) }
                  else Some False);
           Some (if media \<or> tls then compressRaw pkt else Compress deflate pkt) }))"

section \<open>What a checksum says\<close>

text \<open>The receiver's test of RFC 1071: the sum over the bytes, checksum included, is all ones.\<close>

definition sum_ok :: "bytes \<Rightarrow> bool" where
  "sum_ok d \<longleftrightarrow> carry (sum16 d 0) = 0xffff"

fun nsum :: "bytes \<Rightarrow> nat" where
  "nsum (a # b # bs) = unat (be16 a b) + nsum bs"
| "nsum [a] = 256 * unat a"
| "nsum [] = 0"

lemma sum16_nsum: "unat (sum16 bs acc) = (unat acc + nsum bs) mod 4294967296"
proof (induction bs acc rule: sum16.induct)
  case (1 a b bs acc)
  have "unat (acc + ucast (be16 a b)) = (unat acc + unat (be16 a b)) mod 4294967296"
    by (simp add: unat_word_ariths unat_ucast_u16_u32)
  then show ?case using 1 by (simp add: mod_simps add.assoc)
next
  case (2 a acc)
  have "unat (push_bit 8 (ucast a :: u32)) = 256 * unat a"
    using unat_byte_less [of a] by (simp add: push_bit_eq_mult unat_word_ariths unat_ucast_byte_u32)
  then show ?case by (simp add: unat_word_ariths)
next
  case (3 acc)
  then show ?case using unat_u32_less [of acc] by simp
qed

lemma nsum_append: "even (length xs) \<Longrightarrow> nsum (xs @ ys) = nsum xs + nsum ys"
  by (induction xs rule: nsum.induct) auto

lemma nsum_bytes16 [simp]: "nsum (bytes16 v) = unat v"
  by (simp add: bytes16_def)

lemma nsum_bound: "nsum bs \<le> 65535 * ((length bs + 1) div 2)"
proof (induction bs rule: nsum.induct)
  case (1 a b bs)
  then show ?case using unat_u16_less [of "be16 a b"] by simp
next
  case (2 a)
  then show ?case using unat_byte_less [of a] by simp
qed simp

lemma carry_mod: "unat (carry s) mod 65535 = unat s mod 65535 \<and> unat (carry s) \<le> 65535 \<and> (unat (carry s) = 0) = (unat s = 0)"
proof (induction s rule: carry.induct)
  case (1 s)
  show ?case
  proof (cases "s > 0xffff")
    case True
    let ?t = "drop_bit 16 s + (s AND 0xffff)"
    let ?q = "unat s div 65536" and ?r = "unat s mod 65536"
    have s: "unat s = 65535 * ?q + (?q + ?r)" using div_mult_mod_eq [of "unat s" 65536] by linarith
    have "unat s mod 65535 = (65535 * ?q + (?q + ?r)) mod 65535" by (rule arg_cong [OF s])
    also have "\<dots> = (?q + ?r) mod 65535" by (rule mod_mult_self4)
    finally have "unat s mod 65535 = unat ?t mod 65535" unfolding unat_carry_step .
    moreover have "unat ?t \<noteq> 0" "unat s \<noteq> 0" using True s unfolding unat_carry_step by (auto simp: word_less_nat_alt)
    ultimately show ?thesis using 1 True by (subst (1 2 3) carry.simps) simp
  next
    case False
    then have "unat s \<le> 65535" by (simp add: word_less_nat_alt)
    then show ?thesis using False by (subst (1 2 3) carry.simps) simp
  qed
qed

lemma unat_eq_iff_65535: "(s = 0xffff) = (unat (s :: u32) = 65535)"
  by (simp add: word_unat_eq_iff)

lemma fills_mod: "e + f = d + m \<Longrightarrow> f mod m = d mod m \<Longrightarrow> e mod m = (0 :: nat)"
proof -
  assume a: "e + f = d + m" "f mod m = d mod m"
  have "int e = (int d - int f) + int m" using a(1) by linarith
  moreover have "int m dvd int d - int f" using a(2) by (metis mod_eq_dvd_iff of_nat_mod)
  ultimately have "int m dvd int e" by simp
  then show ?thesis by (metis int_dvd_int_iff dvd_imp_mod_0)
qed

lemma folded_iff: "f mod m = n mod m \<Longrightarrow> f \<le> m \<Longrightarrow> (f = 0) = (n = 0) \<Longrightarrow> (f = m) = (0 < n \<and> n mod m = (0 :: nat))" if "0 < m"
  using that by (metis le_neq_implies_less mod_less mod_self neq0_conv)

lemma sum_ok_iff:
  assumes "length d \<le> 131072"
  shows "sum_ok d \<longleftrightarrow> 0 < nsum d \<and> nsum d mod 65535 = 0"
proof -
  have "nsum d < 4294967296" using nsum_bound [of d] assms by linarith
  then have s: "unat (sum16 d 0) = nsum d" by (simp add: sum16_nsum)
  have "sum_ok d \<longleftrightarrow> unat (carry (sum16 d 0)) = 65535" unfolding sum_ok_def by (simp add: unat_eq_iff_65535)
  also have "\<dots> \<longleftrightarrow> 0 < nsum d \<and> nsum d mod 65535 = 0"
    using carry_mod [of "sum16 d 0"] unfolding s by (intro folded_iff) auto
  finally show ?thesis .
qed

lemma unat_NOT_carry: "unat (NOT (ucast (carry s)) :: u16) = 65535 - unat (carry s)"
proof -
  let ?f = "carry s"
  have "unat (ucast ?f :: u16) = unat ?f"
    using carry_mod [of s] by (simp add: unsigned_ucast_eq take_bit_eq_mod)
  moreover have "unat (NOT x) = 65535 - unat x" for x :: u16
  proof -
    have "NOT x = - 1 - x" by (simp add: not_eq_complement)
    then show ?thesis using unat_u16_less [of x] by (simp add: unat_sub word_order.extremum unsigned_minus_1_eq_mask mask_eq_exp_minus_1)
  qed
  ultimately show ?thesis by simp
qed

lemma unat_csum16: "unat (csum16 d) = 65535 - unat (carry (sum16 d 0))"
  by (simp add: csum16_def unat_NOT_carry)

text \<open>A checksum computed with its field set to zero makes the test succeed.\<close>

lemma csum16_fills:
  assumes "even (length xs)" "length (xs @ bytes16 0 @ ys) \<le> 131072"
  shows "sum_ok (xs @ bytes16 (csum16 (xs @ bytes16 0 @ ys)) @ ys)"
proof -
  let ?d = "xs @ bytes16 0 @ ys" and ?e = "xs @ bytes16 (csum16 (xs @ bytes16 0 @ ys)) @ ys"
  let ?f = "unat (carry (sum16 ?d 0))"
  have d: "nsum ?d = nsum xs + nsum ys" using assms(1) by (simp add: nsum_append)
  have "nsum ?d < 4294967296" using nsum_bound [of ?d] assms(2) by linarith
  then have s: "unat (sum16 ?d 0) = nsum ?d" by (simp add: sum16_nsum)
  have f: "?f mod 65535 = nsum ?d mod 65535" "?f \<le> 65535" "(?f = 0) = (nsum ?d = 0)"
    using carry_mod [of "sum16 ?d 0"] unfolding s by auto
  have e: "nsum ?e + ?f = nsum ?d + 65535"
    using assms(1) f(2) d by (simp add: nsum_append unat_csum16)
  then have "nsum ?e mod 65535 = 0" using f(1) by (rule fills_mod)
  moreover have "0 < nsum ?e" using e f by linarith
  moreover have "length ?e \<le> 131072" using assms(2) by simp
  ultimately show ?thesis by (simp only: sum_ok_iff)
qed

section \<open>Built packets\<close>

lemma ip_header_ok:
  assumes "length src \<ge> 4" "length dst \<ge> 4"
  shows "sum_ok (ip_header totalLen proto src dst (ipHeaderChecksum (ip_header totalLen proto src dst 0)))"
proof -
  let ?xs = "[0x45, 0] @ bytes16 (of_nat totalLen) @ [0, 0, 0, 0, 64, proto]" and ?ys = "take 4 src @ take 4 dst"
  have "sum_ok (?xs @ bytes16 (csum16 (?xs @ bytes16 0 @ ?ys)) @ ?ys)"
    using assms by (intro csum16_fills) simp_all
  then show ?thesis by (simp add: ip_header_def ipHeaderChecksum_def)
qed

lemma length_ip_header [simp]: "length src \<ge> 4 \<Longrightarrow> length dst \<ge> 4 \<Longrightarrow> length (ip_header totalLen proto src dst ck) = 20"
  by (simp add: ip_header_def)

text \<open>The echo replies that the subnet proxy builds are well formed: whatever the addresses and data, both the
  IP header and the ICMP message pass the receiver's checksum test, the header announces the length of the
  packet, and identifier, sequence number and data stand where a receiver reads them.\<close>

theorem icmp_reply_well_formed:
  assumes "length src = 4" "length dst = 4" "length data \<le> 65507"
  shows "\<exists>pkt. buildICMPReplyPacket src dst i q data = Some pkt \<and> length pkt = 28 + length data
    \<and> sum_ok (take 20 pkt) \<and> sum_ok (drop 20 pkt) \<and> u16at pkt 2 = Some (of_nat (length pkt))
    \<and> slice pkt 12 16 = Some src \<and> slice pkt 16 20 = Some dst \<and> u16at pkt 24 = Some i \<and> u16at pkt 26 = Some q \<and> drop 28 pkt = data"
proof -
  let ?totalLen = "20 + (8 + length data)"
  let ?h = "ip_header ?totalLen 1 src dst (ipHeaderChecksum (ip_header ?totalLen 1 src dst 0))"
  let ?rest = "bytes16 i @ bytes16 q @ data"
  let ?ck = "icmpChecksum ([0, 0] @ bytes16 0 @ ?rest)"
  let ?m = "[0, 0] @ bytes16 ?ck @ ?rest"
  have "sum_ok ?m" unfolding icmpChecksum_def using assms(3) by (intro csum16_fills) simp_all
  moreover have "sum_ok ?h" using assms by (intro ip_header_ok) simp_all
  moreover have "u16at (?h @ ?m) 2 = Some (of_nat ?totalLen)" "slice (?h @ ?m) 12 16 = Some src" "slice (?h @ ?m) 16 20 = Some dst"
    using assms(1,2) by (simp_all add: ip_header_def bytes16_def)
  moreover have "u16at (?h @ ?m) 24 = Some i" "u16at (?h @ ?m) 26 = Some q"
    using assms(1,2) by (simp_all add: nth_append bytes16_def)
  moreover have "drop 28 (?h @ ?m) = data" using assms by simp
  moreover have "buildICMPReplyPacket src dst i q data = Some (?h @ ?m)"
    using assms by (simp add: buildICMPReplyPacket_def Let_def)
  ultimately show ?thesis using assms by (intro exI [of _ "?h @ ?m"]) simp
qed

theorem icmp_reply_well_formed_witness:
  "\<exists>pkt. buildICMPReplyPacket [192, 168, 1, 7] [10, 7, 0, 5] 1 2 [3, 4, 5] = Some pkt \<and> sum_ok (take 20 pkt) \<and> sum_ok (drop 20 pkt)"
  using icmp_reply_well_formed [of "[192, 168, 1, 7]" "[10, 7, 0, 5]" "[3, 4, 5]" 1 2] by auto

section \<open>The choice of compression\<close>

lemma Decompress_compressRaw [simp]: "Decompress inflate (compressRaw d) = Some d"
  by (simp add: compressRaw_def Decompress_def)

lemma tunCompress_decompress:
  assumes "\<And>d. inflate (deflate d) = Some d"
  shows "\<exists>z. tunCompress deflate pkt = Some z \<and> Decompress inflate z = Some pkt \<and> length z \<le> length pkt + 1 \<and> z \<noteq> []"
proof -
  have d: "Decompress inflate (Compress deflate pkt) = Some pkt" "length (Compress deflate pkt) \<le> length pkt + 1"
    using assms by (auto simp: Compress_def Decompress_def Let_def)
  have r: "Decompress inflate (compressRaw pkt) = Some pkt" "length (compressRaw pkt) = length pkt + 1" "compressRaw pkt \<noteq> []" "Compress deflate pkt \<noteq> []"
    by (simp_all add: compressRaw_def Decompress_def Compress_def Let_def)
  show ?thesis using d r by (simp add: tunCompress_def Let_def)
qed

text \<open>Whichever frame is chosen for a packet of the VPN, the other side recovers the packet from it, and the
  choice never panics: a packet is framed whatever bytes it has.\<close>

theorem tunCompress_roundtrip:
  assumes "\<And>d. inflate (deflate d) = Some d"
  shows "\<exists>z. tunCompress deflate pkt = Some z \<and> Decompress inflate z = Some pkt \<and> length z \<le> length pkt + 1"
  using tunCompress_decompress [of inflate deflate pkt] assms by blast

theorem tunCompress_roundtrip_witness:
  "\<exists>z. tunCompress (\<lambda>d. d) [1, 2, 3] = Some z \<and> Decompress Some z = Some [1, 2, 3]"
  using tunCompress_roundtrip [of Some "\<lambda>d. d" "[1, 2, 3]"] by auto

section \<open>Incremental update of a transport checksum\<close>

lemma list_split2: "off + 2 \<le> length p \<Longrightarrow> p = take off p @ [p ! off, p ! Suc off] @ drop (off + 2) p"
  by (simp add: Cons_nth_drop_Suc)

lemma put16at_split: "off + 2 \<le> length p \<Longrightarrow> put16at p off v = Some (take off p @ bytes16 v @ drop (off + 2) p)"
  by (simp add: put16at_def bytes16_def upd_conv_take_nth_drop take_Suc_conv_app_nth)

lemma nsum_put16:
  assumes "even off" "off + 2 \<le> length p"
  shows "nsum (take off p @ bytes16 v @ drop (off + 2) p) + unat (be16 (p ! off) (p ! Suc off)) = nsum p + unat v"
proof -
  have "even (length (take off p))" using assms by simp
  then have "nsum (take off p @ bytes16 v @ drop (off + 2) p) = nsum (take off p) + (unat v + nsum (drop (off + 2) p))"
    "nsum (take off p @ [p ! off, p ! Suc off] @ drop (off + 2) p) = nsum (take off p) + (unat (be16 (p ! off) (p ! Suc off)) + nsum (drop (off + 2) p))"
    by (simp_all add: nsum_append)
  then show ?thesis using list_split2 [OF assms(2)] by simp
qed

definition ip_sum :: "u32 \<Rightarrow> nat" where
  "ip_sum ip = unat (ip_word_hi ip) + unat (ip_word_lo ip)"

lemma ip_word_lo_take_bit: "ip_word_lo ip = take_bit 16 ip"
  by (simp add: ip_word_lo_def take_bit_eq_mask mask_eq_exp_minus_1)

lemma ip_word_bounds: "unat (ip_word_hi ip) < 65536" "unat (ip_word_lo ip) < 65536"
proof -
  have "unat (ip_word_hi ip) = unat ip div 65536" by (simp add: ip_word_hi_def drop_bit_eq_div unat_div)
  then show "unat (ip_word_hi ip) < 65536" using unat_u32_less [of ip] by simp
  show "unat (ip_word_lo ip) < 65536" by (simp add: ip_word_lo_take_bit unsigned_take_bit_eq take_bit_eq_mod [of 16 "unat ip"])
qed

lemma nsum_bytes32: "nsum (bytes32 ip) = ip_sum ip"
proof -
  have "be16 (ucast (drop_bit 24 ip)) (ucast (drop_bit 16 ip)) = ucast (ip_word_hi ip)"
    "be16 (ucast (drop_bit 8 ip)) (ucast ip) = ucast (ip_word_lo ip)"
    unfolding be16_def ip_word_hi_def ip_word_lo_take_bit by (rule bit_word_eqI; auto simp: bit_simps)+
  moreover have "unat (ucast w :: u16) = unat w" if "unat w < 65536" for w :: u32
    using that by (simp add: unsigned_ucast_eq take_bit_eq_mod)
  ultimately show ?thesis using ip_word_bounds [of ip] by (simp add: bytes32_def ip_sum_def)
qed

lemma nsum_pseudo: "nsum (pseudo src dst proto seg) = ip_sum src + ip_sum dst + unat proto + unat (of_nat (length seg) :: u16) + nsum seg"
  by (simp add: pseudo_def nsum_append nsum_bytes32 unat_be16)

lemma length_pseudo [simp]: "length (pseudo src dst proto seg) = 12 + length seg"
  by (simp add: pseudo_def)

text \<open>The folded 32-bit difference: right when it does not go below zero, one too high when it does.\<close>

lemma carry_difference:
  fixes oc :: u16 and old new :: u32
  defines "T \<equiv> (65535 - int (unat oc)) - int (ip_sum old) + int (ip_sum new)"
    and "f \<equiv> unat (carry (ucast (NOT oc) - ip_word_hi old + ip_word_hi new - ip_word_lo old + ip_word_lo new))"
  shows "int f mod 65535 = (if 0 \<le> T then T else T + 1) mod 65535 \<and> f \<le> 65535"
proof -
  let ?w = "ucast (NOT oc) - ip_word_hi old + ip_word_hi new - ip_word_lo old + ip_word_lo new :: u32"
  have n: "uint (ucast (NOT oc) :: u32) = 65535 - int (unat oc)"
  proof -
    have "NOT oc = - 1 - oc" by (simp add: not_eq_complement)
    then have "unat (NOT oc) = 65535 - unat oc"
      using unat_u16_less [of oc] by (simp add: unat_sub word_order.extremum unsigned_minus_1_eq_mask mask_eq_exp_minus_1)
    then have "unat (ucast (NOT oc) :: u32) = 65535 - unat oc" by (simp add: unat_ucast_u16_u32)
    then have "int (unat (ucast (NOT oc) :: u32)) = int (65535 - unat oc)" by (rule arg_cong)
    then show ?thesis using unat_u16_less [of oc] by (simp add: of_nat_diff)
  qed
  have "?w = of_int (65535 - int (unat oc)) - of_int (int (unat (ip_word_hi old))) + of_int (int (unat (ip_word_hi new)))
      - of_int (int (unat (ip_word_lo old))) + of_int (int (unat (ip_word_lo new)))"
    unfolding n [symmetric] by simp
  also have "\<dots> = of_int T" unfolding T_def ip_sum_def by simp
  finally have "uint ?w = T mod 4294967296" by (simp add: uint_word_of_int)
  moreover have T: "- 131070 \<le> T" "T \<le> 196605"
    using ip_word_bounds [of old] ip_word_bounds [of new] unat_u16_less [of oc] unfolding T_def ip_sum_def by linarith+
  moreover have "T mod 4294967296 = (if 0 \<le> T then T else T + 4294967296)"
    using T mod_pos_pos_trivial [of T 4294967296] mod_pos_pos_trivial [of "T + 4294967296" 4294967296] by simp
  ultimately have w: "int (unat ?w) = (if 0 \<le> T then T else T + 4294967296)"
    by simp
  have f: "f \<le> 65535" "f mod 65535 = unat ?w mod 65535" using carry_mod [of ?w] unfolding f_def by auto
  from f(2) have "int (f mod 65535) = int (unat ?w mod 65535)" by (rule arg_cong [of _ _ int])
  then have "int f mod 65535 = int (unat ?w) mod 65535" by (simp only: zmod_int of_nat_numeral)
  moreover have "(T + 4294967296) mod 65535 = (T + 1) mod 65535"
    using mod_mult_self2 [of "T + 1" 65535 65537] by (simp add: add.commute)
  ultimately show ?thesis using f(1) unfolding w by simp
qed

lemma checksum_offset:
  fixes n n' f T e m :: int
  assumes "n' = n + T - f" "m dvd n" "f mod m = (T + e) mod m" "e = 0 \<or> e = 1" "1 < m"
  shows "m dvd n' \<longleftrightarrow> e = 0"
proof -
  have "m dvd (T + e) - f" using assms(3) by (simp add: mod_eq_dvd_iff [symmetric])
  then have "m dvd n + ((T + e) - f)" using assms(2) by simp
  moreover have "n' + e = n + ((T + e) - f)" using assms(1) by simp
  ultimately have d: "m dvd n' + e" by (simp only:)
  show ?thesis
  proof
    assume "m dvd n'"
    then have "m dvd e" using d by (simp add: dvd_add_right_iff)
    then show "e = 0" using assms(4,5) zdvd_not_zless [of 1 m] by auto
  qed (use d in simp)
qed

text \<open>The incremental update of a TCP or UDP checksum after a change of the source address, in exact terms:
  from a segment whose checksum is right for the old address it makes one that is right for the new
  address if and only if the 16-bit words of the old address do not exceed the complemented checksum plus
  the words of the new address. Otherwise the unsigned subtraction wraps modulo \<open>2\<^sup>3\<^sup>2\<close>, which is one modulo
  \<open>2\<^sup>1\<^sup>6 - 1\<close>, and the packet leaves with a checksum that every receiver rejects.\<close>

theorem fix_checksum_exact:
  assumes "even ihl" "ihl + (if isTCP then 18 else 8) \<le> length pkt" "length pkt \<le> 65535"
    and oc: "u16at pkt (if isTCP then ihl + 16 else ihl + 6) = Some oc" "isTCP \<or> oc \<noteq> 0" and "proto \<noteq> 0"
    and ok: "sum_ok (pseudo old dst proto (drop ihl pkt))"
  shows "\<exists>pkt'. fixTransportChecksum pkt ihl old new isTCP = Some pkt' \<and> length pkt' = length pkt
    \<and> (sum_ok (pseudo new dst proto (drop ihl pkt')) \<longleftrightarrow> ip_sum old \<le> 65535 - unat oc + ip_sum new)"
proof -
  define off where "off = (if isTCP then ihl + 16 else ihl + 6)"
  define csum where "csum = ucast (NOT oc) - ip_word_hi old + ip_word_hi new - ip_word_lo old + ip_word_lo new"
  define ck :: u16 where "ck = NOT (ucast (carry csum))"
  define pkt' where "pkt' = take off pkt @ bytes16 ck @ drop (off + 2) pkt"
  have off: "off + 2 \<le> length pkt" "ihl \<le> off" "even (off - ihl)" using assms(1,2) by (auto simp: off_def split: if_splits)
  have res: "fixTransportChecksum pkt ihl old new isTCP = Some pkt'"
    using off oc unfolding fixTransportChecksum_def Let_def off_def [symmetric]
    by (auto simp: put16at_split pkt'_def ck_def csum_def simp del: u16at_Some)
  have len: "length pkt' = length pkt" using off(1) by (simp add: pkt'_def)
  define T where "T = (65535 - int (unat oc)) - int (ip_sum old) + int (ip_sum new)"
  define f where "f = unat (carry csum)"
  have f: "int f mod 65535 = (if 0 \<le> T then T else T + 1) mod 65535" "f \<le> 65535"
    using carry_difference [of oc old new] unfolding T_def f_def csum_def by auto
  have "unat ck = 65535 - f"
    using unat_NOT_carry [of csum] unfolding ck_def f_def .
  let ?seg = "drop ihl pkt" and ?seg' = "drop ihl pkt'"
  have at: "be16 (?seg ! (off - ihl)) (?seg ! Suc (off - ihl)) = oc"
    using oc(1) off unfolding off_def [symmetric] by (simp add: Suc_diff_le)
  have "?seg' = take (off - ihl) ?seg @ bytes16 ck @ drop (off - ihl + 2) ?seg"
    using off by (simp add: pkt'_def drop_take)
  then have "nsum ?seg' + unat oc = nsum ?seg + unat ck"
    using nsum_put16 [of "off - ihl" ?seg ck] off at by simp
  let ?n = "nsum (pseudo old dst proto ?seg)" and ?n' = "nsum (pseudo new dst proto ?seg')"
  have "?n mod 65535 = 0" using ok assms(3) by (subst (asm) sum_ok_iff) auto
  have "int ?n' = int ?n + T - int f"
  proof -
    have "int (nsum ?seg') + int (unat oc) = int (nsum ?seg) + (65535 - int f)"
      using \<open>nsum ?seg' + unat oc = nsum ?seg + unat ck\<close> \<open>unat ck = 65535 - f\<close> f(2) by linarith
    then show ?thesis unfolding nsum_pseudo T_def by (simp only: length_drop len of_nat_add)
  qed
  have "sum_ok (pseudo new dst proto ?seg') \<longleftrightarrow> ?n' mod 65535 = 0"
    using assms(3,6) len by (subst sum_ok_iff) (auto simp: nsum_pseudo unat_gt_0)
  also have "\<dots> \<longleftrightarrow> 0 \<le> T"
  proof -
    have "int f mod 65535 = (T + (if 0 \<le> T then 0 else 1)) mod 65535" using f(1) by (simp split: if_splits)
    moreover have "65535 dvd int ?n" using \<open>?n mod 65535 = 0\<close> int_dvd_int_iff [of 65535 ?n] by (simp add: mod_eq_0_iff_dvd)
    ultimately have "65535 dvd int ?n' \<longleftrightarrow> (if 0 \<le> T then 0 else 1) = (0 :: int)"
      by (intro checksum_offset [OF \<open>int ?n' = int ?n + T - int f\<close>]) simp_all
    then show ?thesis using int_dvd_int_iff [of 65535 ?n'] by (simp add: mod_eq_0_iff_dvd split: if_splits)
  qed
  also have "\<dots> \<longleftrightarrow> ip_sum old \<le> 65535 - unat oc + ip_sum new" using unat_u16_less [of oc] unfolding T_def by linarith
  finally show ?thesis using res len by blast
qed

theorem fix_checksum_exact_witness:
  "sum_ok (pseudo 0xC0A801C8 0x0A070009 17 [117, 49, 0, 2, 0, 8, 190, 42])
   \<and> (\<exists>pkt'. fixTransportChecksum (replicate 20 0 @ [117, 49, 0, 2, 0, 8, 190, 42]) 20 0xC0A801C8 0x0A070005 False = Some pkt'
       \<and> \<not> sum_ok (pseudo 0x0A070005 0x0A070009 17 (drop 20 pkt')))"
proof -
  let ?seg = "[117, 49, 0, 2, 0, 8, 190, 42] :: bytes" and ?pkt = "replicate 20 0 @ [117, 49, 0, 2, 0, 8, 190, 42] :: bytes"
  have ok: "sum_ok (pseudo 0xC0A801C8 0x0A070009 17 ?seg)"
    by (simp add: sum_ok_def pseudo_def bytes16_def bytes32_def be16_def carry.simps)
  have at: "u16at ?pkt (20 + 6) = Some 48682" by (simp add: be16_def nth_append)
  have "\<exists>pkt'. fixTransportChecksum ?pkt 20 0xC0A801C8 0x0A070005 False = Some pkt' \<and> length pkt' = length ?pkt
    \<and> (sum_ok (pseudo 0x0A070005 0x0A070009 17 (drop 20 pkt')) \<longleftrightarrow> ip_sum 0xC0A801C8 \<le> 65535 - unat (48682 :: u16) + ip_sum 0x0A070005)"
    using at ok by (intro fix_checksum_exact) simp_all
  then show ?thesis using ok by (auto simp: ip_sum_def ip_word_hi_def ip_word_lo_def)
qed

section \<open>Clamping the segment size\<close>

lemma find_mss_bounds: "find_mss opts i = Some j \<Longrightarrow> i + 2 \<le> j \<and> j + 2 \<le> length opts"
proof (induction opts i rule: find_mss.induct)
  case (1 opts i)
  show ?case
    using 1(3) 1(1) 1(2) by (subst (asm) find_mss.simps) (fastforce simp: Let_def split: if_splits)
qed

text \<open>The walk reads only bytes before the size it finds.\<close>

lemma find_mss_upd: "find_mss opts i = Some j \<Longrightarrow> find_mss (opts[j := a, Suc j := b]) i = Some j"
proof (induction opts i rule: find_mss.induct)
  case (1 opts i)
  have b: "i + 2 \<le> j" using find_mss_bounds [OF 1(3)] by simp
  then have "opts[j := a, Suc j := b] ! i = opts ! i" "opts[j := a, Suc j := b] ! Suc i = opts ! Suc i" by simp_all
  then show ?case
    using 1(3) 1(1) 1(2) by (subst (asm) find_mss.simps, subst find_mss.simps) (auto simp: Let_def split: if_splits)
qed

abbreviation put16 :: "bytes \<Rightarrow> nat \<Rightarrow> u16 \<Rightarrow> bytes" where
  "put16 p i v \<equiv> p[i := ucast (drop_bit 8 v), Suc i := ucast v]"

text \<open>The checksum of a segment whose checksum field is zero.\<close>

lemma tcpChecksumCalc_fills:
  assumes "18 \<le> length seg" "length seg \<le> 65535" "seg ! 16 = 0" "seg ! 17 = 0"
  shows "\<exists>ck. tcpChecksumCalc seg src dst = Some ck \<and> sum_ok (pseudo src dst 6 (put16 seg 16 ck))"
proof -
  let ?p = "pseudo src dst 6 seg"
  let ?h = "bytes32 src @ bytes32 dst @ [0, 6] @ bytes16 (of_nat (length seg))"
  have seg: "seg = take 16 seg @ bytes16 0 @ drop 18 seg" using list_split2 [of 16 seg] assms by (simp add: bytes16_def)
  have "put16at ?p 28 0 = Some (take 28 ?p @ bytes16 0 @ drop 30 ?p)" using assms(1) put16at_split [of 28 ?p 0] by simp
  moreover have "take 28 ?p = ?h @ take 16 seg" "drop 30 ?p = drop 18 seg" by (simp_all add: pseudo_def)
  ultimately have "tcpChecksumCalc seg src dst = Some (csum16 ((?h @ take 16 seg) @ bytes16 0 @ drop 18 seg))"
    by (simp add: tcpChecksumCalc_def)
  moreover have "sum_ok ((?h @ take 16 seg) @ bytes16 (csum16 ((?h @ take 16 seg) @ bytes16 0 @ drop 18 seg)) @ drop 18 seg)"
    using assms by (intro csum16_fills) simp_all
  moreover have "pseudo src dst 6 (put16 seg 16 v) = (?h @ take 16 seg) @ bytes16 v @ drop 18 seg" for v
    using put16at_split [of 16 seg v] assms(1) by (simp add: pseudo_def put16at_def)
  ultimately show ?thesis by simp
qed

definition hdr_len :: "bytes \<Rightarrow> nat" where
  "hdr_len pkt = unat (pkt ! 0 AND 0x0f) * 4"

definition data_off :: "bytes \<Rightarrow> nat" where
  "data_off pkt = unat (drop_bit 4 (pkt ! (hdr_len pkt + 12))) * 4"

definition syn_with_options :: "bytes \<Rightarrow> bool" where
  "syn_with_options pkt \<longleftrightarrow> 20 \<le> length pkt \<and> drop_bit 4 (pkt ! 0) = 4 \<and> pkt ! 9 = 6 \<and> hdr_len pkt + 20 \<le> length pkt
     \<and> pkt ! (hdr_len pkt + 13) AND 0x02 \<noteq> 0 \<and> 20 < data_off pkt"

lemma clampMSS_other: "\<not> syn_with_options pkt \<Longrightarrow> clampMSS pkt spare = Some pkt"
  by (auto simp: clampMSS_def syn_with_options_def Let_def hdr_len_def data_off_def)

lemma clampMSS_syn:
  assumes "syn_with_options pkt"
  shows "clampMSS pkt spare = do {
     opts \<leftarrow> slice (pkt @ spare) (hdr_len pkt + 20) (hdr_len pkt + data_off pkt);
     case find_mss opts 0 of None \<Rightarrow> Some pkt
     | Some j \<Rightarrow> do {
         mss \<leftarrow> u16at opts j;
         if mss > tunMSS then do {
           buf \<leftarrow> put16at (pkt @ spare) (hdr_len pkt + 20 + j) tunMSS;
           p \<leftarrow> put16at (take (length pkt) buf) (hdr_len pkt + 16) 0;
           src \<leftarrow> u32at p 12;
           dst \<leftarrow> u32at p 16;
           newCsum \<leftarrow> tcpChecksumCalc (drop (hdr_len pkt) p) src dst;
           put16at p (hdr_len pkt + 16) newCsum }
         else Some pkt } }"
  using assms unfolding clampMSS_def syn_with_options_def Let_def hdr_len_def data_off_def by (simp del: slice_Some u16at_Some)

lemma clampMSS_rewrites:
  assumes syn: "syn_with_options pkt" and h: "20 \<le> hdr_len pkt" "hdr_len pkt + data_off pkt \<le> length pkt" "length pkt \<le> 65535"
    and opts: "slice pkt (hdr_len pkt + 20) (hdr_len pkt + data_off pkt) = Some opts" "find_mss opts 0 = Some j" "u16at opts j = Some m" "m > tunMSS"
    and ip: "u32at pkt 12 = Some src" "u32at pkt 16 = Some dst"
  shows "\<exists>ck. clampMSS pkt spare = Some (put16 (put16 pkt (hdr_len pkt + 20 + j) tunMSS) (hdr_len pkt + 16) ck)
    \<and> sum_ok (pseudo src dst 6 (drop (hdr_len pkt) (put16 (put16 pkt (hdr_len pkt + 20 + j) tunMSS) (hdr_len pkt + 16) ck)))"
proof -
  let ?h = "hdr_len pkt"
  let ?a = "put16 pkt (?h + 20 + j) tunMSS"
  let ?p = "put16 ?a (?h + 16) 0"
  have o: "slice (pkt @ spare) (?h + 20) (?h + data_off pkt) = Some opts" using opts(1) h(2) by (simp add: slice_def split: if_splits)
  have j: "j + 2 \<le> length opts" using find_mss_bounds [OF opts(2)] by simp
  then have jl: "?h + 20 + j + 2 \<le> length pkt" using length_slice [OF opts(1)] h(2) by linarith
  have buf: "put16at (pkt @ spare) (?h + 20 + j) tunMSS = Some (?a @ spare)"
    using jl by (simp add: put16at_def list_update_append)
  have p: "put16at ?a (?h + 16) 0 = Some ?p" using jl by (simp add: put16at_def)
  have ips: "u32at ?p 12 = Some src" "u32at ?p 16 = Some dst" using ip h(1) jl by (simp_all add: u32at_def)
  have seg: "18 \<le> length (drop ?h ?p)" "length (drop ?h ?p) \<le> 65535" "drop ?h ?p ! 16 = 0" "drop ?h ?p ! 17 = 0"
    using jl h(3) by (simp_all add: nth_list_update)
  obtain ck where ck: "tcpChecksumCalc (drop ?h ?p) src dst = Some ck" "sum_ok (pseudo src dst 6 (put16 (drop ?h ?p) 16 ck))"
    using tcpChecksumCalc_fills [OF seg] by blast
  have q: "put16 ?p (?h + 16) ck = put16 ?a (?h + 16) ck" "put16 (drop ?h ?p) 16 ck = drop ?h (put16 ?a (?h + 16) ck)"
    using jl by (auto intro!: nth_equalityI simp: nth_list_update)
  show ?thesis
    unfolding clampMSS_syn [OF syn] o using opts buf p ips ck q jl by (intro exI [of _ ck]) (simp add: put16at_def)
qed

definition tcp_options :: "bytes \<Rightarrow> bytes" where
  "tcp_options pkt = take (data_off pkt - 20) (drop (hdr_len pkt + 20) pkt)"

text \<open>The bytes that decide about the clamping are not among those it writes.\<close>

lemma clampMSS_keeps_header:
  assumes h: "syn_with_options pkt" "20 \<le> hdr_len pkt" "hdr_len pkt + data_off pkt \<le> length pkt"
    and opts: "slice pkt (hdr_len pkt + 20) (hdr_len pkt + data_off pkt) = Some opts" "find_mss opts 0 = Some j"
    and q: "q = put16 (put16 pkt (hdr_len pkt + 20 + j) tunMSS) (hdr_len pkt + 16) ck"
  shows "syn_with_options q \<and> hdr_len q = hdr_len pkt \<and> data_off q = data_off pkt \<and> tcp_options q = put16 opts j tunMSS"
proof -
  let ?h = "hdr_len pkt" and ?d = "data_off pkt"
  have j: "j + 2 \<le> length opts" using find_mss_bounds [OF opts(2)] by simp
  have len: "length opts = ?d - 20" using length_slice [OF opts(1)] by simp
  have at: "q ! k = pkt ! k" if "k < ?h + 16 \<or> k = ?h + 18 \<or> k = ?h + 19 \<or> (?h + 20 \<le> k \<and> k < ?h + 20 + j)" for k
    using that unfolding q by (auto simp: nth_list_update)
  have l: "length q = length pkt" by (simp add: q)
  have hd: "hdr_len q = ?h" using at [of 0] by (simp add: hdr_len_def)
  moreover have dd: "data_off q = ?d" unfolding data_off_def hd using at [of "?h + 12"] by simp
  moreover have "syn_with_options q"
    using h(1) at [of 0] at [of 9] at [of "?h + 13"] h(2) l unfolding syn_with_options_def hd dd by simp
  moreover have "tcp_options q = put16 opts j tunMSS"
    using opts(1) h(3) j len unfolding tcp_options_def hd dd unfolding q
    by (auto simp: slice_def take_update_swap drop_update_swap drop_update_cancel drop_take split: if_splits)
  ultimately show ?thesis by simp
qed

lemma clampMSS_idle:
  assumes h: "syn_with_options pkt" "20 \<le> hdr_len pkt" "hdr_len pkt + data_off pkt \<le> length pkt"
    and opts: "slice pkt (hdr_len pkt + 20) (hdr_len pkt + data_off pkt) = Some opts" "find_mss opts 0 = Some j"
  shows "clampMSS (put16 (put16 pkt (hdr_len pkt + 20 + j) tunMSS) (hdr_len pkt + 16) ck) spare
    = Some (put16 (put16 pkt (hdr_len pkt + 20 + j) tunMSS) (hdr_len pkt + 16) ck)"
proof -
  let ?h = "hdr_len pkt" and ?d = "data_off pkt"
  let ?q = "put16 (put16 pkt (?h + 20 + j) tunMSS) (?h + 16) ck"
  have j: "j + 2 \<le> length opts" using find_mss_bounds [OF opts(2)] by simp
  have q: "syn_with_options ?q" "hdr_len ?q = ?h" "data_off ?q = ?d" "tcp_options ?q = put16 opts j tunMSS"
    using clampMSS_keeps_header [OF h opts refl] by auto
  have "20 < ?d" using h(1) by (simp add: syn_with_options_def)
  then have "slice (?q @ spare) (?h + 20) (?h + ?d) = Some (put16 opts j tunMSS)"
    using h(3) unfolding q(4) [symmetric] tcp_options_def q(2,3) by (simp add: slice_def drop_take)
  moreover have "find_mss (put16 opts j tunMSS) 0 = Some j" using find_mss_upd [OF opts(2)] .
  moreover have "u16at (put16 opts j tunMSS) j = Some tunMSS" using j by (simp add: u16at_def)
  ultimately show ?thesis using q(1-3) by (simp add: clampMSS_syn del: u16at_Some slice_Some)
qed

text \<open>The options of a TCP header after RFC 9293, independently of the walk: each is either the byte of a no-operation or a kind, a length
  and data. A packet announces the segment size \<open>m\<close> at position \<open>j\<close> if it is a SYN and its options begin with any other options, followed by the
  option of kind 2 and length 4 with the value \<open>m\<close>; what comes behind it does not matter.\<close>

datatype tcp_opt =
    NopOpt
  | DataOpt byte bytes

primrec opt_bytes :: "tcp_opt \<Rightarrow> bytes" where
  "opt_bytes NopOpt = [1]"
| "opt_bytes (DataOpt kind d) = kind # of_nat (length d + 2) # d"

definition opts_bytes :: "tcp_opt list \<Rightarrow> bytes" where
  "opts_bytes os = concat (map opt_bytes os)"

primrec other_opt :: "tcp_opt \<Rightarrow> bool" where
  "other_opt NopOpt \<longleftrightarrow> True"
| "other_opt (DataOpt kind d) \<longleftrightarrow> kind \<noteq> 0 \<and> kind \<noteq> 1 \<and> length d \<le> 253 \<and> \<not> (kind = 2 \<and> length d = 2)"

definition announces_mss :: "bytes \<Rightarrow> nat \<Rightarrow> u16 \<Rightarrow> bool" where
  "announces_mss pkt j m \<longleftrightarrow> syn_with_options pkt \<and> (\<exists>os rest. list_all other_opt os
     \<and> tcp_options pkt = opts_bytes os @ [2, 4] @ bytes16 m @ rest \<and> j = hdr_len pkt + 20 + length (opts_bytes os) + 2)"

lemma opts_bytes_simps [simp]: "opts_bytes [] = []" "opts_bytes (x # xs) = opt_bytes x @ opts_bytes xs"
  by (simp_all add: opts_bytes_def)

lemma unat_opt_len: "n \<le> 253 \<Longrightarrow> unat (of_nat (n + 2) :: byte) = n + 2"
  unfolding unat_of_nat by simp

lemma find_mss_walks:
  "list_all other_opt os \<Longrightarrow> find_mss (p @ opts_bytes os @ [2, 4, a, b] @ rest) (length p) = Some (length p + length (opts_bytes os) + 2)"
proof (induction os arbitrary: p)
  case Nil
  show ?case by (subst find_mss.simps) (simp add: nth_append)
next
  case (Cons x os)
  have IH: "find_mss ((p @ opt_bytes x) @ opts_bytes os @ [2, 4, a, b] @ rest) (length (p @ opt_bytes x))
      = Some (length (p @ opt_bytes x) + length (opts_bytes os) + 2)"
    using Cons.prems by (intro Cons.IH) simp
  show ?case
  proof (cases x)
    case NopOpt
    then show ?thesis using IH by (subst find_mss.simps) (simp add: nth_append)
  next
    case (DataOpt kind d)
    then have d: "kind \<noteq> 0" "kind \<noteq> 1" "length d \<le> 253" "\<not> (kind = 2 \<and> length d = 2)" using Cons.prems by auto
    let ?l = "(p @ opt_bytes x) @ opts_bytes os @ [2, 4, a, b] @ rest"
    have "?l ! length p = kind" "?l ! (length p + 1) = of_nat (length d + 2)" using DataOpt by (simp_all add: nth_append)
    then have "find_mss ?l (length p) = find_mss ?l (length p + (length d + 2))"
      using d unat_opt_len [OF d(3)] DataOpt by (subst find_mss.simps) (auto simp: Let_def)
    then show ?thesis using IH DataOpt by (simp add: algebra_simps)
  qed
qed

lemma two_elements: "2 \<le> length xs \<Longrightarrow> \<exists>a b r. xs = a # b # r"
  by (cases xs; cases "tl xs") auto

lemma find_mss_found:
  assumes "find_mss opts i = Some j"
  shows "\<exists>os a b rest. list_all other_opt os \<and> drop i opts = opts_bytes os @ [2, 4, a, b] @ rest \<and> j = i + length (opts_bytes os) + 2"
  using assms
proof (induction opts i rule: find_mss.induct)
  case (1 opts i)
  have i: "i < length opts" "opts ! i \<noteq> 0" using 1(3) by (subst (asm) find_mss.simps, simp split: if_splits)+
  have hd: "drop i opts = opts ! i # drop (Suc i) opts" using i(1) by (simp add: Cons_nth_drop_Suc)
  show ?case
  proof (cases "opts ! i = 1")
    case True
    then have "find_mss opts (i + 1) = Some j" using 1(3) i by (subst (asm) find_mss.simps) simp
    from 1(1) [OF i True this] obtain os a b rest where
      "list_all other_opt os" "drop (Suc i) opts = opts_bytes os @ [2, 4, a, b] @ rest" "j = i + 1 + length (opts_bytes os) + 2" by auto
    then show ?thesis using hd True by (intro exI [of _ "NopOpt # os"] exI [of _ a] exI [of _ b] exI [of _ rest]) simp
  next
    case False
    let ?n = "unat (opts ! (i + 1))"
    have n: "i + 1 < length opts" "2 \<le> ?n" "i + ?n \<le> length opts"
      using 1(3) i False by (subst (asm) find_mss.simps, simp add: Let_def split: if_splits)+
    have hd2: "drop (Suc i) opts = opts ! (i + 1) # drop (i + 2) opts" using n(1) Cons_nth_drop_Suc [of "Suc i" opts] by simp
    show ?thesis
    proof (cases "opts ! i = 2 \<and> ?n = 4")
      case True
      then have "j = i + 2" using 1(3) i n False by (subst (asm) find_mss.simps) (simp add: Let_def)
      moreover have "opts ! (i + 1) = 4" using True by (simp add: word_unat_eq_iff)
      moreover have "2 \<le> length (drop (i + 2) opts)" using n(3) True by simp
      then obtain a b rest where "drop (i + 2) opts = a # b # rest" using two_elements by blast
      ultimately show ?thesis using True hd hd2 by (intro exI [of _ "[]"]) auto
    next
      case other: False
      then have f: "find_mss opts (i + ?n) = Some j" using 1(3) i n False by (subst (asm) find_mss.simps) (simp add: Let_def split: if_splits)
      have "\<not> i + 1 \<ge> length opts" "\<not> (?n < 2 \<or> i + ?n > length opts)" using n by auto
      from 1(2) [OF i False this(1) refl this(2) other f] obtain os a b rest where
        os: "list_all other_opt os" "drop (i + ?n) opts = opts_bytes os @ [2, 4, a, b] @ rest" "j = i + ?n + length (opts_bytes os) + 2" by auto
      let ?d = "take (?n - 2) (drop (i + 2) opts)"
      have len: "length ?d = ?n - 2" using n by simp
      have "?n < 256" by (rule unat_byte_less)
      then have ok: "other_opt (DataOpt (opts ! i) ?d)" using other i False n len by auto
      have "?n - 2 + (i + 2) = i + ?n" using n(2) by simp
      then have "drop (i + 2) opts = ?d @ drop (i + ?n) opts" using append_take_drop_id [of "?n - 2" "drop (i + 2) opts"] by (simp only: drop_drop)
      moreover have "of_nat (length ?d + 2) = opts ! (i + 1)" using len n by simp
      ultimately have "drop i opts = opt_bytes (DataOpt (opts ! i) ?d) @ opts_bytes os @ [2, 4, a, b] @ rest"
        using hd hd2 os(2) by simp
      moreover have "j = i + length (opt_bytes (DataOpt (opts ! i) ?d) @ opts_bytes os) + 2" using os(3) len n(2) by simp
      ultimately show ?thesis using ok os(1) by (intro exI [of _ "DataOpt (opts ! i) ?d # os"] exI [of _ a] exI [of _ b] exI [of _ rest]) simp
    qed
  qed
qed

text \<open>The walk finds the announced segment size, wherever it is among the options, and nothing else.\<close>

lemma find_mss_announces:
  assumes "syn_with_options pkt" "hdr_len pkt + data_off pkt \<le> length pkt"
  shows "announces_mss pkt j m \<longleftrightarrow>
    (\<exists>i. find_mss (tcp_options pkt) 0 = Some i \<and> u16at (tcp_options pkt) i = Some m \<and> j = hdr_len pkt + 20 + i)"
proof
  assume "announces_mss pkt j m"
  then obtain os rest where os: "list_all other_opt os" "tcp_options pkt = opts_bytes os @ [2, 4] @ bytes16 m @ rest"
      "j = hdr_len pkt + 20 + length (opts_bytes os) + 2" by (auto simp: announces_mss_def)
  have "find_mss (tcp_options pkt) 0 = Some (length (opts_bytes os) + 2)"
    using find_mss_walks [OF os(1), of "[]" "ucast (drop_bit 8 m)" "ucast m" rest] os(2) by (simp add: bytes16_def)
  moreover have "u16at (tcp_options pkt) (length (opts_bytes os) + 2) = Some m" using os(2) by (simp add: u16at_def nth_append bytes16_def)
  ultimately show "\<exists>i. find_mss (tcp_options pkt) 0 = Some i \<and> u16at (tcp_options pkt) i = Some m \<and> j = hdr_len pkt + 20 + i" using os(3) by auto
next
  assume "\<exists>i. find_mss (tcp_options pkt) 0 = Some i \<and> u16at (tcp_options pkt) i = Some m \<and> j = hdr_len pkt + 20 + i"
  then obtain i where i: "find_mss (tcp_options pkt) 0 = Some i" "u16at (tcp_options pkt) i = Some m" "j = hdr_len pkt + 20 + i" by blast
  from find_mss_found [OF i(1)] obtain os a b rest where os: "list_all other_opt os" "tcp_options pkt = opts_bytes os @ [2, 4, a, b] @ rest"
      "i = length (opts_bytes os) + 2" by auto
  then have "m = be16 a b" using i(2) by (simp add: u16at_def nth_append)
  then have "[a, b] = bytes16 m" by (simp add: bytes16_def)
  then show "announces_mss pkt j m" using assms(1) os i(3) by (auto simp: announces_mss_def)
qed

text \<open>Claim C35.
  Clamping the segment size is exact. Take any packet whose TCP header is complete. If it is a SYN that announces a segment size
  above 1360, then the result announces 1360 at the same position, has a right TCP checksum, and equals the packet in length and in all
  other bytes. In every other case (no SYN, no such option, malformed options before it, or a size of at most 1360) the result is the packet itself.
  Applied to its own result it changes nothing.\<close>

theorem clampMSS_correct:
  assumes len: "length pkt \<le> 65535" and complete: "syn_with_options pkt \<Longrightarrow> 20 \<le> hdr_len pkt \<and> hdr_len pkt + data_off pkt \<le> length pkt"
  shows "\<exists>pkt'. clampMSS pkt spare = Some pkt' \<and> length pkt' = length pkt \<and> clampMSS pkt' spare = Some pkt'
    \<and> (\<forall>j m. announces_mss pkt j m \<longrightarrow> m > 1360 \<longrightarrow> announces_mss pkt' j 1360
        \<and> (\<forall>k. k \<notin> {j, Suc j, hdr_len pkt + 16, hdr_len pkt + 17} \<longrightarrow> pkt' ! k = pkt ! k)
        \<and> (\<exists>src dst. u32at pkt 12 = Some src \<and> u32at pkt 16 = Some dst \<and> sum_ok (pseudo src dst 6 (drop (hdr_len pkt) pkt'))))
    \<and> ((\<forall>j m. announces_mss pkt j m \<longrightarrow> m \<le> 1360) \<longrightarrow> pkt' = pkt)"
proof (cases "\<exists>j m. announces_mss pkt j m \<and> m > 1360")
  case False
  have "clampMSS pkt spare = Some pkt"
  proof (cases "syn_with_options pkt")
    case syn: True
    then have h: "hdr_len pkt + data_off pkt \<le> length pkt" "20 < data_off pkt" using complete by (auto simp: syn_with_options_def)
    have so: "slice (pkt @ spare) (hdr_len pkt + 20) (hdr_len pkt + data_off pkt) = Some (tcp_options pkt)"
      using h by (simp add: slice_def tcp_options_def)
    have "m \<le> 1360" if "find_mss (tcp_options pkt) 0 = Some i" "u16at (tcp_options pkt) i = Some m" for i m
    proof -
      have "announces_mss pkt (hdr_len pkt + 20 + i) m" using find_mss_announces [OF syn h(1)] that by blast
      then show ?thesis using False by (metis not_less)
    qed
    then show ?thesis
      unfolding clampMSS_syn [OF syn] so using find_mss_bounds [of "tcp_options pkt" 0]
      by (auto simp: tunMSS_def not_less [symmetric] split: option.split)
  qed (simp add: clampMSS_other)
  with False show ?thesis by (auto simp: not_less [symmetric])
next
  case True
  then obtain j m where jm: "announces_mss pkt j m" "m > 1360" by blast
  then have syn: "syn_with_options pkt" by (simp add: announces_mss_def)
  let ?h = "hdr_len pkt" and ?d = "data_off pkt"
  have h: "20 \<le> ?h" "?h + ?d \<le> length pkt" "20 < ?d" using complete [OF syn] syn by (auto simp: syn_with_options_def)
  have opts: "slice pkt (?h + 20) (?h + ?d) = Some (tcp_options pkt)" using h by (simp add: slice_def tcp_options_def)
  obtain i where i: "find_mss (tcp_options pkt) 0 = Some i" "u16at (tcp_options pkt) i = Some m" "j = ?h + 20 + i"
    using jm(1) find_mss_announces [OF syn h(2)] by blast
  have one: "j' = j \<and> m' = m" if "announces_mss pkt j' m'" for j' m' using that i find_mss_announces [OF syn h(2)] by auto
  obtain src dst where ip: "u32at pkt 12 = Some src" "u32at pkt 16 = Some dst" using h by (simp add: u32at_def)
  let ?q = "\<lambda>ck. put16 (put16 pkt (?h + 20 + i) tunMSS) (?h + 16) ck"
  have "m > tunMSS" using jm(2) by (simp add: tunMSS_def)
  from clampMSS_rewrites [OF syn h(1,2) len opts i(1,2) this ip]
  obtain ck where ck: "clampMSS pkt spare = Some (?q ck)" "sum_ok (pseudo src dst 6 (drop ?h (?q ck)))" by blast
  have q: "syn_with_options (?q ck)" "hdr_len (?q ck) = ?h" "data_off (?q ck) = ?d" "tcp_options (?q ck) = put16 (tcp_options pkt) i tunMSS"
    using clampMSS_keeps_header [OF syn h(1,2) opts i(1) refl] by auto
  have "find_mss (put16 (tcp_options pkt) i tunMSS) 0 = Some i" by (rule find_mss_upd [OF i(1)])
  moreover have "u16at (put16 (tcp_options pkt) i tunMSS) i = Some tunMSS" using find_mss_bounds [OF i(1)] by (simp add: u16at_def)
  ultimately have "announces_mss (?q ck) j 1360"
    using find_mss_announces [OF q(1)] q h(2) i(3) by (auto simp: tunMSS_def)
  moreover have "\<forall>k. k \<notin> {j, Suc j, ?h + 16, ?h + 17} \<longrightarrow> ?q ck ! k = pkt ! k" using i(3) by simp
  moreover have "clampMSS (?q ck) spare = Some (?q ck)" by (rule clampMSS_idle [OF syn h(1,2) opts i(1)])
  ultimately have "\<forall>j m. announces_mss pkt j m \<longrightarrow> m > 1360 \<longrightarrow> announces_mss (?q ck) j 1360
        \<and> (\<forall>k. k \<notin> {j, Suc j, ?h + 16, ?h + 17} \<longrightarrow> ?q ck ! k = pkt ! k)
        \<and> (\<exists>src dst. u32at pkt 12 = Some src \<and> u32at pkt 16 = Some dst \<and> sum_ok (pseudo src dst 6 (drop ?h (?q ck))))"
    using one ck(2) ip by blast
  moreover have "\<not> (\<forall>j m. announces_mss pkt j m \<longrightarrow> m \<le> 1360)" using jm not_less by blast
  moreover have "length (?q ck) = length pkt" by simp
  ultimately show ?thesis using ck(1) \<open>clampMSS (?q ck) spare = Some (?q ck)\<close> by blast
qed

definition syn_packet :: bytes where
  "syn_packet = [0x45, 0, 0, 44, 0, 0, 0, 0, 64, 6, 0, 0, 10, 7, 0, 5, 10, 88, 51, 1,
     0, 80, 0, 81, 0, 0, 0, 1, 0, 0, 0, 0, 0x60, 2, 255, 255, 0, 0, 0, 0, 2, 4, 5, 180]"

lemma syn_packet_simps:
  "hdr_len syn_packet = 20" "data_off syn_packet = 24" "length syn_packet = 44" "syn_with_options syn_packet" "announces_mss syn_packet 42 1460"
proof -
  show h: "hdr_len syn_packet = 20" by (simp add: syn_packet_def hdr_len_def)
  show d: "data_off syn_packet = 24" unfolding data_off_def h by (simp add: syn_packet_def)
  show "length syn_packet = 44" by (simp add: syn_packet_def)
  show syn: "syn_with_options syn_packet" unfolding syn_with_options_def h d by (simp add: syn_packet_def)
  have "tcp_options syn_packet = opts_bytes [] @ [2, 4] @ bytes16 1460 @ []" unfolding tcp_options_def h d by (simp add: syn_packet_def bytes16_def)
  then show "announces_mss syn_packet 42 1460" using syn unfolding announces_mss_def h by (intro conjI exI [of _ "[]"]) auto
qed

theorem clampMSS_correct_witness:
  "\<exists>pkt'. clampMSS syn_packet [] = Some pkt' \<and> announces_mss pkt' 42 1360 \<and> clampMSS pkt' [] = Some pkt'"
proof -
  have "length syn_packet \<le> 65535" "20 \<le> hdr_len syn_packet \<and> hdr_len syn_packet + data_off syn_packet \<le> length syn_packet"
    by (simp_all add: syn_packet_simps)
  from clampMSS_correct [OF this, of "[]"] obtain pkt' where "clampMSS syn_packet [] = Some pkt'" "clampMSS pkt' [] = Some pkt'"
    "\<forall>j m. announces_mss syn_packet j m \<longrightarrow> m > 1360 \<longrightarrow> announces_mss pkt' j 1360" by blast
  moreover have "1360 < (1460 :: u16)" by simp
  ultimately show ?thesis using syn_packet_simps(5) by blast
qed

text \<open>A packet that was clamped passes unchanged from then on, whatever follows it in its buffer.\<close>

lemma clampMSS_again:
  assumes len: "length pkt \<le> 65535" and complete: "syn_with_options pkt \<Longrightarrow> 20 \<le> hdr_len pkt \<and> hdr_len pkt + data_off pkt \<le> length pkt"
    and c: "clampMSS pkt spare = Some p"
  shows "clampMSS p spare' = Some p"
proof (cases "syn_with_options pkt")
  case False
  then show ?thesis using c by (simp add: clampMSS_other)
next
  case syn: True
  let ?h = "hdr_len pkt" and ?d = "data_off pkt"
  have h: "20 \<le> ?h" "?h + ?d \<le> length pkt" "20 < ?d" using complete [OF syn] syn by (auto simp: syn_with_options_def)
  then obtain opts where opts: "slice pkt (?h + 20) (?h + ?d) = Some opts" by (simp add: slice_def)
  then have so: "slice (pkt @ r) (?h + 20) (?h + ?d) = Some opts" for r using h(2) by (simp add: slice_def split: if_splits)
  show ?thesis
  proof (cases "find_mss opts 0")
    case None
    then have "clampMSS pkt r = Some pkt" for r unfolding clampMSS_syn [OF syn] so by simp
    then show ?thesis using c by simp
  next
    case j: (Some j)
    have jl: "j + 2 \<le> length opts" using find_mss_bounds [OF j] by simp
    obtain m where m: "u16at opts j = Some m" using jl by simp
    obtain src dst where ip: "u32at pkt 12 = Some src" "u32at pkt 16 = Some dst" using h by (simp add: u32at_def)
    show ?thesis
    proof (cases "m > tunMSS")
      case True
      obtain ck where "clampMSS pkt spare = Some (put16 (put16 pkt (?h + 20 + j) tunMSS) (?h + 16) ck)"
        using clampMSS_rewrites [OF syn h(1,2) len opts j m True ip] by blast
      then show ?thesis using c clampMSS_idle [OF syn h(1,2) opts j] by auto
    next
      case False
      then have "clampMSS pkt r = Some pkt" for r using j m unfolding clampMSS_syn [OF syn] so by (simp del: u16at_Some)
      then show ?thesis using c by simp
    qed
  qed
qed

text \<open>A header that announces more options than the array holds ends in a panic.\<close>

lemma clampMSS_truncated:
  "syn_with_options pkt \<Longrightarrow> length pkt + length spare < hdr_len pkt + data_off pkt \<Longrightarrow> clampMSS pkt spare = None"
  by (simp add: clampMSS_syn slice_def)

end
