(* ===== verification/Ipnet.thy ===== *)
theory Ipnet
  imports Packet
begin

text \<open>
  IPv4 addresses and networks in text, as the parts of Go's package \<^verbatim>\<open>net\<close> that the VPN uses: \<^verbatim>\<open>ParseIP\<close>,
  \<^verbatim>\<open>ParseCIDR\<close> and \<^verbatim>\<open>IPNet.Contains\<close>, and \<^verbatim>\<open>pickSNATIP\<close> of \<^verbatim>\<open>src/client/core/tun_config_linux.go\<close>. IPv6 texts are not
  parsed here: an IPv6 network contains no IPv4 address.
\<close>

section \<open>Addresses\<close>

text \<open>A field of a dotted address: decimal digits without a leading zero, at most 255.\<close>

definition parse_octet :: "string \<Rightarrow> byte option" where
  "parse_octet s = (if s = [] \<or> length s > 3 \<or> (length s > 1 \<and> hd s = CHR ''0'') then None
     else case digits_val s 0 of None \<Rightarrow> None | Some n \<Rightarrow> if n < 256 then Some (of_nat n) else None)"

definition parse_ipv4 :: "string \<Rightarrow> u32 option" where
  "parse_ipv4 s = (case split_on (CHR ''.'') s of
       [a, b, c, d] \<Rightarrow> do { a \<leftarrow> parse_octet a; b \<leftarrow> parse_octet b; c \<leftarrow> parse_octet c; d \<leftarrow> parse_octet d; Some (be32 a b c d) }
     | _ \<Rightarrow> None)"

lemma show_nat_small: "n < 256 \<Longrightarrow> length (show_nat n) \<le> 3 \<and> (length (show_nat n) > 1 \<longrightarrow> hd (show_nat n) \<noteq> CHR ''0'')"
proof -
  assume "n < 256"
  then consider "n < 10" | "10 \<le> n" "n < 100" | "100 \<le> n" "n < 256" by linarith
  then show ?thesis
  proof cases
    case 1
    then show ?thesis by (simp add: show_nat.simps [of n])
  next
    case 2
    then have "n div 10 < 10" "n div 10 \<noteq> 0" by auto
    with 2 show ?thesis by (simp add: show_nat.simps [of n] show_nat.simps [of "n div 10"] char_of_eq_iff take_bit_eq_mod)
  next
    case 3
    then have "n div 10 div 10 < 10" "n div 10 div 10 \<noteq> 0" "n div 10 \<ge> 10" by auto
    with 3 show ?thesis
      by (simp add: show_nat.simps [of n] show_nat.simps [of "n div 10"] show_nat.simps [of "n div 10 div 10"] char_of_eq_iff take_bit_eq_mod)
  qed
qed

lemma parse_octet_show [simp]: "parse_octet (show_nat (unat (b :: byte))) = Some b"
  using show_nat_small [OF unat_byte_less [of b]] unat_byte_less [of b] by (simp add: parse_octet_def digits_val_show_nat)

lemma dot_not_in_show: "CHR ''.'' \<notin> set (show_nat n)"
  using show_nat_digits is_digit_not_sign by blast

text \<open>Parsing inverts \<^verbatim>\<open>net.IP.String\<close>.\<close>

lemma parse_ipv4_str [simp]: "parse_ipv4 (ipv4_str ip) = Some ip"
proof -
  have "split_on (CHR ''.'') (ipv4_str ip) = map (\<lambda>b. show_nat (unat b)) (bytes32 ip)"
    unfolding ipv4_str_def by (rule split_join) (auto simp: bytes32_def dot_not_in_show)
  then show ?thesis by (simp add: parse_ipv4_def bytes32_def)
qed

section \<open>Networks\<close>

type_synonym ipnet = "u32 \<times> u32"

definition net_mask :: "nat \<Rightarrow> u32" where
  "net_mask n = NOT (mask (32 - n))"

definition parse_cidr :: "string \<Rightarrow> ipnet option" where
  "parse_cidr s = (case index_of (CHR ''/'') s of None \<Rightarrow> None
     | Some i \<Rightarrow> do {
         ip \<leftarrow> parse_ipv4 (take i s);
         n \<leftarrow> (if drop (Suc i) s = [] then None else digits_val (drop (Suc i) s) 0);
         if n > 32 then None else Some (ip AND net_mask n, net_mask n) })"

definition net_contains :: "ipnet \<Rightarrow> u32 \<Rightarrow> bool" where
  "net_contains rn ip \<longleftrightarrow> ip AND snd rn = fst rn"

text \<open>\<^verbatim>\<open>pickSNATIP\<close>; the loop returns at its first or second candidate.\<close>

definition snat_candidate :: "u32 \<Rightarrow> nat \<Rightarrow> u32" where
  "snat_candidate base i = (base AND 0xffffff00) OR of_nat i"

definition pickSNATIP :: "string \<Rightarrow> u32 option \<Rightarrow> u32 option" where
  "pickSNATIP subnet exitIP = (case parse_cidr subnet of None \<Rightarrow> None
     | Some (base, m) \<Rightarrow> find (\<lambda>cand. exitIP \<noteq> Some cand) (map (\<lambda>k. snat_candidate base (254 - k)) [0..<55]))"

end
