(* ===== verification/Names.thy ===== *)
theory Names
  imports Cli_State
begin

text \<open>
  Helpers that the components of the client share: identifiers, the names of peers (\<^verbatim>\<open>resolvePeerID\<close> of
  \<^verbatim>\<open>src/client/core/client.go\<close>), the frames of the signalling connection, and the reading of messages whose
  decoding errors the code ignores.
\<close>

section \<open>Identifiers\<close>

text \<open>\<^verbatim>\<open>generateTunnelID\<close> on the eight random bytes.\<close>

definition generateTunnelID :: "bytes \<Rightarrow> string" where
  "generateTunnelID rnd = hex_enc (take 8 rnd)"

section \<open>Frames\<close>

definition splitMessages :: "string \<Rightarrow> string list" where
  "splitMessages data = filter (\<lambda>l. l \<noteq> []) (map trim_space (split_on (CHR 0x0A) data))"

section \<open>Names\<close>

definition peerName :: "cli \<Rightarrow> string \<Rightarrow> string" where
  "peerName c i = (case find (\<lambda>p. pi_ID p = i \<and> pi_Name p \<noteq> []) (c_peers c) of Some p \<Rightarrow> pi_Name p | None \<Rightarrow> shortID i)"

text \<open>The loop of \<^verbatim>\<open>resolvePeerID\<close>: an exact match of ID or name ends it, prefixes are collected.\<close>

fun resolve_loop :: "string \<Rightarrow> peerInfo list \<Rightarrow> string list \<Rightarrow> string + string list" where
  "resolve_loop input [] matches = Inr matches"
| "resolve_loop input (p # ps) matches =
     (if pi_ID p = input then Inl (pi_ID p)
      else if pi_Name p \<noteq> [] \<and> equal_fold (pi_Name p) input then Inl (pi_ID p)
      else
        (let m1 = (if has_prefix (pi_ID p) input then matches @ [pi_ID p] else matches);
             m2 = (if pi_Name p \<noteq> [] \<and> has_prefix (to_lower (pi_Name p)) (to_lower input) then m1 @ [pi_ID p] else m1)
         in resolve_loop input ps m2))"

text \<open>Removal of duplicates, keeping the first occurrence.\<close>

fun dedup :: "string list \<Rightarrow> string list \<Rightarrow> string list" where
  "dedup seen [] = []"
| "dedup seen (m # mps) = (if m \<in> set seen then dedup seen mps else m # dedup (m # seen) mps)"

definition resolvePeerID :: "string \<Rightarrow> cli \<Rightarrow> string + string" where
  "resolvePeerID input c = (case resolve_loop input (c_peers c) [] of
       Inl i \<Rightarrow> Inr i
     | Inr matches \<Rightarrow> (case dedup [] matches of
          [] \<Rightarrow> Inl ''no peer matching''
        | [u] \<Rightarrow> Inr u
        | _ \<Rightarrow> Inl ''ambiguous peer''))"

section \<open>Resolution of names\<close>

definition exact_match :: "string \<Rightarrow> peerInfo \<Rightarrow> bool" where
  "exact_match input p \<longleftrightarrow> pi_ID p = input \<or> (pi_Name p \<noteq> [] \<and> equal_fold (pi_Name p) input)"

definition prefix_match :: "string \<Rightarrow> peerInfo \<Rightarrow> bool" where
  "prefix_match input p \<longleftrightarrow> has_prefix (pi_ID p) input \<or> (pi_Name p \<noteq> [] \<and> has_prefix (to_lower (pi_Name p)) (to_lower input))"

lemma resolve_loop_exact: "find (exact_match input) ps = Some p \<Longrightarrow> resolve_loop input ps ms0 = Inl (pi_ID p)"
  by (induction ps arbitrary: ms0) (auto simp: exact_match_def Let_def split: if_splits)

lemma resolve_loop_prefix:
  "find (exact_match input) ps = None \<Longrightarrow>
   \<exists>ys. resolve_loop input ps ms0 = Inr (ms0 @ ys) \<and> set ys = pi_ID ` {p \<in> set ps. prefix_match input p}"
proof (induction ps arbitrary: ms0)
  case (Cons p ps)
  let ?xs = "(if has_prefix (pi_ID p) input then [pi_ID p] else []) @
      (if pi_Name p \<noteq> [] \<and> has_prefix (to_lower (pi_Name p)) (to_lower input) then [pi_ID p] else [])"
  have "\<not> exact_match input p" "find (exact_match input) ps = None" using Cons.prems by (auto split: if_splits)
  moreover from Cons.IH [OF this(2), of "ms0 @ ?xs"] obtain ys
    where "resolve_loop input ps (ms0 @ ?xs) = Inr ((ms0 @ ?xs) @ ys)" "set ys = pi_ID ` {p \<in> set ps. prefix_match input p}" by blast
  ultimately show ?case by (intro exI [of _ "?xs @ ys"]) (auto simp: exact_match_def prefix_match_def Let_def)
qed simp

lemma dedup_set: "set (dedup seen xs) = set xs - set seen"
  by (induction seen xs rule: dedup.induct) auto

lemma dedup_distinct: "distinct (dedup seen xs)"
  by (induction seen xs rule: dedup.induct) (auto simp: dedup_set)

lemma distinct_singleton: "distinct xs \<Longrightarrow> set xs = {x} \<longleftrightarrow> xs = [x]"
  by (cases xs rule: list.exhaust; cases "tl xs") auto

text \<open>Claim C29.
  A user's name for a peer means what the specification says: the first peer of the list with exactly
  this ID or, up to case, this name, if there is one; otherwise the peer whose ID or name the input is
  a prefix of, if those peers all have one ID; otherwise it is an error, unknown or ambiguous.\<close>

theorem resolvePeerID_spec:
  "(case find (exact_match input) (c_peers c) of
      Some p \<Rightarrow> resolvePeerID input c = Inr (pi_ID p)
    | None \<Rightarrow> (let S = pi_ID ` {p \<in> set (c_peers c). prefix_match input p} in
        (\<forall>i. (resolvePeerID input c = Inr i) = (S = {i})) \<and> (resolvePeerID input c = Inl ''no peer matching'') = (S = {})))"
proof (cases "find (exact_match input) (c_peers c)")
  case (Some p)
  then show ?thesis by (simp add: resolvePeerID_def resolve_loop_exact)
next
  case None
  let ?S = "pi_ID ` {p \<in> set (c_peers c). prefix_match input p}"
  obtain ys where ys: "resolve_loop input (c_peers c) [] = Inr ys" "set ys = ?S"
    using resolve_loop_prefix [OF None, of "[]"] by auto
  let ?u = "dedup [] ys"
  have u: "set ?u = ?S" "distinct ?u" by (simp_all add: dedup_set ys dedup_distinct)
  have r: "resolvePeerID input c = (case ?u of [] \<Rightarrow> Inl ''no peer matching'' | [u] \<Rightarrow> Inr u | _ \<Rightarrow> Inl ''ambiguous peer'')"
    by (simp add: resolvePeerID_def ys)
  have "(resolvePeerID input c = Inr i) = (?S = {i})" for i
    using distinct_singleton [OF u(2), of i] unfolding r u(1) [symmetric] by (auto split: list.splits)
  moreover have "(resolvePeerID input c = Inl ''no peer matching'') = (?S = {})"
    unfolding r u(1) [symmetric] by (auto split: list.splits)
  ultimately show ?thesis by (simp add: None Let_def)
qed

section \<open>Lenient decoding\<close>

text \<open>The ID in a message whose decoding errors are ignored.\<close>

definition lenient_str :: "string \<Rightarrow> json option \<Rightarrow> string" where
  "lenient_str name payload = (case payload of None \<Rightarrow> [] | Some v \<Rightarrow> fst (get_str name (fst (obj_members v))))"

definition lenient_int :: "string \<Rightarrow> json option \<Rightarrow> int" where
  "lenient_int name payload = (case payload of None \<Rightarrow> 0 | Some v \<Rightarrow> fst (get_int name (fst (obj_members v))))"

end
