(* ===== verification/Autohop.thy ===== *)
theory Autohop
  imports Cli_State
begin

text \<open>
  Connectivity maps and the choice of an intermediate peer, \<^verbatim>\<open>src/client/core/autohop.go\<close>. A set of peer
  IDs (\<^verbatim>\<open>map[string]bool\<close>) is a list.
\<close>

section \<open>Operations\<close>

definition p2pMap :: "string list \<Rightarrow> json" where
  "p2pMap ids = JObj [(''direct_peers'', if ids = [] then JNull else JArr (map JStr ids))]"

definition direct_peers :: "cli \<Rightarrow> string list" where
  "direct_peers c = map fst (filter (\<lambda>(i, pc). pc_Mode pc = ''direct'' \<and> i \<in> set (map pi_ID (c_peers c))) (c_peerConns c))"

definition broadcastP2PMap :: "prims \<Rightarrow> cli \<Rightarrow> cli" where
  "broadcastP2PMap P c =
     (let msg = p2pMap (direct_peers c);
          peers = filter (\<lambda>i. i \<noteq> c_MyID c) (map pi_ID (c_peers c))
      in fold (\<lambda>pid c. fst (sendRelay P pid ''p2p_map'' msg c)) peers c)"

definition handleP2PMap :: "string \<Rightarrow> json option \<Rightarrow> cli \<Rightarrow> cli" where
  "handleP2PMap from' payload c = (case payload of None \<Rightarrow> c
     | Some v \<Rightarrow>
        (let (kvs, ok0) = obj_members v; (ids, ok1) = get_strs ''direct_peers'' kvs in
         if ok0 \<and> ok1 then c\<lparr>c_p2pMaps := mput from' (case ids of None \<Rightarrow> [] | Some ss \<Rightarrow> ss) (c_p2pMaps c)\<rparr> else c))"

definition hop_score :: "peerConn \<Rightarrow> int" where
  "hop_score pc = 100 + (case pc_Crypto pc of Some cr \<Rightarrow> if IsEncrypted cr then 50 else 0 | None \<Rightarrow> 0) - pc_PunchFails pc"

text \<open>The loop of \<^verbatim>\<open>findAutoHopCandidate\<close> with its two variables.\<close>

fun hop_loop :: "cli \<Rightarrow> string \<Rightarrow> (string \<times> string list) list \<Rightarrow> string \<Rightarrow> int \<Rightarrow> string" where
  "hop_loop c target [] best score = best"
| "hop_loop c target ((cand, direct) # mps) best score =
     (if cand = target \<or> cand = c_MyID c then hop_loop c target mps best score
      else if target \<notin> set direct then hop_loop c target mps best score
      else case mget (c_peerConns c) cand of
          None \<Rightarrow> hop_loop c target mps best score
        | Some pc \<Rightarrow>
           if pc_Mode pc \<noteq> ''direct'' then hop_loop c target mps best score
           else if hop_score pc > score then hop_loop c target mps cand (hop_score pc)
           else hop_loop c target mps best score)"

definition findAutoHopCandidate :: "cli \<Rightarrow> string \<Rightarrow> string" where
  "findAutoHopCandidate c target = hop_loop c target (c_p2pMaps c) [] (- 1)"

definition tryAutoHop :: "string \<Rightarrow> cli \<Rightarrow> cli" where
  "tryAutoHop target c =
     (if (case mget (c_peerConns c) target of Some pc \<Rightarrow> pc_AutoHopVia pc \<noteq> [] | None \<Rightarrow> False) then c
      else
        (let candidate = findAutoHopCandidate c target in
         if candidate = [] then c
         else case mget (c_peerConns c) target of
             Some pc \<Rightarrow> if pc_AutoHopVia pc = []
                        then c\<lparr>c_peerConns := mput target (pc\<lparr>pc_AutoHopVia := candidate\<rparr>) (c_peerConns c)\<rparr> else c
           | None \<Rightarrow> c))"

definition cleanupPeerP2PMap :: "string \<Rightarrow> cli \<Rightarrow> cli" where
  "cleanupPeerP2PMap peerID c =
     c\<lparr>c_p2pMaps := mdel peerID (c_p2pMaps c),
       c_peerConns := map (\<lambda>(i, pc). (i, if pc_AutoHopVia pc = peerID then pc\<lparr>pc_AutoHopVia := [], pc_AutoHopID := []\<rparr> else pc))
         (c_peerConns c)\<rparr>"

section \<open>The choice\<close>

text \<open>A peer through which the target can be reached: it announced a direct connection to the target and
  has one to us.\<close>

definition viable :: "cli \<Rightarrow> string \<Rightarrow> string \<Rightarrow> bool" where
  "viable c target cand \<longleftrightarrow> cand \<noteq> target \<and> cand \<noteq> c_MyID c \<and>
     (\<exists>direct. mget (c_p2pMaps c) cand = Some direct \<and> target \<in> set direct) \<and>
     (\<exists>pc. mget (c_peerConns c) cand = Some pc \<and> pc_Mode pc = ''direct'')"

definition cand_score :: "cli \<Rightarrow> string \<Rightarrow> int" where
  "cand_score c cand = (case mget (c_peerConns c) cand of Some pc \<Rightarrow> hop_score pc | None \<Rightarrow> - 1)"

definition good_in :: "cli \<Rightarrow> string \<Rightarrow> (string \<times> string list) list \<Rightarrow> string \<Rightarrow> bool" where
  "good_in c target mps cand \<longleftrightarrow> cand \<noteq> target \<and> cand \<noteq> c_MyID c \<and> (\<exists>d. (cand, d) \<in> set mps \<and> target \<in> set d) \<and>
     (\<exists>pc. mget (c_peerConns c) cand = Some pc \<and> pc_Mode pc = ''direct'')"

lemma good_in_Cons: "good_in c target ((k, d) # mps) x \<longleftrightarrow>
    good_in c target mps x \<or> (x = k \<and> x \<noteq> target \<and> x \<noteq> c_MyID c \<and> target \<in> set d \<and>
      (\<exists>pc. mget (c_peerConns c) x = Some pc \<and> pc_Mode pc = ''direct''))"
  by (auto simp: good_in_def)

text \<open>The loop keeps the best of the initial value and the candidates seen.\<close>

lemma hop_loop_best:
  "let r = hop_loop c target mps best score in
     (r = best \<and> (\<forall>x. good_in c target mps x \<longrightarrow> cand_score c x \<le> score)) \<or>
     (good_in c target mps r \<and> score < cand_score c r \<and> (\<forall>x. good_in c target mps x \<longrightarrow> cand_score c x \<le> cand_score c r))"
proof (induction mps arbitrary: best score)
  case Nil
  then show ?case by (simp add: good_in_def)
next
  case (Cons m mps)
  obtain k d where m: "m = (k, d)" by (cases m)
  let ?g = "k \<noteq> target \<and> k \<noteq> c_MyID c \<and> target \<in> set d \<and> (\<exists>pc. mget (c_peerConns c) k = Some pc \<and> pc_Mode pc = ''direct'')"
  have g: "good_in c target (m # mps) x \<longleftrightarrow> good_in c target mps x \<or> (x = k \<and> ?g)" for x
    unfolding m good_in_Cons by auto
  have eq: "hop_loop c target (m # mps) best score =
      (if ?g \<and> score < cand_score c k then hop_loop c target mps k (cand_score c k) else hop_loop c target mps best score)"
    by (auto simp: m cand_score_def split: option.splits)
  show ?case
  proof (cases "?g \<and> score < cand_score c k")
    case True
    then have "hop_loop c target (m # mps) best score = hop_loop c target mps k (cand_score c k)"
      using eq by simp
    then show ?thesis
      using Cons.IH [of k "cand_score c k"] True unfolding Let_def g by (smt (verit))
  next
    case False
    then have "hop_loop c target (m # mps) best score = hop_loop c target mps best score"
      by (intro trans [OF eq if_not_P])
    then show ?thesis
      using Cons.IH [of best score] False unfolding Let_def g by (smt (verit))
  qed
qed

lemma good_in_viable: "mwf (c_p2pMaps c) \<Longrightarrow> good_in c target (c_p2pMaps c) = viable c target"
  by (rule ext) (auto simp: good_in_def viable_def)

text \<open>Claim C23.
  The automatic choice of an intermediate peer: the answer is empty or a viable hop, announced by it
  and directly connected to us, whose score no other viable hop exceeds; and if there is a viable hop
  with a non-negative score (at most a hundred failed punches) the answer is one.\<close>

theorem autohop_best_candidate:
  assumes "mwf (c_p2pMaps c)" "[] \<notin> mkeys (c_p2pMaps c)"
  shows "(findAutoHopCandidate c target = [] \<or>
      (viable c target (findAutoHopCandidate c target) \<and>
       (\<forall>x. viable c target x \<longrightarrow> cand_score c x \<le> cand_score c (findAutoHopCandidate c target))))
    \<and> ((\<exists>x. viable c target x \<and> 0 \<le> cand_score c x) \<longrightarrow> findAutoHopCandidate c target \<noteq> [])"
proof -
  have ne: "\<not> viable c target []" using assms(2) by (force simp: viable_def dest: map_of_SomeD)
  show ?thesis
    using hop_loop_best [of c target "c_p2pMaps c" "[]" "- 1"] ne
    unfolding good_in_viable [OF assms(1)] Let_def findAutoHopCandidate_def by fastforce
qed

text \<open>Three clients: the target is reached through \<open>b\<close>, whose channel is encrypted, not through \<open>d\<close>.\<close>

definition hop_example :: cli where
  "hop_example = \<lparr>c_MyID = ''a'', c_name = [], c_passwordHash = [], c_room = ''r'', c_conn = Some True, c_udpConn = True, c_publicAddr = [], c_localAddr = [],
     c_natType = [], c_portModel = None, c_peers = [],
     c_peerConns = [(''b'', (new_peerConn ''b'' ''direct'')\<lparr>pc_Crypto := Some \<lparr>cr_PrivKey = [], cr_PubKey = [], cr_key = Some [],
          cr_encrypted = True, cr_nonceCounter = 0\<rparr>\<rparr>), (''d'', new_peerConn ''d'' ''direct''), (''t'', new_peerConn ''t'' ''relay'')],
     c_p2pMaps = [(''d'', [''t'']), (''b'', [''t'', ''a''])], c_forwards = [], c_tunnels = [], c_bridges = [], c_hops = [],
     c_hopBridgeByTunnel = [], c_fwdNetstacks = [], c_vport = 10000, c_pendingLeaves = [], c_tunDevices = [], c_tunAckChs = [], c_ackChans = [], c_vpnRestoreConfigs = [], c_restores = [], c_speedTests = [], c_fts = [], c_fileTransfers = [],
     c_serverHost = [], c_allowVPN = True, c_allowFileRecv = True, c_allowForward = True, c_localOnly = True,
     c_allowHopRelay = True, c_relayDisabled = False, c_done = False, c_ws = [], c_udp = [], c_tcp = [], c_closed = [], c_disk = [], c_icmp = [], c_os = [], c_udpErr = [], c_dials = []\<rparr>"

theorem autohop_best_candidate_witness:
  "findAutoHopCandidate hop_example ''t'' = ''b'' \<and> viable hop_example ''t'' ''b''"
proof -
  have r: "findAutoHopCandidate hop_example ''t'' = ''b''"
    by (simp add: findAutoHopCandidate_def hop_example_def new_peerConn_def hop_score_def IsEncrypted_def)
  have "mwf (c_p2pMaps hop_example)" "[] \<notin> mkeys (c_p2pMaps hop_example)" by (simp_all add: hop_example_def)
  from autohop_best_candidate [OF this, of "''t''"] show ?thesis unfolding r by simp
qed

end
