(* ===== verification/Speed.thy ===== *)
theory Speed
  imports Names
begin

text \<open>
  Speed tests, \<^verbatim>\<open>src/client/core/speedtest.go\<close>. A test uploads to the peer, which measures and then sends the same
  amount back.

  \<^item> The result \<open>None\<close> is a panic: closing a nil channel.
  \<^item> The rate in megabits per second is floating-point arithmetic on the bytes received and the
    milliseconds elapsed; \<open>mbps\<close>, an argument, gives its JSON number.
  \<^item> The random bytes of IDs and of the data sent, and the identity of a new object, are arguments.
\<close>

section \<open>Transport\<close>

definition resolveSTTransport :: "cli \<Rightarrow> string \<Rightarrow> string \<Rightarrow> string" where
  "resolveSTTransport c peerID mode =
     (if mode = ''relay'' then ''relay''
      else if mode = ''p2p'' then ''p2p''
      else case mget (c_peerConns c) peerID of None \<Rightarrow> ''relay''
           | Some pc \<Rightarrow> if pc_Mode pc = ''direct'' \<and> pc_UDPAddr pc \<noteq> None then ''p2p'' else ''relay'')"

definition direct_addr :: "cli \<Rightarrow> string \<Rightarrow> endpoint option" where
  "direct_addr c peerID = (case mget (c_peerConns c) peerID of None \<Rightarrow> None
     | Some pc \<Rightarrow> if pc_Mode pc = ''direct'' then pc_UDPAddr pc else None)"

definition stSend :: "prims \<Rightarrow> string \<Rightarrow> string \<Rightarrow> bytes \<Rightarrow> string \<Rightarrow> json \<Rightarrow> cli \<Rightarrow> cli" where
  "stSend P peerID transport udpPayload relayType relayPayload c =
     (if transport = ''p2p'' then
        (case direct_addr c peerID of
           Some a \<Rightarrow> if c_udpConn c then c\<lparr>c_udp := c_udp c @ [(a, udpPayload)]\<rparr> else fst (sendRelay P peerID relayType relayPayload c)
         | None \<Rightarrow> fst (sendRelay P peerID relayType relayPayload c))
      else if transport = ''relay'' then fst (sendRelay P peerID relayType relayPayload c)
      else sendViaP2P P peerID udpPayload relayType relayPayload c)"

definition stSignalWith :: "prims \<Rightarrow> string \<Rightarrow> string \<Rightarrow> string \<Rightarrow> json \<Rightarrow> cli \<Rightarrow> cli" where
  "stSignalWith P peerID transport msgType data c =
     stSend P peerID transport (str_bytes (''SM:'' @ msgType @ '':'') @ p_text P data) msgType data c"

definition test_id_msg :: "string \<Rightarrow> json" where
  "test_id_msg tid = JObj [(''test_id'', JStr tid)]"

text \<open>\<^verbatim>\<open>json.Marshal\<close> of a map writes the keys in order.\<close>

definition st_begin_msg :: "string \<Rightarrow> int \<Rightarrow> string \<Rightarrow> string \<Rightarrow> json" where
  "st_begin_msg tid sz direction transport = JObj [(''direction'', JStr direction), (''size'', JNum sz),
     (''test_id'', JStr tid), (''transport'', JStr transport)]"

section \<open>Starting and cancelling\<close>

definition StartSpeedTest :: "prims \<Rightarrow> string \<Rightarrow> int \<Rightarrow> string \<Rightarrow> bytes \<Rightarrow> nat \<Rightarrow> cli \<Rightarrow> cli \<times> string option" where
  "StartSpeedTest P peerID sizeMB mode rnd uid c = (case resolvePeerID peerID c of Inl e \<Rightarrow> (c, None)
     | Inr fullID \<Rightarrow>
        (let sz = (if sizeMB \<le> 0 then 10 else sizeMB) * 1024 * 1024;
             mode' = (if mode = [] then ''auto'' else mode);
             actual = resolveSTTransport c fullID mode';
             testID = generateTunnelID rnd;
             test = \<lparr>st_uid = uid, st_TestID = testID, st_PeerID = fullID, st_Phase = ''upload'', st_TotalSize = sz, st_Sent = 0,
               st_Received = 0, st_StartTime = None, st_UploadMbps = JNum 0, st_Transport = mode', st_ActualTransport = actual,
               st_cancel = Some False\<rparr>
         in (stSend P fullID actual (str_bytes ''SM:st_begin:'' @ p_text P (st_begin_msg testID sz ''upload'' actual)) ''st_begin''
               (st_begin_msg testID sz ''upload'' actual) (c\<lparr>c_speedTests := mput testID test (c_speedTests c)\<rparr>),
             Some testID)))"

text \<open>The goroutine that gives up after three minutes.\<close>

definition st_timeout :: "string \<Rightarrow> cli \<Rightarrow> cli" where
  "st_timeout testID c = (case mget (c_speedTests c) testID of None \<Rightarrow> c
     | Some t \<Rightarrow> if st_Phase t \<noteq> ''done'' then c\<lparr>c_speedTests := mdel testID (c_speedTests c)\<rparr> else c)"

text \<open>\<^verbatim>\<open>select { case <-test.cancel: default: close(test.cancel) }\<close>: a nil channel is never ready, and closing it panics.\<close>

definition close_cancel :: "speedTest \<Rightarrow> speedTest option" where
  "close_cancel t = (case st_cancel t of None \<Rightarrow> None | Some _ \<Rightarrow> Some (t\<lparr>st_cancel := Some True\<rparr>))"

definition CancelSpeedTest :: "prims \<Rightarrow> string \<Rightarrow> cli \<Rightarrow> cli option" where
  "CancelSpeedTest P testID c = (case mget (c_speedTests c) testID of None \<Rightarrow> Some c
     | Some test \<Rightarrow> do {
         let c1 = c\<lparr>c_speedTests := mdel testID (c_speedTests c)\<rparr>;
         _ \<leftarrow> close_cancel test;
         Some (stSignalWith P (st_PeerID test) (st_ActualTransport test) ''st_cancel'' (test_id_msg testID) c1) })"

definition cancelSpeedTestsForPeer :: "prims \<Rightarrow> string \<Rightarrow> cli \<Rightarrow> cli option" where
  "cancelSpeedTestsForPeer P peerID c =
     foldM (CancelSpeedTest P) (map fst (filter (\<lambda>(i, t). st_PeerID t = peerID \<and> st_Phase t \<noteq> ''done'') (c_speedTests c))) c"

definition CancelAllSpeedTests :: "prims \<Rightarrow> cli \<Rightarrow> cli option" where
  "CancelAllSpeedTests P c = foldM (CancelSpeedTest P) (map fst (c_speedTests c)) c"

definition handleSTCancel :: "json option \<Rightarrow> cli \<Rightarrow> cli option" where
  "handleSTCancel payload c =
     (let testID = lenient_str ''test_id'' payload in
      if testID = [] then Some c
      else case mget (c_speedTests c) testID of None \<Rightarrow> Some c
           | Some test \<Rightarrow> do {
               _ \<leftarrow> close_cancel test;
               Some (c\<lparr>c_speedTests := mdel testID (c_speedTests c)\<rparr>) })"

section \<open>The protocol\<close>

definition handleSTBegin :: "prims \<Rightarrow> string \<Rightarrow> json option \<Rightarrow> nat \<Rightarrow> cli \<Rightarrow> cli" where
  "handleSTBegin P from' payload uid c =
     (let testID = lenient_str ''test_id'' payload; sz = lenient_int ''size'' payload;
          direction = lenient_str ''direction'' payload; tr = lenient_str ''transport'' payload in
      if testID = [] then c
      else
        (let transport = (if tr = [] then resolveSTTransport c from' ''auto'' else tr);
             fresh = \<lparr>st_uid = uid, st_TestID = testID, st_PeerID = from', st_Phase = ''receiving'', st_TotalSize = sz, st_Sent = 0,
               st_Received = 0, st_StartTime = None, st_UploadMbps = JNum 0, st_Transport = transport, st_ActualTransport = transport,
               st_cancel = None\<rparr>
         in case mget (c_speedTests c) testID of
              Some t \<Rightarrow> if direction = ''download''
                then stSignalWith P from' (st_ActualTransport t) ''st_ready'' (test_id_msg testID)
                       (c\<lparr>c_speedTests := mput testID (t\<lparr>st_Phase := ''download'', st_Received := 0, st_StartTime := None\<rparr>) (c_speedTests c)\<rparr>)
                else stSignalWith P from' transport ''st_ready'' (test_id_msg testID) (c\<lparr>c_speedTests := mput testID fresh (c_speedTests c)\<rparr>)
            | None \<Rightarrow> stSignalWith P from' transport ''st_ready'' (test_id_msg testID) (c\<lparr>c_speedTests := mput testID fresh (c_speedTests c)\<rparr>)))"

text \<open>\<^verbatim>\<open>handleSTReady\<close>: the test for which the goroutine \<^verbatim>\<open>stSendData\<close> is started.\<close>

definition handleSTReady :: "json option \<Rightarrow> cli \<Rightarrow> speedTest option" where
  "handleSTReady payload c = (case payload of None \<Rightarrow> mget (c_speedTests c) []
     | Some v \<Rightarrow>
        (let m = (case fst (into_strmap v (None, True)) of None \<Rightarrow> [] | Some m \<Rightarrow> m);
             testID = (case mget m ''test_id'' of None \<Rightarrow> [] | Some s \<Rightarrow> s)
         in mget (c_speedTests c) testID))"

text \<open>Writing to a test through its pointer reaches the map only while it still holds this object.\<close>

definition upd_test :: "nat \<Rightarrow> string \<Rightarrow> (speedTest \<Rightarrow> speedTest) \<Rightarrow> cli \<Rightarrow> cli" where
  "upd_test uid testID g c = (case mget (c_speedTests c) testID of None \<Rightarrow> c
     | Some t \<Rightarrow> if st_uid t = uid then c\<lparr>c_speedTests := mput testID (g t) (c_speedTests c)\<rparr> else c)"

definition st_data_msg :: "string \<Rightarrow> string \<Rightarrow> int \<Rightarrow> json" where
  "st_data_msg tid d seq = JObj [(''test_id'', JStr tid), (''data'', JStr d), (''seq'', JNum seq)]"

text \<open>The bytes of one iteration of the loop of \<^verbatim>\<open>stSendData\<close>: the chunk, cut to what remains.\<close>

definition this_chunk :: "bytes \<Rightarrow> int \<Rightarrow> bytes" where
  "this_chunk chunk remaining = (if remaining < int (length chunk) then take (nat remaining) chunk else chunk)"

definition st_send_chunk :: "prims \<Rightarrow> speedTest \<Rightarrow> bytes \<Rightarrow> int \<Rightarrow> cli \<Rightarrow> cli" where
  "st_send_chunk P t d seq c =
     (let data = st_data_msg (st_TestID t) (b64_enc d) seq in
      stSend P (st_PeerID t) (st_ActualTransport t) (str_bytes ''ST:'' @ Compress (p_deflate P) (p_text P data)) ''speed_test_data'' data c)"

text \<open>The loop; \<open>chunk\<close> is the non-empty random chunk and \<open>stop\<close> tells before which chunk the channels \<^verbatim>\<open>cancel\<close> or
  \<^verbatim>\<open>done\<close> are found closed. The result is the state and the number of bytes sent, \<open>None\<close> for the return out of the
  middle.\<close>

function st_send_loop :: "prims \<Rightarrow> speedTest \<Rightarrow> bytes \<Rightarrow> (int \<Rightarrow> bool) \<Rightarrow> int \<Rightarrow> int \<Rightarrow> cli \<Rightarrow> cli \<times> int option" where
  "st_send_loop P t chunk stop sent seq c =
     (if sent < st_TotalSize t \<and> chunk \<noteq> []
      then if stop seq then (c, None)
      else (let d = this_chunk chunk (st_TotalSize t - sent) in
            st_send_loop P t chunk stop (sent + int (length d)) (seq + 1) (st_send_chunk P t d seq c))
      else (c, Some sent))"
  by pat_completeness auto
termination
proof (relation "measure (\<lambda>(P, t, chunk, stop, sent, seq, c). nat (st_TotalSize t - sent))")
  fix P :: prims and t :: speedTest and chunk :: bytes and stop :: "int \<Rightarrow> bool" and sent seq :: int and c :: cli and d
  assume "sent < st_TotalSize t \<and> chunk \<noteq> []" "d = this_chunk chunk (st_TotalSize t - sent)"
  then have "0 < length d" by (auto simp: this_chunk_def)
  then show "((P, t, chunk, stop, sent + int (length d), seq + 1, st_send_chunk P t d seq c), (P, t, chunk, stop, sent, seq, c))
      \<in> measure (\<lambda>(P, t, chunk, stop, sent, seq, c). nat (st_TotalSize t - sent))"
    using \<open>sent < st_TotalSize t \<and> chunk \<noteq> []\<close> by simp
qed simp

declare st_send_loop.simps [simp del]

definition st_chunk_size :: "string \<Rightarrow> nat" where
  "st_chunk_size transport = (if transport = ''p2p'' then 1024 else 32 * 1024)"

text \<open>\<^verbatim>\<open>stSendData\<close>; \<open>rnd\<close> fills the chunk, \<open>ms\<close> is the duration in milliseconds, \<open>now\<close> the time at the start and at the
  end.\<close>

definition stSendData :: "prims \<Rightarrow> speedTest \<Rightarrow> bytes \<Rightarrow> (int \<Rightarrow> bool) \<Rightarrow> int \<Rightarrow> int \<Rightarrow> int \<Rightarrow> cli \<Rightarrow> cli" where
  "stSendData P t rnd stop now now' dur c =
     (let c0 = upd_test (st_uid t) (st_TestID t) (\<lambda>t. t\<lparr>st_StartTime := Some now\<rparr>) c;
          chunk = take (st_chunk_size (st_ActualTransport t)) rnd;
          (c1, res) = st_send_loop P t chunk stop 0 0 c0
      in case res of None \<Rightarrow> c1
         | Some sent \<Rightarrow>
            (let fin = JObj [(''bytes'', JNum sent), (''duration_ms'', JNum dur), (''test_id'', JStr (st_TestID t))];
                 c2 = stSignalWith P (st_PeerID t) (st_ActualTransport t) ''st_finish'' fin c1;
                 c3 = stSignalWith P (st_PeerID t) (st_ActualTransport t) ''st_finish'' fin c2
             in upd_test (st_uid t) (st_TestID t) (\<lambda>t. if st_Phase t = ''upload''
                    then t\<lparr>st_Sent := sent, st_Phase := ''waiting_download'', st_Received := 0, st_StartTime := Some now'\<rparr>
                    else t\<lparr>st_Sent := sent\<rparr>) c3))"

text \<open>\<open>decoded\<close> is what the base64 decoder returns, which for malformed text is the part before the error.\<close>

definition processSpeedTestData :: "string \<Rightarrow> bytes \<Rightarrow> int \<Rightarrow> cli \<Rightarrow> cli" where
  "processSpeedTestData testID decoded now c = (case mget (c_speedTests c) testID of None \<Rightarrow> c
     | Some t \<Rightarrow> c\<lparr>c_speedTests := mput testID (t\<lparr>st_StartTime := (case st_StartTime t of None \<Rightarrow> Some now | s \<Rightarrow> s),
          st_Received := st_Received t + int (length decoded)\<rparr>) (c_speedTests c)\<rparr>)"

definition processSTFinish :: "prims \<Rightarrow> (int \<Rightarrow> int \<Rightarrow> json) \<Rightarrow> string \<Rightarrow> int \<Rightarrow> string \<Rightarrow> cli \<Rightarrow> cli" where
  "processSTFinish P mbps testID elapsed from' c = (case mget (c_speedTests c) testID of None \<Rightarrow> c
     | Some t \<Rightarrow>
        if st_Phase t = ''receiving'' then
          (let e = (if elapsed \<le> 0 then 1 else elapsed);
               c1 = stSignalWith P from' (st_ActualTransport t) ''st_result''
                      (JObj [(''mbps'', mbps (st_Received t) e), (''phase'', JStr ''upload''), (''test_id'', JStr testID)]) c;
               c2 = c1\<lparr>c_speedTests := mput testID (t\<lparr>st_Phase := ''download'', st_Sent := 0, st_Received := 0, st_StartTime := None\<rparr>)
                      (c_speedTests c1)\<rparr>
           in stSignalWith P from' (st_ActualTransport t) ''st_begin'' (st_begin_msg testID (st_TotalSize t) ''download'' (st_ActualTransport t)) c2)
        else if st_Phase t = ''waiting_download'' \<or> st_Phase t = ''download''
        then c\<lparr>c_speedTests := mdel testID (c_speedTests c)\<rparr>
        else c)"

definition handleSTFinish :: "prims \<Rightarrow> (int \<Rightarrow> int \<Rightarrow> json) \<Rightarrow> int \<Rightarrow> string \<Rightarrow> json option \<Rightarrow> cli \<Rightarrow> cli" where
  "handleSTFinish P mbps elapsed from' payload c =
     (let testID = lenient_str ''test_id'' payload in
      if testID = [] then c else processSTFinish P mbps testID elapsed from' c)"

definition handleSTResult :: "json option \<Rightarrow> cli \<Rightarrow> cli" where
  "handleSTResult payload c =
     (let testID = lenient_str ''test_id'' payload; phase = lenient_str ''phase'' payload;
          rate = (case payload of None \<Rightarrow> JNum 0 | Some v \<Rightarrow> (case get_raw ''mbps'' (fst (obj_members v)) of Some (JNum i) \<Rightarrow> JNum i | _ \<Rightarrow> JNum 0))
      in case mget (c_speedTests c) testID of None \<Rightarrow> c
         | Some t \<Rightarrow> if phase = ''upload'' then c\<lparr>c_speedTests := mput testID (t\<lparr>st_UploadMbps := rate\<rparr>) (c_speedTests c)\<rparr> else c)"

section \<open>Sending the data\<close>

text \<open>The chunks of a test of \<open>n\<close> bytes, numbered.\<close>

lemma st_send_loop_chunks:
  assumes "0 \<le> st_TotalSize t - sent" "chunk \<noteq> []" "\<And>i. \<not> stop i"
  shows "\<exists>ds. st_send_loop P t chunk stop sent seq c = (fold (\<lambda>(i, d). st_send_chunk P t d i) (zip (map (\<lambda>k. seq + int k) [0..<length ds]) ds) c, Some (st_TotalSize t))
    \<and> int (sum_list (map length ds)) = st_TotalSize t - sent \<and> list_all (\<lambda>d. 0 < length d \<and> length d \<le> length chunk) ds"
  using assms
proof (induction P t chunk stop sent seq c rule: st_send_loop.induct)
  case (1 P t chunk stop sent seq c)
  show ?case
  proof (cases "sent < st_TotalSize t")
    case True
    let ?d = "this_chunk chunk (st_TotalSize t - sent)"
    have d: "0 < length ?d" "length ?d \<le> length chunk" "int (length ?d) \<le> st_TotalSize t - sent"
      using True 1(3) by (auto simp: this_chunk_def)
    have "0 \<le> st_TotalSize t - (sent + int (length ?d))" using d(3) by linarith
    with 1(1) [OF conjI [OF True 1(3)] 1(4) refl this 1(3) 1(4)] obtain ds
      where ds: "st_send_loop P t chunk stop (sent + int (length ?d)) (seq + 1) (st_send_chunk P t ?d seq c) =
          (fold (\<lambda>(i, d). st_send_chunk P t d i) (zip (map (\<lambda>k. seq + 1 + int k) [0..<length ds]) ds) (st_send_chunk P t ?d seq c), Some (st_TotalSize t))"
        "int (sum_list (map length ds)) = st_TotalSize t - (sent + int (length ?d))" "list_all (\<lambda>d. 0 < length d \<and> length d \<le> length chunk) ds"
      by blast
    have z: "map (\<lambda>k. seq + int k) [0..<Suc (length ds)] = seq # map (\<lambda>k. seq + 1 + int k) [0..<length ds]"
      by (simp add: map_upt_Suc add.assoc del: upt_Suc)
    show ?thesis
      using ds d True 1(3) 1(4) by (subst st_send_loop.simps, intro exI [of _ "?d # ds"]) (simp add: Let_def z del: upt_Suc)
  next
    case False
    then show ?thesis using 1(2) by (subst st_send_loop.simps) (intro exI [of _ "[]"], simp)
  qed
qed

text \<open>Claim C37.
  The sending loop of a speed test that is not cancelled ends and sends the announced amount exactly: it is the sending of
  consecutively numbered, non-empty chunks, none longer than the buffer, whose lengths add up to the size
  of the test.\<close>

theorem speed_test_sends_all:
  assumes "0 \<le> st_TotalSize t" "chunk \<noteq> []" "\<And>i. \<not> stop i"
  shows "\<exists>ds. st_send_loop P t chunk stop 0 0 c = (fold (\<lambda>(i, d). st_send_chunk P t d i) (zip (map int [0..<length ds]) ds) c, Some (st_TotalSize t))
    \<and> int (sum_list (map length ds)) = st_TotalSize t \<and> list_all (\<lambda>d. 0 < length d \<and> length d \<le> length chunk) ds"
  using st_send_loop_chunks [of t 0 chunk stop P 0 c] assms by simp

definition speed_test :: "string \<Rightarrow> int \<Rightarrow> speedTest" where
  "speed_test phase n = \<lparr>st_uid = 1, st_TestID = ''t'', st_PeerID = ''b'', st_Phase = phase, st_TotalSize = n, st_Sent = 0, st_Received = 0,
     st_StartTime = None, st_UploadMbps = JNum 0, st_Transport = ''relay'', st_ActualTransport = ''relay'', st_cancel = None\<rparr>"

theorem speed_test_sends_all_witness:
  "\<forall>P c. snd (st_send_loop P (speed_test ''upload'' 5) [1, 2] (\<lambda>_. False) 0 0 c) = Some 5"
proof (intro allI)
  fix P c
  have "st_TotalSize (speed_test ''upload'' 5) = 5" by (simp add: speed_test_def)
  then show "snd (st_send_loop P (speed_test ''upload'' 5) [1, 2] (\<lambda>_. False) 0 0 c) = Some 5"
    using speed_test_sends_all [of "speed_test ''upload'' 5" "[1, 2]" "\<lambda>_. False" P c] by auto
qed

section \<open>Two races\<close>

text \<open>Sending a signal leaves all of the state but the outgoing messages and the nonce counters.\<close>

lemma stSend_other:
  assumes "\<And>c w p. f (c\<lparr>c_ws := w, c_peerConns := p\<rparr>) = f c" "\<And>c u. f (c\<lparr>c_udp := u\<rparr>) = f c"
  shows "f (stSend P i tr d ty v c) = f c"
proof -
  have "f (fst (sendRelay P i ty v c')) = f c'" for c' by (rule sendRelay_other, rule assms(1))
  moreover have "f (sendViaP2P P i d ty v c) = f c" by (rule sendViaP2P_other; rule assms)
  ultimately show ?thesis by (simp add: stSend_def assms(2) split: option.splits)
qed

lemma stSignalWith_tests [simp]: "c_speedTests (stSignalWith P i tr ty v c) = c_speedTests c"
  unfolding stSignalWith_def by (rule stSend_other) simp_all

lemma lenient_test_id [simp]: "lenient_str ''test_id'' (Some (test_id_msg t)) = t"
  by (simp add: lenient_str_def test_id_msg_def get_str_def)

lemma lenient_st_begin [simp]:
  "lenient_str ''test_id'' (Some (st_begin_msg t n d tr)) = t" "lenient_str ''direction'' (Some (st_begin_msg t n d tr)) = d"
  "lenient_str ''transport'' (Some (st_begin_msg t n d tr)) = tr"
  by (simp_all add: lenient_str_def st_begin_msg_def get_str_def equal_fold_def to_lower_def lower_char_def)

text \<open>A responder does not survive a cancelled test: whatever its state, after it has accepted a new speed test the
  cancellation of this test, by the peer's message or by its own user, closes a channel that was never made, and
  the client panics.\<close>

theorem cancelled_responder_panics:
  assumes "t \<noteq> []" "mget (c_speedTests c) t = None \<or> d \<noteq> ''download''"
  shows "handleSTCancel (Some (test_id_msg t)) (handleSTBegin P from' (Some (st_begin_msg t n d tr)) uid c) = None
    \<and> CancelSpeedTest P t (handleSTBegin P from' (Some (st_begin_msg t n d tr)) uid c) = None"
proof -
  obtain test where "mget (c_speedTests (handleSTBegin P from' (Some (st_begin_msg t n d tr)) uid c)) t = Some test" "st_cancel test = None"
    using assms by (cases "mget (c_speedTests c) t") (simp_all add: handleSTBegin_def Let_def)
  then show ?thesis using assms(1) by (simp add: handleSTCancel_def CancelSpeedTest_def close_cancel_def Let_def)
qed

theorem cancelled_responder_panics_witness:
  "\<forall>P. handleSTCancel (Some (test_id_msg ''t'')) (handleSTBegin P ''a'' (Some (st_begin_msg ''t'' 5 ''upload'' ''p2p'')) 0 (NewClient ''r'' [] [] [])) = None"
proof (intro allI)
  fix P
  have "mget (c_speedTests (NewClient ''r'' [] [] [])) ''t'' = None" by (simp add: NewClient_def)
  then show "handleSTCancel (Some (test_id_msg ''t'')) (handleSTBegin P ''a'' (Some (st_begin_msg ''t'' 5 ''upload'' ''p2p'')) 0 (NewClient ''r'' [] [] [])) = None"
    using cancelled_responder_panics [of "''t''" "NewClient ''r'' [] [] []" "''upload''" P "''a''" 5 "''p2p''" 0] by simp
qed

definition st_finish_msg :: "string \<Rightarrow> int \<Rightarrow> int \<Rightarrow> json" where
  "st_finish_msg t n dur = JObj [(''bytes'', JNum n), (''duration_ms'', JNum dur), (''test_id'', JStr t)]"

lemma lenient_st_finish [simp]: "lenient_str ''test_id'' (Some (st_finish_msg t n d)) = t"
  by (simp add: lenient_str_def st_finish_msg_def get_str_def equal_fold_def to_lower_def lower_char_def)

lemma handleSTReady_test_id: "handleSTReady (Some (test_id_msg t)) c = mget (c_speedTests c) t"
  by (simp add: handleSTReady_def test_id_msg_def)

text \<open>The finish message is sent twice against loss, but the receiver takes the second copy for the end of the download:
  if both copies arrive before the initiator's answer to the first, the responder has dropped the test when it is
  told to send, so the download half of the test never starts.\<close>

theorem redundant_finish_aborts_download:
  assumes "t \<noteq> []" "mget (c_speedTests c) t = Some test" "st_Phase test = ''receiving''"
  shows "handleSTReady (Some (test_id_msg t)) (handleSTFinish P mbps e from' (Some (st_finish_msg t n dur)) c) \<noteq> None
    \<and> handleSTReady (Some (test_id_msg t))
        (handleSTFinish P mbps e' from' (Some (st_finish_msg t n dur)) (handleSTFinish P mbps e from' (Some (st_finish_msg t n dur)) c)) = None"
proof -
  let ?c1 = "handleSTFinish P mbps e from' (Some (st_finish_msg t n dur)) c"
  obtain test1 where t1: "mget (c_speedTests ?c1) t = Some test1" "st_Phase test1 = ''download''"
    using assms by (simp add: handleSTFinish_def processSTFinish_def Let_def)
  have "mget (c_speedTests (handleSTFinish P mbps e' from' (Some (st_finish_msg t n dur)) c')) t = None"
    if "mget (c_speedTests c') t = Some test1" for c'
    using that t1(2) assms(1) by (simp add: handleSTFinish_def processSTFinish_def)
  from this [OF t1(1)] t1(1) show ?thesis by (simp add: handleSTReady_test_id)
qed

theorem redundant_finish_aborts_download_witness:
  "\<forall>P mbps. handleSTReady (Some (test_id_msg ''t'')) (handleSTFinish P mbps 1 ''a'' (Some (st_finish_msg ''t'' 5 1))
     (handleSTFinish P mbps 1 ''a'' (Some (st_finish_msg ''t'' 5 1)) ((NewClient ''r'' [] [] [])\<lparr>c_speedTests := [(''t'', speed_test ''receiving'' 5)]\<rparr>))) = None"
proof (intro allI)
  fix P mbps
  let ?c = "(NewClient ''r'' [] [] [])\<lparr>c_speedTests := [(''t'', speed_test ''receiving'' 5)]\<rparr>"
  have "mget (c_speedTests ?c) ''t'' = Some (speed_test ''receiving'' 5)" "st_Phase (speed_test ''receiving'' 5) = ''receiving''"
    by (simp_all add: speed_test_def)
  then show "handleSTReady (Some (test_id_msg ''t'')) (handleSTFinish P mbps 1 ''a'' (Some (st_finish_msg ''t'' 5 1))
     (handleSTFinish P mbps 1 ''a'' (Some (st_finish_msg ''t'' 5 1)) ?c)) = None"
    using redundant_finish_aborts_download [of "''t''" ?c "speed_test ''receiving'' 5" P mbps 1 "''a''" 5 1 1] by simp
qed

end
