(* ===== verification/Holepunch.thy ===== *)
theory Holepunch
  imports Autohop Speed "HOL-Library.Signed_Division"
begin

text \<open>
  Direct connections between peers: the state machine of a \<^verbatim>\<open>PeerConn\<close> in \<^verbatim>\<open>src/client/core/stun.go\<close>
  (\<^verbatim>\<open>handleStunInfo\<close>, \<^verbatim>\<open>attemptHolePunch\<close>, \<^verbatim>\<open>onHolePunchSuccess\<close>, the key exchange, the retry and keepalive
  ticks) and \<^verbatim>\<open>resetP2PState\<close> of \<^verbatim>\<open>client.go\<close>.

  What an operation draws from outside is in \<open>punchEnv\<close>: a fresh private key and nonce counter, the
  time, the results of the floating-point estimates of port drift and the number of extra sockets
  that could be opened. The datagrams of \<^verbatim>\<open>attemptHolePunch\<close> are those of the main socket; the sockets of
  the birthday phases are closed again at the end of the attempt and never read. Work that the code
  starts with \<^verbatim>\<open>go\<close> is done at the end of the step.
\<close>

section \<open>Operations\<close>

record punchEnv =
  e_priv :: bytes
  e_nonce :: u64
  e_now :: int
  e_drift :: int
  e_halfDrift :: int
  e_backDrift :: int
  e_sockets :: nat

definition NATSymmetric :: string where "NATSymmetric = ''NAT4''"

definition sendStunInfo :: "string \<Rightarrow> cli \<Rightarrow> cli" where
  "sendStunInfo to' c =
     (if c_publicAddr c = [] then c
      else
        (let localUDP = (if c_udpConn c then c_localAddr c else []);
             info = JObj ([(''addr'', JStr (c_publicAddr c)), (''local'', JStr localUDP)] @ omit_str ''nat_type'' (c_natType c))
         in fst (sendMsg \<lparr>mType = ''stun_info'', mFrom = [], mTo = to', mRoom = c_room c, mPayload = Some (info, 0)\<rparr> c)))"

definition sendStatusUpdate :: "string \<Rightarrow> cli \<Rightarrow> cli" where
  "sendStatusUpdate status c =
     fst (sendMsg \<lparr>mType = ''status_update'', mFrom = [], mTo = [], mRoom = c_room c, mPayload = Some (JStr status, 0)\<rparr> c)"

definition ensure_crypto :: "prims \<Rightarrow> punchEnv \<Rightarrow> peerConn \<Rightarrow> peerConn" where
  "ensure_crypto P e pc = (case pc_Crypto pc of None \<Rightarrow> pc\<lparr>pc_Crypto := Some (NewPeerCrypto (p_pub P) (e_priv e) (e_nonce e))\<rparr>
     | Some _ \<Rightarrow> pc)"

text \<open>The ports of phase 3, in the order they are tried.\<close>

definition predicted_ports :: "int \<Rightarrow> punchEnv \<Rightarrow> nat \<Rightarrow> int list" where
  "predicted_ports anchor e extra =
     (let predicted = anchor + e_drift e;
          uncertainty = min 2000 (max 20 (e_halfDrift e + int extra * 3));
          backward = max 10 (e_backDrift e)
      in map (\<lambda>delta. (predicted + delta - 1024) smod 64512 + 1024) [- backward..uncertainty])"

definition sequential_ports :: "int \<Rightarrow> int \<Rightarrow> int list" where
  "sequential_ports basePort step =
     filter (\<lambda>p. \<not> (p \<le> 1024 \<or> p > 65534)) (map (\<lambda>i. basePort + i * step) [- 10..50])"

definition scan_ports :: "int \<Rightarrow> int list" where
  "scan_ports basePort =
     filter (\<lambda>p. \<not> (p \<le> 1024 \<or> p > 65534)) (map (\<lambda>delta. basePort + delta) (filter (\<lambda>delta. delta \<noteq> 0) [- 1000..1000]))"

definition punch_ports :: "portModel option \<Rightarrow> int \<Rightarrow> punchEnv \<Rightarrow> nat \<Rightarrow> int list" where
  "punch_ports model basePort e extra = (case model of
       Some m \<Rightarrow> if pm_Name m = ''global_counter'' \<and> pm_DriftPos m then predicted_ports (pm_Anchor m) e extra
                 else if pm_Name m = ''sequential'' \<and> pm_Delta m > 0 then sequential_ports basePort (pm_Delta m)
                 else scan_ports basePort
     | None \<Rightarrow> scan_ports basePort)"

definition punch_msg :: "cli \<Rightarrow> bytes" where
  "punch_msg c = str_bytes (''PUNCH:'' @ c_MyID c)"

text \<open>A port outside of 16 bits makes the write fail, which the code ignores.\<close>

definition attemptHolePunch :: "prims \<Rightarrow> punchEnv \<Rightarrow> string \<Rightarrow> bool \<Rightarrow> cli \<Rightarrow> cli" where
  "attemptHolePunch P e peerID isLAN c = (case mget (c_peerConns c) peerID of None \<Rightarrow> c
     | Some pc \<Rightarrow> (case pc_UDPAddr pc of None \<Rightarrow> c
       | Some addr \<Rightarrow>
          if \<not> c_udpConn c then c
          else
            (let c1 = c\<lparr>c_peerConns := mput peerID (ensure_crypto P e (pc\<lparr>pc_LastPunch := e_now e\<rparr>)) (c_peerConns c)\<rparr>;
                 peerNAT = pc_NATType pc; myNAT = c_natType c;
                 anyHard = (peerNAT = NATSymmetric \<or> myNAT = NATSymmetric);
                 iAmCone = (myNAT \<noteq> NATSymmetric \<and> peerNAT = NATSymmetric);
                 punch = punch_msg c;
                 burstCount = (if anyHard then 40 else 20)
             in if c_done c then c1
                else
                  (let c2 = c1\<lparr>c_udp := c_udp c1 @ replicate burstCount (addr, punch)\<rparr> in
                   if isLAN \<or> \<not> anyHard then c2
                   else
                     (let extra = (if iAmCone then e_sockets e else 0);
                          ports = filter (\<lambda>p. 0 \<le> p \<and> p \<le> 65535) (punch_ports (c_portModel c) (uint (snd addr)) e extra)
                      in c2\<lparr>c_udp := c_udp c2 @ map (\<lambda>p. ((fst addr, word_of_int p), punch)) ports\<rparr>)))))"

definition sendKeyExchange :: "string \<Rightarrow> cli \<Rightarrow> cli" where
  "sendKeyExchange peerID c = (case mget (c_peerConns c) peerID of None \<Rightarrow> c
     | Some pc \<Rightarrow> (case (pc_UDPAddr pc, pc_Crypto pc) of
         (Some addr, Some cr) \<Rightarrow>
            if c_udpConn c then c\<lparr>c_udp := c_udp c @ [(addr, str_bytes (''KEY:'' @ c_MyID c @ '':'') @ cr_PubKey cr)]\<rparr> else c
       | _ \<Rightarrow> c))"

definition onHolePunchSuccess :: "prims \<Rightarrow> punchEnv \<Rightarrow> string \<Rightarrow> endpoint \<Rightarrow> cli \<Rightarrow> cli" where
  "onHolePunchSuccess P e peerID addr c =
     (let pc = (case mget (c_peerConns c) peerID of None \<Rightarrow> new_peerConn peerID [] | Some pc \<Rightarrow> pc) in
      if pc_Mode pc = ''direct'' then c
      else
        (let pc1 = ensure_crypto P e (pc\<lparr>pc_Mode := ''direct'', pc_UDPAddr := Some addr, pc_PunchFails := 0\<rparr>);
             c1 = c\<lparr>c_peerConns := mput peerID pc1 (c_peerConns c)\<rparr>
         in broadcastP2PMap P (sendKeyExchange peerID (sendStatusUpdate ''direct'' c1))))"

definition handleKeyExchange :: "prims \<Rightarrow> punchEnv \<Rightarrow> string \<Rightarrow> bytes \<Rightarrow> endpoint \<Rightarrow> cli \<Rightarrow> cli" where
  "handleKeyExchange P e peerID peerPubKey addr c = (case mget (c_peerConns c) peerID of None \<Rightarrow> c
     | Some pc0 \<Rightarrow>
        (let pc = ensure_crypto P e pc0;
             c1 = c\<lparr>c_peerConns := mput peerID pc (c_peerConns c)\<rparr>
         in case pc_Crypto pc of None \<Rightarrow> c1
            | Some cr \<Rightarrow>
               if IsEncrypted cr then c1
               else case DeriveKey (p_ecdh P) (p_sha256 P) peerPubKey cr of None \<Rightarrow> c1
                    | Some cr' \<Rightarrow>
                       (let c2 = c1\<lparr>c_peerConns := mput peerID (pc\<lparr>pc_Crypto := Some cr'\<rparr>) (c_peerConns c1)\<rparr> in
                        if c_udpConn c2
                        then c2\<lparr>c_udp := c_udp c2 @ [(addr, str_bytes (''KEY_ACK:'' @ c_MyID c2 @ '':'') @ cr_PubKey cr')]\<rparr>
                        else c2)))"

text \<open>\<^verbatim>\<open>handleStunInfo\<close>: \<open>None\<close> is the panic of cancelling a speed test of a responder.\<close>

definition stun_target :: "cli \<Rightarrow> string \<Rightarrow> string \<Rightarrow> string \<times> bool" where
  "stun_target c addr lcl =
     (let host = (\<lambda>s. case split_host_port s of None \<Rightarrow> [] | Some (h, _) \<Rightarrow> h) in
      if lcl \<noteq> [] \<and> c_publicAddr c \<noteq> [] \<and> host (c_publicAddr c) \<noteq> [] \<and> host (c_publicAddr c) = host addr
      then (lcl, True) else (addr, False))"

definition stun_reset :: "prims \<Rightarrow> string \<Rightarrow> cli \<Rightarrow> cli option" where
  "stun_reset P peerID c = do {
     c1 \<leftarrow> cancelSpeedTestsForPeer P peerID c;
     Some (c1\<lparr>c_fwdNetstacks := mdel peerID (c_fwdNetstacks c1)\<rparr>) }"

definition set_addr :: "string \<Rightarrow> endpoint \<Rightarrow> cli \<Rightarrow> cli" where
  "set_addr p a c = (case mget (c_peerConns c) p of None \<Rightarrow> c
     | Some pc \<Rightarrow> c\<lparr>c_peerConns := mput p (pc\<lparr>pc_UDPAddr := Some a\<rparr>) (c_peerConns c)\<rparr>)"

definition stun_update :: "prims \<Rightarrow> string \<Rightarrow> string \<Rightarrow> endpoint \<Rightarrow> cli \<Rightarrow> (cli \<times> bool) option" where
  "stun_update P from' ntype udpAddr c =
     (let pc = (case mget (c_peerConns c) from' of None \<Rightarrow> new_peerConn from' ''connecting'' | Some pc \<Rightarrow> pc);
          pc1 = (if ntype \<noteq> [] then pc\<lparr>pc_NATType := ntype\<rparr> else pc);
          c1 = c\<lparr>c_peerConns := mput from' pc1 (c_peerConns c)\<rparr>;
          addrChanged = (pc_UDPAddr pc1 \<noteq> None \<and> pc_UDPAddr pc1 \<noteq> Some udpAddr)
      in if pc_Mode pc1 = ''direct'' \<and> pc_UDPAddr pc1 = Some udpAddr then Some (c1, False)
         else do {
           c2 \<leftarrow> (if addrChanged \<and> pc_Mode pc1 = ''direct''
                  then stun_reset P from' (c\<lparr>c_peerConns := mput from' (pc1\<lparr>pc_Mode := ''connecting'', pc_Crypto := None\<rparr>) (c_peerConns c)\<rparr>)
                  else Some c1);
           Some (set_addr from' udpAddr c2, True) })"

definition handleStunInfo :: "prims \<Rightarrow> punchEnv \<Rightarrow> message \<Rightarrow> cli \<Rightarrow> cli option" where
  "handleStunInfo P e m c =
     (if mFrom m = [] \<or> mFrom m = c_MyID c then Some c
      else case mPayload m of None \<Rightarrow> Some c
      | Some (v, _) \<Rightarrow>
         (let (kvs, ok0) = obj_members v; (addr, ok1) = get_str ''addr'' kvs; (lcl, ok2) = get_str ''local'' kvs;
              (ntype, ok3) = get_str ''nat_type'' kvs
          in if \<not> (ok0 \<and> ok1 \<and> ok2 \<and> ok3) \<or> addr = [] then Some c
             else
               (let (targetAddr, isLAN) = stun_target c addr lcl in
                case p_resolve P targetAddr of None \<Rightarrow> Some c
                | Some udpAddr \<Rightarrow> do {
                    (c1, go) \<leftarrow> stun_update P (mFrom m) ntype udpAddr c;
                    if \<not> go then Some c1
                    else
                      (let c2 = (if c_publicAddr c1 \<noteq> [] then sendStunInfo (mFrom m) c1 else c1) in
                       Some (if c_udpConn c2 \<and> PeerMode c2 (mFrom m) \<noteq> ''direct'' then attemptHolePunch P e (mFrom m) isLAN c2 else c2)) })))"

section \<open>Timers\<close>

definition keepalive :: "cli \<Rightarrow> cli" where
  "keepalive c = (if c_udpConn c
     then c\<lparr>c_udp := c_udp c @ concat (map (\<lambda>(i, pc). case pc_UDPAddr pc of
              Some a \<Rightarrow> if pc_Mode pc = ''direct'' then [(a, str_bytes ''PING'')] else [] | None \<Rightarrow> []) (c_peerConns c))\<rparr>
     else c)"

text \<open>The three parts of a retry tick: the peers to try again, the fall back to the relay after five
  failures, and a new attempt that counts as a failure unless the peer became direct.\<close>

definition retry_peers :: "cli \<Rightarrow> string list" where
  "retry_peers c = map fst (filter (\<lambda>(i, pc). pc_UDPAddr pc \<noteq> None \<and> pc_Mode pc \<noteq> ''direct'') (c_peerConns c))"

definition gives_up :: "peerConn \<Rightarrow> bool" where
  "gives_up pc \<longleftrightarrow> pc_UDPAddr pc \<noteq> None \<and> pc_Mode pc = ''connecting'' \<and> pc_PunchFails pc \<ge> 5"

definition retry_mark :: "cli \<Rightarrow> cli" where
  "retry_mark c = fold tryAutoHop (map fst (filter (\<lambda>(i, pc). gives_up pc \<and> pc_AutoHopVia pc = []) (c_peerConns c)))
     (c\<lparr>c_peerConns := map (\<lambda>(i, pc). (i, if gives_up pc then pc\<lparr>pc_Mode := ''relay''\<rparr> else pc)) (c_peerConns c)\<rparr>)"

definition retry_punch :: "prims \<Rightarrow> (string \<Rightarrow> punchEnv) \<Rightarrow> string \<Rightarrow> cli \<Rightarrow> cli" where
  "retry_punch P e pid c =
     (let c1 = attemptHolePunch P (e pid) pid False c in
      case mget (c_peerConns c1) pid of
        Some pc \<Rightarrow> if pc_Mode pc \<noteq> ''direct''
                   then c1\<lparr>c_peerConns := mput pid (pc\<lparr>pc_PunchFails := pc_PunchFails pc + 1\<rparr>) (c_peerConns c1)\<rparr> else c1
      | None \<Rightarrow> c1)"

definition retry_tick :: "prims \<Rightarrow> (string \<Rightarrow> punchEnv) \<Rightarrow> cli \<Rightarrow> cli" where
  "retry_tick P e c = (let c0 = broadcastP2PMap P c in fold (retry_punch P e) (retry_peers c0) (retry_mark c0))"

definition resetP2PState :: "cli \<Rightarrow> cli" where
  "resetP2PState c =
     c\<lparr>c_udpConn := False, c_publicAddr := [],
       c_closed := c_closed c @ concat (map (\<lambda>(i, pc). case pc_DirectTCP pc of Some k \<Rightarrow> [k] | None \<Rightarrow> []) (c_peerConns c)),
       c_peerConns := map (\<lambda>(i, pc). (i, pc\<lparr>pc_DirectTCP := None, pc_Mode := ''connecting'', pc_UDPAddr := None, pc_Crypto := None,
          pc_AutoHopVia := [], pc_AutoHopID := []\<rparr>)) (c_peerConns c),
       c_p2pMaps := []\<rparr>"

section \<open>The connection state machine\<close>

text \<open>What the state machine depends on of a peer: mode, address, failures and whether there is key
  material.\<close>

definition pview :: "cli \<Rightarrow> string \<Rightarrow> (string \<times> endpoint option \<times> int \<times> bool) option" where
  "pview c p = map_option (\<lambda>pc. (pc_Mode pc, pc_UDPAddr pc, pc_PunchFails pc, pc_Crypto pc \<noteq> None)) (mget (c_peerConns c) p)"

definition same_view :: "cli \<Rightarrow> cli \<Rightarrow> bool" where
  "same_view c c' \<longleftrightarrow> (mwf (c_peerConns c) \<longrightarrow> mwf (c_peerConns c')) \<and> pview c' = pview c"

lemma same_view_refl [simp]: "same_view c c"
  by (simp add: same_view_def)

lemma same_view_trans: "same_view c d \<Longrightarrow> same_view d e \<Longrightarrow> same_view c e"
  by (simp add: same_view_def)

lemma same_view_fold: "(\<And>x c. same_view c (f x c)) \<Longrightarrow> same_view c (fold f xs c)"
proof (induction xs arbitrary: c)
  case (Cons x xs)
  have "same_view (f x c) (fold f xs (f x c))" by (rule Cons.IH) (rule Cons.prems)
  with Cons.prems [of c x] show ?case by (auto intro: same_view_trans)
qed simp

lemma same_view_fields: "c_peerConns c' = c_peerConns c \<Longrightarrow> same_view c c'"
  by (simp add: same_view_def pview_def [abs_def])

lemma same_view_mput:
  assumes "mget (c_peerConns c) k = Some pc" "c_peerConns c' = mput k pc' (c_peerConns c)"
    and "pc_Mode pc' = pc_Mode pc" "pc_UDPAddr pc' = pc_UDPAddr pc" "pc_PunchFails pc' = pc_PunchFails pc"
    and "(pc_Crypto pc' = None) = (pc_Crypto pc = None)"
  shows "same_view c c'"
  using assms by (auto simp: same_view_def pview_def fun_eq_iff)

lemma same_view_sendMsg: "same_view c (fst (sendMsg m c))"
  by (rule same_view_fields) simp

lemma same_view_sendRelay: "same_view c (fst (sendRelay P to' ty v c))"
proof (cases "\<exists>pc cr. ty \<noteq> ''key_exchange'' \<and> mget (c_peerConns c) to' = Some pc \<and> pc_Crypto pc = Some cr \<and> IsEncrypted cr")
  case True
  then obtain pc cr where pc: "ty \<noteq> ''key_exchange''" "mget (c_peerConns c) to' = Some pc" "pc_Crypto pc = Some cr" "IsEncrypted cr"
    by blast
  obtain cr' enc where E: "Encrypt (p_seal P) (p_text P (relayEnvelope ty v)) cr = (cr', enc)" by fastforce
  let ?c = "c\<lparr>c_peerConns := mput to' (pc\<lparr>pc_Crypto := Some cr'\<rparr>) (c_peerConns c)\<rparr>"
  have "same_view c ?c" 
    by (rule same_view_mput [OF pc(2), where pc' = "pc\<lparr>pc_Crypto := Some cr'\<rparr>"]) (simp_all add: pc)
  then show ?thesis using pc E same_view_trans [OF _ same_view_sendMsg] by (simp add: sendRelay_def Let_def)
next
  case False
  then have "\<exists>m. fst (sendRelay P to' ty v c) = fst (sendMsg m c)"
    by (auto simp: sendRelay_def Let_def split: option.splits prod.splits)
  then show ?thesis using same_view_sendMsg by metis
qed

lemma same_view_broadcast: "same_view c (broadcastP2PMap P c)"
  unfolding broadcastP2PMap_def Let_def by (rule same_view_fold) (rule same_view_sendRelay)

lemma same_view_tryAutoHop: "same_view c (tryAutoHop p c)"
  by (cases "mget (c_peerConns c) p") (auto simp: tryAutoHop_def Let_def intro: same_view_mput)

lemma same_view_small:
  "same_view c (sendStunInfo t c)" "same_view c (sendStatusUpdate s c)" "same_view c (sendKeyExchange p c)"
  "same_view c (keepalive c)" "same_view c (handleP2PMap q v c)"
  by (auto simp: sendStunInfo_def sendStatusUpdate_def sendKeyExchange_def keepalive_def handleP2PMap_def Let_def
      intro!: same_view_fields split: option.splits prod.splits)

text \<open>An operation on one peer leaves the others' views alone and changes its own by a function.\<close>

definition changes :: "string \<Rightarrow> cli \<Rightarrow> (string \<times> endpoint option \<times> int \<times> bool) option \<Rightarrow> cli \<Rightarrow> bool" where
  "changes p c v c' \<longleftrightarrow> (mwf (c_peerConns c) \<longrightarrow> mwf (c_peerConns c')) \<and> pview c' = (pview c)(p := v)"

lemma changes_same: "changes p c v d \<Longrightarrow> same_view d e \<Longrightarrow> changes p c v e"
  by (simp add: changes_def same_view_def)

lemma same_changes: "same_view c d \<Longrightarrow> changes p d v e \<Longrightarrow> changes p c v e"
  by (simp add: changes_def same_view_def)

lemma changes_trans: "changes p c v d \<Longrightarrow> changes p d w e \<Longrightarrow> changes p c w e"
  by (simp add: changes_def)

lemma changes_mput:
  "c_peerConns c' = mput p pc (c_peerConns c) \<Longrightarrow>
   changes p c (Some (pc_Mode pc, pc_UDPAddr pc, pc_PunchFails pc, pc_Crypto pc \<noteq> None)) c'"
  by (auto simp: changes_def pview_def fun_eq_iff)

lemma changes_id: "same_view c c' \<Longrightarrow> changes p c (pview c p) c'"
  by (simp add: changes_def same_view_def)

lemma changes_refl: "changes p c (pview c p) c"
  by (rule changes_id) simp

lemma ensure_crypto_fields [simp]:
  "pc_Mode (ensure_crypto P e pc) = pc_Mode pc" "pc_UDPAddr (ensure_crypto P e pc) = pc_UDPAddr pc"
  "pc_PunchFails (ensure_crypto P e pc) = pc_PunchFails pc" "\<exists>cr. pc_Crypto (ensure_crypto P e pc) = Some cr"
  by (auto simp: ensure_crypto_def split: option.splits)

lemma attempt_changes:
  "\<exists>v. changes p c v (attemptHolePunch P e p lan c) \<and>
     (v = pview c p \<or> (\<exists>m a f k. pview c p = Some (m, a, f, k) \<and> v = Some (m, a, f, True)))"
proof (cases "mget (c_peerConns c) p")
  case None
  then show ?thesis by (intro exI [of _ "pview c p"]) (simp add: attemptHolePunch_def changes_refl)
next
  case (Some pc)
  show ?thesis
  proof (cases "pc_UDPAddr pc = None \<or> \<not> c_udpConn c")
    case True
    then show ?thesis using Some
      by (intro exI [of _ "pview c p"]) (auto simp: attemptHolePunch_def changes_refl split: option.splits)
  next
    case False
    then obtain a where a: "pc_UDPAddr pc = Some a" "c_udpConn c" by auto
    let ?pc = "ensure_crypto P e (pc\<lparr>pc_LastPunch := e_now e\<rparr>)"
    have put: "c_peerConns (attemptHolePunch P e p lan c) = mput p ?pc (c_peerConns c)"
      using Some a by (simp add: attemptHolePunch_def Let_def)
    obtain cr where "pc_Crypto ?pc = Some cr" using ensure_crypto_fields(4) by blast
    with changes_mput [OF put] have "changes p c (Some (pc_Mode pc, pc_UDPAddr pc, pc_PunchFails pc, True)) (attemptHolePunch P e p lan c)"
      by simp
    then show ?thesis using Some by (auto simp: pview_def)
  qed
qed

lemma punched_changes:
  "\<exists>v. changes p c v (onHolePunchSuccess P e p a c) \<and> (v = pview c p \<or> v = Some (''direct'', Some a, 0, True))"
proof -
  let ?pc = "case mget (c_peerConns c) p of None \<Rightarrow> new_peerConn p [] | Some pc \<Rightarrow> pc"
  show ?thesis
  proof (cases "pc_Mode ?pc = ''direct''")
    case True
    then show ?thesis by (intro exI [of _ "pview c p"]) (simp add: onHolePunchSuccess_def changes_refl)
  next
    case False
    let ?pc1 = "ensure_crypto P e (?pc\<lparr>pc_Mode := ''direct'', pc_UDPAddr := Some a, pc_PunchFails := 0\<rparr>)"
    let ?c1 = "c\<lparr>c_peerConns := mput p ?pc1 (c_peerConns c)\<rparr>"
    obtain cr where "pc_Crypto ?pc1 = Some cr" using ensure_crypto_fields(4) by blast
    then have "changes p c (Some (''direct'', Some a, 0, True)) ?c1"
      using changes_mput [of ?c1 p ?pc1 c] by (simp del: option.case option.simps(4,5))
    then have "changes p c (Some (''direct'', Some a, 0, True)) (broadcastP2PMap P (sendKeyExchange p (sendStatusUpdate ''direct'' ?c1)))"
      by (intro changes_same [OF _ same_view_broadcast] changes_same [OF _ same_view_small(3)] changes_same [OF _ same_view_small(2)])
    moreover have "onHolePunchSuccess P e p a c = broadcastP2PMap P (sendKeyExchange p (sendStatusUpdate ''direct'' ?c1))"
      using False unfolding onHolePunchSuccess_def Let_def by (simp only: if_False)
    ultimately show ?thesis by auto
  qed
qed

lemma key_changes:
  "\<exists>v. changes p c v (handleKeyExchange P e p k a c) \<and>
     (v = pview c p \<or> (\<exists>m ad f b. pview c p = Some (m, ad, f, b) \<and> v = Some (m, ad, f, True)))"
proof (cases "mget (c_peerConns c) p")
  case None
  then show ?thesis by (intro exI [of _ "pview c p"]) (simp add: handleKeyExchange_def changes_refl)
next
  case (Some pc)
  let ?pc = "ensure_crypto P e pc"
  obtain cr where cr: "pc_Crypto ?pc = Some cr" using ensure_crypto_fields(4) by blast
  let ?c1 = "c\<lparr>c_peerConns := mput p ?pc (c_peerConns c)\<rparr>"
  have c1: "changes p c (Some (pc_Mode pc, pc_UDPAddr pc, pc_PunchFails pc, True)) ?c1"
    using changes_mput [of ?c1 p ?pc c] cr by simp
  have "same_view ?c1 (handleKeyExchange P e p k a c)"
  proof (cases "IsEncrypted cr \<or> DeriveKey (p_ecdh P) (p_sha256 P) k cr = None")
    case True
    then show ?thesis using Some cr by (auto simp: handleKeyExchange_def Let_def)
  next
    case False
    then show ?thesis using Some cr
      by (auto simp: handleKeyExchange_def Let_def intro!: same_view_mput [of ?c1 p ?pc])
  qed
  with c1 have "changes p c (Some (pc_Mode pc, pc_UDPAddr pc, pc_PunchFails pc, True)) (handleKeyExchange P e p k a c)"
    by (rule changes_same)
  then show ?thesis using Some by (auto simp: pview_def)
qed

lemma same_view_stSend: "same_view c (stSend P i tr d ty v c)"
  unfolding stSend_def sendViaP2P_def udpSend_def Let_def
  by (auto intro: same_view_sendRelay same_view_fields split: option.splits)

lemma same_view_CancelSpeedTest: "CancelSpeedTest P t c = Some c' \<Longrightarrow> same_view c c'"
  by (auto simp: CancelSpeedTest_def stSignalWith_def Let_def split: option.splits Option.bind_splits
      intro: same_view_trans [OF same_view_fields same_view_stSend])

lemma same_view_stun_reset:
  assumes "stun_reset P p c = Some c'"
  shows "same_view c c'"
proof -
  obtain d where d: "cancelSpeedTestsForPeer P p c = Some d" "c' = d\<lparr>c_fwdNetstacks := mdel p (c_fwdNetstacks d)\<rparr>"
    using assms by (auto simp: stun_reset_def split: Option.bind_splits)
  have "same_view c d"
    using d(1) unfolding cancelSpeedTestsForPeer_def
    by (rule foldM_keeps [where P = "same_view c"]) (auto intro: same_view_trans same_view_CancelSpeedTest)
  then show ?thesis unfolding d(2) by (rule same_view_trans) (rule same_view_fields, simp)
qed

lemma set_addr_changes: "pview c p = Some (m, ad, f, k) \<Longrightarrow> changes p c (Some (m, Some a, f, k)) (set_addr p a c)"
  by (auto simp: pview_def set_addr_def changes_def fun_eq_iff)

lemma stun_update_changes:
  assumes "stun_update P p n a c = Some (c', go)"
  shows "\<exists>v. changes p c v c' \<and>
     (pview c p = None \<longrightarrow> v = Some (''connecting'', Some a, 0, False)) \<and>
     (\<forall>m ad f k. pview c p = Some (m, ad, f, k) \<longrightarrow>
        v = Some (if m = ''direct'' \<and> ad \<noteq> None \<and> ad \<noteq> Some a then (''connecting'', Some a, f, False) else (m, Some a, f, k)))"
proof -
  define pc where "pc = (case mget (c_peerConns c) p of None \<Rightarrow> new_peerConn p ''connecting'' | Some pc \<Rightarrow> pc)"
  define pc1 where "pc1 = (if n \<noteq> [] then pc\<lparr>pc_NATType := n\<rparr> else pc)"
  let ?put = "\<lambda>q. c\<lparr>c_peerConns := mput p q (c_peerConns c)\<rparr>"
  let ?q = "pc1\<lparr>pc_Mode := ''connecting'', pc_Crypto := None\<rparr>"
  have view: "pc_Mode pc1 = pc_Mode pc" "pc_UDPAddr pc1 = pc_UDPAddr pc" "pc_PunchFails pc1 = pc_PunchFails pc" "pc_Crypto pc1 = pc_Crypto pc"
    by (simp_all add: pc1_def)
  have put: "changes p c (Some (pc_Mode q, pc_UDPAddr q, pc_PunchFails q, pc_Crypto q \<noteq> None)) (?put q)" for q
    by (rule changes_mput) simp
  let ?moved = "pc_Mode pc = ''direct'' \<and> pc_UDPAddr pc \<noteq> None \<and> pc_UDPAddr pc \<noteq> Some a"
  let ?v = "Some (if ?moved then (''connecting'', Some a, pc_PunchFails pc, False) else (pc_Mode pc, Some a, pc_PunchFails pc, pc_Crypto pc \<noteq> None))"
  have st: "stun_update P p n a c = (if pc_Mode pc1 = ''direct'' \<and> pc_UDPAddr pc1 = Some a then Some (?put pc1, False)
      else (if (pc_UDPAddr pc1 \<noteq> None \<and> pc_UDPAddr pc1 \<noteq> Some a) \<and> pc_Mode pc1 = ''direct'' then stun_reset P p (?put ?q) else Some (?put pc1))
        \<bind> (\<lambda>c2. Some (set_addr p a c2, True)))"
    unfolding stun_update_def Let_def pc_def [symmetric] pc1_def [symmetric] by simp
  have "changes p c ?v c'"
  proof (cases "pc_Mode pc = ''direct'' \<and> pc_UDPAddr pc = Some a")
    case True
    then show ?thesis using assms put [of pc1] unfolding st by (simp add: view)
  next
    case False
    then obtain c2 where c2: "(if ?moved then stun_reset P p (?put ?q) else Some (?put pc1)) = Some c2" "c' = set_addr p a c2"
      using assms unfolding st view by (cases ?moved) (auto split: Option.bind_splits)
    have "changes p c (Some (if ?moved then ''connecting'' else pc_Mode pc, pc_UDPAddr pc, pc_PunchFails pc, \<not> ?moved \<and> pc_Crypto pc \<noteq> None)) c2"
    proof (cases ?moved)
      case True
      then have "same_view (?put ?q) c2" using c2(1) by (simp add: same_view_stun_reset)
      from changes_same [OF put [of ?q] this] True show ?thesis by (simp add: view)
    next
      case False
      then have "c2 = ?put pc1" using c2(1) by (simp only: if_False option.inject)
      then show ?thesis using put [of pc1] unfolding view by (simp only: False simp_thms if_False)
    qed
    then have "changes p c (Some (if ?moved then ''connecting'' else pc_Mode pc, Some a, pc_PunchFails pc, \<not> ?moved \<and> pc_Crypto pc \<noteq> None)) c'"
      unfolding c2(2) by (rule changes_trans) (rule set_addr_changes, use \<open>changes p c _ c2\<close> in \<open>simp add: changes_def\<close>)
    then show ?thesis by (cases ?moved) (simp_all only: simp_thms if_True if_False)
  qed
  then show ?thesis
    by (intro exI [of _ ?v]) (auto simp: pview_def pc_def new_peerConn_def)
qed

section \<open>The invariant\<close>

text \<open>A mode is one of three, and a direct peer has an address, key material and no failures.\<close>

fun view_ok :: "string \<times> endpoint option \<times> int \<times> bool \<Rightarrow> bool" where
  "view_ok (m, a, f, k) \<longleftrightarrow> m \<in> {''connecting'', ''direct'', ''relay''} \<and> (m = ''direct'' \<longrightarrow> a \<noteq> None \<and> f = 0 \<and> k)"

definition p2p_ok :: "cli \<Rightarrow> bool" where
  "p2p_ok c \<longleftrightarrow> mwf (c_peerConns c) \<and> (\<forall>p v. pview c p = Some v \<longrightarrow> view_ok v)"

lemma view_ok_key: "view_ok (m, a, f, k) \<Longrightarrow> view_ok (m, a, f, True)"
  by simp

lemma view_ok_direct: "view_ok (''direct'', Some a, 0, True)"
  by simp

declare view_ok.simps [simp del]

lemma p2p_okD: "p2p_ok c \<Longrightarrow> pview c p = Some v \<Longrightarrow> view_ok v"
  unfolding p2p_ok_def by blast

lemma p2p_ok_same: "p2p_ok c \<Longrightarrow> same_view c c' \<Longrightarrow> p2p_ok c'"
  unfolding p2p_ok_def same_view_def by metis

lemma p2p_ok_changes:
  assumes "p2p_ok c" "changes p c v c'" "\<And>x. v = Some x \<Longrightarrow> view_ok x"
  shows "p2p_ok c'"
  unfolding p2p_ok_def
proof (intro conjI allI impI)
  show "mwf (c_peerConns c')" using assms(1,2) unfolding p2p_ok_def changes_def by blast
  show "view_ok w" if "pview c' q = Some w" for q w
    using that assms(2,3) p2p_okD [OF assms(1), of q] unfolding changes_def by (cases "q = p") simp_all
qed

lemma p2p_ok_attempt: "p2p_ok c \<Longrightarrow> p2p_ok (attemptHolePunch P e p lan c)"
  using attempt_changes [of p c P e lan]
  by (elim exE conjE) (rule p2p_ok_changes, assumption+, auto intro: p2p_okD view_ok_key)

lemma p2p_ok_punched: "p2p_ok c \<Longrightarrow> p2p_ok (onHolePunchSuccess P e p a c)"
  using punched_changes [of p c P e a]
  by (elim exE conjE) (rule p2p_ok_changes, assumption+, auto intro: p2p_okD view_ok_direct)

lemma punched_is_direct: "\<exists>pc. mget (c_peerConns (onHolePunchSuccess P e p a c)) p = Some pc \<and> pc_Mode pc = ''direct''"
proof -
  let ?pc = "case mget (c_peerConns c) p of None \<Rightarrow> new_peerConn p [] | Some pc \<Rightarrow> pc"
  show ?thesis
  proof (cases "pc_Mode ?pc = ''direct''")
    case True
    then show ?thesis by (auto simp: onHolePunchSuccess_def new_peerConn_def split: option.splits)
  next
    case False
    let ?pc1 = "ensure_crypto P e (?pc\<lparr>pc_Mode := ''direct'', pc_UDPAddr := Some a, pc_PunchFails := 0\<rparr>)"
    let ?c1 = "c\<lparr>c_peerConns := mput p ?pc1 (c_peerConns c)\<rparr>"
    have eq: "onHolePunchSuccess P e p a c = broadcastP2PMap P (sendKeyExchange p (sendStatusUpdate ''direct'' ?c1))"
      using False unfolding onHolePunchSuccess_def Let_def by (simp only: if_False)
    have "pview (onHolePunchSuccess P e p a c) p = pview ?c1 p"
      unfolding eq
      using same_view_broadcast [of "sendKeyExchange p (sendStatusUpdate ''direct'' ?c1)" P] same_view_small(3) [of "sendStatusUpdate ''direct'' ?c1" p]
        same_view_small(2) [of ?c1 "''direct''"]
      by (simp only: same_view_def)
    then show ?thesis by (auto simp: pview_def)
  qed
qed

lemma p2p_ok_key: "p2p_ok c \<Longrightarrow> p2p_ok (handleKeyExchange P e p k a c)"
  using key_changes [of p c P e k a]
  by (elim exE conjE) (rule p2p_ok_changes, assumption+, auto intro: p2p_okD view_ok_key)

lemma p2p_ok_stun_update:
  assumes "p2p_ok c" "stun_update P p n a c = Some (c', go)"
  shows "p2p_ok c'"
proof -
  obtain v where v: "changes p c v c'"
      "pview c p = None \<longrightarrow> v = Some (''connecting'', Some a, 0, False)"
      "\<forall>m ad f k. pview c p = Some (m, ad, f, k) \<longrightarrow>
        v = Some (if m = ''direct'' \<and> ad \<noteq> None \<and> ad \<noteq> Some a then (''connecting'', Some a, f, False) else (m, Some a, f, k))"
    using stun_update_changes [OF assms(2)] by (elim exE conjE)
  have "view_ok x" if "v = Some x" for x
  proof (cases "pview c p")
    case None
    then show ?thesis using v(2) that by (simp add: view_ok.simps)
  next
    case (Some y)
    obtain m ad f k where y: "y = (m, ad, f, k)" by (cases y)
    have "view_ok (m, ad, f, k)" using p2p_okD [OF assms(1)] Some y by simp
    moreover have "x = (if m = ''direct'' \<and> ad \<noteq> None \<and> ad \<noteq> Some a then (''connecting'', Some a, f, False) else (m, Some a, f, k))"
      using v(3) Some y that by auto
    ultimately show ?thesis by (auto simp: view_ok.simps split: if_splits)
  qed
  then show ?thesis using p2p_ok_changes [OF assms(1) v(1)] by blast
qed

lemma p2p_ok_stun: "handleStunInfo P e m c = Some c' \<Longrightarrow> p2p_ok c \<Longrightarrow> p2p_ok c'"
  unfolding handleStunInfo_def Let_def
  by (auto split: option.splits prod.splits if_splits Option.bind_splits
      dest: p2p_ok_stun_update intro: p2p_ok_attempt p2p_ok_same [OF _ same_view_small(1)])

text \<open>A retry tick.\<close>

lemma pview_map: "pview (c\<lparr>c_peerConns := map (\<lambda>(i, pc). (i, g pc)) (c_peerConns c)\<rparr>) p =
    map_option (\<lambda>pc. (pc_Mode (g pc), pc_UDPAddr (g pc), pc_PunchFails (g pc), pc_Crypto (g pc) \<noteq> None)) (mget (c_peerConns c) p)"
  by (simp add: pview_def map_of_map option.map_comp o_def)

definition mark_view :: "string \<times> endpoint option \<times> int \<times> bool \<Rightarrow> string \<times> endpoint option \<times> int \<times> bool" where
  "mark_view v = (case v of (m, a, f, k) \<Rightarrow> (if a \<noteq> None \<and> m = ''connecting'' \<and> f \<ge> 5 then ''relay'' else m, a, f, k))"

lemma retry_mark_view: "(mwf (c_peerConns c) \<longrightarrow> mwf (c_peerConns (retry_mark c))) \<and> pview (retry_mark c) p = map_option mark_view (pview c p)"
proof -
  let ?c = "c\<lparr>c_peerConns := map (\<lambda>(i, pc). (i, if gives_up pc then pc\<lparr>pc_Mode := ''relay''\<rparr> else pc)) (c_peerConns c)\<rparr>"
  have "same_view ?c (retry_mark c)"
    unfolding retry_mark_def by (rule same_view_fold) (rule same_view_tryAutoHop)
  moreover have "pview ?c p = map_option mark_view (pview c p)"
    unfolding pview_map by (auto simp: pview_def mark_view_def gives_up_def option.map_comp o_def split: if_splits intro!: option.map_cong)
  moreover have "map fst (c_peerConns ?c) = map fst (c_peerConns c)" by (simp add: o_def split_def)
  ultimately show ?thesis unfolding same_view_def by metis
qed

lemma retry_punch_changes:
  "\<exists>v. changes p c v (retry_punch P e p c) \<and> (pview c p = None \<longrightarrow> v = None) \<and>
     (\<forall>m a f k. pview c p = Some (m, a, f, k) \<longrightarrow> (\<exists>k'. (k \<longrightarrow> k') \<and> v = Some (m, a, if m \<noteq> ''direct'' then f + 1 else f, k')))"
proof -
  let ?c1 = "attemptHolePunch P (e p) p False c"
  obtain v where v: "changes p c v ?c1" "v = pview c p \<or> (\<exists>m a f k. pview c p = Some (m, a, f, k) \<and> v = Some (m, a, f, True))"
    using attempt_changes by blast
  have pv: "pview ?c1 p = v" using v(1) by (simp add: changes_def)
  show ?thesis
  proof (cases "mget (c_peerConns ?c1) p")
    case None
    then have "retry_punch P e p c = ?c1" "v = None" using pv by (auto simp: retry_punch_def Let_def pview_def)
    then show ?thesis using v by auto
  next
    case (Some pc)
    then have vs: "v = Some (pc_Mode pc, pc_UDPAddr pc, pc_PunchFails pc, pc_Crypto pc \<noteq> None)" using pv by (simp add: pview_def)
    let ?w = "Some (pc_Mode pc, pc_UDPAddr pc, if pc_Mode pc \<noteq> ''direct'' then pc_PunchFails pc + 1 else pc_PunchFails pc, pc_Crypto pc \<noteq> None)"
    have "changes p ?c1 ?w (retry_punch P e p c)"
    proof (cases "pc_Mode pc = ''direct''")
      case True
      then show ?thesis using Some vs pv changes_refl [of p ?c1] by (simp add: retry_punch_def Let_def)
    next
      case False
      let ?pc = "pc\<lparr>pc_PunchFails := pc_PunchFails pc + 1\<rparr>"
      have "c_peerConns (retry_punch P e p c) = mput p ?pc (c_peerConns ?c1)"
        using Some False by (simp add: retry_punch_def Let_def)
      from changes_mput [OF this] False show ?thesis by simp
    qed
    with v(1) have "changes p c ?w (retry_punch P e p c)" by (rule changes_trans)
    then show ?thesis using v(2) [unfolded vs] by (intro exI [of _ ?w]) (auto dest: sym)
  qed
qed

lemma retry_punch_other: "q \<noteq> p \<Longrightarrow> pview (retry_punch P e p c) q = pview c q"
  using retry_punch_changes [of p c P e] by (auto simp: changes_def)

lemma fold_retry_other: "q \<notin> set ps \<Longrightarrow> pview (fold (retry_punch P e) ps c) q = pview c q"
  by (induction ps arbitrary: c) (auto simp: retry_punch_other)

text \<open>What a tick does to a peer that is not direct but has an address.\<close>

lemma retry_tick_view:
  assumes "mwf (c_peerConns c)" "pview c p = Some (m, Some a, f, k)" "m \<noteq> ''direct''"
  shows "\<exists>k'. pview (retry_tick P e c) p = Some (if m = ''connecting'' \<and> f \<ge> 5 then ''relay'' else m, Some a, f + 1, k')"
proof -
  let ?c0 = "broadcastP2PMap P c" and ?m = "if m = ''connecting'' \<and> f \<ge> 5 then ''relay'' else m"
  have sv: "same_view c ?c0" by (rule same_view_broadcast)
  then have wf: "mwf (c_peerConns ?c0)" and pv: "pview ?c0 p = Some (m, Some a, f, k)"
    using assms by (auto simp: same_view_def)
  then obtain pc where pc: "mget (c_peerConns ?c0) p = Some pc" "pc_UDPAddr pc = Some a" "pc_Mode pc = m"
    by (auto simp: pview_def)
  have "(p, pc) \<in> set (c_peerConns ?c0)" using pc(1) by (rule map_of_SomeD)
  then have "p \<in> set (retry_peers ?c0)" using pc assms(3) by (force simp: retry_peers_def)
  then obtain xs ys where split: "retry_peers ?c0 = xs @ p # ys" by (meson split_list)
  have "distinct (retry_peers ?c0)" using wf by (simp add: retry_peers_def distinct_map_filter)
  then have notin: "p \<notin> set xs" "p \<notin> set ys" by (auto simp: split)
  let ?c1 = "fold (retry_punch P e) xs (retry_mark ?c0)"
  have "pview ?c1 p = Some (?m, Some a, f, k)"
    using retry_mark_view [of ?c0 p] pv notin(1) by (simp add: fold_retry_other mark_view_def)
  then obtain k' where k': "pview (retry_punch P e p ?c1) p = Some (?m, Some a, f + 1, k')"
    using retry_punch_changes [of p ?c1 P e] assms(3) by (auto simp: changes_def split: if_splits)
  have "pview (retry_tick P e c) p = pview (retry_punch P e p ?c1) p"
    by (simp add: retry_tick_def Let_def split fold_retry_other [OF notin(2)])
  then show ?thesis using k' by (intro exI [of _ k']) simp
qed

section \<open>The system\<close>

lemma view_ok_mark: "view_ok v \<Longrightarrow> view_ok (mark_view v)"
  by (cases v) (simp add: mark_view_def view_ok.simps)

lemma view_ok_fail: "view_ok (m, a, f, k) \<Longrightarrow> k \<longrightarrow> k' \<Longrightarrow> view_ok (m, a, if m \<noteq> ''direct'' then f + 1 else f, k')"
  by (simp add: view_ok.simps)

lemma p2p_ok_mark:
  assumes "p2p_ok c"
  shows "p2p_ok (retry_mark c)"
  unfolding p2p_ok_def
proof (intro conjI allI impI)
  show "mwf (c_peerConns (retry_mark c))" using retry_mark_view assms unfolding p2p_ok_def by blast
  fix p v assume "pview (retry_mark c) p = Some v"
  then obtain w where w: "pview c p = Some w" "v = mark_view w" using retry_mark_view [of c p] by auto
  from view_ok_mark [OF p2p_okD [OF assms w(1)]] w(2) show "view_ok v" by simp
qed

lemma p2p_ok_retry_punch:
  assumes "p2p_ok c"
  shows "p2p_ok (retry_punch P e p c)"
proof -
  obtain v where v: "changes p c v (retry_punch P e p c)" "pview c p = None \<longrightarrow> v = None"
    "\<forall>m a f k. pview c p = Some (m, a, f, k) \<longrightarrow> (\<exists>k'. (k \<longrightarrow> k') \<and> v = Some (m, a, if m \<noteq> ''direct'' then f + 1 else f, k'))"
    using retry_punch_changes [of p c P e] by (elim exE conjE)
  have "view_ok x" if "v = Some x" for x
  proof (cases "pview c p")
    case None
    then show ?thesis using v(2) that by simp
  next
    case (Some y)
    obtain m a f k where y: "y = (m, a, f, k)" by (cases y)
    obtain k' where k': "k \<longrightarrow> k'" "v = Some (m, a, if m \<noteq> ''direct'' then f + 1 else f, k')"
      using v(3) [rule_format, OF Some [unfolded y]] by (elim exE conjE)
    have "view_ok (m, a, f, k)" using p2p_okD [OF assms Some] y by simp
    from view_ok_fail [OF this k'(1)] k'(2) that show ?thesis by simp
  qed
  then show ?thesis using p2p_ok_changes [OF assms v(1)] by blast
qed

lemma p2p_ok_retry: assumes "p2p_ok c" shows "p2p_ok (retry_tick P e c)"
proof -
  have "p2p_ok d \<Longrightarrow> p2p_ok (fold (retry_punch P e) ps d)" for ps d
    by (induction ps arbitrary: d) (simp_all add: p2p_ok_retry_punch)
  then show ?thesis
    unfolding retry_tick_def Let_def using p2p_ok_mark [OF p2p_ok_same [OF assms same_view_broadcast]] by blast
qed

lemma p2p_ok_reset: "p2p_ok c \<Longrightarrow> p2p_ok (resetP2PState c)"
  unfolding p2p_ok_def
  by (auto simp: resetP2PState_def pview_def map_of_map view_ok.simps o_def split_def)

text \<open>Claim C22.
  Hole punching does not go on for ever without a fallback: a peer that has an address and is being
  connected to, with no failure counted so far, is in relay mode after six retry ticks, and still is
  tried again at every tick.\<close>

theorem punch_falls_back_to_relay:
  assumes "p2p_ok c" "mget (c_peerConns c) p = Some pc" "pc_Mode pc = ''connecting''" "pc_UDPAddr pc \<noteq> None" "pc_PunchFails pc = 0"
  shows "PeerMode ((retry_tick P e ^^ 5) c) p = ''connecting'' \<and> PeerMode ((retry_tick P e ^^ 6) c) p = ''relay'' \<and>
    p \<in> set (retry_peers ((retry_tick P e ^^ 6) c))"
proof -
  obtain a where a: "pc_UDPAddr pc = Some a" using assms(4) by blast
  have ok: "p2p_ok ((retry_tick P e ^^ n) c)" for n
    by (induction n) (simp_all add: assms(1) p2p_ok_retry)
  have up: "\<exists>k. pview ((retry_tick P e ^^ n) c) p = Some (''connecting'', Some a, int n, k)" if "n \<le> 5" for n
    using that
  proof (induction n)
    case 0
    then show ?case using assms by (simp add: pview_def a)
  next
    case (Suc n)
    then obtain k where "pview ((retry_tick P e ^^ n) c) p = Some (''connecting'', Some a, int n, k)" by auto
    moreover have "mwf (c_peerConns ((retry_tick P e ^^ n) c))" using ok [of n] by (simp add: p2p_ok_def)
    ultimately show ?case using retry_tick_view [of "(retry_tick P e ^^ n) c" p "''connecting''" a "int n" k P e] Suc.prems
      by (auto simp: add.commute)
  qed
  have mode: "PeerMode d p = m" if "pview d p = Some (m, x, f, k)" for d m x f k
    using that by (auto simp: pview_def PeerMode_def)
  obtain k where k: "pview ((retry_tick P e ^^ 5) c) p = Some (''connecting'', Some a, 5, k)" using up [of 5] by auto
  moreover have "mwf (c_peerConns ((retry_tick P e ^^ 5) c))" using ok [of 5] by (simp add: p2p_ok_def)
  ultimately obtain k' where k': "pview ((retry_tick P e ^^ 6) c) p = Some (''relay'', Some a, 6, k')"
    using retry_tick_view [of "(retry_tick P e ^^ 5) c" p "''connecting''" a 5 k P e]
    by (auto simp: numeral_eq_Suc)
  then obtain pc' where "mget (c_peerConns ((retry_tick P e ^^ 6) c)) p = Some pc'" "pc_UDPAddr pc' = Some a" "pc_Mode pc' = ''relay''"
    by (auto simp: pview_def)
  then have "p \<in> set (retry_peers ((retry_tick P e ^^ 6) c))"
    by (force simp: retry_peers_def dest: map_of_SomeD)
  with mode [OF k] mode [OF k'] show ?thesis by simp
qed

text \<open>A client \<open>a\<close> that knows the peer \<open>p\<close>.\<close>

definition cli_with :: "string \<Rightarrow> (string \<times> peerConn) list \<Rightarrow> cli" where
  "cli_with i pcs = \<lparr>c_MyID = i, c_name = [], c_passwordHash = [], c_room = ''r'', c_conn = Some True, c_udpConn = True, c_publicAddr = [], c_localAddr = [],
     c_natType = [], c_portModel = None, c_peers = [], c_peerConns = pcs, c_p2pMaps = [], c_forwards = [], c_tunnels = [],
     c_bridges = [], c_hops = [], c_hopBridgeByTunnel = [], c_fwdNetstacks = [], c_vport = 10000, c_pendingLeaves = [], c_tunDevices = [], c_tunAckChs = [], c_ackChans = [], c_vpnRestoreConfigs = [], c_restores = [], c_speedTests = [], c_fts = [], c_fileTransfers = [],
     c_serverHost = [], c_allowVPN = True, c_allowFileRecv = True, c_allowForward = True,
     c_localOnly = True, c_allowHopRelay = True, c_relayDisabled = False, c_done = False, c_ws = [], c_udp = [], c_tcp = [],
     c_closed = [], c_disk = [], c_icmp = [], c_os = [], c_udpErr = [], c_dials = []\<rparr>"

definition prims0 :: prims where
  "prims0 = \<lparr>p_pub = (\<lambda>k. k), p_ecdh = (\<lambda>x y. Some []), p_sha256 = (\<lambda>d. d), p_seal = (\<lambda>k n d. d), p_open = (\<lambda>k n d. Some d),
     p_deflate = (\<lambda>d. d), p_inflate = Some, p_text = (\<lambda>v. []), p_parse = (\<lambda>d. None), p_resolve = (\<lambda>s. Some (1, 2))\<rparr>"

definition env0 :: punchEnv where
  "env0 = \<lparr>e_priv = [7], e_nonce = 0, e_now = 0, e_drift = 0, e_halfDrift = 0, e_backDrift = 0, e_sockets = 0\<rparr>"

theorem punch_falls_back_to_relay_witness:
  "PeerMode ((retry_tick prims0 (\<lambda>_. env0) ^^ 6) (cli_with ''a'' [(''p'', (new_peerConn ''p'' ''connecting'')\<lparr>pc_UDPAddr := Some (1, 2)\<rparr>)])) ''p''
     = ''relay''"
proof -
  let ?pc = "(new_peerConn ''p'' ''connecting'')\<lparr>pc_UDPAddr := Some (1, 2)\<rparr>"
  have "p2p_ok (cli_with ''a'' [(''p'', ?pc)])"
    by (simp add: p2p_ok_def pview_def cli_with_def new_peerConn_def view_ok.simps)
  from punch_falls_back_to_relay [OF this, of "''p''" ?pc prims0 "\<lambda>_. env0"] show ?thesis
    by (simp add: cli_with_def new_peerConn_def)
qed

section \<open>Port prediction\<close>

lemma smod_range:
  fixes x :: int
  shows "x smod 64512 < 64512" "- 64512 < x smod 64512" "0 \<le> x \<Longrightarrow> 0 \<le> x smod 64512" "x < 0 \<Longrightarrow> x smod 64512 \<le> 0"
proof -
  have "\<bar>x\<bar> mod 64512 < 64512" "0 \<le> \<bar>x\<bar> mod 64512" by simp_all
  then show "x smod 64512 < 64512" "- 64512 < x smod 64512" "0 \<le> x \<Longrightarrow> 0 \<le> x smod 64512" "x < 0 \<Longrightarrow> x smod 64512 \<le> 0"
    by (cases "x = 0"; cases "0 < x"; simp add: signed_modulo_int_def)+
qed

text \<open>The ports of the drift prediction, which the code means to wrap into the range from 1024 to 65535:
  none exceeds 65535, and they all are at least 1024 exactly if no estimate, from the anchor minus the
  backward window on, lies below 1024. For a NAT whose last port was near 1024 the remainder of a
  negative number is negative and privileged ports are probed instead of the upper end of the range.\<close>

theorem predicted_ports_range:
  assumes "0 \<le> anchor" "0 \<le> e_drift e" "\<bar>anchor + e_drift e - 1024 - max 10 (e_backDrift e)\<bar> < 64512"
  shows "(\<forall>p \<in> set (predicted_ports anchor e extra). p \<le> 65535)
    \<and> ((\<forall>p \<in> set (predicted_ports anchor e extra). 1024 \<le> p) \<longleftrightarrow> 1024 \<le> anchor + e_drift e - max 10 (e_backDrift e))"
proof -
  let ?b = "max 10 (e_backDrift e)" and ?u = "min 2000 (max 20 (e_halfDrift e + int extra * 3))"
  let ?f = "\<lambda>delta. (anchor + e_drift e + delta - 1024) smod 64512 + 1024"
  have ports: "set (predicted_ports anchor e extra) = ?f ` {- ?b..?u}"
    by (simp add: predicted_ports_def Let_def)
  have hi: "?f d \<le> 65535" for d using smod_range(1) [of "anchor + e_drift e + d - 1024"] by linarith
  have mem: "- ?b \<in> {- ?b..?u}" by (simp add: le_max_iff_disj min_def max_def)
  have small: "?f (- ?b) < 1024" if "anchor + e_drift e - ?b < 1024"
  proof -
    let ?x = "anchor + e_drift e - ?b - 1024"
    have "?x smod 64512 = ?x" using that assms(3) by (simp add: signed_modulo_int_def abs_if)
    then show ?thesis using that by (simp add: algebra_simps)
  qed
  have big: "1024 \<le> ?f d" if "1024 \<le> anchor + e_drift e - ?b" "- ?b \<le> d" for d
    using smod_range(3) [of "anchor + e_drift e + d - 1024"] that by linarith
  show ?thesis
  proof (intro conjI iffI)
    show "\<forall>p \<in> set (predicted_ports anchor e extra). p \<le> 65535" unfolding ports using hi by blast
    show "1024 \<le> anchor + e_drift e - ?b" if all: "\<forall>p \<in> set (predicted_ports anchor e extra). 1024 \<le> p"
    proof (rule ccontr)
      assume "\<not> 1024 \<le> anchor + e_drift e - ?b"
      moreover have "1024 \<le> ?f (- ?b)" using all mem unfolding ports by blast
      ultimately show False using small by linarith
    qed
    show "\<forall>p \<in> set (predicted_ports anchor e extra). 1024 \<le> p" if "1024 \<le> anchor + e_drift e - ?b"
      unfolding ports using big [OF that] by auto
  qed
qed

theorem predicted_ports_range_witness:
  "\<exists>p \<in> set (predicted_ports 1030 env0 0). p < 1024"
  using predicted_ports_range [of 1030 env0 0] by (auto simp: env0_def not_le)

end
