(* ===== verification/Channel.thy ===== *)
theory Channel
  imports Holepunch
begin

text \<open>
  The encrypted channel between two clients: the key exchange over UDP (\<^verbatim>\<open>handleKeyExchange\<close>) and the
  end-to-end encryption of relayed messages (\<^verbatim>\<open>sendRelay\<close> and \<^verbatim>\<open>handleRelayData\<close>). The server stamps the
  sender's ID on a relayed message and delivers it otherwise unchanged.
\<close>

section \<open>Relayed messages\<close>

definition peer_crypto :: "cli \<Rightarrow> string \<Rightarrow> peerCrypto option" where
  "peer_crypto c p = mget (c_peerConns c) p \<bind> pc_Crypto"

text \<open>The key with which relayed messages to a peer are encrypted, if any.\<close>

definition channel_key :: "cli \<Rightarrow> string \<Rightarrow> bytes option" where
  "channel_key c p = (case peer_crypto c p of None \<Rightarrow> None | Some cr \<Rightarrow> if IsEncrypted cr then cr_key cr else None)"

definition keyed :: "cli \<Rightarrow> string \<Rightarrow> bool" where
  "keyed c p \<longleftrightarrow> (case peer_crypto c p of None \<Rightarrow> False | Some cr \<Rightarrow> IsEncrypted cr)"

lemma envelope_names [simp]: "\<not> equal_fold ''type'' ''payload''" "\<not> equal_fold ''payload'' ''type''"
  by (simp_all add: equal_fold_def to_lower_def lower_char_def)

lemma dec_relayEnvelope [simp]: "dec_envelope cur (relayEnvelope ty v) = Some (ty, Some v)"
  by (simp add: dec_envelope_def relayEnvelope_def get_raw_def)

lemma nonce_prefix: "nextNonce cr = (cr', n) \<Longrightarrow> length n = xcNonceSize"
  by (auto simp: nextNonce_def le64_def xcNonceSize_def Let_def)

lemma Decrypt_Encrypt:
  assumes "cr_encrypted cr" "cr_key cr = Some k" "cr_encrypted cb" "cr_key cb = Some k"
    and "\<And>n. opn k n (seal k n d) = Some d" and "Encrypt seal d cr = (cr', e)"
  shows "Decrypt opn e cb = Some d"
proof -
  obtain cr2 n where n: "nextNonce cr = (cr2, n)" by fastforce
  then have "e = n @ seal k n d" using assms by (auto simp: Encrypt_def)
  then show ?thesis using assms nonce_prefix [OF n] by (simp add: Decrypt_def)
qed

definition relay_msg :: "string \<Rightarrow> json \<Rightarrow> message" where
  "relay_msg p v = \<lparr>mType = ''relay_data'', mFrom = [], mTo = p, mRoom = [], mPayload = Some (v, 0)\<rparr>"

text \<open>What \<^verbatim>\<open>sendRelay\<close> puts on the wire.\<close>

lemma sendRelay_plain:
  assumes "c_conn c = Some True" "ty = ''key_exchange'' \<or> \<not> keyed c p"
  shows "c_ws (fst (sendRelay P p ty v c)) = c_ws c @ [relay_msg p (relayEnvelope ty v)]"
  using assms
  by (auto simp: sendRelay_def keyed_def peer_crypto_def Let_def sendMsg_def relay_msg_def split: option.splits prod.splits)

lemma sendRelay_keyed:
  assumes "c_conn c = Some True" "ty \<noteq> ''key_exchange''" "peer_crypto c p = Some cr" "IsEncrypted cr"
    and "Encrypt (p_seal P) (p_text P (relayEnvelope ty v)) cr = (cr', e)"
  shows "c_ws (fst (sendRelay P p ty v c)) = c_ws c @ [relay_msg p (relayEnvelope ''encrypted'' (JStr (b64_enc e)))]"
  using assms
  by (auto simp: sendRelay_def peer_crypto_def Let_def sendMsg_def relay_msg_def split: option.splits Option.bind_splits)

text \<open>The two clients either share a key for relayed messages, with which sealing can be undone, or the sender has none.\<close>

definition channel_agreed :: "prims \<Rightarrow> cli \<Rightarrow> cli \<Rightarrow> bool" where
  "channel_agreed P a b \<longleftrightarrow> (keyed a (c_MyID b) \<longrightarrow> keyed b (c_MyID a) \<and>
     (\<exists>k. channel_key b (c_MyID a) = Some k \<and> channel_key a (c_MyID b) = Some k \<and> (\<forall>n d. p_open P k n (p_seal P k n d) = Some d)))"

lemma relay_delivers_msg:
  assumes "c_conn a = Some True" "ty \<noteq> ''encrypted''" "ty \<noteq> ''key_exchange''" "channel_agreed P a b"
    and "p_parse P (p_text P (relayEnvelope ty v)) = Some (relayEnvelope ty v)"
  shows "\<exists>x. c_ws (fst (sendRelay P (c_MyID b) ty v a)) = c_ws a @ [relay_msg (c_MyID b) x] \<and>
    open_relay P ((relay_msg (c_MyID b) x)\<lparr>mFrom := c_MyID a\<rparr>) b = Some (ty, Some v)"
proof (cases "keyed a (c_MyID b)")
  case False
  then show ?thesis using assms(1,2) sendRelay_plain [of a ty "c_MyID b" P v]
    by (intro exI [of _ "relayEnvelope ty v"]) (auto simp: open_relay_def relay_msg_def)
next
  case True
  then obtain k where k: "keyed a (c_MyID b)" "keyed b (c_MyID a)" "channel_key b (c_MyID a) = Some k" "channel_key a (c_MyID b) = Some k"
      "\<And>n d. p_open P k n (p_seal P k n d) = Some d"
    using assms(4) by (auto simp: channel_agreed_def)
  obtain cra where a: "peer_crypto a (c_MyID b) = Some cra" "cr_encrypted cra" "cr_key cra = Some k"
    using k by (auto simp: keyed_def channel_key_def IsEncrypted_def split: option.splits if_splits)
  obtain crb where b: "peer_crypto b (c_MyID a) = Some crb" "cr_encrypted crb" "cr_key crb = Some k"
    using k by (auto simp: keyed_def channel_key_def IsEncrypted_def split: option.splits if_splits)
  obtain pcb where pcb: "mget (c_peerConns b) (c_MyID a) = Some pcb" "pc_Crypto pcb = Some crb"
    using b(1) by (auto simp: peer_crypto_def split: Option.bind_splits)
  let ?t = "p_text P (relayEnvelope ty v)"
  obtain cr' e where e: "Encrypt (p_seal P) ?t cra = (cr', e)" by fastforce
  have dec: "Decrypt (p_open P) e crb = Some ?t"
    by (rule Decrypt_Encrypt [OF a(2,3) b(2,3) _ e]) (rule k(5))
  have "c_ws (fst (sendRelay P (c_MyID b) ty v a)) = c_ws a @ [relay_msg (c_MyID b) (relayEnvelope ''encrypted'' (JStr (b64_enc e)))]"
    using sendRelay_keyed [OF assms(1,3) a(1) _ e] a(2) by (simp add: IsEncrypted_def)
  moreover have "open_relay P ((relay_msg (c_MyID b) (relayEnvelope ''encrypted'' (JStr (b64_enc e))))\<lparr>mFrom := c_MyID a\<rparr>) b = Some (ty, Some v)"
    using pcb dec assms(5) b(2) by (simp add: open_relay_def relay_msg_def IsEncrypted_def)
  ultimately show ?thesis by blast
qed

lemma relay_delivers:
  assumes "c_conn a = Some True" "ty \<noteq> ''encrypted''" "ty \<noteq> ''key_exchange''" "channel_agreed P a b"
    and "p_parse P (p_text P (relayEnvelope ty v)) = Some (relayEnvelope ty v)"
  shows "\<exists>m. c_ws (fst (sendRelay P (c_MyID b) ty v a)) = c_ws a @ [m] \<and> mType m = ''relay_data'' \<and> mTo m = c_MyID b \<and>
    open_relay P (m\<lparr>mFrom := c_MyID a\<rparr>) b = Some (ty, Some v)"
  using relay_delivers_msg [OF assms] by (auto simp: relay_msg_def)

text \<open>Relayed messages end to end: the message one client sends through the server is opened by the other
  as the type and payload that were sent, whether the two share a key or neither has one for the
  other, provided the encryption can be undone with the key and the text of the envelope parsed.\<close>

theorem relay_end_to_end:
  assumes "c_conn a = Some True" "ty \<noteq> ''encrypted''" "ty \<noteq> ''key_exchange''"
    and "keyed a (c_MyID b) \<Longrightarrow> keyed b (c_MyID a) \<and> channel_key b (c_MyID a) = Some k \<and> channel_key a (c_MyID b) = Some k"
    and "\<And>n d. p_open P k n (p_seal P k n d) = Some d"
    and "p_parse P (p_text P (relayEnvelope ty v)) = Some (relayEnvelope ty v)"
  shows "\<exists>m. c_ws (fst (sendRelay P (c_MyID b) ty v a)) = c_ws a @ [m] \<and> mTo m = c_MyID b \<and>
    open_relay P (m\<lparr>mFrom := c_MyID a\<rparr>) b = Some (ty, Some v)"
  using relay_delivers [OF assms(1-3), of P b v] assms(4-6) by (auto simp: channel_agreed_def)

text \<open>The two sides of a channel switch to encryption independently: if one has derived the key and the
  other has not (its \<open>KEY\<close> or \<open>KEY_ACK\<close> datagram was lost and nothing sends it again), then every relayed message
  of the first, whatever its type but \<open>key_exchange\<close>, is silently dropped by the second.\<close>

theorem half_open_channel_drops_messages:
  assumes "c_conn a = Some True" "ty \<noteq> ''key_exchange''" "keyed a (c_MyID b)" "\<not> keyed b (c_MyID a)"
  shows "\<exists>m. c_ws (fst (sendRelay P (c_MyID b) ty v a)) = c_ws a @ [m] \<and> open_relay P (m\<lparr>mFrom := c_MyID a\<rparr>) b = None"
proof -
  obtain cra where a: "peer_crypto a (c_MyID b) = Some cra" "IsEncrypted cra"
    using assms(3) by (auto simp: keyed_def split: option.splits)
  obtain cr' e where e: "Encrypt (p_seal P) (p_text P (relayEnvelope ty v)) cra = (cr', e)" by fastforce
  have "open_relay P ((relay_msg (c_MyID b) (relayEnvelope ''encrypted'' (JStr (b64_enc e))))\<lparr>mFrom := c_MyID a\<rparr>) b = None"
    using assms(4) by (auto simp: open_relay_def relay_msg_def keyed_def peer_crypto_def split: Option.bind_splits option.splits)
  with sendRelay_keyed [OF assms(1,2) a e] show ?thesis by auto
qed

section \<open>Key exchange\<close>

text \<open>Claim C19.
  The key exchange: when two clients hold fresh key pairs for each other and the \<open>KEY\<close> datagram of the
  first and the \<open>KEY_ACK\<close> with which the second answers it arrive, both have derived the same key and
  encrypt, and a further \<open>KEY\<close> or \<open>KEY_ACK\<close> changes nothing.\<close>

theorem key_exchange_agrees:
  assumes "mget (c_peerConns a) (c_MyID b) = Some pa" "pc_Crypto pa = Some ka" "\<not> IsEncrypted ka"
    and "mget (c_peerConns b) (c_MyID a) = Some pb" "pc_Crypto pb = Some kb" "\<not> IsEncrypted kb" "c_udpConn b"
    and "p_ecdh P (cr_PrivKey kb) (cr_PubKey ka) = Some s" "p_ecdh P (cr_PrivKey ka) (cr_PubKey kb) = Some s"
    and "b' = handleKeyExchange P e (c_MyID a) (cr_PubKey ka) adrA b"
    and "a' = handleKeyExchange P e' (c_MyID b) (cr_PubKey kb) adrB a"
  shows "last (c_udp b') = (adrA, str_bytes (''KEY_ACK:'' @ c_MyID b @ '':'') @ cr_PubKey kb)
    \<and> channel_key a' (c_MyID b) = Some (p_sha256 P s) \<and> channel_key b' (c_MyID a) = Some (p_sha256 P s)
    \<and> keyed a' (c_MyID b) \<and> keyed b' (c_MyID a)
    \<and> handleKeyExchange P e'' (c_MyID b) k adr a' = a'"
proof -
  have ea: "ensure_crypto P x pa = pa" and eb: "ensure_crypto P x pb = pb" for x
    using assms(2,5) by (simp_all add: ensure_crypto_def)
  let ?kb = "kb\<lparr>cr_key := Some (p_sha256 P s), cr_encrypted := True\<rparr>" and ?ka = "ka\<lparr>cr_key := Some (p_sha256 P s), cr_encrypted := True\<rparr>"
  have "DeriveKey (p_ecdh P) (p_sha256 P) (cr_PubKey ka) kb = Some ?kb" "DeriveKey (p_ecdh P) (p_sha256 P) (cr_PubKey kb) ka = Some ?ka"
    using assms(8,9) by (simp_all add: DeriveKey_def)
  note facts = this ea eb assms(1-7)
  have b': "mget (c_peerConns b') (c_MyID a) = Some (pb\<lparr>pc_Crypto := Some ?kb\<rparr>)"
    "last (c_udp b') = (adrA, str_bytes (''KEY_ACK:'' @ c_MyID b @ '':'') @ cr_PubKey kb)"
    unfolding assms(10) using facts by (simp_all add: handleKeyExchange_def Let_def del: str_bytes_append)
  have a': "mget (c_peerConns a') (c_MyID b) = Some (pa\<lparr>pc_Crypto := Some ?ka\<rparr>)"
    unfolding assms(11) using facts by (simp add: handleKeyExchange_def Let_def)
  have upd: "mget m x = Some y \<Longrightarrow> mput x y m = m" for m :: "(string \<times> peerConn) list" and x y
    by (induction m) (auto split: if_splits)
  have idem: "handleKeyExchange P e'' (c_MyID b) k adr a' = a'"
    using a' upd [OF a'] by (simp add: handleKeyExchange_def ensure_crypto_def IsEncrypted_def Let_def)
  show ?thesis
    using b' a' idem by (simp add: channel_key_def keyed_def peer_crypto_def IsEncrypted_def)
qed

section \<open>Two clients\<close>

definition crypto_example :: "byte \<Rightarrow> bytes option \<Rightarrow> peerCrypto" where
  "crypto_example x key = \<lparr>cr_PrivKey = [x], cr_PubKey = [x], cr_key = key, cr_encrypted = (key \<noteq> None), cr_nonceCounter = 0\<rparr>"

definition cli_example :: "string \<Rightarrow> string \<Rightarrow> byte \<Rightarrow> bytes option \<Rightarrow> cli" where
  "cli_example i p x key = cli_with i [(p, (new_peerConn p ''direct'')\<lparr>pc_Crypto := Some (crypto_example x key)\<rparr>)]"

lemmas example_defs = cli_example_def cli_with_def crypto_example_def new_peerConn_def keyed_def channel_key_def peer_crypto_def
  IsEncrypted_def

definition prims1 :: prims where
  "prims1 = prims0\<lparr>p_parse := (\<lambda>d. Some (relayEnvelope ''p2p_map'' JNull))\<rparr>"

theorem relay_end_to_end_witness:
  "\<exists>m. c_ws (fst (sendRelay prims1 ''b'' ''p2p_map'' JNull (cli_example ''a'' ''b'' 1 (Some [5])))) = [m] \<and>
     open_relay prims1 (m\<lparr>mFrom := ''a''\<rparr>) (cli_example ''b'' ''a'' 2 (Some [5])) = Some (''p2p_map'', Some JNull)"
proof -
  let ?a = "cli_example ''a'' ''b'' 1 (Some [5])" and ?b = "cli_example ''b'' ''a'' 2 (Some [5])"
  have m: "c_MyID ?a = ''a''" "c_MyID ?b = ''b''" "c_ws ?a = []" by (simp_all add: example_defs)
  have "keyed ?b ''a'' \<and> channel_key ?b ''a'' = Some [5] \<and> channel_key ?a ''b'' = Some [5]" by (simp add: example_defs)
  then show ?thesis
    using relay_end_to_end [of ?a "''p2p_map''" ?b "[5]" prims1 JNull] unfolding m
    by (auto simp: prims1_def prims0_def cli_example_def cli_with_def)
qed

theorem half_open_channel_drops_messages_witness:
  "\<exists>m. c_ws (fst (sendRelay prims0 ''b'' ''open_tunnel'' JNull (cli_example ''a'' ''b'' 1 (Some [5])))) = [m] \<and>
     open_relay prims0 (m\<lparr>mFrom := ''a''\<rparr>) (cli_example ''b'' ''a'' 2 None) = None"
proof -
  let ?a = "cli_example ''a'' ''b'' 1 (Some [5])" and ?b = "cli_example ''b'' ''a'' 2 None"
  have m: "c_MyID ?a = ''a''" "c_MyID ?b = ''b''" "c_ws ?a = []" by (simp_all add: example_defs)
  have "keyed ?a ''b''" "\<not> keyed ?b ''a''" by (simp_all add: example_defs)
  then show ?thesis
    using half_open_channel_drops_messages [of ?a "''open_tunnel''" ?b prims0 JNull] unfolding m
    by (auto simp: cli_example_def cli_with_def)
qed

theorem key_exchange_agrees_witness:
  "channel_key (handleKeyExchange prims0 env0 ''b'' [2] (1, 1) (cli_example ''a'' ''b'' 1 None)) ''b'' = Some [] \<and>
   channel_key (handleKeyExchange prims0 env0 ''a'' [1] (1, 1) (cli_example ''b'' ''a'' 2 None)) ''a'' = Some []"
  using key_exchange_agrees [of "cli_example ''a'' ''b'' 1 None" "cli_example ''b'' ''a'' 2 None" _ "crypto_example 1 None" _ "crypto_example 2 None"
      prims0 "[]" _ env0 "(1, 1)" _ env0 "(1, 1)" env0 "[]" "(1, 1)", OF _ _ _ _ _ _ _ _ _ refl refl]
  by (simp add: example_defs prims0_def)

end
