(* ===== verification/Peers.thy ===== *)
theory Peers
  imports Channel Speed Ipnet
begin

text \<open>
  The peer list of a client, \<^verbatim>\<open>src/client/core/client.go\<close>: \<^verbatim>\<open>handlePeerList\<close> with its debounced departures,
  \<^verbatim>\<open>handleRoomConfig\<close> and the control of a forward's mode.

  \<open>c_pendingLeaves\<close> maps a display name to the departed peer whose timer is running. The result \<open>None\<close> of
  \<^verbatim>\<open>handlePeerList\<close> is a deadlock: the code calls \<^verbatim>\<open>cleanupPeerP2PMap\<close>, which locks \<^verbatim>\<open>peerConnsMu\<close>, while it
  holds that lock; or it is the panic of cancelling a speed test of a responder.
\<close>

section \<open>Decoding the list\<close>

definition dec_peerInfo :: "json \<Rightarrow> peerInfo decoded" where
  "dec_peerInfo v = (let (kvs, ok0) = obj_members v; (i, ok1) = get_str ''id'' kvs; (st, ok2) = get_str ''status'' kvs;
        (n, ok3) = get_str ''name'' kvs; (sv, ok4) = get_strs ''services'' kvs; (ep, ok5) = get_str ''endpoint'' kvs;
        (nt, ok6) = get_str ''nat_type'' kvs
      in (\<lparr>pi_ID = i, pi_Status = st, pi_Name = n, pi_NATType = nt\<rparr>, ok0 \<and> ok1 \<and> ok2 \<and> ok3 \<and> ok4 \<and> ok5 \<and> ok6))"

fun dec_peers :: "json \<Rightarrow> peerInfo list option" where
  "dec_peers (JArr vs) = (if list_all (\<lambda>v. snd (dec_peerInfo v)) vs then Some (map (fst \<circ> dec_peerInfo) vs) else None)"
| "dec_peers JNull = Some []"
| "dec_peers _ = None"

section \<open>Operations\<close>

text \<open>The maps from name to ID: a later peer of the same name overwrites an earlier one.\<close>

definition name_map :: "peerInfo list \<Rightarrow> (string \<times> string) list" where
  "name_map ps = fold (\<lambda>p m. if pi_Name p \<noteq> [] then mput (pi_Name p) (pi_ID p) m else m) ps []"

definition displayName :: "peerInfo \<Rightarrow> string" where
  "displayName p = (if pi_Name p = [] then shortID (pi_ID p) else pi_Name p)"

text \<open>A peer that is new in the list.\<close>

definition peer_joined :: "peerInfo \<Rightarrow> cli \<Rightarrow> cli" where
  "peer_joined p c =
     (let c1 = (case mget (c_peerConns c) (pi_ID p) of
            None \<Rightarrow> c\<lparr>c_peerConns := mput (pi_ID p) (new_peerConn (pi_ID p) ''connecting'') (c_peerConns c)\<rparr>
          | Some _ \<Rightarrow> c);
          c2 = (if c_publicAddr c1 \<noteq> [] then sendStunInfo (pi_ID p) c1 else c1)
      in case mget (c_vpnRestoreConfigs c2) (displayName p) of
           None \<Rightarrow> c2
         | Some cfg \<Rightarrow> c2\<lparr>c_vpnRestoreConfigs := mdel (displayName p) (c_vpnRestoreConfigs c2),
              c_restores := (if vr_Role cfg = ''initiator'' then c_restores c2 @ [(pi_ID p, vr_Routes cfg, vr_ExitIP cfg)] else c_restores c2)\<rparr>)"

text \<open>The peers whose departure is revoked because their name is back; the first that leaves a
  connection of an absent peer behind blocks for ever.\<close>

definition orphaned :: "string list \<Rightarrow> string \<Rightarrow> cli \<Rightarrow> bool" where
  "orphaned newIDs newID c \<longleftrightarrow> list_ex (\<lambda>(i, pc). i \<noteq> newID \<and> i \<noteq> c_MyID c \<and> i \<notin> set newIDs) (c_peerConns c)"

fun revoke_leaves :: "string list \<Rightarrow> (string \<times> string) list \<Rightarrow> string list \<Rightarrow> cli \<Rightarrow> cli option" where
  "revoke_leaves newIDs nm [] c = Some c"
| "revoke_leaves newIDs nm (name # names) c = (case mget nm name of
       None \<Rightarrow> revoke_leaves newIDs nm names c
     | Some newID \<Rightarrow>
        (let c1 = c\<lparr>c_pendingLeaves := mdel name (c_pendingLeaves c)\<rparr> in
         if orphaned newIDs newID c1 then None else revoke_leaves newIDs nm names c1))"

text \<open>A peer that is gone from the list.\<close>

definition move_tun :: "string \<Rightarrow> string \<Rightarrow> cli \<Rightarrow> cli" where
  "move_tun oldID newID c = (case mget (c_tunDevices c) oldID of None \<Rightarrow> c
     | Some dev \<Rightarrow> c\<lparr>c_tunDevices := mput newID (dev\<lparr>td_peerID := newID\<rparr>) (mdel oldID (c_tunDevices c))\<rparr>)"

definition peer_gone :: "prims \<Rightarrow> (string \<times> string) list \<Rightarrow> peerInfo \<Rightarrow> cli \<Rightarrow> cli option" where
  "peer_gone P nm p c =
     (case (if pi_Name p = [] then None else mget nm (pi_Name p)) of
        Some newID \<Rightarrow>
          (let c1 = move_tun (pi_ID p) newID (cleanupPeerP2PMap (pi_ID p) (c\<lparr>c_peerConns := mdel (pi_ID p) (c_peerConns c)\<rparr>)) in
           cancelSpeedTestsForPeer P (pi_ID p) (c1\<lparr>c_fwdNetstacks := mdel (pi_ID p) (c_fwdNetstacks c1)\<rparr>))
      | None \<Rightarrow>
          Some (if mget (c_pendingLeaves c) (displayName p) = None
            then c\<lparr>c_pendingLeaves := mput (displayName p) p (c_pendingLeaves c)\<rparr>
            else c))"

definition handlePeerList :: "prims \<Rightarrow> message \<Rightarrow> cli \<Rightarrow> cli option" where
  "handlePeerList P m c = (case mPayload m of None \<Rightarrow> Some c
     | Some (v, _) \<Rightarrow> (case dec_peers v of None \<Rightarrow> Some c
       | Some peers \<Rightarrow>
          (let old = c_peers c; c0 = c\<lparr>c_peers := peers\<rparr>;
               newIDs = map pi_ID peers; nm = name_map peers;
               joined = filter (\<lambda>p. pi_ID p \<noteq> c_MyID c \<and> pi_ID p \<notin> set (map pi_ID old)) peers;
               gone = filter (\<lambda>p. pi_ID p \<notin> set newIDs \<and> pi_ID p \<noteq> c_MyID c) old;
               c1 = fold peer_joined joined c0
           in revoke_leaves newIDs nm (map fst (c_pendingLeaves c1)) c1 \<bind> foldM (peer_gone P nm) gone)))"

text \<open>The timer of a departure fires after five seconds. A VPN with the peer ends; that of an initiator is
  remembered for the peer's return.\<close>

definition leave_tun :: "string \<Rightarrow> string \<Rightarrow> cli \<Rightarrow> cli" where
  "leave_tun i name c = (case mget (c_tunDevices c) i of None \<Rightarrow> c
     | Some dev \<Rightarrow> c\<lparr>c_tunDevices := mdel i (c_tunDevices c),
         c_vpnRestoreConfigs := (if td_role dev = ''initiator''
           then mput name \<lparr>vr_PeerName = name, vr_Routes = td_routes dev, vr_ExitIP = (case td_exitIP dev of None \<Rightarrow> [] | Some ip \<Rightarrow> ipv4_str ip), vr_Role = td_role dev\<rparr> (c_vpnRestoreConfigs c)
           else c_vpnRestoreConfigs c),
         c_os := c_os c @ map (RemoveRoute (td_ifName dev)) (td_routes dev) @
           [CleanupSNAT (td_ifName dev) (td_snatIP dev), DisableNAT (td_ifName dev), RemoveTun (td_ifName dev), StopPlatformVPN]\<rparr>)"

definition leave_fires :: "string \<Rightarrow> cli \<Rightarrow> cli" where
  "leave_fires name c = (case mget (c_pendingLeaves c) name of None \<Rightarrow> c
     | Some p \<Rightarrow>
        (let c1 = c\<lparr>c_pendingLeaves := mdel name (c_pendingLeaves c)\<rparr> in
         if list_ex (\<lambda>cur. (pi_Name cur = pi_Name p \<and> pi_Name p \<noteq> []) \<or> pi_ID cur = pi_ID p) (c_peers c1) then c1
         else leave_tun (pi_ID p) name (cleanupPeerP2PMap (pi_ID p) (c1\<lparr>c_peerConns := mdel (pi_ID p) (c_peerConns c1)\<rparr>))))"

definition handleRoomConfig :: "message \<Rightarrow> cli \<Rightarrow> cli" where
  "handleRoomConfig m c = (case mPayload m of None \<Rightarrow> c
     | Some (v, _) \<Rightarrow> (let (kvs, ok0) = obj_members v; (b, ok1) = get_bool ''relay_disabled'' kvs in
        if ok0 \<and> ok1 then c\<lparr>c_relayDisabled := b\<rparr> else c))"

definition SetForwardMode :: "int \<Rightarrow> bool \<Rightarrow> cli \<Rightarrow> cli" where
  "SetForwardMode port force c = (case mget (c_forwards c) port of None \<Rightarrow> c
     | Some f \<Rightarrow> c\<lparr>c_forwards := mput port (f\<lparr>f_ForceRelay := force\<rparr>) (c_forwards c)\<rparr>)"

definition PeerNATType :: "cli \<Rightarrow> string \<Rightarrow> string" where
  "PeerNATType c p = (case mget (c_peerConns c) p of
       Some pc \<Rightarrow> if pc_NATType pc \<noteq> [] then pc_NATType pc
                  else (case find (\<lambda>q. pi_ID q = p \<and> pi_NATType q \<noteq> []) (c_peers c) of Some q \<Rightarrow> pi_NATType q | None \<Rightarrow> [])
     | None \<Rightarrow> (case find (\<lambda>q. pi_ID q = p \<and> pi_NATType q \<noteq> []) (c_peers c) of Some q \<Rightarrow> pi_NATType q | None \<Rightarrow> []))"

section \<open>Connections and the peer list\<close>

text \<open>A change that removes neither a listed peer nor a connection.\<close>

definition conns_grow :: "cli \<Rightarrow> cli \<Rightarrow> bool" where
  "conns_grow c c' \<longleftrightarrow> c_peers c' = c_peers c \<and> c_MyID c' = c_MyID c \<and>
     (\<forall>k. mget (c_peerConns c) k \<noteq> None \<longrightarrow> mget (c_peerConns c') k \<noteq> None)"

lemma sendStunInfo_frame [simp]:
  "c_peers (sendStunInfo t c) = c_peers c" "c_MyID (sendStunInfo t c) = c_MyID c"
  "c_peerConns (sendStunInfo t c) = c_peerConns c" "c_pendingLeaves (sendStunInfo t c) = c_pendingLeaves c"
  by (auto simp: sendStunInfo_def sendMsg_def Let_def split: option.splits)

lemma peer_joined_has: "mget (c_peerConns (peer_joined p c)) (pi_ID p) \<noteq> None \<and> conns_grow c (peer_joined p c)"
  by (auto simp: peer_joined_def conns_grow_def Let_def split: option.splits)

lemma conns_grow_refl: "conns_grow c c"
  by (simp add: conns_grow_def)

lemma conns_grow_trans: "conns_grow c d \<Longrightarrow> conns_grow d e \<Longrightarrow> conns_grow c e"
  by (simp add: conns_grow_def)

lemma joined_all:
  "conns_grow c (fold peer_joined ps c) \<and> (\<forall>p \<in> set ps. mget (c_peerConns (fold peer_joined ps c)) (pi_ID p) \<noteq> None)"
proof (induction ps arbitrary: c)
  case (Cons p ps)
  let ?d = "peer_joined p c"
  have d: "mget (c_peerConns ?d) (pi_ID p) \<noteq> None" "conns_grow c ?d" using peer_joined_has [of p c] by auto
  have g: "conns_grow ?d (fold peer_joined ps ?d)" using Cons.IH [of ?d] by blast
  have "mget (c_peerConns (fold peer_joined ps ?d)) (pi_ID p) \<noteq> None" using g d(1) unfolding conns_grow_def by blast
  then show ?case using Cons.IH [of ?d] conns_grow_trans [OF d(2) g] by simp
qed (simp add: conns_grow_refl)

lemma revoke_frame:
  "revoke_leaves ids nm names c = Some d \<Longrightarrow> c_peers d = c_peers c \<and> c_MyID d = c_MyID c \<and> c_peerConns d = c_peerConns c"
proof (induction names arbitrary: c)
  case (Cons n names)
  show ?case
  proof (cases "mget nm n")
    case None
    then show ?thesis using Cons by simp
  next
    case (Some j)
    let ?c = "c\<lparr>c_pendingLeaves := mdel n (c_pendingLeaves c)\<rparr>"
    have "revoke_leaves ids nm names ?c = Some d" using Cons.prems Some by (simp add: Let_def split: if_splits)
    then show ?thesis using Cons.IH [of ?c] by simp
  qed
qed simp

lemma mget_cleanup [simp]:
  "(mget (c_peerConns (cleanupPeerP2PMap i c)) k = None) = (mget (c_peerConns c) k = None)"
  "(\<exists>y. mget (c_peerConns (cleanupPeerP2PMap i c)) k = Some y) = (\<exists>y. mget (c_peerConns c) k = Some y)"
  by (auto simp: cleanupPeerP2PMap_def map_of_map)

lemma cleanup_frame [simp]: "c_peers (cleanupPeerP2PMap i c) = c_peers c" "c_MyID (cleanupPeerP2PMap i c) = c_MyID c"
  by (simp_all add: cleanupPeerP2PMap_def)

text \<open>Cancelling speed tests touches the tests and what sending touches.\<close>

lemma sends_frame:
  "c_peers (stSignalWith P i tr ty v c) = c_peers c" "c_MyID (stSignalWith P i tr ty v c) = c_MyID c"
  "(mget (c_peerConns (stSignalWith P i tr ty v c)) k = None) = (mget (c_peerConns c) k = None)"
proof -
  show "c_peers (stSignalWith P i tr ty v c) = c_peers c" "c_MyID (stSignalWith P i tr ty v c) = c_MyID c"
    unfolding stSignalWith_def by (rule stSend_other; simp)+
  have r: "(mget (c_peerConns (fst (sendRelay P i ty v c))) k = None) = (mget (c_peerConns c) k = None)" for c
    using sendRelay_ws_only [of c P i ty v] unfolding ws_only_def by blast
  then show "(mget (c_peerConns (stSignalWith P i tr ty v c)) k = None) = (mget (c_peerConns c) k = None)"
    by (simp add: stSignalWith_def stSend_def sendViaP2P_def udpSend_def Let_def split: option.splits)
qed

lemma cancel_frame:
  assumes "cancelSpeedTestsForPeer P i c = Some c'"
  shows "c_peers c' = c_peers c \<and> c_MyID c' = c_MyID c \<and> (\<forall>k. (mget (c_peerConns c') k = None) = (mget (c_peerConns c) k = None))"
  by (rule foldM_keeps [OF assms [unfolded cancelSpeedTestsForPeer_def]])
    (auto simp: CancelSpeedTest_def sends_frame Let_def split: option.splits Option.bind_splits)

lemma move_tun_frame [simp]:
  "c_peers (move_tun a b c) = c_peers c" "c_MyID (move_tun a b c) = c_MyID c" "c_peerConns (move_tun a b c) = c_peerConns c"
  by (simp_all add: move_tun_def split: option.splits)

lemma leave_tun_frame [simp]:
  "c_peers (leave_tun a b c) = c_peers c" "c_MyID (leave_tun a b c) = c_MyID c" "c_peerConns (leave_tun a b c) = c_peerConns c"
  by (simp_all add: leave_tun_def split: option.splits)

lemma peer_gone_keeps:
  assumes "peer_gone P nm p c = Some c'"
  shows "c_peers c' = c_peers c \<and> c_MyID c' = c_MyID c \<and> (\<forall>k. k \<noteq> pi_ID p \<longrightarrow> mget (c_peerConns c) k \<noteq> None \<longrightarrow> mget (c_peerConns c') k \<noteq> None)"
proof (cases "if pi_Name p = [] then None else mget nm (pi_Name p)")
  case None
  then show ?thesis using assms by (auto simp: peer_gone_def)
next
  case (Some j)
  let ?c1 = "move_tun (pi_ID p) j (cleanupPeerP2PMap (pi_ID p) (c\<lparr>c_peerConns := mdel (pi_ID p) (c_peerConns c)\<rparr>))"
  have "cancelSpeedTestsForPeer P (pi_ID p) (?c1\<lparr>c_fwdNetstacks := mdel (pi_ID p) (c_fwdNetstacks ?c1)\<rparr>) = Some c'"
    using assms Some by (simp add: peer_gone_def Let_def)
  from cancel_frame [OF this] show ?thesis by simp
qed

lemma gone_keeps:
  "foldM (peer_gone P nm) ps c = Some c' \<Longrightarrow>
   c_peers c' = c_peers c \<and> c_MyID c' = c_MyID c \<and> (\<forall>k. k \<notin> pi_ID ` set ps \<longrightarrow> mget (c_peerConns c) k \<noteq> None \<longrightarrow> mget (c_peerConns c') k \<noteq> None)"
proof (induction ps arbitrary: c)
  case (Cons p ps)
  then obtain d where d: "peer_gone P nm p c = Some d" "foldM (peer_gone P nm) ps d = Some c'" by (auto split: Option.bind_splits)
  from peer_gone_keeps [OF d(1)] Cons.IH [OF d(2)] show ?case by simp
qed simp

lemma name_map_mem:
  "name \<noteq> [] \<Longrightarrow> p \<in> set ps \<Longrightarrow> pi_Name p = name \<Longrightarrow> \<exists>j. mget (name_map ps) name = Some j"
proof -
  have "mget m0 name \<noteq> None \<or> (\<exists>p \<in> set ps. pi_Name p = name) \<Longrightarrow> name \<noteq> [] \<Longrightarrow>
      mget (fold (\<lambda>p m. if pi_Name p \<noteq> [] then mput (pi_Name p) (pi_ID p) m else m) ps m0) name \<noteq> None" for m0
  proof (induction ps arbitrary: m0)
    case (Cons p ps)
    show ?case
    proof (cases "pi_Name p = []")
      case True
      then show ?thesis using Cons.IH [of m0] Cons.prems by auto
    next
      case False
      then show ?thesis using Cons.IH [of "mput (pi_Name p) (pi_ID p) m0"] Cons.prems by auto
    qed
  qed auto
  then show "name \<noteq> [] \<Longrightarrow> p \<in> set ps \<Longrightarrow> pi_Name p = name \<Longrightarrow> \<exists>j. mget (name_map ps) name = Some j"
    unfolding name_map_def by blast
qed

lemma name_map_ID: "mget (name_map ps) name = Some j \<Longrightarrow> j \<in> pi_ID ` set ps"
proof -
  have "mget (fold (\<lambda>p m. if pi_Name p \<noteq> [] then mput (pi_Name p) (pi_ID p) m else m) ps m0) name = Some j \<Longrightarrow>
      mget m0 name = Some j \<or> j \<in> pi_ID ` set ps" for m0
  proof (induction ps arbitrary: m0)
    case (Cons p ps)
    then show ?case using Cons.IH [of "mput (pi_Name p) (pi_ID p) m0"] Cons.IH [of m0]
      by (auto split: if_splits)
  qed simp
  from this [of "[]"] show "mget (name_map ps) name = Some j \<Longrightarrow> j \<in> pi_ID ` set ps" by (simp add: name_map_def)
qed

lemma joined_pending: "c_pendingLeaves (fold peer_joined ps d) = c_pendingLeaves d"
  by (induction ps arbitrary: d) (auto simp: peer_joined_def Let_def split: option.splits)

lemma revoke_blocks:
  assumes "mget nm name = Some j0" "\<And>n j. mget nm n = Some j \<Longrightarrow> j \<noteq> i"
    and "(i, pc) \<in> set (c_peerConns c)" "i \<noteq> c_MyID c" "i \<notin> set ids"
  shows "name \<in> set names \<Longrightarrow> revoke_leaves ids nm names c = None"
  using assms(3,4)
proof (induction names arbitrary: c)
  case (Cons n names)
  show ?case
  proof (cases "mget nm n")
    case None
    then show ?thesis using Cons assms(1) by auto
  next
    case (Some j)
    then have "orphaned ids j (c\<lparr>c_pendingLeaves := mdel n (c_pendingLeaves c)\<rparr>)"
      using Cons.prems assms(2) [OF Some] assms(5) by (auto simp: orphaned_def list_ex_iff)
    then show ?thesis by (simp add: Some Let_def)
  qed
qed simp

text \<open>Claim C31.
  The case the clean-up of orphaned connections was written for: a peer left, its timer is running,
  and a peer of the same name is listed again under another ID while the old record is still there.
  The handler then waits for a lock that it holds itself and never returns.\<close>

theorem returning_peer_deadlocks:
  assumes "mPayload m = Some (v, n)" "dec_peers v = Some peers"
    and "mget (c_pendingLeaves c) name = Some q" "name \<noteq> []"
    and "p \<in> set peers" "pi_Name p = name"
    and "mget (c_peerConns c) i = Some pc" "i \<noteq> c_MyID c" "i \<notin> pi_ID ` set peers"
  shows "handlePeerList P m c = None"
proof -
  let ?joined = "filter (\<lambda>p. pi_ID p \<noteq> c_MyID c \<and> pi_ID p \<notin> set (map pi_ID (c_peers c))) peers"
  let ?c1 = "fold peer_joined ?joined (c\<lparr>c_peers := peers\<rparr>)"
  have grow: "conns_grow (c\<lparr>c_peers := peers\<rparr>) ?c1" using joined_all by blast
  obtain pc' where "mget (c_peerConns ?c1) i = Some pc'" using grow assms(7) unfolding conns_grow_def by force
  then have i: "(i, pc') \<in> set (c_peerConns ?c1)" "i \<noteq> c_MyID ?c1" using grow assms(8) by (simp_all add: map_of_SomeD conns_grow_def)
  obtain j0 where j0: "mget (name_map peers) name = Some j0" using name_map_mem [OF assms(4-6)] by blast
  have "name \<in> set (map fst (c_pendingLeaves ?c1))"
    unfolding joined_pending using map_of_SomeD [OF assms(3)] by (auto intro: rev_image_eqI)
  then have "revoke_leaves (map pi_ID peers) (name_map peers) (map fst (c_pendingLeaves ?c1)) ?c1 = None"
    by (intro revoke_blocks [OF j0 _ i]) (use name_map_ID [of peers] assms(9) in auto)
  then show ?thesis using assms(1,2) by (simp add: handlePeerList_def Let_def)
qed

text \<open>Bob left as \<open>b1\<close> and comes back as \<open>b2\<close>.\<close>

definition bob :: "string \<Rightarrow> peerInfo" where
  "bob i = \<lparr>pi_ID = i, pi_Status = [], pi_Name = ''bob'', pi_NATType = []\<rparr>"

definition bob_list :: message where
  "bob_list = mk_message ''peer_list'' (JArr [JObj [(''id'', JStr ''b2''), (''name'', JStr ''bob'')]])"

lemma bob_decodes: "dec_peers (JArr [JObj [(''id'', JStr ''b2''), (''name'', JStr ''bob'')]]) = Some [bob ''b2'']"
  by (simp add: dec_peerInfo_def get_str_def get_strs_def equal_fold_def to_lower_def lower_char_def bob_def)

declare dec_peers.simps [simp del]

theorem returning_peer_deadlocks_witness:
  "handlePeerList prims0 bob_list ((cli_with ''a'' [(''b1'', new_peerConn ''b1'' ''direct'')])\<lparr>c_pendingLeaves := [(''bob'', bob ''b1'')]\<rparr>) = None"
  by (rule returning_peer_deadlocks [of _ "JArr [JObj [(''id'', JStr ''b2''), (''name'', JStr ''bob'')]]" 0 "[bob ''b2'']" _ "''bob''" "bob ''b1''" "bob ''b2''" "''b1''"])
     (simp_all add: bob_list_def mk_message_def bob_decodes, simp_all add: cli_with_def bob_def)

end
