(* ===== verification/Vpn.thy ===== *)
theory Vpn
  imports Names Ipnet
begin

text \<open>
  The VPN, \<^verbatim>\<open>src/client/core/tun.go\<close>, with the two proxies of \<^verbatim>\<open>src/client/core/tun_proxy.go\<close> and
  \<^verbatim>\<open>src/client/core/tun_netstack.go\<close>. One client (the initiator) asks a peer (the responder) for a tunnel to networks the
  peer can reach; both create an interface, and the IP packets read from it travel to the other side.

  \<^item> The platform (creating and configuring an interface, routes, raw sockets, the userspace stack) is outside:
    its results are arguments of the operations, what it is told is appended to \<open>c_os\<close>.
  \<^item> \<^verbatim>\<open>StartTun\<close> waits for the answer of the peer: \<open>StartTun\<close> is the part up to the waiting, \<open>StartTun_acked\<close> the part after
    it. The slow part of \<^verbatim>\<open>handleTunSetup\<close> is the step \<open>setup_background\<close> of a goroutine.
  \<^item> The result \<open>None\<close> is a panic.
  \<^item> A goroutine that holds a device finds it in the map by its identity \<open>td_uid\<close>.
\<close>

section \<open>Virtual addresses\<close>

record netIface =
  ni_Name :: string
  ni_up :: bool
  ni_loopback :: bool
  ni_broadcast :: bool
  ni_HardwareAddr :: bytes

definition skipped_iface :: "string \<Rightarrow> bool" where
  "skipped_iface name = list_ex (has_prefix name) [''rmnet'', ''ccmni'', ''tun'', ''utun'', ''dummy'', ''tap'']"

text \<open>The loop of \<^verbatim>\<open>getPrimaryMAC\<close> over the variables \<^verbatim>\<open>wifiMAC\<close>, \<^verbatim>\<open>physMAC\<close> and \<^verbatim>\<open>anyMAC\<close>.\<close>

fun mac_loop :: "netIface list \<Rightarrow> bytes option \<Rightarrow> bytes option \<Rightarrow> bytes option \<Rightarrow> bytes option" where
  "mac_loop [] wifiMAC physMAC anyMAC = (case wifiMAC of Some m \<Rightarrow> Some m | None \<Rightarrow> (case physMAC of Some m \<Rightarrow> Some m | None \<Rightarrow> anyMAC))"
| "mac_loop (i # is) wifiMAC physMAC anyMAC =
     (if \<not> ni_up i \<or> ni_loopback i \<or> length (ni_HardwareAddr i) < 6 then mac_loop is wifiMAC physMAC anyMAC
      else
        (let name = to_lower (ni_Name i); mac = Some (ni_HardwareAddr i) in
         if has_prefix name ''wlan'' then mac_loop is (if wifiMAC = None then mac else wifiMAC) physMAC anyMAC
         else if skipped_iface name then mac_loop is wifiMAC physMAC anyMAC
         else if ni_broadcast i \<and> physMAC = None then mac_loop is wifiMAC mac anyMAC
         else mac_loop is wifiMAC physMAC (if anyMAC = None then mac else anyMAC)))"

text \<open>\<open>ifs\<close> is what \<^verbatim>\<open>net.Interfaces\<close> returned, \<open>None\<close> for an error.\<close>

definition getPrimaryMAC :: "netIface list option \<Rightarrow> bytes option" where
  "getPrimaryMAC ifs = (case ifs of None \<Rightarrow> None | Some is \<Rightarrow> mac_loop is None None None)"

definition virtual_octet :: "(bytes \<Rightarrow> bytes) \<Rightarrow> bytes \<Rightarrow> nat" where
  "virtual_octet sha mac = unat (sha mac ! 0) mod 252 + 2"

definition deriveVirtualIP :: "(bytes \<Rightarrow> bytes) \<Rightarrow> netIface list option \<Rightarrow> string" where
  "deriveVirtualIP sha ifs = (case getPrimaryMAC ifs of None \<Rightarrow> ''10.7.0.100''
     | Some mac \<Rightarrow> ''10.7.0.'' @ show_nat (virtual_octet sha mac))"

text \<open>\<^verbatim>\<open>GetVirtualIP\<close>; \<open>cached\<close> is the package variable \<^verbatim>\<open>cachedVirtualIP\<close>.\<close>

definition GetVirtualIP :: "(bytes \<Rightarrow> bytes) \<Rightarrow> netIface list option \<Rightarrow> string \<Rightarrow> string" where
  "GetVirtualIP sha ifs cached = (if cached \<noteq> [] then cached else deriveVirtualIP sha ifs)"

definition ip_octet :: "nat \<Rightarrow> u32 \<Rightarrow> nat" where
  "ip_octet i ip = unat (bytes32 ip ! i)"

definition allocVirtualIP :: "string \<Rightarrow> nat \<Rightarrow> string" where
  "allocVirtualIP base i = (case parse_ipv4 base of
       None \<Rightarrow> ''10.7.'' @ show_nat i @ ''.100''
     | Some ip \<Rightarrow> ''10.7.'' @ show_nat i @ ''.'' @ show_nat (ip_octet 3 ip))"

definition used_index :: "cli \<Rightarrow> nat \<Rightarrow> bool" where
  "used_index c i = list_ex (\<lambda>(p, d). case td_virtualIP d of None \<Rightarrow> False | Some ip \<Rightarrow> ip_octet 2 ip = i) (c_tunDevices c)"

definition nextVPNIndex :: "cli \<Rightarrow> nat" where
  "nextVPNIndex c = (case find (\<lambda>i. \<not> used_index c i) [0..<256] of Some i \<Rightarrow> i | None \<Rightarrow> length (c_tunDevices c))"

definition vpn_subnet :: "nat \<Rightarrow> string" where
  "vpn_subnet i = ''10.7.'' @ show_nat i @ ''.0/24''"

section \<open>Text of addresses\<close>

definition ip_str :: "u32 option \<Rightarrow> string" where
  "ip_str ip = (case ip of None \<Rightarrow> ''<nil>'' | Some ip \<Rightarrow> ipv4_str ip)"

definition mask_len :: "u32 \<Rightarrow> nat" where
  "mask_len m = length (filter (bit m) [0..<32])"

definition net_str :: "ipnet option \<Rightarrow> string" where
  "net_str n = (case n of None \<Rightarrow> ''<nil>'' | Some (ip, m) \<Rightarrow> ipv4_str ip @ ''/'' @ show_nat (mask_len m))"

section \<open>Messages\<close>

text \<open>\<^verbatim>\<open>TunSetup\<close>, \<^verbatim>\<open>TunAck\<close> and \<^verbatim>\<open>TunData\<close>.\<close>

definition tunSetup :: "string \<Rightarrow> string \<Rightarrow> string list \<Rightarrow> string \<Rightarrow> json" where
  "tunSetup peerIP subnet routes exitIP = JObj ([(''virtual_ip'', JStr []), (''peer_ip'', JStr peerIP), (''subnet'', JStr subnet)] @
     omit_strs ''routes'' routes @ omit_str ''exit_ip'' exitIP)"

definition tunAck :: "string \<Rightarrow> json" where
  "tunAck ip = JObj [(''virtual_ip'', JStr ip)]"

definition tunData :: "string \<Rightarrow> json" where
  "tunData d = JObj [(''data'', JStr d)]"

text \<open>\<^verbatim>\<open>fmt.Sprintf("%v", ss)\<close>.\<close>

definition show_strs :: "string list \<Rightarrow> string" where
  "show_strs ss = ''['' @ join_with '' '' ss @ '']''"

definition features :: "cli \<Rightarrow> (string \<times> string) list" where
  "features c =
     (let devs = map snd (c_tunDevices c);
          routed = filter (\<lambda>d. td_routes d \<noteq> []) devs
      in (if c_forwards c \<noteq> [] then [(''forwards'', show_nat (length (c_forwards c)))] else []) @
         (if devs \<noteq> [] then [(''vpn'', show_strs (map td_peerName devs))] else []) @
         (if routed \<noteq> [] then [(''vpn_routes'', show_strs (td_routes (last routed)))] else []))"

definition ReportFeatures :: "cli \<Rightarrow> cli" where
  "ReportFeatures c = fst (sendMsg \<lparr>mType = ''feature_update'', mFrom = [], mTo = [], mRoom = c_room c,
     mPayload = Some (enc_strmap (features c), 0)\<rparr> c)"

section \<open>Devices\<close>

text \<open>\<^verbatim>\<open>createTunDevice\<close>; \<open>ifc\<close> is the name of the created interface and whether it could be configured.\<close>

definition createTunDevice :: "nat \<Rightarrow> (string \<times> bool) option \<Rightarrow> string \<Rightarrow> string \<Rightarrow> string \<Rightarrow> string \<Rightarrow> string + tunDevice" where
  "createTunDevice uid ifc localIP peerIP subnet peerID = (case ifc of
       None \<Rightarrow> Inl ''TUN device creation failed''
     | Some (name, ok) \<Rightarrow> if \<not> ok then Inl ''TUN interface config failed''
         else Inr \<lparr>td_uid = uid, td_ifName = name, td_virtualIP = parse_ipv4 localIP, td_peerIP = parse_ipv4 peerIP,
           td_subnet = parse_cidr subnet, td_routes = [], td_exitIP = None, td_snatIP = None, td_routeNets = [], td_natTable = [],
           td_proxy = None, td_nsProxy = None, td_serverHost = [], td_peerID = peerID, td_peerName = [], td_role = [],
           td_bytesUp = 0, td_bytesDown = 0, td_lastUp = 0, td_lastDown = 0, td_directMode = 0, td_done = False, td_iface = []\<rparr>)"

definition os :: "oscmd list \<Rightarrow> cli \<Rightarrow> cli" where
  "os cmds c = c\<lparr>c_os := c_os c @ cmds\<rparr>"

text \<open>\<^verbatim>\<open>removeServerRoute\<close> and \<^verbatim>\<open>cleanupSNATRoute\<close> ignore an empty host and a nil address themselves.\<close>

definition stopTunDevice :: "prims \<Rightarrow> tunDevice \<Rightarrow> cli \<Rightarrow> cli" where
  "stopTunDevice P dev c =
     (let c1 = fst (sendRelay P (td_peerID dev) ''tun_teardown'' (JObj []) c);
          c2 = os (map (RemoveRoute (td_ifName dev)) (td_routes dev) @
                 [CleanupSNAT (td_ifName dev) (td_snatIP dev), DisableNAT (td_ifName dev), RemoveTun (td_ifName dev), RemoveServerRoute (td_serverHost dev)]) c1;
          c3 = (if c_tunDevices c2 = [] then os [StopPlatformVPN] c2 else c2)
      in ReportFeatures c3)"

text \<open>\<^verbatim>\<open>tunCleanup\<close> and \<^verbatim>\<open>StopTun\<close>: the map is emptied before the devices are stopped.\<close>

definition tunCleanup :: "prims \<Rightarrow> cli \<Rightarrow> cli" where
  "tunCleanup P c = fold (\<lambda>(p, dev). stopTunDevice P dev) (c_tunDevices c) (c\<lparr>c_tunDevices := []\<rparr>)"

definition StopTun :: "prims \<Rightarrow> cli \<Rightarrow> cli \<times> string option" where
  "StopTun P c = (if c_tunDevices c = [] then (c, Some ''no active VPN'') else (ReportFeatures (tunCleanup P c), None))"

definition StopTunPeer :: "prims \<Rightarrow> string \<Rightarrow> cli \<Rightarrow> cli \<times> string option" where
  "StopTunPeer P peerID c = (case resolvePeerID peerID c of Inl e \<Rightarrow> (c, Some e)
     | Inr fullID \<Rightarrow> (case mget (c_tunDevices c) fullID of None \<Rightarrow> (c, Some ''no VPN with peer'')
       | Some dev \<Rightarrow> (ReportFeatures (stopTunDevice P dev (c\<lparr>c_tunDevices := mdel fullID (c_tunDevices c)\<rparr>)), None)))"

definition handleTunTeardown :: "string \<Rightarrow> cli \<Rightarrow> cli" where
  "handleTunTeardown from' c = (case mget (c_tunDevices c) from' of None \<Rightarrow> c
     | Some dev \<Rightarrow> os [CleanupSNAT (td_ifName dev) (td_snatIP dev), RemoveTun (td_ifName dev), RemoveServerRoute (td_serverHost dev)]
         (c\<lparr>c_tunDevices := mdel from' (c_tunDevices c)\<rparr>))"

section \<open>Starting: the initiator\<close>

text \<open>The loop of \<^verbatim>\<open>addRoutesToExistingTun\<close>: device, platform commands and number of routes added.\<close>

fun add_routes :: "string list \<Rightarrow> tunDevice \<Rightarrow> oscmd list \<Rightarrow> nat \<Rightarrow> tunDevice \<times> oscmd list \<times> nat" where
  "add_routes [] dev cmds added = (dev, cmds, added)"
| "add_routes (r # rs) dev cmds added =
     (if r \<in> set (td_routes dev) then add_routes rs dev cmds added
      else add_routes rs (dev\<lparr>td_routes := td_routes dev @ [r],
             td_routeNets := td_routeNets dev @ (case parse_cidr r of None \<Rightarrow> [] | Some n \<Rightarrow> [n])\<rparr>)
             (cmds @ [AddRoute (td_ifName dev) r (ip_str (td_peerIP dev))]) (added + 1))"

definition addRoutesToExistingTun :: "prims \<Rightarrow> tunDevice \<Rightarrow> string \<Rightarrow> string list \<Rightarrow> cli \<Rightarrow> cli \<times> string option" where
  "addRoutesToExistingTun P dev peerID routes c =
     (if routes = [] then (c, Some ''no routes specified'')
      else
        (let (dev', cmds, added) = add_routes routes dev [] 0 in
         if added = 0 then (c, Some ''all routes already exist'')
         else
           (let c1 = os cmds (c\<lparr>c_tunDevices := mput peerID dev' (c_tunDevices c)\<rparr>) in
            (fst (sendRelay P peerID ''tun_setup'' (tunSetup (ip_str (td_virtualIP dev')) (net_str (td_subnet dev')) routes []) c1), None))))"

datatype tun_start =
    TunReturns "string option"
  | TunWaits string string string nat

text \<open>\<^verbatim>\<open>StartTun\<close> up to the wait for the answer; \<open>base\<close> is what \<^verbatim>\<open>deriveVirtualIP\<close> returns. The wait carries the peer, the
  local address, the network and the channel.\<close>

definition StartTun :: "prims \<Rightarrow> string \<Rightarrow> string \<Rightarrow> string list \<Rightarrow> string \<Rightarrow> cli \<Rightarrow> cli \<times> tun_start" where
  "StartTun P base peerID routes exitIP c = (case resolvePeerID peerID c of Inl e \<Rightarrow> (c, TunReturns (Some e))
     | Inr fullID \<Rightarrow> (case mget (c_tunDevices c) fullID of
         Some dev \<Rightarrow> if td_role dev = ''responder'' then (c, TunReturns (Some ''peer already has an active incoming VPN session''))
           else (let (c1, e) = addRoutesToExistingTun P dev fullID routes c in (c1, TunReturns e))
       | None \<Rightarrow>
          (let vpnIndex = nextVPNIndex c; myIP = allocVirtualIP base vpnIndex; subnet = vpn_subnet vpnIndex;
               ch = length (c_ackChans c);
               c1 = c\<lparr>c_ackChans := c_ackChans c @ [[]], c_tunAckChs := mput fullID ch (c_tunAckChs c)\<rparr>;
               (c2, ok) = sendRelay P fullID ''tun_setup'' (tunSetup myIP subnet routes exitIP) c1
           in (c2, if ok then TunWaits fullID myIP subnet ch else TunReturns (Some ''send tun_setup'')))))"

text \<open>\<^verbatim>\<open>handleTunAck\<close>: the channel has room for one answer.\<close>

definition handleTunAck :: "string \<Rightarrow> json option \<Rightarrow> cli \<Rightarrow> cli" where
  "handleTunAck from' payload c = (case payload of None \<Rightarrow> c
     | Some v \<Rightarrow>
        (let (kvs, ok0) = obj_members v; (ip, ok1) = get_str ''virtual_ip'' kvs in
         if \<not> (ok0 \<and> ok1) then c
         else case mget (c_tunAckChs c) from' of None \<Rightarrow> c
              | Some ch \<Rightarrow> if ch < length (c_ackChans c) \<and> c_ackChans c ! ch = []
                  then c\<lparr>c_ackChans := (c_ackChans c)[ch := [ip]]\<rparr> else c))"

text \<open>What follows the wait when the channel had the answer \<open>peerIP\<close>.\<close>

definition StartTun_acked :: "nat \<Rightarrow> (string \<times> bool) option \<Rightarrow> string \<Rightarrow> string \<Rightarrow> string \<Rightarrow> string list \<Rightarrow> string \<Rightarrow> cli \<Rightarrow> cli \<times> string option" where
  "StartTun_acked uid ifc fullID myIP subnet routes peerIP c = (case createTunDevice uid ifc myIP peerIP subnet fullID of
       Inl e \<Rightarrow> (c, Some e)
     | Inr dev \<Rightarrow>
        (let dev1 = dev\<lparr>td_routes := routes, td_serverHost := c_serverHost c, td_peerName := peerName c fullID, td_role := ''initiator''\<rparr>;
             c1 = os ((if c_serverHost c \<noteq> [] then [ProtectServer (c_serverHost c)] else []) @ map (\<lambda>r. AddRoute (td_ifName dev) r peerIP) routes) c
         in (ReportFeatures (c1\<lparr>c_tunDevices := mput fullID dev1 (c_tunDevices c1)\<rparr>), None)))"

definition StartTun_finish :: "nat \<Rightarrow> (string \<times> bool) option \<Rightarrow> string \<Rightarrow> string \<Rightarrow> string \<Rightarrow> nat \<Rightarrow> string list \<Rightarrow> cli \<Rightarrow> (cli \<times> string option) option" where
  "StartTun_finish uid ifc fullID myIP subnet ch routes c = (case c_ackChans c ! ch of [] \<Rightarrow> None
     | peerIP # rest \<Rightarrow> Some (StartTun_acked uid ifc fullID myIP subnet routes peerIP (c\<lparr>c_ackChans := (c_ackChans c)[ch := rest]\<rparr>)))"

section \<open>Starting: the responder\<close>

text \<open>The second address when both sides derived the same one.\<close>

definition next_octet :: "nat \<Rightarrow> nat" where
  "next_octet o3 = (if o3 + 1 > 253 then 2 else o3 + 1)"

definition responder_ip :: "string \<Rightarrow> nat \<Rightarrow> string \<Rightarrow> string" where
  "responder_ip base vpnIndex peerIP =
     (let myIP = allocVirtualIP base vpnIndex in
      if myIP = peerIP then (case parse_ipv4 myIP of None \<Rightarrow> myIP
        | Some ip \<Rightarrow> ''10.7.'' @ show_nat vpnIndex @ ''.'' @ show_nat (next_octet (ip_octet 3 ip)))
      else myIP)"

text \<open>The removal of a dead session that is replaced.\<close>

definition replace_dead :: "string \<Rightarrow> tunDevice \<Rightarrow> cli \<Rightarrow> cli" where
  "replace_dead from' old c = os (map (RemoveRoute (td_ifName old)) (td_routes old) @
     [CleanupSNAT (td_ifName old) (td_snatIP old), DisableNAT (td_ifName old), RemoveTun (td_ifName old), RemoveServerRoute (td_serverHost old)])
     (c\<lparr>c_tunDevices := mdel from' (c_tunDevices c)\<rparr>)"

definition accept_tun :: "prims \<Rightarrow> string \<Rightarrow> nat \<Rightarrow> (string \<times> bool) option \<Rightarrow> string \<Rightarrow> string \<Rightarrow> string \<Rightarrow> string list \<Rightarrow> cli \<Rightarrow> cli" where
  "accept_tun P base uid ifc from' peerIP subnet routes c =
     (let vpnIndex = nextVPNIndex c; myIP = responder_ip base vpnIndex peerIP;
          subnet' = (if subnet = [] then vpn_subnet vpnIndex else subnet)
      in case createTunDevice uid ifc myIP peerIP subnet' from' of Inl e \<Rightarrow> c
         | Inr dev \<Rightarrow>
            (let dev1 = dev\<lparr>td_routes := routes, td_peerName := peerName c from', td_role := ''responder''\<rparr> in
             fst (sendRelay P from' ''tun_ack'' (tunAck myIP) (c\<lparr>c_tunDevices := mput from' dev1 (c_tunDevices c)\<rparr>))))"

text \<open>\<^verbatim>\<open>handleTunSetup\<close> up to the start of the goroutine.\<close>

definition handleTunSetup :: "prims \<Rightarrow> string \<Rightarrow> nat \<Rightarrow> (string \<times> bool) option \<Rightarrow> string \<Rightarrow> json option \<Rightarrow> cli \<Rightarrow> cli" where
  "handleTunSetup P base uid ifc from' payload c =
     (if \<not> c_allowVPN c then fst (sendRelay P from' ''tun_teardown'' (JObj []) c)
      else case payload of None \<Rightarrow> c
      | Some v \<Rightarrow>
         (let (kvs, ok0) = obj_members v; (vip, ok1) = get_str ''virtual_ip'' kvs; (peerIP, ok2) = get_str ''peer_ip'' kvs;
              (subnet, ok3) = get_str ''subnet'' kvs; (rs, ok4) = get_strs ''routes'' kvs; (exitIP, ok5) = get_str ''exit_ip'' kvs;
              routes = (case rs of None \<Rightarrow> [] | Some rs \<Rightarrow> rs)
          in if \<not> (ok0 \<and> ok1 \<and> ok2 \<and> ok3 \<and> ok4 \<and> ok5) then c
             else case mget (c_tunDevices c) from' of
               Some old \<Rightarrow>
                 if td_role old = ''initiator'' then c
                 else if \<not> td_done old then fst (sendRelay P from' ''tun_ack'' (tunAck (ip_str (td_virtualIP old))) c)
                 else accept_tun P base uid ifc from' peerIP subnet routes (replace_dead from' old c)
             | None \<Rightarrow> accept_tun P base uid ifc from' peerIP subnet routes c))"

text \<open>The goroutine for the device \<open>uid\<close>: \<open>detected\<close> is what \<^verbatim>\<open>detectExitIP\<close> finds, \<open>icmpOk\<close> whether the raw socket of the proxy could
  be opened, \<open>nsOk\<close> whether the userspace stack could be created.\<close>

definition background_dev :: "string \<Rightarrow> u32 option \<Rightarrow> bool \<Rightarrow> bool \<Rightarrow> string list \<Rightarrow> string \<Rightarrow> tunDevice \<Rightarrow> tunDevice" where
  "background_dev host detected icmpOk nsOk routes exitIP dev =
     (let dev0 = (if host \<noteq> [] then dev\<lparr>td_serverHost := host\<rparr> else dev) in
      if routes = [] then dev0
      else
        (let ex = (case (if exitIP \<noteq> [] then parse_ipv4 exitIP else td_exitIP dev0) of None \<Rightarrow> detected | e \<Rightarrow> e);
             snat = (if ex \<noteq> None then pickSNATIP (hd routes) ex else td_snatIP dev0)
         in dev0\<lparr>td_routeNets := td_routeNets dev0 @ List.map_filter parse_cidr routes, td_exitIP := ex, td_snatIP := snat,
              td_proxy := Some icmpOk, td_nsProxy := (if nsOk then Some [] else td_nsProxy dev0)\<rparr>))"

definition background_os :: "string \<Rightarrow> tunDevice \<Rightarrow> string list \<Rightarrow> oscmd list" where
  "background_os host dev routes =
     (if host \<noteq> [] then [ProtectServer host] else []) @
     (if routes = [] then [] else [EnableForwarding, EnableNAT (td_ifName dev)] @
        (case td_snatIP dev of None \<Rightarrow> [] | Some ip \<Rightarrow> if td_exitIP dev = None then [] else [SetupSNAT (td_ifName dev) ip]))"

definition setup_background :: "u32 option \<Rightarrow> bool \<Rightarrow> bool \<Rightarrow> string list \<Rightarrow> string \<Rightarrow> tunDevice \<Rightarrow> cli \<Rightarrow> cli" where
  "setup_background detected icmpOk nsOk routes exitIP dev c =
     (let dev' = background_dev (c_serverHost c) detected icmpOk nsOk routes exitIP dev;
          c1 = c\<lparr>c_tunDevices := map (\<lambda>(p, d). if td_uid d = td_uid dev then (p, background_dev (c_serverHost c) detected icmpOk nsOk routes exitIP d) else (p, d)) (c_tunDevices c)\<rparr>
      in ReportFeatures (os (background_os (c_serverHost c) dev' routes) c1))"

section \<open>Address translation\<close>

text \<open>The tests at the head of \<^verbatim>\<open>applySNAT\<close>, \<^verbatim>\<open>applyReverseSNAT\<close> and \<^verbatim>\<open>handlePacket\<close>.\<close>

definition ip4_packet :: "bytes \<Rightarrow> bool" where
  "ip4_packet pkt \<longleftrightarrow> 20 \<le> length pkt \<and> drop_bit 4 (pkt ! 0) = 4 \<and> 20 \<le> hdr_len pkt \<and> hdr_len pkt \<le> length pkt"

definition ip_at :: "nat \<Rightarrow> bytes \<Rightarrow> u32" where
  "ip_at i pkt = be32 (pkt ! i) (pkt ! (i + 1)) (pkt ! (i + 2)) (pkt ! (i + 3))"

abbreviation srcIP :: "bytes \<Rightarrow> u32" where "srcIP \<equiv> ip_at 12"

abbreviation dstIP :: "bytes \<Rightarrow> u32" where "dstIP \<equiv> ip_at 16"

text \<open>\<^verbatim>\<open>copy(pkt[i:i+4], ip)\<close>.\<close>

definition put_ip :: "nat \<Rightarrow> u32 \<Rightarrow> bytes \<Rightarrow> bytes" where
  "put_ip i ip pkt = take i pkt @ bytes32 ip @ drop (i + 4) pkt"

definition in_route :: "tunDevice \<Rightarrow> bytes \<Rightarrow> bool" where
  "in_route dev pkt = list_ex (\<lambda>rn. net_contains rn (dstIP pkt)) (td_routeNets dev)"

definition port_at :: "nat \<Rightarrow> bytes \<Rightarrow> u16" where
  "port_at i pkt = be16 (pkt ! i) (pkt ! Suc i)"

definition port_key :: "byte \<Rightarrow> u32 \<Rightarrow> u16 \<Rightarrow> u16 \<Rightarrow> string" where
  "port_key proto ip p q = show_nat (unat proto) @ '':'' @ ipv4_str ip @ '':'' @ show_nat (unat p) @ '':'' @ show_nat (unat q)"

definition icmp_key :: "u32 \<Rightarrow> u16 \<Rightarrow> string" where
  "icmp_key ip i = ''icmp:'' @ ipv4_str ip @ '':'' @ show_nat (unat i)"

text \<open>The key of a packet that leaves and of a packet that returns; empty if there is none.\<close>

definition out_key :: "bytes \<Rightarrow> string" where
  "out_key pkt =
     (let ihl = hdr_len pkt; proto = pkt ! 9 in
      if proto = 6 \<or> proto = 17 then
        (if ihl + 4 \<le> length pkt then port_key proto (dstIP pkt) (port_at (ihl + 2) pkt) (port_at ihl pkt) else [])
      else if proto = 1 \<and> ihl + 6 \<le> length pkt \<and> pkt ! ihl = 8 then icmp_key (dstIP pkt) (port_at (ihl + 4) pkt)
      else [])"

definition in_key :: "bytes \<Rightarrow> string" where
  "in_key pkt =
     (let ihl = hdr_len pkt; proto = pkt ! 9 in
      if proto = 6 \<or> proto = 17 then
        (if ihl + 4 \<le> length pkt then port_key proto (srcIP pkt) (port_at ihl pkt) (port_at (ihl + 2) pkt) else [])
      else if proto = 1 \<and> ihl + 6 \<le> length pkt \<and> pkt ! ihl = 0 then icmp_key (srcIP pkt) (port_at (ihl + 4) pkt)
      else [])"

text \<open>The rewriting of the address at offset \<open>off\<close> with the checksums, common to both directions.\<close>

definition nat_rewrite :: "nat \<Rightarrow> u32 \<Rightarrow> u32 \<Rightarrow> bytes \<Rightarrow> bytes option" where
  "nat_rewrite off old new pkt =
     (let ihl = hdr_len pkt; p1 = (put_ip off new pkt)[10 := 0, 11 := 0] in do {
        p2 \<leftarrow> put16at p1 10 (ipHeaderChecksum (take ihl p1));
        if p2 ! 9 = 6 \<and> ihl + 18 \<le> length p2 then fixTransportChecksum p2 ihl old new True
        else if p2 ! 9 = 17 \<and> ihl + 8 \<le> length p2 then fixTransportChecksum p2 ihl old new False
        else Some p2 })"

definition applySNAT :: "int \<Rightarrow> u32 \<Rightarrow> tunDevice \<Rightarrow> bytes \<Rightarrow> (tunDevice \<times> bytes) option" where
  "applySNAT now snatIP dev pkt =
     (if \<not> ip4_packet pkt \<or> \<not> in_route dev pkt then Some (dev, pkt)
      else do {
        let dev' = (if out_key pkt \<noteq> [] then dev\<lparr>td_natTable := mput (out_key pkt) (srcIP pkt, now) (td_natTable dev)\<rparr> else dev);
        pkt' \<leftarrow> nat_rewrite 12 (srcIP pkt) snatIP pkt;
        Some (dev', pkt') })"

definition applyReverseSNAT :: "int \<Rightarrow> u32 \<Rightarrow> tunDevice \<Rightarrow> bytes \<Rightarrow> (tunDevice \<times> bytes) option" where
  "applyReverseSNAT now snatIP dev pkt =
     (if \<not> ip4_packet pkt \<or> dstIP pkt \<noteq> snatIP \<or> in_key pkt = [] then Some (dev, pkt)
      else case mget (td_natTable dev) (in_key pkt) of None \<Rightarrow> Some (dev, pkt)
      | Some (orig, seen) \<Rightarrow> do {
          pkt' \<leftarrow> nat_rewrite 16 snatIP orig pkt;
          Some (dev\<lparr>td_natTable := mput (in_key pkt) (orig, now) (td_natTable dev)\<rparr>, pkt') })"

text \<open>Times in seconds: entries not used for five minutes go.\<close>

definition cleanupNATTable :: "int \<Rightarrow> tunDevice \<Rightarrow> tunDevice" where
  "cleanupNATTable now dev = dev\<lparr>td_natTable := filter (\<lambda>(k, orig, seen). \<not> seen < now - 300) (td_natTable dev)\<rparr>"

section \<open>Packets from the peer\<close>

text \<open>\<^verbatim>\<open>handlePacket\<close> of the userspace stack: the device if the packet was taken.\<close>

definition ns_handlePacket :: "bytes \<Rightarrow> tunDevice \<Rightarrow> tunDevice option" where
  "ns_handlePacket pkt dev = (case td_nsProxy dev of None \<Rightarrow> None
     | Some ps \<Rightarrow> if length pkt < 20 \<or> drop_bit 4 (pkt ! 0) \<noteq> 4 \<or> \<not> in_route dev pkt then None
         else Some (dev\<lparr>td_nsProxy := Some (ps @ [pkt])\<rparr>))"

text \<open>\<^verbatim>\<open>handleICMP\<close>; \<open>sent\<close> tells whether the request could be built and written to the raw socket.\<close>

definition handleICMP :: "int \<Rightarrow> bool \<Rightarrow> bytes \<Rightarrow> tunDevice \<Rightarrow> (tunDevice \<times> (u32 \<times> u16 \<times> u16 \<times> bytes)) option" where
  "handleICMP now sent pkt dev =
     (let ihl = hdr_len pkt in
      if td_proxy dev \<noteq> Some True \<or> length pkt < ihl + 8 \<or> pkt ! ihl \<noteq> 8 \<or> \<not> sent then None
      else Some (dev\<lparr>td_natTable := mput (icmp_key (dstIP pkt) (port_at (ihl + 4) pkt)) (srcIP pkt, now) (td_natTable dev)\<rparr>,
                 (dstIP pkt, port_at (ihl + 4) pkt, port_at (ihl + 6) pkt, drop (ihl + 8) pkt)))"

definition proxy_handlePacket :: "int \<Rightarrow> bool \<Rightarrow> bytes \<Rightarrow> tunDevice \<Rightarrow> (tunDevice \<times> (u32 \<times> u16 \<times> u16 \<times> bytes)) option" where
  "proxy_handlePacket now sent pkt dev =
     (if td_proxy dev = None \<or> \<not> ip4_packet pkt \<or> \<not> in_route dev pkt \<or> pkt ! 9 \<noteq> 1 then None else handleICMP now sent pkt dev)"

text \<open>The common end of \<^verbatim>\<open>handleTunData\<close> and \<^verbatim>\<open>handleTunDataDirect\<close>: the device and the echo request that was sent, if any;
  \<open>spare\<close> is what follows the packet in its array.\<close>

definition tun_deliver :: "int \<Rightarrow> bool \<Rightarrow> bytes \<Rightarrow> bytes \<Rightarrow> tunDevice \<Rightarrow> (tunDevice \<times> (u32 \<times> u16 \<times> u16 \<times> bytes) option) option" where
  "tun_deliver now sent spare raw0 dev0 = do {
     raw \<leftarrow> clampMSS raw0 spare;
     let dev = dev0\<lparr>td_bytesDown := td_bytesDown dev0 + int (length raw)\<rparr>;
     case ns_handlePacket raw dev of Some dev' \<Rightarrow> Some (dev', None)
     | None \<Rightarrow> (case proxy_handlePacket now sent raw dev of Some (dev', req) \<Rightarrow> Some (dev', Some req)
       | None \<Rightarrow> do {
           (dev', raw') \<leftarrow> (case td_snatIP dev of None \<Rightarrow> Some (dev, raw)
                           | Some snatIP \<Rightarrow> if 20 \<le> length raw then applySNAT now snatIP dev raw else Some (dev, raw));
           Some (dev'\<lparr>td_iface := td_iface dev' @ [raw']\<rparr>, None) }) }"

definition deliver_to :: "int \<Rightarrow> bool \<Rightarrow> bytes \<Rightarrow> string \<Rightarrow> bytes \<Rightarrow> tunDevice \<Rightarrow> cli \<Rightarrow> cli option" where
  "deliver_to now sent spare key raw dev c = do {
     (dev', req) \<leftarrow> tun_deliver now sent spare raw dev;
     Some (c\<lparr>c_tunDevices := mput key dev' (c_tunDevices c), c_icmp := c_icmp c @ (case req of None \<Rightarrow> [] | Some r \<Rightarrow> [r])\<rparr>) }"

definition handleTunData :: "prims \<Rightarrow> int \<Rightarrow> bool \<Rightarrow> bytes \<Rightarrow> string \<Rightarrow> json option \<Rightarrow> cli \<Rightarrow> cli option" where
  "handleTunData P now sent spare from' payload c = (case mget (c_tunDevices c) from' of None \<Rightarrow> Some c
     | Some dev \<Rightarrow> (case payload of None \<Rightarrow> Some c
       | Some v \<Rightarrow>
          (let (kvs, ok0) = obj_members v; (d, ok1) = get_str ''data'' kvs in
           if \<not> (ok0 \<and> ok1) then Some c
           else case b64_dec d of None \<Rightarrow> Some c
                | Some compressed \<Rightarrow> (case Decompress (p_inflate P) compressed of None \<Rightarrow> Some c
                  | Some raw \<Rightarrow> deliver_to now sent spare from' raw dev c))))"

text \<open>Without a peer the first device of the map is taken, whichever that is.\<close>

definition handleTunDataDirect :: "int \<Rightarrow> bool \<Rightarrow> bytes \<Rightarrow> bytes \<Rightarrow> string \<Rightarrow> cli \<Rightarrow> cli option" where
  "handleTunDataDirect now sent spare raw peerID c =
     (let key = (if peerID \<noteq> [] then peerID else case c_tunDevices c of [] \<Rightarrow> [] | (p, d) # ds \<Rightarrow> p) in
      case mget (c_tunDevices c) key of None \<Rightarrow> Some c
      | Some dev \<Rightarrow> deliver_to now sent spare key raw dev c)"

section \<open>Packets to the peer\<close>

definition tunSendUDP :: "string \<Rightarrow> bytes \<Rightarrow> cli \<Rightarrow> cli \<times> bool" where
  "tunSendUDP peerID compressed c = (case mget (c_peerConns c) peerID of None \<Rightarrow> (c, False)
     | Some pc \<Rightarrow> if pc_Mode pc \<noteq> ''direct'' then (c, False)
         else (case pc_UDPAddr pc of None \<Rightarrow> (c, False) | Some a \<Rightarrow> udpSend (str_bytes ''VPN:'' @ compressed) a c))"

text \<open>Sending over UDP or, failing that, through the relay, as in \<^verbatim>\<open>tunReadLoop\<close>, \<^verbatim>\<open>outboundLoop\<close> and \<^verbatim>\<open>sendTunPacket\<close>; the flag
  tells which.\<close>

definition tun_send :: "prims \<Rightarrow> string \<Rightarrow> bytes \<Rightarrow> cli \<Rightarrow> cli \<times> bool" where
  "tun_send P peerID compressed c =
     (let (c1, ok) = tunSendUDP peerID compressed c in
      if ok then (c1, True) else (fst (sendRelay P peerID ''tun_data'' (tunData (b64_enc compressed)) c1), False))"

definition sendTunPacket :: "prims \<Rightarrow> tunDevice \<Rightarrow> bytes \<Rightarrow> cli \<Rightarrow> cli" where
  "sendTunPacket P dev pkt c = fst (tun_send P (td_peerID dev) (Compress (p_deflate P) pkt) c)"

text \<open>One packet of \<^verbatim>\<open>tunReadLoop\<close>, read from the interface of the device under \<open>key\<close>; \<open>spare\<close> is the rest of the buffer.\<close>

definition tun_read :: "prims \<Rightarrow> int \<Rightarrow> bytes \<Rightarrow> bytes \<Rightarrow> string \<Rightarrow> cli \<Rightarrow> cli option" where
  "tun_read P now spare pkt key c = (case mget (c_tunDevices c) key of None \<Rightarrow> Some c
     | Some dev \<Rightarrow>
        if td_done dev \<or> c_done c \<or> pkt = [] then Some c
        else do {
          p1 \<leftarrow> clampMSS pkt spare;
          (dev1, p2) \<leftarrow> (case td_snatIP dev of None \<Rightarrow> Some (dev, p1)
                        | Some snatIP \<Rightarrow> if 20 \<le> length p1 then applyReverseSNAT now snatIP dev p1 else Some (dev, p1));
          let dev2 = dev1\<lparr>td_bytesUp := td_bytesUp dev1 + int (length p2)\<rparr>;
          compressed \<leftarrow> tunCompress (p_deflate P) p2;
          let (c1, direct) = tun_send P (td_peerID dev) compressed c;
          Some (c1\<lparr>c_tunDevices := mput key (dev2\<lparr>td_directMode := (if direct then 1 else 2)\<rparr>) (c_tunDevices c1)\<rparr>) })"

text \<open>A failed read: the new number of consecutive errors, or \<open>None\<close> when the loop ends.\<close>

definition tun_read_error :: "bool \<Rightarrow> bool \<Rightarrow> nat \<Rightarrow> nat option" where
  "tun_read_error over closedErr errCount = (if over \<or> closedErr \<or> errCount + 1 \<ge> 10 then None else Some (errCount + 1))"

text \<open>A packet that the userspace stack sends, and an echo reply that arrives at the raw socket (from \<open>src\<close>, with
  identifier, sequence number and data).\<close>

definition ns_outbound :: "prims \<Rightarrow> bytes \<Rightarrow> string \<Rightarrow> cli \<Rightarrow> cli option" where
  "ns_outbound P buf key c = (case mget (c_tunDevices c) key of None \<Rightarrow> Some c
     | Some dev \<Rightarrow> do {
         compressed \<leftarrow> tunCompress (p_deflate P) buf;
         let c1 = c\<lparr>c_tunDevices := mput key (dev\<lparr>td_bytesUp := td_bytesUp dev + int (length buf)\<rparr>) (c_tunDevices c)\<rparr>;
         Some (fst (tun_send P (td_peerID dev) compressed c1)) })"

definition icmp_reply :: "prims \<Rightarrow> u32 \<Rightarrow> u16 \<Rightarrow> u16 \<Rightarrow> bytes \<Rightarrow> string \<Rightarrow> cli \<Rightarrow> cli" where
  "icmp_reply P src i seq data key c = (case mget (c_tunDevices c) key of None \<Rightarrow> c
     | Some dev \<Rightarrow> (case mget (td_natTable dev) (icmp_key src i) of None \<Rightarrow> c
       | Some (orig, seen) \<Rightarrow> (case buildICMPReplyPacket (bytes32 src) (bytes32 orig) i seq data of None \<Rightarrow> c
         | Some replyPkt \<Rightarrow>
            (let c1 = c\<lparr>c_tunDevices := mput key (dev\<lparr>td_bytesUp := td_bytesUp dev + int (length replyPkt)\<rparr>) (c_tunDevices c)\<rparr> in
             sendTunPacket P dev replyPkt c1))))"

section \<open>Snapshots\<close>

record tunInfo =
  ti_VirtualIP :: string
  ti_PeerIP :: string
  ti_Subnet :: string
  ti_Routes :: "string list"
  ti_ExitIP :: string
  ti_SNATIP :: string
  ti_PeerID :: string
  ti_PeerName :: string
  ti_Role :: string
  ti_BytesUp :: int
  ti_BytesDown :: int
  ti_RateUp :: int
  ti_RateDown :: int

definition tun_info :: "tunDevice \<Rightarrow> tunInfo" where
  "tun_info dev = \<lparr>ti_VirtualIP = ip_str (td_virtualIP dev), ti_PeerIP = ip_str (td_peerIP dev),
     ti_Subnet = (if td_subnet dev = None then [] else net_str (td_subnet dev)), ti_Routes = td_routes dev,
     ti_ExitIP = (if td_exitIP dev = None then [] else ip_str (td_exitIP dev)),
     ti_SNATIP = (if td_snatIP dev = None then [] else ip_str (td_snatIP dev)),
     ti_PeerID = td_peerID dev, ti_PeerName = td_peerName dev, ti_Role = td_role dev, ti_BytesUp = td_bytesUp dev, ti_BytesDown = td_bytesDown dev,
     ti_RateUp = td_bytesUp dev - td_lastUp dev, ti_RateDown = td_bytesDown dev - td_lastDown dev\<rparr>"

definition TunStatusAll :: "cli \<Rightarrow> cli \<times> tunInfo list" where
  "TunStatusAll c = (c\<lparr>c_tunDevices := map (\<lambda>(p, d). (p, d\<lparr>td_lastUp := td_bytesUp d, td_lastDown := td_bytesDown d\<rparr>)) (c_tunDevices c)\<rparr>,
     map (tun_info \<circ> snd) (c_tunDevices c))"

text \<open>\<^verbatim>\<open>TunStatus\<close>: \<open>None\<close> is the empty structure.\<close>

definition TunStatus :: "cli \<Rightarrow> cli \<times> tunInfo option" where
  "TunStatus c = (let (c', infos) = TunStatusAll c in (c', case infos of [] \<Rightarrow> None | i # is \<Rightarrow> Some i))"

section \<open>What stopping leaves alone\<close>

lemma ReportFeatures_other:
  assumes "\<And>c w. f (c\<lparr>c_ws := w\<rparr>) = f c"
  shows "f (ReportFeatures c) = f c"
  by (simp add: ReportFeatures_def sendMsg_def assms split: option.splits)

lemma stopTunDevice_other:
  assumes "\<And>c w p. f (c\<lparr>c_ws := w, c_peerConns := p\<rparr>) = f c" "\<And>c w. f (c\<lparr>c_ws := w\<rparr>) = f c" "\<And>c u. f (c\<lparr>c_os := u\<rparr>) = f c"
  shows "f (stopTunDevice P dev c) = f c"
proof -
  have "f (fst (sendRelay P i ty v c)) = f c" for i ty v by (rule sendRelay_other, rule assms(1))
  moreover have "f (ReportFeatures c') = f c'" for c' by (rule ReportFeatures_other, rule assms(2))
  ultimately show ?thesis by (simp add: stopTunDevice_def os_def Let_def assms(3))
qed

lemma tunCleanup_other:
  assumes "\<And>c w p. f (c\<lparr>c_ws := w, c_peerConns := p\<rparr>) = f c" "\<And>c w. f (c\<lparr>c_ws := w\<rparr>) = f c" "\<And>c u. f (c\<lparr>c_os := u\<rparr>) = f c"
    and "\<And>c d. f (c\<lparr>c_tunDevices := d\<rparr>) = f c"
  shows "f (tunCleanup P c) = f c"
proof -
  have "f (fold (\<lambda>(p, dev). stopTunDevice P dev) ds c) = f c" for ds :: "(string \<times> tunDevice) list" and c
    by (induction ds arbitrary: c) (auto simp: stopTunDevice_other [where f = f, OF assms(1-3)])
  then show ?thesis by (simp add: tunCleanup_def assms(4))
qed

end
