(* ===== verification/Vpn_Props.thy ===== *)
theory Vpn_Props
  imports Vpn
begin

text \<open>
  Properties of the VPN: translation of addresses and its inverse, the way of a packet from one client to
  the other, allocation of virtual addresses, and the set-up of a session.
\<close>

section \<open>Rewriting a packet\<close>

lemma hdr_len_bound: "hdr_len pkt \<le> 60" "even (hdr_len pkt)"
proof -
  have "unat (pkt ! 0 AND 0x0f) \<le> unat (0x0f :: byte)" by (intro word_le_nat_alt [THEN iffD1] word_and_le1)
  then show "hdr_len pkt \<le> 60" "even (hdr_len pkt)" by (auto simp: hdr_len_def)
qed

text \<open>The positions of the transport checksum.\<close>

definition transport_ck :: "bytes \<Rightarrow> nat set" where
  "transport_ck pkt = (if pkt ! 9 = 6 then {hdr_len pkt + 16, hdr_len pkt + 17} else if pkt ! 9 = 17 then {hdr_len pkt + 6, hdr_len pkt + 7} else {})"

lemma fixTransportChecksum_frame:
  assumes "ihl + (if isTCP then 18 else 8) \<le> length pkt"
  shows "\<exists>p'. fixTransportChecksum pkt ihl old new isTCP = Some p' \<and> length p' = length pkt
    \<and> (\<forall>k. k \<notin> (if isTCP then {ihl + 16, ihl + 17} else {ihl + 6, ihl + 7}) \<longrightarrow> p' ! k = pkt ! k)"
  using assms by (auto simp: fixTransportChecksum_def put16at_def Let_def nth_list_update split: if_splits)

lemma length_put_ip [simp]: "off + 4 \<le> length pkt \<Longrightarrow> length (put_ip off ip pkt) = length pkt"
  by (simp add: put_ip_def)

lemma nth_put_ip:
  "off + 4 \<le> length pkt \<Longrightarrow> k < length pkt \<Longrightarrow> put_ip off ip pkt ! k = (if off \<le> k \<and> k < off + 4 then bytes32 ip ! (k - off) else pkt ! k)"
  by (auto simp: put_ip_def nth_append)

lemma ip_at_bytes: "(\<And>j. j < 4 \<Longrightarrow> p ! (i + j) = bytes32 ip ! j) \<Longrightarrow> ip_at i p = ip"
proof -
  assume a: "\<And>j. j < 4 \<Longrightarrow> p ! (i + j) = bytes32 ip ! j"
  show ?thesis using a [of 0] a [of 1] a [of 2] a [of 3] by (simp add: ip_at_def bytes32_def)
qed

lemma ip_at_cong: "(\<And>j. j < 4 \<Longrightarrow> p ! (i + j) = q ! (i + j)) \<Longrightarrow> ip_at i p = ip_at i q"
proof -
  assume a: "\<And>j. j < 4 \<Longrightarrow> p ! (i + j) = q ! (i + j)"
  show ?thesis using a [of 0] a [of 1] a [of 2] a [of 3] by (simp add: ip_at_def)
qed

text \<open>The header after the rewriting of an address passes the checksum test; besides the address only the
  checksums differ.\<close>

lemma nat_rewrite_spec:
  assumes ip4: "ip4_packet pkt" and off: "off = 12 \<or> off = 16"
  shows "\<exists>p'. nat_rewrite off old new pkt = Some p' \<and> length p' = length pkt \<and> ip_at off p' = new \<and> sum_ok (take (hdr_len pkt) p')
    \<and> (\<forall>k < length pkt. k \<notin> {10, 11} \<longrightarrow> \<not> (off \<le> k \<and> k < off + 4) \<longrightarrow> k \<notin> transport_ck pkt \<longrightarrow> p' ! k = pkt ! k)"
proof -
  define ihl where "ihl = hdr_len pkt"
  define p1 where "p1 = (put_ip off new pkt)[10 := 0, 11 := 0]"
  define ck where "ck = ipHeaderChecksum (take ihl p1)"
  define p2 where "p2 = p1[10 := ucast (drop_bit 8 ck), 11 := ucast ck]"
  have l: "20 \<le> ihl" "ihl \<le> length pkt" "ihl \<le> 60" using ip4 hdr_len_bound [of pkt] by (auto simp: ip4_packet_def ihl_def)
  have len1: "length p1 = length pkt" using l off by (auto simp: p1_def)
  then have len2: "length p2 = length pkt" by (simp add: p2_def)
  have put: "put16at p1 10 ck = Some p2" using l len1 by (simp add: put16at_def p2_def)
  have n2: "k < length pkt \<Longrightarrow> k \<notin> {10, 11} \<Longrightarrow> p2 ! k = (if off \<le> k \<and> k < off + 4 then bytes32 new ! (k - off) else pkt ! k)" for k
    using l off by (auto simp: p2_def p1_def nth_put_ip)
  have "p2 ! 9 = pkt ! 9" using n2 [of 9] l off by auto
  have ip2: "ip_at off p2 = new" using n2 l off by (intro ip_at_bytes) auto
  have "sum_ok (take ihl p2)"
  proof -
    let ?h = "take ihl p1"
    have h: "?h = take 10 ?h @ bytes16 0 @ drop 12 ?h"
    proof -
      have "?h ! 10 = 0" "?h ! 11 = 0" "12 \<le> length ?h" using l len1 by (auto simp: p1_def)
      then show ?thesis using list_split2 [of 10 ?h] by (simp add: bytes16_def)
    qed
    have "take ihl p2 = take 10 ?h @ bytes16 (csum16 (take 10 ?h @ bytes16 0 @ drop 12 ?h)) @ drop 12 ?h"
    proof -
      have "take ihl p2 = ?h[10 := ucast (drop_bit 8 ck), 11 := ucast ck]" using l by (simp add: p2_def take_update_swap)
      also have "\<dots> = the (put16at ?h 10 ck)" using l len1 by (simp add: put16at_def)
      also have "\<dots> = take 10 ?h @ bytes16 ck @ drop 12 ?h" using l len1 by (subst put16at_split) simp_all
      finally show ?thesis unfolding ck_def ipHeaderChecksum_def h [symmetric] .
    qed
    moreover have "sum_ok (take 10 ?h @ bytes16 (csum16 (take 10 ?h @ bytes16 0 @ drop 12 ?h)) @ drop 12 ?h)"
      using l len1 by (intro csum16_fills) simp_all
    ultimately show ?thesis by simp
  qed
  moreover have "\<exists>p'. nat_rewrite off old new pkt = Some p' \<and> length p' = length p2 \<and> (\<forall>k. k \<notin> transport_ck pkt \<longrightarrow> p' ! k = p2 ! k)"
    using fixTransportChecksum_frame [of ihl True p2 old new] fixTransportChecksum_frame [of ihl False p2 old new] \<open>p2 ! 9 = pkt ! 9\<close>
    unfolding nat_rewrite_def Let_def ihl_def [symmetric] p1_def [symmetric] ck_def [symmetric] put transport_ck_def
    by (auto split: if_splits)
  moreover have "transport_ck pkt \<inter> {..<20} = {}" "transport_ck pkt \<inter> {..<ihl} = {}" using l by (auto simp: transport_ck_def ihl_def)
  ultimately obtain p' where p': "nat_rewrite off old new pkt = Some p'" "length p' = length p2" "\<And>k. k \<notin> transport_ck pkt \<Longrightarrow> p' ! k = p2 ! k"
    by blast
  have "ip_at off p' = new"
    unfolding ip2 [symmetric] using off p'(3) l \<open>transport_ck pkt \<inter> {..<20} = {}\<close> by (intro ip_at_cong p'(3)) auto
  moreover have "take ihl p' = take ihl p2"
    using p'(2,3) \<open>transport_ck pkt \<inter> {..<ihl} = {}\<close> by (intro nth_equalityI) auto
  ultimately show ?thesis using p' len2 n2 \<open>sum_ok (take ihl p2)\<close> unfolding ihl_def by (intro exI [of _ p']) auto
qed

section \<open>Keys of connections\<close>

lemma colon_not_in_show: "CHR '':'' \<notin> set (show_nat n)"
  using show_nat_digits is_digit_not_sign by blast

lemma join_with_set: "set (join_with d ss) \<subseteq> set d \<union> \<Union> (set ` set ss)"
  by (induction d ss rule: join_with.induct) auto

lemma colon_not_in_ip: "CHR '':'' \<notin> set (ipv4_str ip)"
proof
  assume "CHR '':'' \<in> set (ipv4_str ip)"
  then show False using join_with_set [of "''.''" "map (\<lambda>b. show_nat (unat b)) (bytes32 ip)"] colon_not_in_show
    unfolding ipv4_str_def by auto
qed

lemma split_port_key: "split_on (CHR '':'') (port_key proto ip p q) = [show_nat (unat proto), ipv4_str ip, show_nat (unat p), show_nat (unat q)]"
  by (simp add: port_key_def split_on_append split_on_clean colon_not_in_show colon_not_in_ip)

lemma split_icmp_key: "split_on (CHR '':'') (icmp_key ip i) = [''icmp'', ipv4_str ip, show_nat (unat i)]"
  by (simp add: icmp_key_def split_on_append [of _ "''icmp''", simplified] split_on_append split_on_clean colon_not_in_show colon_not_in_ip)

lemma ipv4_str_inject [simp]: "ipv4_str a = ipv4_str b \<longleftrightarrow> a = b"
  by (metis parse_ipv4_str option.inject)

lemma port_key_inject [simp]: "port_key proto ip p q = port_key proto' ip' p' q' \<longleftrightarrow> proto = proto' \<and> ip = ip' \<and> p = p' \<and> q = q'"
  by (metis split_port_key list.inject show_nat_inject ipv4_str_inject word_unat_eq_iff)

lemma port_key_not_icmp [simp]: "port_key proto ip p q \<noteq> icmp_key ip' i"
  using split_port_key [of proto ip p q] split_icmp_key [of ip' i] by (metis list.distinct(1) list.inject)

lemma keys_nonempty [simp]: "port_key proto ip p q \<noteq> []" "icmp_key ip i \<noteq> []"
  by (simp_all add: port_key_def icmp_key_def)

lemmas keys_distinct [simp] = keys_nonempty [symmetric] port_key_not_icmp [symmetric]

text \<open>The packets that are translated back: those of TCP and UDP with their ports, and the echo packets of ICMP (type 8 for a request, 0 for
  the reply). Their connection as seen from the side that opened it: protocol, remote address and ports, or the identifier of the
  echo.\<close>

definition port_packet :: "bytes \<Rightarrow> bool" where
  "port_packet p \<longleftrightarrow> ip4_packet p \<and> (p ! 9 = 6 \<or> p ! 9 = 17) \<and> hdr_len p + 4 \<le> length p"

definition echo_packet :: "byte \<Rightarrow> bytes \<Rightarrow> bool" where
  "echo_packet ty p \<longleftrightarrow> ip4_packet p \<and> p ! 9 = 1 \<and> hdr_len p + 6 \<le> length p \<and> p ! hdr_len p = ty"

definition flow :: "bytes \<Rightarrow> byte \<times> u32 \<times> u16 \<times> u16" where
  "flow p = (if p ! 9 = 1 then (1, dstIP p, port_at (hdr_len p + 4) p, 0)
     else (p ! 9, dstIP p, port_at (hdr_len p + 2) p, port_at (hdr_len p) p))"

definition reply_flow :: "bytes \<Rightarrow> byte \<times> u32 \<times> u16 \<times> u16" where
  "reply_flow p = (if p ! 9 = 1 then (1, srcIP p, port_at (hdr_len p + 4) p, 0)
     else (p ! 9, srcIP p, port_at (hdr_len p) p, port_at (hdr_len p + 2) p))"

abbreviation request_packet :: "bytes \<Rightarrow> bool" where "request_packet p \<equiv> port_packet p \<or> echo_packet 8 p"

abbreviation reply_packet :: "bytes \<Rightarrow> bool" where "reply_packet p \<equiv> port_packet p \<or> echo_packet 0 p"

definition flow_key :: "byte \<times> u32 \<times> u16 \<times> u16 \<Rightarrow> string" where
  "flow_key = (\<lambda>(a, b, c, d). if a = 1 then icmp_key b c else port_key a b c d)"

lemma icmp_key_inject [simp]: "icmp_key ip i = icmp_key ip' i' \<longleftrightarrow> ip = ip' \<and> i = i'"
  by (metis split_icmp_key list.inject show_nat_inject ipv4_str_inject word_unat_eq_iff)

lemma flow_key_nonempty [simp]: "flow_key f \<noteq> []"
  by (simp add: flow_key_def split: prod.split)





section \<open>Translation and back\<close>





lemma in_route_table [simp]: "in_route (d\<lparr>td_natTable := m\<rparr>) = in_route d"
  by (simp add: in_route_def fun_eq_iff)







text \<open>Packets of every other protocol, and ICMP packets other than echo requests, leave translated as well, but no entry is made for them
  and no packet of these kinds is translated back.\<close>

lemma snat_without_entry:
  assumes "ip4_packet p" "in_route dev p" "\<not> request_packet p"
  shows "\<exists>p'. applySNAT t snatIP dev p = Some (dev, p') \<and> srcIP p' = snatIP"
proof -
  have "out_key p = []" using assms(1,3) by (auto simp: out_key_def port_packet_def echo_packet_def Let_def)
  then show ?thesis using assms nat_rewrite_spec [of p 12 "srcIP p" snatIP] by (auto simp: applySNAT_def)
qed

lemma reverse_snat_without_entry: "ip4_packet r \<Longrightarrow> \<not> reply_packet r \<Longrightarrow> applyReverseSNAT t snatIP dev r = Some (dev, r)"
  by (auto simp: applyReverseSNAT_def in_key_def port_packet_def echo_packet_def Let_def)


definition echo_demo :: "u32 \<Rightarrow> u32 \<Rightarrow> byte \<Rightarrow> u16 \<Rightarrow> bytes" where
  "echo_demo src dst ty i = [0x45, 0, 0, 28, 0, 0, 0, 0, 64, 1, 0, 0] @ bytes32 src @ bytes32 dst @ [ty, 0, 0, 0] @ bytes16 i @ [0, 1]"

definition exit_device :: tunDevice where
  "exit_device = \<lparr>td_uid = 1, td_ifName = ''tun0'', td_virtualIP = Some 0x0A070007, td_peerIP = Some 0x0A070005, td_subnet = None,
     td_routes = [''192.168.1.0/24''], td_exitIP = Some 0xC0A80102, td_snatIP = Some 0xC0A801FE, td_routeNets = [(0xC0A80100, 0xFFFFFF00)],
     td_natTable = [], td_proxy = Some True, td_nsProxy = None, td_serverHost = [], td_peerID = ''a'', td_peerName = ''a'', td_role = ''responder'',
     td_bytesUp = 0, td_bytesDown = 0, td_lastUp = 0, td_lastDown = 0, td_directMode = 0, td_done = False, td_iface = []\<rparr>"


lemma echo_demo_simps [simp]:
  "echo_packet ty (echo_demo a b ty i)" "srcIP (echo_demo a b ty i) = a" "dstIP (echo_demo a b ty i) = b" "hdr_len (echo_demo a b ty i) = 20"
  "flow (echo_demo a b ty i) = (1, b, i, 0)" "reply_flow (echo_demo a b ty i) = (1, a, i, 0)"
  by (simp_all add: echo_demo_def echo_packet_def ip4_packet_def ip_at_def port_at_def hdr_len_def flow_def reply_flow_def bytes32_def bytes16_def)



section \<open>Virtual addresses\<close>

lemma nextVPNIndex_free:
  assumes "length (c_tunDevices c) < 256"
  shows "nextVPNIndex c < 256 \<and> \<not> used_index c (nextVPNIndex c) \<and> (\<forall>j < nextVPNIndex c. used_index c j)"
proof (cases "find (\<lambda>i. \<not> used_index c i) [0..<256]")
  case None
  then have all: "used_index c i" if "i < 256" for i using that by (auto simp: find_None_iff)
  let ?oct = "\<lambda>(p, d). case td_virtualIP d of None \<Rightarrow> 0 | Some ip \<Rightarrow> ip_octet 2 ip"
  have "{0..<256} \<subseteq> ?oct ` set (c_tunDevices c)"
  proof
    fix i :: nat
    assume "i \<in> {0..<256}"
    then obtain p d ip where "(p, d) \<in> set (c_tunDevices c)" "td_virtualIP d = Some ip" "ip_octet 2 ip = i"
      using all [of i] by (auto simp: used_index_def list_ex_iff split: option.splits)
    then show "i \<in> ?oct ` set (c_tunDevices c)" by (intro image_eqI [of _ _ "(p, d)"]) auto
  qed
  then have "card {0..<256 :: nat} \<le> card (?oct ` set (c_tunDevices c))" by (intro card_mono) auto
  also have "\<dots> \<le> length (c_tunDevices c)" using card_image_le [of "set (c_tunDevices c)" ?oct] card_length [of "c_tunDevices c"] by simp
  finally show ?thesis using assms by simp
next
  case (Some i)
  then have "i < 256" "\<not> used_index c i" "\<forall>j < i. used_index c j" by (auto simp: find_Some_iff)
  then show ?thesis by (simp add: nextVPNIndex_def Some)
qed

lemma split_dots: "d \<notin> set a \<Longrightarrow> d \<notin> set b \<Longrightarrow> d \<notin> set c \<Longrightarrow> d \<notin> set e \<Longrightarrow>
    split_on d (a @ d # b @ d # c @ d # e) = [a, b, c, e]"
  by (simp add: split_on_append split_on_clean)

lemma parse_octet_nat: "n < 256 \<Longrightarrow> parse_octet (show_nat n) = Some (of_nat n)"
  using parse_octet_show [of "of_nat n"] by (simp add: unat_of_nat)

lemma bit_byte_high [simp]: "\<not> bit (b :: byte) (8 + n)" "\<not> bit b (16 + n)" "\<not> bit b (24 + n)"
  using byte_bit_bound [of b "8 + n"] byte_bit_bound [of b "16 + n"] byte_bit_bound [of b "24 + n"] by auto

lemma bytes32_be32 [simp]: "bytes32 (be32 a b c d) = [a, b, c, d]"
proof -
  have "ucast (drop_bit 24 (be32 a b c d)) = a" "ucast (drop_bit 16 (be32 a b c d)) = b" "ucast (drop_bit 8 (be32 a b c d)) = c" "ucast (be32 a b c d) = d"
    unfolding be32_def by (auto intro!: bit_word_eqI simp: bit_simps dest: byte_bit_bound)
  then show ?thesis by (simp add: bytes32_def)
qed

lemma parse_vpn_ip:
  assumes "i < 256" "k < 256"
  shows "parse_ipv4 (''10.7.'' @ show_nat i @ ''.'' @ show_nat k) = Some (be32 10 7 (of_nat i) (of_nat k))"
proof -
  have "split_on (CHR ''.'') (''10'' @ CHR ''.'' # ''7'' @ CHR ''.'' # show_nat i @ CHR ''.'' # show_nat k) = [''10'', ''7'', show_nat i, show_nat k]"
    by (rule split_dots) (simp_all add: dot_not_in_show)
  moreover have "parse_octet ''10'' = Some 10" "parse_octet ''7'' = Some 7" by (simp_all add: parse_octet_def is_digit_def)
  ultimately show ?thesis using assms by (simp add: parse_ipv4_def parse_octet_nat)
qed

lemma ip_octet_be32: "i < 256 \<Longrightarrow> k < 256 \<Longrightarrow> ip_octet 0 (be32 10 7 (of_nat i) (of_nat k)) = 10 \<and> ip_octet 1 (be32 10 7 (of_nat i) (of_nat k)) = 7
    \<and> ip_octet 2 (be32 10 7 (of_nat i) (of_nat k)) = i \<and> ip_octet 3 (be32 10 7 (of_nat i) (of_nat k)) = k"
  by (simp add: ip_octet_def unat_of_nat)

definition derived_octet :: "(bytes \<Rightarrow> bytes) \<Rightarrow> netIface list option \<Rightarrow> nat" where
  "derived_octet sha ifs = (case getPrimaryMAC ifs of None \<Rightarrow> 100 | Some mac \<Rightarrow> virtual_octet sha mac)"

lemma derived_octet_range: "2 \<le> derived_octet sha ifs \<and> derived_octet sha ifs \<le> 253"
proof -
  have "n mod 252 + 2 \<le> 253" for n :: nat using mod_less_divisor [of 252 n] by linarith
  then show ?thesis by (simp add: derived_octet_def virtual_octet_def split: option.splits)
qed

lemma deriveVirtualIP_text: "deriveVirtualIP sha ifs = ''10.7.'' @ show_nat 0 @ ''.'' @ show_nat (derived_octet sha ifs)"
  by (simp add: deriveVirtualIP_def derived_octet_def show_nat.simps [of 0] show_nat.simps [of 100] show_nat.simps [of 10] show_nat.simps [of "Suc 0"]
      char_of_def bit_0 split: option.splits)

lemma allocVirtualIP_text:
  "allocVirtualIP (deriveVirtualIP sha ifs) i = ''10.7.'' @ show_nat i @ ''.'' @ show_nat (derived_octet sha ifs)"
  using derived_octet_range [of sha ifs]
  by (simp add: allocVirtualIP_def deriveVirtualIP_text parse_vpn_ip [of 0, simplified] ip_octet_def unat_of_nat)

lemma mask24: "(0xFFFFFF00 :: u32) = NOT (mask 8)"
  by (simp add: mask_eq_exp_minus_1)

lemma be32_mask24: "be32 a b c d AND NOT (mask 8) = be32 a b c 0"
  by (rule bit_word_eqI) (auto simp: be32_def bit_simps dest: byte_bit_bound)

lemma parse_cidr_24:
  assumes "CHR ''/'' \<notin> set s" "parse_ipv4 s = Some ip"
  shows "parse_cidr (s @ ''/24'') = Some (ip AND 0xFFFFFF00, 0xFFFFFF00)"
proof -
  have "digits_val ''24'' 0 = Some 24" by (simp add: is_digit_def)
  moreover have "index_of (CHR ''/'') (s @ ''/24'') = Some (length s)" using index_of_append [OF assms(1)] by simp
  ultimately show ?thesis using assms(2) by (simp add: parse_cidr_def net_mask_def mask24 del: digits_val.simps)
qed

lemma parse_vpn_subnet: "i < 256 \<Longrightarrow> parse_cidr (vpn_subnet i) = Some (be32 10 7 (of_nat i) 0, 0xFFFFFF00)"
proof -
  assume i: "i < 256"
  let ?ip = "''10.7.'' @ show_nat i @ ''.'' @ show_nat 0"
  have "CHR ''/'' \<notin> set ?ip" using show_nat_digits [of "CHR ''/''"] by (auto simp: is_digit_def)
  moreover have "vpn_subnet i = ?ip @ ''/24''" by (simp add: vpn_subnet_def show_nat.simps [of 0] char_of_def bit_0)
  ultimately show ?thesis using parse_vpn_ip [of i 0] i parse_cidr_24 [of ?ip "be32 10 7 (of_nat i) 0"] be32_mask24 [of 10 7 "of_nat i" 0]
    by (simp add: mask24 del: append.simps)
qed

lemma vpn_subnet_contains: "net_contains (be32 10 7 i 0, 0xFFFFFF00) (be32 10 7 i k)"
  by (simp add: net_contains_def mask24 be32_mask24)

text \<open>Claim C36.
  While a client has fewer than 256 VPNs, the address for a new one is 10.7.i.o with o between 2 and 253, where i is the smallest
  number below 256 that is not the third octet of the own virtual address of any device; it lies in the network 10.7.i.0/24 that is
  announced to the peer. (Only the own addresses are compared, not the networks of the devices.)\<close>

theorem virtual_address_fresh:
  assumes "length (c_tunDevices c) < 256"
  shows "\<exists>ip rn. parse_ipv4 (allocVirtualIP (deriveVirtualIP sha ifs) (nextVPNIndex c)) = Some ip
    \<and> ip_octet 0 ip = 10 \<and> ip_octet 1 ip = 7 \<and> ip_octet 2 ip = nextVPNIndex c \<and> 2 \<le> ip_octet 3 ip \<and> ip_octet 3 ip \<le> 253
    \<and> parse_cidr (vpn_subnet (nextVPNIndex c)) = Some rn \<and> net_contains rn ip
    \<and> (\<forall>p d v. (p, d) \<in> set (c_tunDevices c) \<longrightarrow> td_virtualIP d = Some v \<longrightarrow> ip_octet 2 v \<noteq> ip_octet 2 ip)
    \<and> (\<forall>j < ip_octet 2 ip. \<exists>p d v. (p, d) \<in> set (c_tunDevices c) \<and> td_virtualIP d = Some v \<and> ip_octet 2 v = j)"
proof -
  let ?i = "nextVPNIndex c" and ?o = "derived_octet sha ifs"
  have i: "?i < 256" "\<not> used_index c ?i" "\<forall>j < ?i. used_index c j" using nextVPNIndex_free [OF assms] by auto
  have o: "2 \<le> ?o" "?o \<le> 253" using derived_octet_range [of sha ifs] by auto
  have "\<forall>p d v. (p, d) \<in> set (c_tunDevices c) \<longrightarrow> td_virtualIP d = Some v \<longrightarrow> ip_octet 2 v \<noteq> ?i"
    using i(2) by (auto simp: used_index_def list_ex_iff split: option.splits)
  moreover have "\<forall>j < ?i. \<exists>p d v. (p, d) \<in> set (c_tunDevices c) \<and> td_virtualIP d = Some v \<and> ip_octet 2 v = j"
    using i(3) by (fastforce simp: used_index_def list_ex_iff split: option.splits)
  ultimately show ?thesis
    using parse_vpn_ip [of ?i ?o] parse_vpn_subnet [OF i(1)] vpn_subnet_contains [of "of_nat ?i" "of_nat ?o"] ip_octet_be32 [of ?i ?o] i(1) o
    by (simp only: allocVirtualIP_text) simp
qed

definition vpn_client :: cli where
  "vpn_client = (NewClient ''r'' ''n'' [] [])\<lparr>c_tunDevices := [(''a'', exit_device)]\<rparr>"

theorem virtual_address_fresh_witness:
  "\<exists>ip. parse_ipv4 (allocVirtualIP (deriveVirtualIP id None) (nextVPNIndex vpn_client)) = Some ip \<and> ip_octet 2 ip = 1"
proof -
  have d: "c_tunDevices vpn_client = [(''a'', exit_device)]" "td_virtualIP exit_device = Some 0x0A070007"
    by (simp_all add: vpn_client_def exit_device_def)
  have o: "ip_octet 2 0x0A070007 = 0" by (simp add: ip_octet_def bytes32_def)
  obtain ip where ip: "parse_ipv4 (allocVirtualIP (deriveVirtualIP id None) (nextVPNIndex vpn_client)) = Some ip" "ip_octet 2 ip \<noteq> 0"
      "\<forall>j < ip_octet 2 ip. j = 0"
    using virtual_address_fresh [of vpn_client id None] d o by fastforce
  then have "ip_octet 2 ip = 1" using ip(3) [rule_format, of 1] by linarith
  with ip(1) show ?thesis by blast
qed

section \<open>Delivery\<close>

lemma not_routed_unchanged: "\<not> in_route dev pkt \<Longrightarrow> applySNAT now snatIP dev pkt = Some (dev, pkt)"
  by (simp add: applySNAT_def)

lemma in_route_bytesDown [simp]: "in_route (dev\<lparr>td_bytesDown := n\<rparr>) pkt = in_route dev pkt"
  by (simp add: in_route_def)

text \<open>A packet that is not for a routed network is written to the interface as it is.\<close>

lemma tun_deliver_plain:
  assumes "clampMSS raw spare = Some pkt" "\<not> in_route dev pkt"
  shows "tun_deliver now sent spare raw dev = Some (dev\<lparr>td_bytesDown := td_bytesDown dev + int (length pkt), td_iface := td_iface dev @ [pkt]\<rparr>, None)"
  using assms by (simp add: tun_deliver_def Let_def ns_handlePacket_def proxy_handlePacket_def not_routed_unchanged split: option.splits)

lemma tun_deliver_netstack:
  assumes "clampMSS raw spare = Some pkt" "in_route dev pkt" "td_nsProxy dev = Some ps" "20 \<le> length pkt" "drop_bit 4 (pkt ! 0) = 4"
  shows "tun_deliver now sent spare raw dev = Some (dev\<lparr>td_bytesDown := td_bytesDown dev + int (length pkt), td_nsProxy := Some (ps @ [pkt])\<rparr>, None)"
  using assms by (simp add: tun_deliver_def ns_handlePacket_def)

lemma tun_deliver_not_ip4:
  assumes "clampMSS raw spare = Some pkt" "length pkt < 20 \<or> drop_bit 4 (pkt ! 0) \<noteq> 4"
  shows "tun_deliver now sent spare raw dev = Some (dev\<lparr>td_bytesDown := td_bytesDown dev + int (length pkt), td_iface := td_iface dev @ [pkt]\<rparr>, None)"
proof -
  have "ns_handlePacket pkt d = None" "proxy_handlePacket now sent pkt d = None" "applySNAT now ip d pkt = Some (d, pkt)" for d ip
    using assms(2) by (auto simp: ns_handlePacket_def proxy_handlePacket_def applySNAT_def ip4_packet_def split: option.splits)
  then show ?thesis by (simp add: tun_deliver_def Let_def assms(1) split: option.splits)
qed

text \<open>Once the responder has its userspace stack, that stack takes every IPv4 packet for a routed network,
  whatever its protocol, and every other packet goes to the interface as it came: no packet, ICMP
  included, ever reaches the raw-socket proxy or the address translation, which change nothing any more.\<close>

theorem netstack_takes_all_routed:
  assumes "td_nsProxy dev = Some ps" "clampMSS raw spare = Some pkt"
  shows "tun_deliver now sent spare raw dev =
    Some (if 20 \<le> length pkt \<and> drop_bit 4 (pkt ! 0) = 4 \<and> in_route dev pkt
          then dev\<lparr>td_bytesDown := td_bytesDown dev + int (length pkt), td_nsProxy := Some (ps @ [pkt])\<rparr>
          else dev\<lparr>td_bytesDown := td_bytesDown dev + int (length pkt), td_iface := td_iface dev @ [pkt]\<rparr>, None)"
proof (cases "in_route dev pkt \<and> 20 \<le> length pkt \<and> drop_bit 4 (pkt ! 0) = 4")
  case True
  then show ?thesis using tun_deliver_netstack [OF assms(2) _ assms(1)] by simp
next
  case False
  then show ?thesis using tun_deliver_plain [OF assms(2)] tun_deliver_not_ip4 [OF assms(2)] by (cases "in_route dev pkt") auto
qed

text \<open>An echo request to 192.168.1.9.\<close>

definition ping_packet :: bytes where
  "ping_packet = [0x45, 0, 0, 28, 0, 0, 0, 0, 64, 1, 0, 0, 10, 7, 0, 5, 192, 168, 1, 9, 8, 0, 0, 0, 0, 1, 0, 1]"

theorem netstack_takes_all_routed_witness:
  "\<exists>d. tun_deliver 1 True [] ping_packet (exit_device\<lparr>td_nsProxy := Some []\<rparr>) = Some (d, None) \<and> td_nsProxy d = Some [ping_packet] \<and> td_natTable d = []"
proof -
  have "clampMSS ping_packet [] = Some ping_packet" by (rule clampMSS_other) (simp add: syn_with_options_def ping_packet_def)
  moreover have "20 \<le> length ping_packet \<and> drop_bit 4 (ping_packet ! 0) = 4 \<and> in_route (exit_device\<lparr>td_nsProxy := Some []\<rparr>) ping_packet"
    by (simp add: ping_packet_def in_route_def exit_device_def net_contains_def ip_at_def be32_def)
  ultimately show ?thesis
    using netstack_takes_all_routed [of "exit_device\<lparr>td_nsProxy := Some []\<rparr>" "[]" ping_packet "[]" ping_packet 1 True] by (simp add: exit_device_def)
qed

section \<open>Sessions\<close>

lemma add_routes_fields:
  "add_routes rs dev cmds n = (dev', cmds', m) \<Longrightarrow>
     td_virtualIP dev' = td_virtualIP dev \<and> td_subnet dev' = td_subnet dev \<and> td_role dev' = td_role dev \<and> set rs \<union> set (td_routes dev) \<subseteq> set (td_routes dev')
     \<and> (set rs \<subseteq> set (td_routes dev) \<longrightarrow> m = n) \<and> n \<le> m \<and> (\<not> set rs \<subseteq> set (td_routes dev) \<longrightarrow> n < m)
     \<and> (\<forall>r. r \<in> set rs \<longrightarrow> r \<notin> set (td_routes dev) \<longrightarrow> AddRoute (td_ifName dev) r (ip_str (td_peerIP dev)) \<in> set cmds') \<and> set cmds \<subseteq> set cmds'"
proof (induction rs dev cmds n arbitrary: dev' cmds' m rule: add_routes.induct)
  case (2 r rs dev cmds n)
  show ?case
  proof (cases "r \<in> set (td_routes dev)")
    case True
    then show ?thesis using 2(1) [OF True] 2(3) by auto
  next
    case False
    have e: "add_routes rs (dev\<lparr>td_routes := td_routes dev @ [r],
             td_routeNets := td_routeNets dev @ (case parse_cidr r of None \<Rightarrow> [] | Some n \<Rightarrow> [n])\<rparr>) (cmds @ [AddRoute (td_ifName dev) r (ip_str (td_peerIP dev))]) (n + 1) = (dev', cmds', m)"
      using 2(3) False by simp
    show ?thesis using 2(2) [OF False e] False by auto
  qed
qed auto

lemma get_tunSetup [simp]:
  "obj_members (tunSetup ip net rs ex) = ((''virtual_ip'', JStr []) # (''peer_ip'', JStr ip) # (''subnet'', JStr net) # omit_strs ''routes'' rs @ omit_str ''exit_ip'' ex, True)"
  by (simp add: tunSetup_def)

lemma setup_names [simp]:
  "\<not> equal_fold ''virtual_ip'' ''peer_ip''" "\<not> equal_fold ''virtual_ip'' ''subnet''" "\<not> equal_fold ''virtual_ip'' ''routes''" "\<not> equal_fold ''virtual_ip'' ''exit_ip''"
  "\<not> equal_fold ''peer_ip'' ''virtual_ip''" "\<not> equal_fold ''peer_ip'' ''subnet''" "\<not> equal_fold ''peer_ip'' ''routes''" "\<not> equal_fold ''peer_ip'' ''exit_ip''"
  "\<not> equal_fold ''subnet'' ''virtual_ip''" "\<not> equal_fold ''subnet'' ''peer_ip''" "\<not> equal_fold ''subnet'' ''routes''" "\<not> equal_fold ''subnet'' ''exit_ip''"
  "\<not> equal_fold ''routes'' ''virtual_ip''" "\<not> equal_fold ''routes'' ''peer_ip''" "\<not> equal_fold ''routes'' ''subnet''" "\<not> equal_fold ''routes'' ''exit_ip''"
  "\<not> equal_fold ''exit_ip'' ''virtual_ip''" "\<not> equal_fold ''exit_ip'' ''peer_ip''" "\<not> equal_fold ''exit_ip'' ''subnet''" "\<not> equal_fold ''exit_ip'' ''routes''"
  by (simp_all add: equal_fold_def to_lower_def lower_char_def)


lemma sendRelay_vpn [simp]:
  "c_tunDevices (fst (sendRelay P i ty v c)) = c_tunDevices c" "c_os (fst (sendRelay P i ty v c)) = c_os c"
  "c_ackChans (fst (sendRelay P i ty v c)) = c_ackChans c" "c_tunAckChs (fst (sendRelay P i ty v c)) = c_tunAckChs c"
  "c_peers (fst (sendRelay P i ty v c)) = c_peers c"
  by (rule sendRelay_other; simp)+

lemma sendRelay_devices: "sendRelay P i ty v c = (c', ok) \<Longrightarrow> c_tunDevices c' = c_tunDevices c"
  using sendRelay_vpn(1) [of P i ty v c] by simp

text \<open>A network in use is handed out again. The responder of a VPN numbers its own address itself but keeps the network of the initiator: a client
  without VPNs that accepts one for 10.7.1.0/24 has the address 10.7.0.o, so that the next VPN gets index 1, that is the same
  network 10.7.1.0/24.\<close>

lemma first_index: "c_tunDevices c = [] \<Longrightarrow> nextVPNIndex c = 0"
proof -
  assume "c_tunDevices c = []"
  then have "length (c_tunDevices c) < 256" "\<not> used_index c j" for j by (simp_all add: used_index_def)
  then show ?thesis using nextVPNIndex_free [of c] by (metis not_gr_zero)
qed

lemma second_index:
  assumes "c_tunDevices c = [(p, d)]" "td_virtualIP d = Some ip" "ip_octet 2 ip = 0"
  shows "nextVPNIndex c = 1"
proof -
  have used: "used_index c j \<longleftrightarrow> j = 0" for j using assms by (auto simp: used_index_def)
  have "length (c_tunDevices c) < 256" using assms(1) by simp
  note free = nextVPNIndex_free [OF this, unfolded used]
  then have "nextVPNIndex c \<noteq> 0" "\<forall>j < nextVPNIndex c. j = 0" by simp_all
  then show ?thesis by (metis One_nat_def less_one linorder_neqE_nat zero_less_one not_less_zero Suc_lessI)
qed

lemma responder_ip_octet: "\<exists>ip. parse_ipv4 (responder_ip base 0 peerIP) = Some ip \<and> ip_octet 2 ip = 0"
proof -
  define o3 where "o3 = (case parse_ipv4 base of None \<Rightarrow> 100 | Some ip \<Rightarrow> ip_octet 3 ip)"
  have o3: "o3 < 256" using unat_byte_less by (auto simp: o3_def ip_octet_def split: option.split)
  then have n: "next_octet o3 < 256" by (simp add: next_octet_def)
  have "show_nat 100 = ''100''" by (simp add: show_nat.simps [of 100] show_nat.simps [of 10] show_nat.simps [of "Suc 0"] char_of_def bit_0)
  then have my: "allocVirtualIP base 0 = ''10.7.'' @ show_nat 0 @ ''.'' @ show_nat o3"
    by (simp add: allocVirtualIP_def o3_def split: option.split)
  have p: "parse_ipv4 (''10.7.'' @ show_nat 0 @ ''.'' @ show_nat k) = Some (be32 10 7 0 (of_nat k))" if "k < 256" for k
    using parse_vpn_ip [of 0 k] that by simp
  have "ip_octet 2 (be32 10 7 0 b) = 0" "ip_octet 3 (be32 10 7 0 (of_nat o3)) = o3" for b using o3 by (simp_all add: ip_octet_def unat_of_nat)
  then show ?thesis unfolding responder_ip_def Let_def my p [OF o3] option.case using p [OF o3] p [OF n] by (simp del: append.simps)
qed

lemma responder_network_reused:
  assumes "c_tunDevices c = []" "accept_tun P base uid (Some (name, True)) i peerIP (vpn_subnet 1) routes c = c'"
  shows "\<exists>dev. mget (c_tunDevices c') i = Some dev \<and> vpn_subnet (nextVPNIndex c') = vpn_subnet 1 \<and> td_subnet dev = parse_cidr (vpn_subnet (nextVPNIndex c'))"
proof -
  let ?ip = "parse_ipv4 (responder_ip base 0 peerIP)"
  have "vpn_subnet 1 \<noteq> []" by (simp add: vpn_subnet_def)
  then obtain dev where dev: "c_tunDevices c' = [(i, dev)]" "td_virtualIP dev = ?ip" "td_subnet dev = parse_cidr (vpn_subnet 1)"
    using assms sendRelay_vpn(1) by (auto simp: accept_tun_def first_index createTunDevice_def Let_def)
  moreover obtain ip where "?ip = Some ip" "ip_octet 2 ip = 0" using responder_ip_octet by blast
  ultimately have "nextVPNIndex c' = 1" using second_index [of c' i dev ip] by simp
  with dev show ?thesis by simp
qed



definition bobInfo :: peerInfo where
  "bobInfo = \<lparr>pi_ID = ''b'', pi_Status = [], pi_Name = [], pi_NATType = []\<rparr>"


lemma ReportFeatures_devices [simp]: "c_tunDevices (ReportFeatures c) = c_tunDevices c" "c_os (ReportFeatures c) = c_os c"
  by (simp_all add: ReportFeatures_def sendMsg_def split: option.splits)

text \<open>Two VPNs that are started at the same time collide: the address of a new VPN is free among the devices
  that exist, but the device is created only after the peer has answered. Whoever starts a second VPN, to another
  peer, before that gets the same address and network, and when both peers have answered the client has two
  interfaces with one address.\<close>

theorem concurrent_vpns_collide:
  assumes "StartTun P base p rp ep c = (c1, TunWaits a ip net ch)" "StartTun P base q rq eq c1 = (c2, TunWaits b ip' net' ch')" "a \<noteq> b"
    and "StartTun_acked u (Some (n, True)) a ip net rp x c2 = (c3, None)" "StartTun_acked u' (Some (n', True)) b ip' net' rq y c3 = (c4, None)"
  shows "ip' = ip \<and> net' = net \<and> (\<exists>d d'. mget (c_tunDevices c4) a = Some d \<and> mget (c_tunDevices c4) b = Some d' \<and> td_virtualIP d' = td_virtualIP d \<and> td_subnet d' = td_subnet d)"
proof -
  have 1: "c_tunDevices c1 = c_tunDevices c \<and> ip = allocVirtualIP base (nextVPNIndex c) \<and> net = vpn_subnet (nextVPNIndex c)"
    if "StartTun P base p r e c = (c1, TunWaits a ip net ch)" for p r e c c1 a ip net ch
    using that by (auto simp: StartTun_def Let_def split: sum.splits option.splits if_splits prod.splits dest!: sendRelay_devices)
  have "c_tunDevices c1 = c_tunDevices c" using 1 [OF assms(1)] by simp
  then have "nextVPNIndex c1 = nextVPNIndex c" unfolding nextVPNIndex_def used_index_def by (rule arg_cong)
  then have eq: "ip' = ip" "net' = net" using 1 [OF assms(1)] 1 [OF assms(2)] by simp_all
  have 2: "\<exists>d. c_tunDevices c' = mput a d (c_tunDevices c) \<and> td_virtualIP d = parse_ipv4 ip \<and> td_subnet d = parse_cidr net"
    if "StartTun_acked u (Some (n, True)) a ip net rs x c = (c', None)" for u n a ip net rs x c c'
    using that by (auto simp: StartTun_acked_def createTunDevice_def Let_def os_def)
  show ?thesis using 2 [OF assms(4)] 2 [OF assms(5)] eq assms(3) by auto
qed

definition two_peers :: cli where
  "two_peers = (NewClient ''r'' ''a'' [] [])\<lparr>c_conn := Some True, c_peers := [bobInfo, bobInfo\<lparr>pi_ID := ''c''\<rparr>]\<rparr>"

theorem concurrent_vpns_collide_witness:
  "\<forall>P. \<exists>c1 c2 c3 c4 ip net ch ch' d d'. StartTun P ''10.7.0.5'' ''b'' [] [] two_peers = (c1, TunWaits ''b'' ip net ch)
     \<and> StartTun P ''10.7.0.5'' ''c'' [] [] c1 = (c2, TunWaits ''c'' ip net ch')
     \<and> StartTun_acked 1 (Some (''tun0'', True)) ''b'' ip net [] ''10.7.0.9'' c2 = (c3, None)
     \<and> StartTun_acked 2 (Some (''tun1'', True)) ''c'' ip net [] ''10.7.0.9'' c3 = (c4, None)
     \<and> mget (c_tunDevices c4) ''b'' = Some d \<and> mget (c_tunDevices c4) ''c'' = Some d' \<and> td_virtualIP d' = td_virtualIP d"
proof
  fix P :: prims
  have send: "sendRelay P i ''tun_setup'' v c = (c\<lparr>c_ws := c_ws c @ [\<lparr>mType = ''relay_data'', mFrom = [], mTo = i, mRoom = [],
      mPayload = Some (relayEnvelope ''tun_setup'' v, 0)\<rparr>]\<rparr>, True)" if "c_conn c = Some True" "c_peerConns c = []" for i v c
    using that by (simp add: sendRelay_def sendMsg_def Let_def)
  obtain c1 ch where 1: "StartTun P ''10.7.0.5'' ''b'' [] [] two_peers = (c1, TunWaits ''b'' (allocVirtualIP ''10.7.0.5'' (nextVPNIndex two_peers)) (vpn_subnet (nextVPNIndex two_peers)) ch)"
      "c_conn c1 = Some True" "c_peerConns c1 = []" "c_tunDevices c1 = []" "c_peers c1 = c_peers two_peers"
    by (simp add: StartTun_def resolvePeerID_def two_peers_def bobInfo_def NewClient_def send Let_def)
  obtain c2 ch' ip net where 2: "StartTun P ''10.7.0.5'' ''c'' [] [] c1 = (c2, TunWaits ''c'' ip net ch')" "c_tunDevices c2 = []"
    using 1 by (simp add: StartTun_def resolvePeerID_def two_peers_def bobInfo_def NewClient_def send Let_def has_prefix_def)
  have "\<exists>c'. StartTun_acked u (Some (n, True)) i ip net [] x c = (c', None)" for u n i ip net x c
    by (simp add: StartTun_acked_def createTunDevice_def Let_def)
  then obtain c3 c4 where 3: "StartTun_acked 1 (Some (''tun0'', True)) ''b'' (allocVirtualIP ''10.7.0.5'' (nextVPNIndex two_peers)) (vpn_subnet (nextVPNIndex two_peers)) [] ''10.7.0.9'' c2 = (c3, None)"
      "StartTun_acked 2 (Some (''tun1'', True)) ''c'' ip net [] ''10.7.0.9'' c3 = (c4, None)" by blast
  have eq: "ip = allocVirtualIP ''10.7.0.5'' (nextVPNIndex two_peers)" "net = vpn_subnet (nextVPNIndex two_peers)"
    and "\<exists>d d'. mget (c_tunDevices c4) ''b'' = Some d \<and> mget (c_tunDevices c4) ''c'' = Some d' \<and> td_virtualIP d' = td_virtualIP d"
    using concurrent_vpns_collide [OF 1(1) 2(1) _ 3] by auto
  then show "\<exists>c1 c2 c3 c4 ip net ch ch' d d'. StartTun P ''10.7.0.5'' ''b'' [] [] two_peers = (c1, TunWaits ''b'' ip net ch)
     \<and> StartTun P ''10.7.0.5'' ''c'' [] [] c1 = (c2, TunWaits ''c'' ip net ch')
     \<and> StartTun_acked 1 (Some (''tun0'', True)) ''b'' ip net [] ''10.7.0.9'' c2 = (c3, None)
     \<and> StartTun_acked 2 (Some (''tun1'', True)) ''c'' ip net [] ''10.7.0.9'' c3 = (c4, None)
     \<and> mget (c_tunDevices c4) ''b'' = Some d \<and> mget (c_tunDevices c4) ''c'' = Some d' \<and> td_virtualIP d' = td_virtualIP d"
    using 1(1) 2(1) 3 unfolding eq [symmetric] by blast
qed

section \<open>The end of a session\<close>

text \<open>The responder switched on translation for the interface and the forwarding of packets. When its own user stops the
  session that is undone; when the peer stops it, the platform is told neither to remove the routes nor to
  switch the translation off.\<close>

lemma stopTunDevice_disables_nat: "DisableNAT (td_ifName dev) \<in> set (c_os (stopTunDevice P dev c))"
  by (simp add: stopTunDevice_def os_def Let_def)

lemma peer_teardown_keeps_nat:
  assumes "mget (c_tunDevices c) i = Some dev" "EnableNAT n \<in> set (c_os c)" "DisableNAT n \<notin> set (c_os c)"
  shows "DisableNAT n \<notin> set (c_os (handleTunTeardown i c)) \<and> RemoveRoute n r \<in> set (c_os (handleTunTeardown i c)) = (RemoveRoute n r \<in> set (c_os c))
    \<and> mget (c_tunDevices (handleTunTeardown i c)) i = None"
  using assms by (simp add: handleTunTeardown_def os_def)

end
