(* ===== verification/Tunnel.thy ===== *)
theory Tunnel
  imports Peers Vpn
begin

text \<open>
  Port forwarding, \<^verbatim>\<open>src/client/core/tunnel.go\<close>, the bridges of multi-hop forwards,
  \<^verbatim>\<open>src/client/core/multihop.go\<close>, and the registry of \<^verbatim>\<open>src/client/core/forward_netstack.go\<close>.

  \<^item> The result \<open>None\<close> is a panic: a method call on a nil connection or a slice out of range.
  \<^item> Outcomes of the environment are arguments: whether a listener or a userspace stack could be
    created, the connection of a successful dial, the random bytes of a new ID.
  \<^item> What the userspace TCP stack does with the packets injected into it is outside of the repository.
\<close>

section \<open>Tunnel identifiers\<close>

definition tunnelIDToBytes :: "string \<Rightarrow> bytes" where
  "tunnelIDToBytes i = (case hex_dec i of
       Some b \<Rightarrow> if length b = 8 then b
                 else (let raw = str_bytes i in if length raw \<ge> 8 then take 8 raw else raw @ replicate (8 - length raw) 0)
     | None \<Rightarrow> (let raw = str_bytes i in if length raw \<ge> 8 then take 8 raw else raw @ replicate (8 - length raw) 0))"

definition tunnelIDFromBytes :: "bytes \<Rightarrow> string" where
  "tunnelIDFromBytes b = hex_enc b"

section \<open>Connections and counters\<close>

definition tcp_write :: "tunnelConn \<Rightarrow> bytes \<Rightarrow> cli \<Rightarrow> cli option" where
  "tcp_write tc data c = (case tc_Conn tc of None \<Rightarrow> None | Some k \<Rightarrow> Some (c\<lparr>c_tcp := c_tcp c @ [(k, data)]\<rparr>))"

definition tcp_close :: "conn option \<Rightarrow> cli \<Rightarrow> cli option" where
  "tcp_close k c = (case k of None \<Rightarrow> None | Some k \<Rightarrow> Some (c\<lparr>c_closed := c_closed c @ [k]\<rparr>))"

definition upd_forward :: "nat option \<Rightarrow> (forward \<Rightarrow> forward) \<Rightarrow> cli \<Rightarrow> cli" where
  "upd_forward fid g c = (case fid of None \<Rightarrow> c
     | Some i \<Rightarrow> c\<lparr>c_forwards := map (\<lambda>(p, f). (p, if f_id f = i then g f else f)) (c_forwards c)\<rparr>)"

definition add_down :: "tunnelConn \<Rightarrow> bytes \<Rightarrow> cli \<Rightarrow> cli" where
  "add_down tc data c = upd_forward (tc_Forward tc) (\<lambda>f. f\<lparr>f_BytesDown := f_BytesDown f + int (length data)\<rparr>) c"

definition add_up :: "tunnelConn \<Rightarrow> bytes \<Rightarrow> cli \<Rightarrow> cli" where
  "add_up tc data c = upd_forward (tc_Forward tc) (\<lambda>f. f\<lparr>f_BytesUp := f_BytesUp f + int (length data)\<rparr>) c"

text \<open>\<^verbatim>\<open>simpleHash\<close>, FNV-1a on 64 bits.\<close>

definition simpleHash :: "bytes \<Rightarrow> u64" where
  "simpleHash data = fold (\<lambda>b h. (h XOR ucast b) * 1099511628211) data 14695981039346656037"

section \<open>The userspace stacks\<close>

definition getOrCreateFwdNetstack :: "string \<Rightarrow> bool \<Rightarrow> bool \<Rightarrow> cli \<Rightarrow> cli \<times> bool" where
  "getOrCreateFwdNetstack peerID isInitiator nsOk c = (case mget (c_fwdNetstacks c) peerID of
       Some fn \<Rightarrow> (c, True)
     | None \<Rightarrow> if nsOk then (c\<lparr>c_fwdNetstacks := mput peerID \<lparr>fn_initiator = isInitiator, fn_portMap = [], fn_filePortMap = [], fn_injected = []\<rparr>
                              (c_fwdNetstacks c)\<rparr>, True)
               else (c, False))"

definition RegisterTarget :: "string \<Rightarrow> u16 \<Rightarrow> string \<Rightarrow> cli \<Rightarrow> cli" where
  "RegisterTarget peerID vport target c = (case mget (c_fwdNetstacks c) peerID of None \<Rightarrow> c
     | Some fn \<Rightarrow> c\<lparr>c_fwdNetstacks := mput peerID (fn\<lparr>fn_portMap := mput vport target (fn_portMap fn)\<rparr>) (c_fwdNetstacks c)\<rparr>)"

text \<open>The answer of a stack to an incoming connection: only the side created as responder installs the
  handler \<^verbatim>\<open>handleIncoming\<close>, which looks the virtual port up.\<close>

definition handleIncoming :: "fwdNetstack \<Rightarrow> u16 \<Rightarrow> string option" where
  "handleIncoming fn vport = (if fn_initiator fn then None else mget (fn_portMap fn) vport)"

text \<open>A connection of the peer to a virtual port: if the port is not that of a file stream, \<^verbatim>\<open>bridgeForward\<close> dials the target
  registered for it.\<close>

definition bridgeForward :: "string \<Rightarrow> u16 \<Rightarrow> cli \<Rightarrow> cli" where
  "bridgeForward peerID vport c = (case mget (c_fwdNetstacks c) peerID of None \<Rightarrow> c
     | Some fn \<Rightarrow> if mget (fn_filePortMap fn) vport \<noteq> None then c
         else case handleIncoming fn vport of None \<Rightarrow> c | Some target \<Rightarrow> c\<lparr>c_dials := c_dials c @ [target]\<rparr>)"

definition InjectInbound :: "string \<Rightarrow> bytes \<Rightarrow> cli \<Rightarrow> cli" where
  "InjectInbound peerID pkt c = (case mget (c_fwdNetstacks c) peerID of None \<Rightarrow> c
     | Some fn \<Rightarrow> if length pkt < 20 then c
         else c\<lparr>c_fwdNetstacks := mput peerID (fn\<lparr>fn_injected := fn_injected fn @ [pkt]\<rparr>) (c_fwdNetstacks c)\<rparr>)"

text \<open>A packet leaving a stack: \<^verbatim>\<open>outboundLoop\<close> frames it uncompressed, \<^verbatim>\<open>sendPacket\<close> sends it.\<close>

definition sendPacket :: "prims \<Rightarrow> string \<Rightarrow> bytes \<Rightarrow> cli \<Rightarrow> cli" where
  "sendPacket P peerID data c =
     (let relay = (\<lambda>c. fst (sendRelay P peerID ''fwd_data'' (JObj [(''data'', JStr (b64_enc data))]) c)) in
      if isPeerForwardForceRelay c peerID then relay c
      else case mget (c_peerConns c) peerID of
          None \<Rightarrow> relay c
        | Some pc \<Rightarrow> (case pc_UDPAddr pc of
             Some a \<Rightarrow> if pc_Mode pc = ''direct''
               then (let (c1, ok) = udpSend (str_bytes ''FN:'' @ data) a c in if ok then c1 else relay c1) else relay c
           | None \<Rightarrow> relay c))"

definition outbound :: "prims \<Rightarrow> string \<Rightarrow> bytes \<Rightarrow> cli \<Rightarrow> cli" where
  "outbound P peerID pkt c = sendPacket P peerID (0 # pkt) c"

definition handleFwdNetstackPacket :: "bytes \<Rightarrow> endpoint \<Rightarrow> cli \<Rightarrow> cli" where
  "handleFwdNetstackPacket raw addr c = (case find (\<lambda>(i, pc). pc_UDPAddr pc = Some addr) (c_peerConns c) of
       None \<Rightarrow> c
     | Some (i, pc) \<Rightarrow> if i = [] then c else InjectInbound i raw c)"

definition handleFwdData :: "prims \<Rightarrow> string \<Rightarrow> json option \<Rightarrow> cli \<Rightarrow> cli" where
  "handleFwdData P from' payload c = (case payload of None \<Rightarrow> c
     | Some v \<Rightarrow> (let (kvs, ok0) = obj_members v; (d, ok1) = get_str ''data'' kvs in
         if \<not> (ok0 \<and> ok1) then c
         else case b64_dec d \<bind> Decompress (p_inflate P) of None \<Rightarrow> c | Some raw \<Rightarrow> InjectInbound from' raw c))"

section \<open>Multi-hop forwards\<close>

definition hopForwardRequest :: "string \<Rightarrow> string \<Rightarrow> string \<Rightarrow> int \<Rightarrow> json" where
  "hopForwardRequest hop target host port = JObj [(''hop_id'', JStr hop), (''target_peer_id'', JStr target),
     (''target_host'', JStr host), (''target_port'', JNum port)]"

definition hopReject :: "string \<Rightarrow> string \<Rightarrow> json" where
  "hopReject hop reason = JObj [(''hop_id'', JStr hop), (''reason'', JStr reason)]"

definition hopAccept :: "string \<Rightarrow> string \<Rightarrow> json" where
  "hopAccept hop tid = JObj [(''hop_id'', JStr hop), (''inbound_tunnel_id'', JStr tid)]"

definition tunnelOpen :: "string \<Rightarrow> string \<Rightarrow> int \<Rightarrow> json" where
  "tunnelOpen tid host port = JObj [(''tunnel_id'', JStr tid), (''target_host'', JStr host), (''target_port'', JNum port)]"

definition new_bridge :: "hopBridge \<Rightarrow> cli \<Rightarrow> cli \<times> nat" where
  "new_bridge b c = (c\<lparr>c_bridges := c_bridges c @ [b]\<rparr>, length (c_bridges c))"

definition StartHopForward :: "prims \<Rightarrow> string \<Rightarrow> string \<Rightarrow> string \<Rightarrow> int \<Rightarrow> int \<Rightarrow> bytes \<Rightarrow> cli \<Rightarrow> cli \<times> bool" where
  "StartHopForward P via target host remotePort localPort rnd c =
     (case resolvePeerID via c of Inl e \<Rightarrow> (c, False)
      | Inr viaID \<Rightarrow> (case resolvePeerID target c of Inl e \<Rightarrow> (c, False)
        | Inr targetID \<Rightarrow>
           (let hopID = generateTunnelID rnd;
                (c1, b) = new_bridge \<lparr>hb_HopID = hopID, hb_InboundTunnelID = [], hb_OutboundTunnelID = [], hb_OriginPeerID = c_MyID c,
                   hb_TargetPeerID = targetID, hb_LocalPort = localPort, hb_ViaPeerID = viaID, hb_RemoteHost = host,
                   hb_RemotePort = remotePort, hb_done = False\<rparr> c
            in sendRelay P viaID ''hop_forward'' (hopForwardRequest hopID targetID host remotePort)
                 (c1\<lparr>c_hops := mput hopID b (c_hops c1)\<rparr>))))"

text \<open>\<^verbatim>\<open>handleHopForward\<close>; \<open>rin\<close> and \<open>rout\<close> are the random bytes of the two tunnel IDs.\<close>

definition open_bridge :: "prims \<Rightarrow> string \<Rightarrow> string \<Rightarrow> string \<Rightarrow> string \<Rightarrow> int \<Rightarrow> string \<Rightarrow> string \<Rightarrow> cli \<Rightarrow> cli" where
  "open_bridge P from' hop target host port inID outID c =
     (let (c1, b) = new_bridge \<lparr>hb_HopID = hop, hb_InboundTunnelID = inID, hb_OutboundTunnelID = outID, hb_OriginPeerID = from',
             hb_TargetPeerID = target, hb_LocalPort = 0, hb_ViaPeerID = [], hb_RemoteHost = [], hb_RemotePort = 0, hb_done = False\<rparr> c;
          c2 = c1\<lparr>c_hops := mput hop b (c_hops c1),
                  c_hopBridgeByTunnel := mput outID b (mput inID b (c_hopBridgeByTunnel c1))\<rparr>;
          (c3, ok) = sendRelay P target ''open_tunnel'' (tunnelOpen outID host port) c2
      in if \<not> ok
         then fst (sendRelay P from' ''hop_forward_reject'' (hopReject hop ''failed to reach target peer'')
                (c3\<lparr>c_hops := mdel hop (c_hops c3), c_hopBridgeByTunnel := mdel outID (mdel inID (c_hopBridgeByTunnel c3))\<rparr>))
         else fst (sendRelay P from' ''hop_forward_accept'' (hopAccept hop inID) c3))"

definition handleHopForward :: "prims \<Rightarrow> string \<Rightarrow> json option \<Rightarrow> bytes \<Rightarrow> bytes \<Rightarrow> cli \<Rightarrow> cli" where
  "handleHopForward P from' payload rin rout c = (case payload of None \<Rightarrow> c
     | Some v \<Rightarrow>
        (let (kvs, ok0) = obj_members v; (hop, ok1) = get_str ''hop_id'' kvs; (target, ok2) = get_str ''target_peer_id'' kvs;
             (host, ok3) = get_str ''target_host'' kvs; (port, ok4) = get_int ''target_port'' kvs; (auto, ok5) = get_bool ''auto'' kvs
         in if \<not> (ok0 \<and> ok1 \<and> ok2 \<and> ok3 \<and> ok4 \<and> ok5) then c
            else if auto \<and> \<not> c_allowHopRelay c
            then fst (sendRelay P from' ''hop_forward_reject'' (hopReject hop ''hop relay disabled'') c)
            else if \<not> auto \<and> \<not> c_allowForward c
            then fst (sendRelay P from' ''hop_forward_reject'' (hopReject hop ''forwarding disabled'') c)
            else open_bridge P from' hop target host port (generateTunnelID rin) (generateTunnelID rout) c))"

text \<open>\<^verbatim>\<open>handleHopForwardAccept\<close>; its log message slices the tunnel ID.\<close>

definition handleHopForwardAccept :: "string \<Rightarrow> json option \<Rightarrow> cli \<Rightarrow> cli option" where
  "handleHopForwardAccept from' payload c = (case payload of None \<Rightarrow> Some c
     | Some v \<Rightarrow>
        (let (kvs, ok0) = obj_members v; (hop, ok1) = get_str ''hop_id'' kvs; (tid, ok2) = get_str ''inbound_tunnel_id'' kvs
         in if \<not> (ok0 \<and> ok1 \<and> ok2) then Some c
            else case mget (c_hops c) hop of None \<Rightarrow> Some c
                 | Some b \<Rightarrow> do {
                     _ \<leftarrow> slice tid 0 8;
                     Some (c\<lparr>c_bridges := (c_bridges c)[b := (c_bridges c ! b)\<lparr>hb_InboundTunnelID := tid\<rparr>]\<rparr>) }))"

text \<open>A connection accepted by \<^verbatim>\<open>hopAcceptLoop\<close>.\<close>

definition hop_accept_conn :: "nat \<Rightarrow> string \<Rightarrow> conn \<Rightarrow> cli \<Rightarrow> cli" where
  "hop_accept_conn b via k c =
     (let tid = hb_InboundTunnelID (c_bridges c ! b) in
      c\<lparr>c_tunnels := mput tid (new_tunnelConn tid via (Some k)) (c_tunnels c)\<rparr>)"

definition handleHopForwardReject :: "json option \<Rightarrow> cli \<Rightarrow> cli" where
  "handleHopForwardReject payload c = (case payload of None \<Rightarrow> c
     | Some v \<Rightarrow>
        (let (kvs, ok0) = obj_members v; (hop, ok1) = get_str ''hop_id'' kvs; (reason, ok2) = get_str ''reason'' kvs
         in if \<not> (ok0 \<and> ok1 \<and> ok2) then c
            else case mget (c_hops c) hop of None \<Rightarrow> c
                 | Some b \<Rightarrow> c\<lparr>c_hops := mdel hop (c_hops c), c_bridges := (c_bridges c)[b := (c_bridges c ! b)\<lparr>hb_done := True\<rparr>]\<rparr>))"

text \<open>The removal of a bridge from all maps, in \<^verbatim>\<open>handleCloseTunnel\<close> and \<^verbatim>\<open>handleTunnelRejected\<close>.\<close>

definition drop_bridge :: "nat \<Rightarrow> cli \<Rightarrow> cli" where
  "drop_bridge b c =
     (let br = c_bridges c ! b in
      c\<lparr>c_hopBridgeByTunnel := mdel (hb_OutboundTunnelID br) (mdel (hb_InboundTunnelID br) (c_hopBridgeByTunnel c)),
        c_hops := mdel (hb_HopID br) (c_hops c), c_bridges := (c_bridges c)[b := br\<lparr>hb_done := True\<rparr>]\<rparr>)"

text \<open>The other end of a bridge.\<close>

definition bridge_peer :: "hopBridge \<Rightarrow> string \<Rightarrow> string \<times> string" where
  "bridge_peer br tid = (if tid = hb_InboundTunnelID br then (hb_TargetPeerID br, hb_OutboundTunnelID br)
     else (hb_OriginPeerID br, hb_InboundTunnelID br))"

section \<open>Forwards\<close>

text \<open>\<^verbatim>\<open>StartForward\<close>; \<open>listenOk\<close> says whether the port could be bound, \<open>fid\<close> is the identity of the new
  object. The second component is \<^verbatim>\<open>err == nil\<close>.\<close>

definition StartForward :: "prims \<Rightarrow> string \<Rightarrow> string \<Rightarrow> int \<Rightarrow> int \<Rightarrow> bool \<Rightarrow> nat \<Rightarrow> bytes \<Rightarrow> cli \<Rightarrow> cli \<times> bool" where
  "StartForward P peerID host remotePort localPort listenOk fid rnd c =
     (case resolvePeerID peerID c of Inl e \<Rightarrow> (c, False)
      | Inr fullID \<Rightarrow>
         (let viaID = (if getForwardMode c fullID = ''RELAY'' then findAutoHopCandidate c fullID else []) in
          if viaID \<noteq> [] then StartHopForward P viaID fullID host remotePort localPort rnd c
          else if mget (c_forwards c) localPort \<noteq> None then (c, False)
          else if \<not> listenOk then (c, False)
          else (c\<lparr>c_forwards := mput localPort \<lparr>f_id = fid, f_LocalPort = localPort, f_RemoteHost = host, f_RemotePort = remotePort,
                    f_PeerID = fullID, f_PeerName = peerName c fullID, f_ConnCount = 0, f_cancelled = False, f_ForceRelay = False,
                    f_BytesUp = 0, f_BytesDown = 0, f_LastUp = 0, f_LastDown = 0\<rparr> (c_forwards c)\<rparr>, True)))"

definition nextVirtualPort :: "cli \<Rightarrow> cli \<times> u16" where
  "nextVirtualPort c = (let n = c_vport c + 1 in (c\<lparr>c_vport := n\<rparr>, ucast n))"

definition ns_id :: "u16 \<Rightarrow> string" where
  "ns_id vport = ''ns:'' @ show_nat (unat vport)"

text \<open>A connection \<open>k\<close> accepted by \<^verbatim>\<open>acceptLoop\<close> for the forward \<open>f\<close>.\<close>

definition accept_conn :: "prims \<Rightarrow> forward \<Rightarrow> conn \<Rightarrow> bool \<Rightarrow> cli \<Rightarrow> cli" where
  "accept_conn P f k nsOk c =
     (let (c1, ok) = getOrCreateFwdNetstack (f_PeerID f) True nsOk c in
      if \<not> ok then c1\<lparr>c_closed := c_closed c1 @ [k]\<rparr>
      else
        (let (c2, vport) = nextVirtualPort c1;
             tid = ns_id vport;
             c3 = c2\<lparr>c_tunnels := mput tid (new_tunnelConn tid (f_PeerID f) None) (c_tunnels c2)\<rparr>;
             (c4, sent) = sendRelay P (f_PeerID f) ''open_tunnel'' (tunnelOpen tid (f_RemoteHost f) (f_RemotePort f)) c3
         in if \<not> sent then c4\<lparr>c_closed := c_closed c4 @ [k], c_tunnels := mdel tid (c_tunnels c4)\<rparr>
            else upd_forward (Some (f_id f)) (\<lambda>f. f\<lparr>f_ConnCount := f_ConnCount f + 1\<rparr>) c4))"

text \<open>The end of \<^verbatim>\<open>bridgeForwardConn\<close>, whether the peer never confirmed, the dial failed or the connection
  ended: the local connection is closed and the count lowered; the entry of \<^verbatim>\<open>c.tunnels\<close> is not touched.\<close>

definition bridge_ends :: "forward \<Rightarrow> conn \<Rightarrow> cli \<Rightarrow> cli" where
  "bridge_ends f k c = upd_forward (Some (f_id f)) (\<lambda>f. f\<lparr>f_ConnCount := f_ConnCount f - 1\<rparr>) (c\<lparr>c_closed := c_closed c @ [k]\<rparr>)"

definition StopForward :: "int \<Rightarrow> cli \<Rightarrow> (cli \<times> bool) option" where
  "StopForward localPort c = (case mget (c_forwards c) localPort of None \<Rightarrow> Some (c, False)
     | Some f \<Rightarrow> do {
         let c1 = c\<lparr>c_forwards := mdel localPort (c_forwards c)\<rparr>;
         c2 \<leftarrow> foldM (\<lambda>(tid, tc) c. if tc_Forward tc = Some (f_id f)
                 then do { c' \<leftarrow> tcp_close (tc_Conn tc) c; Some (c'\<lparr>c_tunnels := mdel tid (c_tunnels c')\<rparr>) }
                 else Some c) (c_tunnels c1) c1;
         Some (c2, True) })"

text \<open>The last part of \<^verbatim>\<open>Disconnect\<close>: file transfers, the UDP socket and the signalling connection are closed.\<close>

definition close_rest :: "cli \<Rightarrow> cli" where
  "close_rest c = c\<lparr>c_fts := map (\<lambda>(i, ft). if i \<in> snd ` set (c_fileTransfers c) then ft\<lparr>ft_File := None, ft_done := True\<rparr> else ft) (enumerate 0 (c_fts c)),
     c_fileTransfers := [], c_udpConn := False, c_conn := map_option (\<lambda>_. False) (c_conn c)\<rparr>"

definition Disconnect :: "prims \<Rightarrow> cli \<Rightarrow> cli option" where
  "Disconnect P c =
     (if c_done c then Some c
      else do {
        let c0 = tunCleanup P (c\<lparr>c_done := True\<rparr>);
        c1 \<leftarrow> foldM (\<lambda>port c. map_option fst (StopForward port c)) (map fst (c_forwards c0)) c0;
        c2 \<leftarrow> foldM (\<lambda>(tid, tc) c. do { c' \<leftarrow> tcp_close (tc_Conn tc) c; Some (c'\<lparr>c_tunnels := mdel tid (c_tunnels c')\<rparr>) })
          (c_tunnels c1) c1;
        Some (close_rest c2) })"

section \<open>Tunnel messages\<close>

definition local_hosts :: "string set" where
  "local_hosts = {''127.0.0.1'', ''localhost'', ''::1''}"

definition tunnelRejected :: "string \<Rightarrow> string \<Rightarrow> json" where
  "tunnelRejected tid reason = JObj [(''tunnel_id'', JStr tid), (''reason'', JStr reason)]"

definition show_int :: "int \<Rightarrow> string" where
  "show_int i = (if i < 0 then CHR ''-'' # show_nat (nat (- i)) else show_nat (nat i))"

text \<open>\<^verbatim>\<open>handleOpenTunnel\<close> for a request that decodes; \<open>dial\<close> is the connection to the target, if it
  could be opened.\<close>

definition open_tunnel :: "prims \<Rightarrow> string \<Rightarrow> string \<Rightarrow> string \<Rightarrow> int \<Rightarrow> bool \<Rightarrow> conn option \<Rightarrow> cli \<Rightarrow> cli" where
  "open_tunnel P from' tid host port nsOk dial c =
     (if \<not> c_allowForward c
      then fst (sendRelay P from' ''tunnel_rejected'' (tunnelRejected tid ''forwarding disabled'') c)
      else if c_localOnly c \<and> host \<notin> local_hosts
      then fst (sendRelay P from' ''tunnel_rejected'' (tunnelRejected tid ''local-only'') c)
      else if has_prefix tid ''ns:'' then
        (case go_atoi (trim_prefix tid ''ns:'') of None \<Rightarrow> c
         | Some vport \<Rightarrow>
            (let (c1, ok) = getOrCreateFwdNetstack from' False nsOk c in
             if \<not> ok then c1
             else fst (sendRelay P from' ''tunnel_opened'' (tunnelClose tid)
                    (RegisterTarget from' (word_of_int vport) (join_host_port host (show_int port)) c1))))
      else
        (let c1 = c\<lparr>c_dials := c_dials c @ [join_host_port host (show_int port)]\<rparr> in
         case dial of
           None \<Rightarrow> sendTunnelClose P from' tid c1
         | Some k \<Rightarrow> fst (sendRelay P from' ''tunnel_opened'' (tunnelClose tid)
                        (c1\<lparr>c_tunnels := mput tid (new_tunnelConn tid from' (Some k)) (c_tunnels c1)\<rparr>))))"

definition handleOpenTunnel :: "prims \<Rightarrow> string \<Rightarrow> json option \<Rightarrow> bool \<Rightarrow> conn option \<Rightarrow> cli \<Rightarrow> cli" where
  "handleOpenTunnel P from' payload nsOk dial c = (case payload of None \<Rightarrow> c
     | Some v \<Rightarrow>
        (let (kvs, ok0) = obj_members v; (tid, ok1) = get_str ''tunnel_id'' kvs; (host, ok2) = get_str ''target_host'' kvs;
             (port, ok3) = get_int ''target_port'' kvs
         in if ok0 \<and> ok1 \<and> ok2 \<and> ok3 then open_tunnel P from' tid host port nsOk dial c else c))"

definition handleTunnelOpened :: "json option \<Rightarrow> cli \<Rightarrow> cli" where
  "handleTunnelOpened payload c = (case payload of None \<Rightarrow> c
     | Some v \<Rightarrow>
        (let (kvs, ok0) = obj_members v; (tid, ok1) = get_str ''tunnel_id'' kvs in
         if ok0 \<and> ok1 \<and> has_prefix tid ''ns:'' then c\<lparr>c_tunnels := mdel tid (c_tunnels c)\<rparr> else c))"

text \<open>\<^verbatim>\<open>handleTunnelData\<close>: a bridge passes the data on, a tunnel writes it to its connection unless the
  filter has seen the same bytes.\<close>

definition write_relayed :: "tunnelConn \<Rightarrow> bytes \<Rightarrow> cli \<Rightarrow> cli option" where
  "write_relayed tc data c = (case tc_RelayDedup tc of
       None \<Rightarrow> tcp_write tc data (add_down tc data c)
     | Some seen \<Rightarrow>
        if simpleHash data \<in> set seen then Some c
        else (let tc' = tc\<lparr>tc_RelayDedup := Some (simpleHash data # seen)\<rparr> in
              tcp_write tc' data (add_down tc' data (c\<lparr>c_tunnels := mput (tc_TunnelID tc) tc' (c_tunnels c)\<rparr>))))"

definition tunnel_payload :: "json option \<Rightarrow> (string \<times> string) option" where
  "tunnel_payload payload = (case payload of None \<Rightarrow> None
     | Some v \<Rightarrow> (let (kvs, ok0) = obj_members v; (tid, ok1) = get_str ''tunnel_id'' kvs; (d, ok2) = get_str ''data'' kvs in
         if ok0 \<and> ok1 \<and> ok2 then Some (tid, d) else None))"

definition handleTunnelData :: "prims \<Rightarrow> json option \<Rightarrow> cli \<Rightarrow> cli option" where
  "handleTunnelData P payload c = (case tunnel_payload payload of None \<Rightarrow> Some c
     | Some (tid, d) \<Rightarrow>
        (case mget (c_hopBridgeByTunnel c) tid of
           Some b \<Rightarrow> (let (peer, tid') = bridge_peer (c_bridges c ! b) tid in
                      Some (fst (sendRelay P peer ''tunnel_data'' (tunnelData tid' d) c)))
         | None \<Rightarrow>
            (case mget (c_tunnels c) tid of None \<Rightarrow> Some c
             | Some tc \<Rightarrow> (case b64_dec d of None \<Rightarrow> Some c
                 | Some compressed \<Rightarrow>
                    write_relayed tc (case Decompress (p_inflate P) compressed of None \<Rightarrow> compressed | Some data \<Rightarrow> data) c))))"

definition closeTunnel :: "string \<Rightarrow> cli \<Rightarrow> cli" where
  "closeTunnel tid c = (case mget (c_tunnels c) tid of None \<Rightarrow> c
     | Some tc \<Rightarrow>
        (let c1 = c\<lparr>c_tunnels := mdel tid (c_tunnels c)\<rparr> in
         case tc_Conn tc of None \<Rightarrow> c1
         | Some k \<Rightarrow> upd_forward (tc_Forward tc) (\<lambda>f. f\<lparr>f_ConnCount := f_ConnCount f - 1\<rparr>) (c1\<lparr>c_closed := c_closed c1 @ [k]\<rparr>)))"

definition handleCloseTunnel :: "prims \<Rightarrow> json option \<Rightarrow> cli \<Rightarrow> cli" where
  "handleCloseTunnel P payload c =
     (let tid = lenient_str ''tunnel_id'' payload in
      case mget (c_hopBridgeByTunnel c) tid of
        Some b \<Rightarrow> (let (peer, tid') = bridge_peer (c_bridges c ! b) tid in sendTunnelClose P peer tid' (drop_bridge b c))
      | None \<Rightarrow> closeTunnel tid c)"

definition handleTunnelRejected :: "prims \<Rightarrow> json option \<Rightarrow> cli \<Rightarrow> cli" where
  "handleTunnelRejected P payload c =
     (let tid = lenient_str ''tunnel_id'' payload; reason = lenient_str ''reason'' payload in
      case mget (c_hopBridgeByTunnel c) tid of
        Some b \<Rightarrow> (let br = c_bridges c ! b in
           fst (sendRelay P (hb_OriginPeerID br) ''hop_forward_reject'' (hopReject (hb_HopID br) (''target rejected: '' @ reason)) (drop_bridge b c)))
      | None \<Rightarrow> closeTunnel tid c)"

section \<open>Reverse forwards\<close>

definition ExposePort :: "prims \<Rightarrow> string \<Rightarrow> string \<Rightarrow> int \<Rightarrow> int \<Rightarrow> bytes \<Rightarrow> cli \<Rightarrow> cli \<times> bool" where
  "ExposePort P peerID host sourcePort targetPort rnd c = (case resolvePeerID peerID c of Inl e \<Rightarrow> (c, False)
     | Inr fullID \<Rightarrow> sendRelay P fullID ''reverse_forward_offer'' (JObj [(''offer_id'', JStr (generateTunnelID rnd)),
          (''source_host'', JStr host), (''source_port'', JNum sourcePort), (''target_port'', JNum targetPort)]) c)"

text \<open>\<open>reason\<close> is the text of the error of \<^verbatim>\<open>StartForward\<close>.\<close>

definition handleReverseForwardOffer :: "prims \<Rightarrow> string \<Rightarrow> json option \<Rightarrow> bool \<Rightarrow> nat \<Rightarrow> bytes \<Rightarrow> string \<Rightarrow> cli \<Rightarrow> cli" where
  "handleReverseForwardOffer P from' payload listenOk fid rnd reason c = (case payload of None \<Rightarrow> c
     | Some v \<Rightarrow>
        (let (kvs, ok0) = obj_members v; (offer, ok1) = get_str ''offer_id'' kvs; (host, ok2) = get_str ''source_host'' kvs;
             (sp, ok3) = get_int ''source_port'' kvs; (tp, ok4) = get_int ''target_port'' kvs
         in if \<not> (ok0 \<and> ok1 \<and> ok2 \<and> ok3 \<and> ok4) then c
            else
              (let reject = (\<lambda>r c. fst (sendRelay P from' ''reverse_forward_reject'' (JObj [(''offer_id'', JStr offer), (''reason'', JStr r)]) c)) in
               if \<not> c_allowForward c then reject ''forwarding disabled'' c
               else
                 (let (c1, ok) = StartForward P from' host sp tp listenOk fid rnd c in
                  if \<not> ok then reject reason c1
                  else fst (sendRelay P from' ''reverse_forward_accept'' (JObj [(''offer_id'', JStr offer), (''target_port'', JNum tp)]) c1)))))"

section \<open>Reading a tunnel's connection\<close>

text \<open>The transport that \<^verbatim>\<open>tunnelReadLoop\<close> chooses for a tunnel to a peer.\<close>

datatype transport = OverUDP endpoint | OverTCP conn | OverRelay

definition tunnel_transport :: "cli \<Rightarrow> string \<Rightarrow> transport" where
  "tunnel_transport c peerID = (case mget (c_peerConns c) peerID of None \<Rightarrow> OverRelay
     | Some pc \<Rightarrow>
        (case pc_UDPAddr pc of
           Some a \<Rightarrow> if pc_Mode pc = ''direct'' then (if c_udpConn c then OverUDP a else OverRelay)
                     else (case pc_DirectTCP pc of Some k \<Rightarrow> OverTCP k | None \<Rightarrow> OverRelay)
         | None \<Rightarrow> (case pc_DirectTCP pc of Some k \<Rightarrow> OverTCP k | None \<Rightarrow> OverRelay)))"

definition udp_prefix :: "string \<Rightarrow> bytes" where
  "udp_prefix tid = str_bytes ''TF:'' @ tunnelIDToBytes tid"

text \<open>The start of \<^verbatim>\<open>tunnelReadUDP\<close> and one chunk on each path.\<close>

definition tunnelReadUDP_start :: "tunnelConn \<Rightarrow> tunnelConn" where
  "tunnelReadUDP_start tc = tc\<lparr>tc_RutpSender := Some (newRutpSender (udp_prefix (tc_TunnelID tc))), tc_RelayDedup := Some []\<rparr>"

definition tunnelReadUDP_chunk :: "prims \<Rightarrow> tunnelConn \<Rightarrow> bytes \<Rightarrow> int \<Rightarrow> cli \<Rightarrow> tunnelConn \<times> cli" where
  "tunnelReadUDP_chunk P tc data now c =
     (tc\<lparr>tc_RutpSender := map_option (rutp_Send (Compress (p_deflate P) data) now) (tc_RutpSender tc)\<rparr>, add_up tc data c)"

definition direct_frame :: "string \<Rightarrow> bytes \<Rightarrow> bytes" where
  "direct_frame tid compressed = tunnelIDToBytes tid @ bytes32 (of_nat (length compressed)) @ compressed"

text \<open>\<open>ok\<close> says whether the write succeeds; the second result is the connection that the loop goes on with,
  \<open>None\<close> when it continues as \<^verbatim>\<open>tunnelReadRelay\<close>.\<close>

definition tunnelReadDirect_chunk :: "prims \<Rightarrow> string \<Rightarrow> tunnelConn \<Rightarrow> conn \<Rightarrow> bytes \<Rightarrow> bool \<Rightarrow> cli \<Rightarrow> cli \<times> conn option" where
  "tunnelReadDirect_chunk P peerID tc k data ok c =
     (let c1 = add_up tc data c in
      if ok then (c1\<lparr>c_tcp := c_tcp c1 @ [(k, direct_frame (tc_TunnelID tc) (Compress (p_deflate P) data))]\<rparr>, Some k)
      else
        (let pcs = (case mget (c_peerConns c1) peerID of None \<Rightarrow> c_peerConns c1
               | Some pc \<Rightarrow> mput peerID (pc\<lparr>pc_DirectTCP := None\<rparr>) (c_peerConns c1))
         in (c1\<lparr>c_peerConns := pcs, c_closed := c_closed c1 @ [k]\<rparr>, None)))"

definition tunnelReadRelay_chunk :: "prims \<Rightarrow> string \<Rightarrow> tunnelConn \<Rightarrow> bytes \<Rightarrow> cli \<Rightarrow> cli" where
  "tunnelReadRelay_chunk P peerID tc data c =
     fst (sendRelay P peerID ''tunnel_data'' (tunnelData (tc_TunnelID tc) (b64_enc (Compress (p_deflate P) data))) (add_up tc data c))"

text \<open>The deferred end of \<^verbatim>\<open>tunnelReadLoop\<close>.\<close>

definition tunnelRead_end :: "prims \<Rightarrow> string \<Rightarrow> tunnelConn \<Rightarrow> cli \<Rightarrow> cli option" where
  "tunnelRead_end P peerID tc c = do {
     c1 \<leftarrow> tcp_close (tc_Conn tc) c;
     Some (sendTunnelClose P peerID (tc_TunnelID tc) (c1\<lparr>c_tunnels := mdel (tc_TunnelID tc) (c_tunnels c1)\<rparr>)) }"

end
