(* ===== verification/Tunnel_Props.thy ===== *)
theory Tunnel_Props
  imports Tunnel
begin

text \<open>
  Properties of port forwarding and multi-hop bridges.
\<close>

section \<open>What sending leaves alone\<close>

lemma sendRelay_shape: "\<exists>ws pcs. fst (sendRelay P t ty v c) = c\<lparr>c_ws := ws, c_peerConns := pcs\<rparr>"
  using sendRelay_ws_only [of c P t ty v] unfolding ws_only_def by blast

lemma sendRelay_frame [simp]:
  "c_fwdNetstacks (fst (sendRelay P t ty v c)) = c_fwdNetstacks c" "c_localOnly (fst (sendRelay P t ty v c)) = c_localOnly c"
  "c_tunnels (fst (sendRelay P t ty v c)) = c_tunnels c" "c_hops (fst (sendRelay P t ty v c)) = c_hops c"
  "c_hopBridgeByTunnel (fst (sendRelay P t ty v c)) = c_hopBridgeByTunnel c" "c_bridges (fst (sendRelay P t ty v c)) = c_bridges c"
  "c_forwards (fst (sendRelay P t ty v c)) = c_forwards c" "c_done (fst (sendRelay P t ty v c)) = c_done c"
  "c_conn (fst (sendRelay P t ty v c)) = c_conn c" "c_tcp (fst (sendRelay P t ty v c)) = c_tcp c"
  using sendRelay_shape [of P t ty v c] by auto

lemma sendRelay_ok: "c_conn c = Some True \<Longrightarrow> snd (sendRelay P t ty v c)"
  by (auto simp: sendRelay_def sendMsg_def Let_def split: option.splits prod.splits)

lemma tunnel_names [simp]:
  "\<not> equal_fold ''tunnel_id'' ''data''" "\<not> equal_fold ''data'' ''tunnel_id''" "\<not> equal_fold ''tunnel_id'' ''target_host''"
  "\<not> equal_fold ''target_host'' ''tunnel_id''" "\<not> equal_fold ''tunnel_id'' ''target_port''" "\<not> equal_fold ''target_port'' ''tunnel_id''"
  "\<not> equal_fold ''target_host'' ''target_port''" "\<not> equal_fold ''target_port'' ''target_host''"
  "\<not> equal_fold ''hop_id'' ''inbound_tunnel_id''" "\<not> equal_fold ''inbound_tunnel_id'' ''hop_id''"
  by (simp_all add: equal_fold_def to_lower_def lower_char_def)

section \<open>Bridges\<close>

lemma tunnel_payload_data [simp]: "tunnel_payload (Some (tunnelData tid d)) = Some (tid, d)"
  by (simp add: tunnel_payload_def tunnelData_def get_str_def)

lemma lenient_close [simp]: "lenient_str ''tunnel_id'' (Some (tunnelClose tid)) = tid"
  by (simp add: lenient_str_def tunnelClose_def get_str_def)

text \<open>Claim C28.
  A multi-hop bridge: once it is open, data of the origin's tunnel goes unchanged to the target under
  the target's tunnel ID, data of the target's tunnel goes back to the origin, and when either side
  closes, the other side is told and neither ID is bridged any more.\<close>

theorem hop_bridge_relays:
  assumes "c_conn c = Some True" "inID \<noteq> outID"
    and "c' = open_bridge P orig hop target host port inID outID c"
  shows "handleTunnelData P (Some (tunnelData inID d)) c' = Some (fst (sendRelay P target ''tunnel_data'' (tunnelData outID d) c'))
    \<and> handleTunnelData P (Some (tunnelData outID d)) c' = Some (fst (sendRelay P orig ''tunnel_data'' (tunnelData inID d) c'))
    \<and> (let c1 = handleCloseTunnel P (Some (tunnelClose inID)) c'; c2 = handleCloseTunnel P (Some (tunnelClose outID)) c' in
       c1 = sendTunnelClose P target outID (drop_bridge (length (c_bridges c)) c') \<and>
       c2 = sendTunnelClose P orig inID (drop_bridge (length (c_bridges c)) c') \<and>
       mget (c_hopBridgeByTunnel c1) inID = None \<and> mget (c_hopBridgeByTunnel c1) outID = None \<and>
       mget (c_hopBridgeByTunnel c2) inID = None \<and> mget (c_hopBridgeByTunnel c2) outID = None)"
proof -
  let ?b = "length (c_bridges c)"
  let ?br = "\<lparr>hb_HopID = hop, hb_InboundTunnelID = inID, hb_OutboundTunnelID = outID, hb_OriginPeerID = orig,
      hb_TargetPeerID = target, hb_LocalPort = 0, hb_ViaPeerID = [], hb_RemoteHost = [], hb_RemotePort = 0, hb_done = False\<rparr>"
  let ?c2 = "c\<lparr>c_bridges := c_bridges c @ [?br], c_hops := mput hop ?b (c_hops c),
      c_hopBridgeByTunnel := mput outID ?b (mput inID ?b (c_hopBridgeByTunnel c))\<rparr>"
  obtain c3 ok where s: "sendRelay P target ''open_tunnel'' (tunnelOpen outID host port) ?c2 = (c3, ok)" by fastforce
  have ok: "ok" using sendRelay_ok [of ?c2 P target "''open_tunnel''" "tunnelOpen outID host port"] assms(1) s by simp
  have c3: "c3 = fst (sendRelay P target ''open_tunnel'' (tunnelOpen outID host port) ?c2)" using s by simp
  have c': "c' = fst (sendRelay P orig ''hop_forward_accept'' (hopAccept hop inID) c3)"
    unfolding assms(3) using s ok by (simp add: open_bridge_def new_bridge_def Let_def)
  have maps: "c_hopBridgeByTunnel c' = mput outID ?b (mput inID ?b (c_hopBridgeByTunnel c))" "c_bridges c' = c_bridges c @ [?br]"
    unfolding c' c3 by simp_all
  have drop: "mget (c_hopBridgeByTunnel (drop_bridge ?b c')) inID = None" "mget (c_hopBridgeByTunnel (drop_bridge ?b c')) outID = None"
    by (simp_all add: drop_bridge_def maps Let_def nth_append)
  have data: "handleTunnelData P (Some (tunnelData inID d)) c' = Some (fst (sendRelay P target ''tunnel_data'' (tunnelData outID d) c'))"
    "handleTunnelData P (Some (tunnelData outID d)) c' = Some (fst (sendRelay P orig ''tunnel_data'' (tunnelData inID d) c'))"
    using assms(2) by (simp_all add: handleTunnelData_def maps bridge_peer_def)
  have close: "handleCloseTunnel P (Some (tunnelClose inID)) c' = sendTunnelClose P target outID (drop_bridge ?b c')"
    "handleCloseTunnel P (Some (tunnelClose outID)) c' = sendTunnelClose P orig inID (drop_bridge ?b c')"
    using assms(2) by (simp_all add: handleCloseTunnel_def maps bridge_peer_def)
  show ?thesis unfolding close Let_def using data drop by (simp add: sendTunnelClose_def)
qed

theorem hop_bridge_relays_witness:
  "handleTunnelData prims0 (Some (tunnelData ''o'' ''d''))
     (open_bridge prims0 ''a'' ''h'' ''c'' ''localhost'' 80 ''i'' ''o'' (cli_with ''b'' []))
   = Some (fst (sendRelay prims0 ''a'' ''tunnel_data'' (tunnelData ''i'' ''d'')
       (open_bridge prims0 ''a'' ''h'' ''c'' ''localhost'' 80 ''i'' ''o'' (cli_with ''b'' []))))"
  using hop_bridge_relays [of "cli_with ''b'' []" "''i''" "''o''", OF _ _ refl, of prims0 "''d''" "''a''" "''h''" "''c''" "''localhost''" 80]
  by (simp add: cli_with_def)

section \<open>Connections that are not there\<close>

lemma foldM_None: "x \<in> set xs \<Longrightarrow> (\<And>s. f x s = None) \<Longrightarrow> foldM f xs s = None"
  by (induction xs arbitrary: s) (auto split: Option.bind_splits)

text \<open>Stopping forwards leaves tunnels without a forward alone.\<close>

lemma StopForward_keeps:
  assumes "StopForward port c = Some (c', b)" "(tid, tc) \<in> set (c_tunnels c)" "mwf (c_tunnels c)" "tc_Forward tc = None"
  shows "(tid, tc) \<in> set (c_tunnels c') \<and> mwf (c_tunnels c')"
proof (cases "mget (c_forwards c) port")
  case None
  then show ?thesis using assms by (simp add: StopForward_def)
next
  case (Some f)
  let ?g = "\<lambda>(tid, tc) c. if tc_Forward tc = Some (f_id f)
      then do { c' \<leftarrow> tcp_close (tc_Conn tc) c; Some (c'\<lparr>c_tunnels := mdel tid (c_tunnels c')\<rparr>) } else Some c"
  let ?c1 = "c\<lparr>c_forwards := mdel port (c_forwards c)\<rparr>"
  have run: "foldM ?g (c_tunnels ?c1) ?c1 = Some c'"
    using assms(1) Some by (auto simp: StopForward_def split: Option.bind_splits)
  show ?thesis
  proof (rule foldM_keeps [OF run, where P = "\<lambda>d. (tid, tc) \<in> set (c_tunnels d) \<and> mwf (c_tunnels d)"])
    show "(tid, tc) \<in> set (c_tunnels ?c1) \<and> mwf (c_tunnels ?c1)" using assms(2,3) by simp
    fix x d e assume x: "x \<in> set (c_tunnels ?c1)" "?g x d = Some e" "(tid, tc) \<in> set (c_tunnels d) \<and> mwf (c_tunnels d)"
    obtain t u where xt: "x = (t, u)" by (cases x)
    show "(tid, tc) \<in> set (c_tunnels e) \<and> mwf (c_tunnels e)"
    proof (cases "tc_Forward u = Some (f_id f)")
      case True
      then have "(t, u) \<noteq> (tid, tc)" using assms(4) by auto
      moreover have "(t, u) \<in> set (c_tunnels c)" using x(1) xt by simp
      ultimately have "t \<noteq> tid" using eq_key_imp_eq_value [OF assms(3), of t u tc] assms(2) by auto
      moreover have "c_tunnels e = mdel t (c_tunnels d)"
        using x(2) True xt by (auto simp: tcp_close_def split: option.splits Option.bind_splits)
      ultimately show ?thesis using x(3) by (simp add: mem_mdel)
    next
      case False
      then show ?thesis using x(2,3) xt by simp
    qed
  qed
qed

lemma Disconnect_nil:
  assumes "(tid, tc) \<in> set (c_tunnels c)" "mwf (c_tunnels c)" "tc_Forward tc = None" "tc_Conn tc = None" "\<not> c_done c"
  shows "Disconnect P c = None"
proof -
  let ?stop = "\<lambda>port c. map_option fst (StopForward port c)"
  let ?close = "\<lambda>(tid, tc) c. do { c' \<leftarrow> tcp_close (tc_Conn tc) c; Some (c'\<lparr>c_tunnels := mdel tid (c_tunnels c')\<rparr>) }"
  let ?c0 = "tunCleanup P (c\<lparr>c_done := True\<rparr>)"
  have c0: "c_tunnels ?c0 = c_tunnels c" by (subst tunCleanup_other [where f = c_tunnels]) simp_all
  have "foldM ?close (c_tunnels c1) c1 = None" if "foldM ?stop ps ?c0 = Some c1" for c1 ps
  proof -
    have "(tid, tc) \<in> set (c_tunnels c1) \<and> mwf (c_tunnels c1)"
      by (rule foldM_keeps [OF that]) (use assms c0 StopForward_keeps in \<open>auto simp: map_option_case split: option.splits prod.splits\<close>)
    then show ?thesis using assms(4) by (intro foldM_None [of "(tid, tc)"]) (auto simp: tcp_close_def)
  qed
  then show ?thesis
    using assms(5) by (cases "foldM ?stop (map fst (c_forwards ?c0)) ?c0") (simp_all add: Disconnect_def Let_def)
qed

text \<open>The entry that a connection to a forwarded port leaves in \<^verbatim>\<open>c.tunnels\<close>.\<close>

lemma upd_forward_tunnels [simp]:
  "c_tunnels (upd_forward i g c) = c_tunnels c" "c_done (upd_forward i g c) = c_done c" "c_fwdNetstacks (upd_forward i g c) = c_fwdNetstacks c"
  "c_hopBridgeByTunnel (upd_forward i g c) = c_hopBridgeByTunnel c"
  by (simp_all add: upd_forward_def split: option.splits)

lemma accept_conn_shape:
  assumes "c_conn c = Some True" "nsOk"
  shows "\<exists>vport. mget (c_tunnels (accept_conn P f k nsOk c)) (ns_id vport) = Some (new_tunnelConn (ns_id vport) (f_PeerID f) None)
    \<and> (mwf (c_tunnels c) \<longrightarrow> mwf (c_tunnels (accept_conn P f k nsOk c))) \<and> c_done (accept_conn P f k nsOk c) = c_done c
    \<and> c_fwdNetstacks (accept_conn P f k nsOk c) = c_fwdNetstacks (fst (getOrCreateFwdNetstack (f_PeerID f) True nsOk c))
    \<and> c_hopBridgeByTunnel (accept_conn P f k nsOk c) = c_hopBridgeByTunnel c"
proof -
  have "\<exists>ns. getOrCreateFwdNetstack (f_PeerID f) True nsOk c = (c\<lparr>c_fwdNetstacks := ns\<rparr>, True)"
    using assms(2) by (cases "mget (c_fwdNetstacks c) (f_PeerID f)") (auto simp: getOrCreateFwdNetstack_def intro: exI [of _ "c_fwdNetstacks c"])
  then obtain c1 where g: "getOrCreateFwdNetstack (f_PeerID f) True nsOk c = (c1, True)" "c_tunnels c1 = c_tunnels c" "c_done c1 = c_done c"
      "c_conn c1 = c_conn c" "c_hopBridgeByTunnel c1 = c_hopBridgeByTunnel c" by fastforce
  let ?v = "ucast (c_vport c1 + 1) :: u16"
  let ?c3 = "c1\<lparr>c_vport := c_vport c1 + 1, c_tunnels := mput (ns_id ?v) (new_tunnelConn (ns_id ?v) (f_PeerID f) None) (c_tunnels c1)\<rparr>"
  let ?m = "tunnelOpen (ns_id ?v) (f_RemoteHost f) (f_RemotePort f)"
  obtain c4 ok where s: "sendRelay P (f_PeerID f) ''open_tunnel'' ?m ?c3 = (c4, ok)" by fastforce
  have ok using sendRelay_ok [of ?c3 P "f_PeerID f" "''open_tunnel''" ?m] s g assms(1) by simp
  have "c4 = fst (sendRelay P (f_PeerID f) ''open_tunnel'' ?m ?c3)" using s by simp
  then have f: "c_tunnels c4 = mput (ns_id ?v) (new_tunnelConn (ns_id ?v) (f_PeerID f) None) (c_tunnels c)" "c_done c4 = c_done c"
      "c_fwdNetstacks c4 = c_fwdNetstacks c1" "c_hopBridgeByTunnel c4 = c_hopBridgeByTunnel c"
    using g by simp_all
  have "accept_conn P f k nsOk c = upd_forward (Some (f_id f)) (\<lambda>f. f\<lparr>f_ConnCount := f_ConnCount f + 1\<rparr>) c4"
    using g(1) s \<open>ok\<close> by (simp add: accept_conn_def nextVirtualPort_def Let_def)
  then show ?thesis using f g(1) by (intro exI [of _ ?v]) simp
qed

text \<open>A connection to a forwarded port waits for the peer's confirmation as a tunnel without a connection.
  If the peer never confirms, the entry stays when the wait is over, and disconnecting then calls
  \<open>Close\<close> on a nil connection: the client panics. So does a \<open>tunnel_data\<close> message for such an ID.\<close>

theorem unconfirmed_forward_panics:
  assumes "c_conn c = Some True" "nsOk" "mwf (c_tunnels c)" "\<not> c_done c" "c_hopBridgeByTunnel c = []"
    and "c' = bridge_ends f k (accept_conn P f k nsOk c)"
  shows "Disconnect P'' c' = None \<and>
    (\<exists>tid \<in> mkeys (c_tunnels c'). handleTunnelData P' (Some (tunnelData tid (b64_enc (0 # d)))) c' = None)"
proof -
  let ?a = "accept_conn P f k nsOk c"
  obtain vport where a: "mget (c_tunnels ?a) (ns_id vport) = Some (new_tunnelConn (ns_id vport) (f_PeerID f) None)"
      "mwf (c_tunnels ?a)" "\<not> c_done ?a" "c_hopBridgeByTunnel ?a = []"
    using accept_conn_shape [OF assms(1,2), of P f k] assms(3,4,5) by auto
  let ?tc = "new_tunnelConn (ns_id vport) (f_PeerID f) None"
  have c': "c_tunnels c' = c_tunnels ?a" "c_done c' = c_done ?a" "c_hopBridgeByTunnel c' = []"
    unfolding assms(6) using a(4) by (simp_all add: bridge_ends_def)
  have mem: "(ns_id vport, ?tc) \<in> set (c_tunnels c')" using a(1) c'(1) by (simp add: map_of_SomeD)
  have "Disconnect P'' c' = None"
    by (rule Disconnect_nil [OF mem]) (use a c' in \<open>auto simp: new_tunnelConn_def\<close>)
  moreover have "handleTunnelData P' (Some (tunnelData (ns_id vport) (b64_enc (0 # d)))) c' = None"
    using a(1) c' by (simp add: handleTunnelData_def Decompress_def write_relayed_def new_tunnelConn_def tcp_write_def del: b64_enc.simps)
  ultimately show ?thesis using mem by (auto intro: rev_bexI)
qed

definition forward_example :: forward where
  "forward_example = \<lparr>f_id = 1, f_LocalPort = 8080, f_RemoteHost = ''localhost'', f_RemotePort = 80, f_PeerID = ''b'', f_PeerName = ''b'',
     f_ConnCount = 0, f_cancelled = False, f_ForceRelay = False, f_BytesUp = 0, f_BytesDown = 0, f_LastUp = 0, f_LastDown = 0\<rparr>"

theorem unconfirmed_forward_panics_witness:
  "Disconnect prims0 (bridge_ends forward_example 5 (accept_conn prims0 forward_example 5 True (cli_with ''a'' []))) = None"
  using unconfirmed_forward_panics [of "cli_with ''a'' []" True _ forward_example 5 prims0 prims0 prims0 "[]", OF _ _ _ _ _ refl] by (simp add: cli_with_def)

text \<open>The duplicate filter of relayed data compares contents, not positions: once a tunnel has it (after its
  first datagram over UDP), a chunk with the same bytes as an earlier one is taken for a duplicate
  and never written, so a stream that repeats itself loses data.\<close>

theorem relayed_repetition_is_lost:
  assumes "mget (c_hopBridgeByTunnel c) tid = None" "mget (c_tunnels c) tid = Some tc" "tc_TunnelID tc = tid"
    and "tc_Conn tc = Some k" "tc_RelayDedup tc = Some seen" "simpleHash d \<notin> set seen" "tc_Forward tc = None"
    and "handleTunnelData P (Some (tunnelData tid (b64_enc (0 # d)))) c = Some c1"
    and "handleTunnelData P (Some (tunnelData tid (b64_enc (0 # d)))) c1 = Some c2"
  shows "c_tcp c1 = c_tcp c @ [(k, d)] \<and> c_tcp c2 = c_tcp c @ [(k, d)]"
proof -
  let ?tc = "tc\<lparr>tc_RelayDedup := Some (simpleHash d # seen)\<rparr>"
  have c1: "c1 = c\<lparr>c_tunnels := mput tid ?tc (c_tunnels c), c_tcp := c_tcp c @ [(k, d)]\<rparr>"
    using assms(1-8) by (simp add: handleTunnelData_def Decompress_def write_relayed_def tcp_write_def add_down_def upd_forward_def Let_def)
  then have "c2 = c1" using assms(1,9) by (simp add: handleTunnelData_def Decompress_def write_relayed_def)
  then show ?thesis using c1 by simp
qed

theorem relayed_repetition_is_lost_witness:
  "\<exists>c1 c2. handleTunnelData prims0 (Some (tunnelData ''t'' (b64_enc [0, 65]))) ((cli_with ''a'' [])\<lparr>c_tunnels :=
        [(''t'', (new_tunnelConn ''t'' ''b'' (Some 3))\<lparr>tc_RelayDedup := Some []\<rparr>)]\<rparr>) = Some c1 \<and>
     handleTunnelData prims0 (Some (tunnelData ''t'' (b64_enc [0, 65]))) c1 = Some c2 \<and> c_tcp c2 = [(3, [65])]"
proof -
  let ?tc = "(new_tunnelConn ''t'' ''b'' (Some 3))\<lparr>tc_RelayDedup := Some []\<rparr>"
  let ?c = "(cli_with ''a'' [])\<lparr>c_tunnels := [(''t'', ?tc)]\<rparr>"
  let ?h = "handleTunnelData prims0 (Some (tunnelData ''t'' (b64_enc [0, 65])))"
  note defs = handleTunnelData_def cli_with_def Decompress_def write_relayed_def new_tunnelConn_def tcp_write_def add_down_def
    upd_forward_def Let_def
  have "\<exists>c1 c2. ?h ?c = Some c1 \<and> ?h c1 = Some c2" by (simp add: defs del: b64_enc.simps)
  then obtain c1 c2 where c: "?h ?c = Some c1" "?h c1 = Some c2" by blast
  then have "c_tcp c2 = [(3, [65])]"
    using relayed_repetition_is_lost [of ?c "''t''" ?tc 3 "[]" "[65]" prims0 c1 c2] by (simp add: cli_with_def new_tunnelConn_def del: b64_enc.simps)
  with c show ?thesis by blast
qed

text \<open>The userspace stack of a peer is created once, for the direction that comes first. After this client
  has connected to a port it forwards to the peer, the peer's own requests are confirmed and registered,
  but on a stack without a handler for incoming connections, which refuses them all.\<close>

theorem second_direction_is_refused:
  assumes "c_conn c = Some True" "nsOk" "mget (c_fwdNetstacks c) (f_PeerID f) = None"
    and "c' = open_tunnel P' (f_PeerID f) tid host port nsOk' dial (accept_conn P f k nsOk c)"
  shows "\<exists>fn. mget (c_fwdNetstacks c') (f_PeerID f) = Some fn \<and> handleIncoming fn v = None"
proof -
  let ?a = "accept_conn P f k nsOk c"
  have "c_fwdNetstacks ?a = mput (f_PeerID f) \<lparr>fn_initiator = True, fn_portMap = [], fn_filePortMap = [], fn_injected = []\<rparr> (c_fwdNetstacks c)"
    using accept_conn_shape [OF assms(1,2), of P f k] assms(2,3) by (auto simp: getOrCreateFwdNetstack_def)
  then obtain fn where fn: "mget (c_fwdNetstacks ?a) (f_PeerID f) = Some fn" "fn_initiator fn" by simp
  have "\<exists>fn'. mget (c_fwdNetstacks c') (f_PeerID f) = Some fn' \<and> fn_initiator fn'"
    unfolding assms(4) using fn
    by (auto simp: open_tunnel_def getOrCreateFwdNetstack_def RegisterTarget_def sendTunnelClose_def Let_def split: option.splits)
  then show ?thesis by (auto simp: handleIncoming_def)
qed

theorem second_direction_is_refused_witness:
  "\<exists>fn. mget (c_fwdNetstacks (open_tunnel prims0 ''b'' ''ns:10001'' ''localhost'' 22 True None
       (accept_conn prims0 forward_example 5 True (cli_with ''a'' [])))) ''b'' = Some fn \<and> handleIncoming fn 10001 = None"
  using second_direction_is_refused [of "cli_with ''a'' []" True forward_example, OF _ _ _ refl, of prims0 "''ns:10001''" "''localhost''" 22 True None prims0 5 10001]
  by (simp add: cli_with_def forward_example_def)

text \<open>The peer that accepts a multi-hop forward can crash the client that asked for it: a tunnel ID of fewer
  than eight bytes in \<open>hop_forward_accept\<close> is sliced by the log message.\<close>

theorem short_hop_accept_panics:
  assumes "mget (c_hops c) hop = Some b"
  shows "(handleHopForwardAccept q (Some (hopAccept hop tid)) c = None) = (length tid < 8)"
  using assms by (auto simp: handleHopForwardAccept_def hopAccept_def get_str_def slice_def)

theorem short_hop_accept_panics_witness:
  "handleHopForwardAccept ''b'' (Some (hopAccept ''h'' ''x'')) ((cli_with ''a'' [])\<lparr>c_hops := [(''h'', 0)]\<rparr>) = None"
  using short_hop_accept_panics [of "(cli_with ''a'' [])\<lparr>c_hops := [(''h'', 0)]\<rparr>" "''h''" 0 "''b''" "''x''"] by simp

end
