(* ===== verification/Datagrams.thy ===== *)
theory Datagrams
  imports Tunnel
begin

text \<open>
  The UDP side of a client, \<^verbatim>\<open>udpReadLoop\<close> of \<^verbatim>\<open>src/client/core/stun.go\<close>: how a datagram is classified and what
  is done with it, and the framing of direct TCP connections (\<^verbatim>\<open>directTCPReadLoop\<close>).

  Datagrams of the VPN, of speed tests and of file transfers, and the signal messages of the latter two,
  leave this theory as an \<open>upcall\<close>, which \<open>Dispatch\<close> runs. A panic is \<open>None\<close>.
\<close>

section \<open>Classification\<close>

datatype dgram =
    DPunch string
  | DPunchAck string
  | DKey string bytes
  | DKeyAck string bytes
  | DPing
  | DFn bytes
  | DVpn bytes
  | DSt bytes
  | DSf bytes
  | DSm string bytes
  | DTf string bytes
  | DTunnel string bytes
  | DLegacy string bytes
  | DIgnored

definition bpre :: "bytes \<Rightarrow> string \<Rightarrow> bool" where
  "bpre d s \<longleftrightarrow> take (length s) d = str_bytes s"

text \<open>\<^verbatim>\<open>bytes.IndexByte\<close> for a colon.\<close>

definition colon :: byte where "colon = 58"

fun index_colon :: "bytes \<Rightarrow> nat option" where
  "index_colon [] = None"
| "index_colon (b # bs) = (if b = colon then Some 0 else map_option Suc (index_colon bs))"

text \<open>\<^verbatim>\<open><peerID>:<32-byte-pubkey>\<close>.\<close>

definition key_fields :: "bytes \<Rightarrow> (string \<times> bytes) option" where
  "key_fields rest = (case index_colon rest of None \<Rightarrow> None
     | Some idx \<Rightarrow> if idx > 0 \<and> idx + 32 < length rest \<and> length (drop (idx + 1) rest) = 32
                   then Some (bytes_str (take idx rest), drop (idx + 1) rest) else None)"

definition sm_fields :: "bytes \<Rightarrow> (string \<times> bytes) option" where
  "sm_fields rest = (case index_colon rest of None \<Rightarrow> None
     | Some idx \<Rightarrow> if idx > 0 \<and> idx < length rest - 1 then Some (bytes_str (take idx rest), drop (idx + 1) rest) else None)"

definition classify :: "bytes \<Rightarrow> dgram" where
  "classify d =
     (if bpre d ''PUNCH:'' \<and> \<not> bpre d ''PUNCH_ACK:'' then DPunch (bytes_str (drop 6 d))
      else if bpre d ''PUNCH_ACK:'' then DPunchAck (bytes_str (drop 10 d))
      else if bpre d ''KEY:'' \<and> \<not> bpre d ''KEY_ACK:''
      then (case key_fields (drop 4 d) of Some (i, k) \<Rightarrow> DKey i k | None \<Rightarrow> DIgnored)
      else if bpre d ''KEY_ACK:''
      then (case key_fields (drop 8 d) of Some (i, k) \<Rightarrow> DKeyAck i k | None \<Rightarrow> DIgnored)
      else if d = str_bytes ''PING'' then DPing
      else if length d > 3 \<and> bpre d ''FN:'' then DFn (drop 3 d)
      else if length d > 4 \<and> bpre d ''VPN:'' then DVpn (drop 4 d)
      else if length d > 3 \<and> bpre d ''ST:'' then DSt (drop 3 d)
      else if length d > 3 \<and> bpre d ''SF:'' then DSf (drop 3 d)
      else if length d > 3 \<and> bpre d ''SM:''
      then (case sm_fields (drop 3 d) of Some (t, p) \<Rightarrow> DSm t p | None \<Rightarrow> DIgnored)
      else if length d > 11 \<and> bpre d ''TF:'' then DTf (tunnelIDFromBytes (take 8 (drop 3 d))) (drop 11 d)
      else if length d > 9 \<and> hd d = 0 then DTunnel (tunnelIDFromBytes (take 8 (drop 1 d))) (drop 9 d)
      else if length d > 8 then DLegacy (tunnelIDFromBytes (take 8 d)) (drop 8 d)
      else DIgnored)"

text \<open>The datagrams as their senders build them: \<^verbatim>\<open>attemptHolePunch\<close>, \<^verbatim>\<open>sendKeyExchange\<close>, \<^verbatim>\<open>handleKeyExchange\<close>, the
  keepalive, \<^verbatim>\<open>sendPacket\<close>, the senders of VPN packets, speed tests, files and signals, and \<^verbatim>\<open>tunnelReadUDP\<close>.\<close>

fun build :: "dgram \<Rightarrow> bytes" where
  "build (DPunch i) = str_bytes (''PUNCH:'' @ i)"
| "build (DPunchAck i) = str_bytes (''PUNCH_ACK:'' @ i)"
| "build (DKey i k) = str_bytes (''KEY:'' @ i @ '':'') @ k"
| "build (DKeyAck i k) = str_bytes (''KEY_ACK:'' @ i @ '':'') @ k"
| "build DPing = str_bytes ''PING''"
| "build (DFn d) = str_bytes ''FN:'' @ d"
| "build (DVpn d) = str_bytes ''VPN:'' @ d"
| "build (DSt d) = str_bytes ''ST:'' @ d"
| "build (DSf d) = str_bytes ''SF:'' @ d"
| "build (DSm t p) = str_bytes (''SM:'' @ t @ '':'') @ p"
| "build (DTf t f) = str_bytes ''TF:'' @ tunnelIDToBytes t @ f"
| "build (DTunnel t d) = [0] @ tunnelIDToBytes t @ d"
| "build (DLegacy t d) = tunnelIDToBytes t @ d"
| "build DIgnored = []"

section \<open>Handling\<close>

datatype upcall = UpVPN bytes string | UpSpeed bytes | UpFile bytes | UpSignal string string bytes

definition findPeerByUDPAddr :: "cli \<Rightarrow> endpoint \<Rightarrow> string" where
  "findPeerByUDPAddr c addr = (case find (\<lambda>(i, pc). pc_UDPAddr pc = Some addr) (c_peerConns c) of Some (i, pc) \<Rightarrow> i | None \<Rightarrow> [])"

definition handleUDPTunnelData :: "string \<Rightarrow> bytes \<Rightarrow> cli \<Rightarrow> cli option" where
  "handleUDPTunnelData tid data c = (case mget (c_tunnels c) tid of None \<Rightarrow> Some c
     | Some tc \<Rightarrow> tcp_write tc data (add_down tc data c))"

text \<open>A data frame for a tunnel: the receiver is created on demand, filters duplicates and hands the
  payload to the connection.\<close>

definition tf_receiver :: "bytes \<Rightarrow> cli \<Rightarrow> tunnelConn \<Rightarrow> tunnelConn" where
  "tf_receiver idb c tc = (if tc_RutpRecv tc = None \<and> c_udpConn c
     then tc\<lparr>tc_RutpRecv := Some (newRutpReceiver (str_bytes ''TF:'' @ idb)),
             tc_RelayDedup := (case tc_RelayDedup tc of None \<Rightarrow> Some [] | Some s \<Rightarrow> Some s)\<rparr>
     else tc)"

definition recv_data :: "prims \<Rightarrow> string \<Rightarrow> bytes \<Rightarrow> u32 \<Rightarrow> bytes \<Rightarrow> cli \<Rightarrow> cli option" where
  "recv_data P tid idb seq payload c = (case mget (c_tunnels c) tid of None \<Rightarrow> Some c
     | Some tc0 \<Rightarrow>
        (let tc = tf_receiver idb c tc0 in
         case tc_RutpRecv tc of
           None \<Rightarrow> Some (c\<lparr>c_tunnels := mput tid tc (c_tunnels c)\<rparr>)
         | Some r \<Rightarrow>
            (let (deduped, r') = rutp_OnData seq payload r; tc1 = tc\<lparr>tc_RutpRecv := Some r'\<rparr> in
             if deduped = [] then Some (c\<lparr>c_tunnels := mput tid tc1 (c_tunnels c)\<rparr>)
             else
               (let raw = (case Decompress (p_inflate P) deduped of None \<Rightarrow> deduped | Some raw \<Rightarrow> raw);
                    tc2 = tc1\<lparr>tc_RelayDedup := map_option (\<lambda>s. simpleHash raw # s) (tc_RelayDedup tc1)\<rparr>
                in tcp_write tc2 raw (add_down tc2 raw (c\<lparr>c_tunnels := mput tid tc2 (c_tunnels c)\<rparr>))))))"

definition recv_ack :: "string \<Rightarrow> u32 \<Rightarrow> cli \<Rightarrow> cli" where
  "recv_ack tid seq c = (case mget (c_tunnels c) tid of None \<Rightarrow> c
     | Some tc \<Rightarrow> c\<lparr>c_tunnels := mput tid (tc\<lparr>tc_RutpSender := map_option (rutp_OnACK seq) (tc_RutpSender tc)\<rparr>) (c_tunnels c)\<rparr>)"

definition recv_tf :: "prims \<Rightarrow> string \<Rightarrow> bytes \<Rightarrow> bytes \<Rightarrow> cli \<Rightarrow> cli option" where
  "recv_tf P tid idb frame c = do {
     r \<leftarrow> rutpParseFrame frame;
     case r of RutpBad \<Rightarrow> Some c
     | RutpFrame typ seq payload \<Rightarrow>
        if typ = rutpACK then Some (recv_ack tid seq c)
        else if typ = rutpDATA then recv_data P tid idb seq payload c
        else Some c }"

text \<open>One datagram of the loop.\<close>

definition udp_recv :: "prims \<Rightarrow> punchEnv \<Rightarrow> bytes \<Rightarrow> endpoint \<Rightarrow> cli \<Rightarrow> (cli \<times> upcall list) option" where
  "udp_recv P e d addr c = (case classify d of
       DPunch i \<Rightarrow> Some (udpWrite (str_bytes (''PUNCH_ACK:'' @ c_MyID c)) addr (onHolePunchSuccess P e i addr c), [])
     | DPunchAck i \<Rightarrow> Some (onHolePunchSuccess P e i addr c, [])
     | DKey i k \<Rightarrow> Some (handleKeyExchange P e i k addr c, [])
     | DKeyAck i k \<Rightarrow> Some (handleKeyExchange P e i k addr c, [])
     | DPing \<Rightarrow> Some (c, [])
     | DFn z \<Rightarrow> Some (case Decompress (p_inflate P) z of None \<Rightarrow> c | Some raw \<Rightarrow> handleFwdNetstackPacket raw addr c, [])
     | DVpn z \<Rightarrow> Some (c, case Decompress (p_inflate P) z of None \<Rightarrow> [] | Some raw \<Rightarrow> [UpVPN raw (findPeerByUDPAddr c addr)])
     | DSt z \<Rightarrow> Some (c, case Decompress (p_inflate P) z of None \<Rightarrow> [] | Some raw \<Rightarrow> [UpSpeed raw])
     | DSf z \<Rightarrow> Some (c, case Decompress (p_inflate P) z of None \<Rightarrow> [] | Some raw \<Rightarrow> [UpFile raw])
     | DSm t p \<Rightarrow> Some (c, if findPeerByUDPAddr c addr = [] then [] else [UpSignal t (findPeerByUDPAddr c addr) p])
     | DTf t f \<Rightarrow> map_option (\<lambda>c. (c, [])) (recv_tf P t (take 8 (drop 3 d)) f c)
     | DTunnel t z \<Rightarrow> map_option (\<lambda>c. (c, [])) (handleUDPTunnelData t z c)
     | DLegacy t z \<Rightarrow> map_option (\<lambda>c. (c, [])) (handleUDPTunnelData t z c)
     | DIgnored \<Rightarrow> Some (c, []))"

section \<open>Direct TCP\<close>

text \<open>The frames that \<^verbatim>\<open>directTCPReadLoop\<close> reads from a stream before it stops at its end or at a bad length.\<close>

function direct_frames :: "bytes \<Rightarrow> (string \<times> bytes) list" where
  "direct_frames s =
     (if length s < 12 then []
      else
        (let dataLen = unat (be32 (s ! 8) (s ! 9) (s ! 10) (s ! 11)) in
         if dataLen \<le> 0 \<or> dataLen > 512 * 1024 then []
         else if length s < 12 + dataLen then []
         else (tunnelIDFromBytes (take 8 s), take dataLen (drop 12 s)) # direct_frames (drop (12 + dataLen) s)))"
  by pat_completeness auto
termination by (relation "measure length") auto

declare direct_frames.simps [simp del]

definition directTCP_frame :: "prims \<Rightarrow> string \<times> bytes \<Rightarrow> cli \<Rightarrow> cli option" where
  "directTCP_frame P = (\<lambda>(tid, compressed) c.
     (let data = (case Decompress (p_inflate P) compressed of None \<Rightarrow> compressed | Some d \<Rightarrow> d) in
      case mget (c_tunnels c) tid of None \<Rightarrow> Some c | Some tc \<Rightarrow> tcp_write tc data (add_down tc data c)))"

definition directTCPReadLoop :: "prims \<Rightarrow> bytes \<Rightarrow> cli \<Rightarrow> cli option" where
  "directTCPReadLoop P s c = foldM (directTCP_frame P) (direct_frames s) c"

text \<open>The greeting of a direct connection, \<^verbatim>\<open>STUNMAX:<peerID>\<close>, in \<^verbatim>\<open>startDirectTCPListener\<close>.\<close>

definition direct_greeting :: "string \<Rightarrow> conn \<Rightarrow> cli \<Rightarrow> cli" where
  "direct_greeting text k c =
     (let line = trim_space text in
      if \<not> has_prefix line ''STUNMAX:'' then c\<lparr>c_closed := c_closed c @ [k]\<rparr>
      else
        (let peerID = trim_space (trim_prefix line ''STUNMAX:'') in
         case mget (c_peerConns c) peerID of
           Some pc \<Rightarrow> if pc_DirectTCP pc = None
                      then c\<lparr>c_peerConns := mput peerID (pc\<lparr>pc_DirectTCP := Some k\<rparr>) (c_peerConns c)\<rparr>
                      else c\<lparr>c_closed := c_closed c @ [k]\<rparr>
         | None \<Rightarrow> c\<lparr>c_closed := c_closed c @ [k]\<rparr>))"

section \<open>Identifiers on the wire\<close>

lemma tunnelID_roundtrip: "length b = 8 \<Longrightarrow> tunnelIDToBytes (tunnelIDFromBytes b) = b"
  by (simp add: tunnelIDToBytes_def tunnelIDFromBytes_def)

lemma length_tunnelIDToBytes [simp]: "length (tunnelIDToBytes i) = 8"
  by (auto simp: tunnelIDToBytes_def Let_def split: option.splits)

text \<open>The IDs that clients generate: the hexadecimal text of eight bytes.\<close>

definition wire_id :: "string \<Rightarrow> bool" where
  "wire_id t \<longleftrightarrow> tunnelIDFromBytes (tunnelIDToBytes t) = t"

lemma wire_id_generated: "length rnd = 8 \<Longrightarrow> wire_id (generateTunnelID rnd)"
  using tunnelID_roundtrip [of rnd] by (simp add: wire_id_def generateTunnelID_def tunnelIDFromBytes_def)

section \<open>Classification inverts building\<close>

lemma str_bytes_Cons [simp]: "str_bytes (ch # s) = of_nat (of_char ch) # str_bytes s" "str_bytes [] = []"
  by (simp_all add: str_bytes_def)

lemma str_bytes_eq_iff: "str_bytes s = str_bytes t \<longleftrightarrow> s = t"
  by (metis bytes_str_str_bytes)

lemma colon_char: "of_nat (of_char ch) = colon \<longleftrightarrow> ch = CHR '':''"
proof -
  have "(of_nat (of_char ch) :: byte) = of_nat (of_char CHR '':'') \<longleftrightarrow> ch = CHR '':''"
    using str_bytes_eq_iff [of "[ch]" "'':''"] by simp
  then show ?thesis by (simp add: colon_def)
qed

lemma index_colon_append: "CHR '':'' \<notin> set s \<Longrightarrow> index_colon (str_bytes s @ colon # rest) = Some (length s)"
  by (induction s) (auto simp: colon_char)

lemma key_fields_build: "i \<noteq> [] \<Longrightarrow> CHR '':'' \<notin> set i \<Longrightarrow> length k = 32 \<Longrightarrow> key_fields (str_bytes i @ colon # k) = Some (i, k)"
  by (simp add: key_fields_def index_colon_append)

lemma sm_fields_build: "t \<noteq> [] \<Longrightarrow> CHR '':'' \<notin> set t \<Longrightarrow> q \<noteq> [] \<Longrightarrow> sm_fields (str_bytes t @ colon # q) = Some (t, q)"
  by (simp add: sm_fields_def index_colon_append)

fun dgram_ok :: "dgram \<Rightarrow> bool" where
  "dgram_ok (DKey i k) \<longleftrightarrow> i \<noteq> [] \<and> CHR '':'' \<notin> set i \<and> length k = 32"
| "dgram_ok (DKeyAck i k) \<longleftrightarrow> i \<noteq> [] \<and> CHR '':'' \<notin> set i \<and> length k = 32"
| "dgram_ok (DFn d) \<longleftrightarrow> d \<noteq> []"
| "dgram_ok (DVpn d) \<longleftrightarrow> d \<noteq> []"
| "dgram_ok (DSt d) \<longleftrightarrow> d \<noteq> []"
| "dgram_ok (DSf d) \<longleftrightarrow> d \<noteq> []"
| "dgram_ok (DSm t q) \<longleftrightarrow> t \<noteq> [] \<and> CHR '':'' \<notin> set t \<and> q \<noteq> []"
| "dgram_ok (DTf t f) \<longleftrightarrow> wire_id t \<and> f \<noteq> []"
| "dgram_ok (DTunnel t d) \<longleftrightarrow> wire_id t \<and> d \<noteq> []"
| "dgram_ok (DLegacy t d) \<longleftrightarrow> False"
| "dgram_ok DIgnored \<longleftrightarrow> False"
| "dgram_ok _ \<longleftrightarrow> True"

lemma colon_literal: "(58 :: byte) = colon"
  by (simp add: colon_def)

lemma colon_other [simp]: "colon \<noteq> 95" "colon \<noteq> 0"
  by (simp_all add: colon_def)

lemma classify_build: "dgram_ok d \<Longrightarrow> classify (build d) = d"
proof (cases d)
  case (DKey i k)
  moreover assume "dgram_ok d"
  ultimately show ?thesis by (simp add: classify_def bpre_def colon_literal key_fields_build)
next
  case (DKeyAck i k)
  moreover assume "dgram_ok d"
  ultimately show ?thesis by (simp add: classify_def bpre_def colon_literal key_fields_build)
next
  case (DSm t q)
  moreover assume "dgram_ok d"
  ultimately show ?thesis by (simp add: classify_def bpre_def colon_literal sm_fields_build)
next
  case (DTf t f)
  moreover assume "dgram_ok d"
  ultimately show ?thesis by (simp add: classify_def bpre_def wire_id_def)
next
  case (DTunnel t f)
  moreover assume "dgram_ok d"
  ultimately show ?thesis by (simp add: classify_def bpre_def wire_id_def)
qed (simp_all add: classify_def bpre_def)

interpretation dgrams: codec build "\<lambda>b. Some (classify b)" dgram_ok
  by unfold_locales (simp add: classify_build)

text \<open>Claim C26.
  Every datagram a client builds, a punch, an answer to one, a key, a keepalive, a packet of a forward or
  of the VPN, a speed test or file chunk, a signal, tunnel data with or without the reliable transport, is
  classified by the receiver as what it is, with its fields; so datagrams of different kinds or contents
  are different.\<close>

theorem datagrams_distinguishable:
  assumes "dgram_ok d" "dgram_ok d'"
  shows "classify (build d) = d \<and> (build d = build d' \<longleftrightarrow> d = d')"
  using classify_build [OF assms(1)] dgrams.enc_inject [OF assms] by simp

theorem datagrams_distinguishable_witness:
  "classify (build (DKey ''a1'' (replicate 32 7))) = DKey ''a1'' (replicate 32 7)"
  using datagrams_distinguishable [of "DKey ''a1'' (replicate 32 7)" DPing] by simp

end
