(* ===== verification/Files.thy ===== *)
theory Files
  imports Tunnel
begin

text \<open>
  File transfers, \<^verbatim>\<open>src/client/core/filetransfer.go\<close>, and the receiving end of a file stream in
  \<^verbatim>\<open>src/client/core/forward_netstack.go\<close>. A file is sent as a stream through the userspace stack or, if that fails, as
  numbered chunks.

  \<^item> \<open>c_disk\<close> is the file system; the code writes a received file only at its end, and nothing else writes it.
    What the system refuses (opening, creating) is an argument; reads and writes succeed, and reads fill the buffer.
  \<^item> A transfer is an index into \<open>c_fts\<close>, the object that the map and the goroutines share.
  \<^item> The result \<open>None\<close> is a panic.
  \<^item> The rate limiter and the progress events have no effect on the state and are left out.
\<close>

section \<open>Checksums\<close>

text \<open>\<^verbatim>\<open>crc32.ChecksumIEEE\<close>, bit by bit, and its text \<^verbatim>\<open>%08x\<close>.\<close>

definition crc_bit :: "u32 \<Rightarrow> u32" where
  "crc_bit r = (if bit r 0 then drop_bit 1 r XOR 0xEDB88320 else drop_bit 1 r)"

definition crc_byte :: "byte \<Rightarrow> u32 \<Rightarrow> u32" where
  "crc_byte b r = (crc_bit ^^ 8) (r XOR ucast b)"

definition crc32 :: "bytes \<Rightarrow> u32" where
  "crc32 bs = NOT (fold crc_byte bs 0xFFFFFFFF)"

definition chunkCRC :: "bytes \<Rightarrow> string" where
  "chunkCRC bs = hex_enc (bytes32 (crc32 bs))"

definition file_hash :: "prims \<Rightarrow> bytes \<Rightarrow> string" where
  "file_hash P content = hex_enc (p_sha256 P content)"

definition hashFile :: "prims \<Rightarrow> string \<Rightarrow> cli \<Rightarrow> string option" where
  "hashFile P path c = map_option (file_hash P) (mget (c_disk c) path)"

section \<open>Messages\<close>

definition fileOffer :: "string \<Rightarrow> string \<Rightarrow> int \<Rightarrow> string \<Rightarrow> json" where
  "fileOffer tid name sz h = JObj [(''transfer_id'', JStr tid), (''file_name'', JStr name), (''file_size'', JNum sz), (''file_hash'', JStr h)]"

definition fileAccept :: "string \<Rightarrow> int \<Rightarrow> json" where
  "fileAccept tid off = JObj ((''transfer_id'', JStr tid) # (if off = 0 then [] else [(''offset'', JNum off)]))"

definition fileReject :: "string \<Rightarrow> string \<Rightarrow> json" where
  "fileReject tid reason = JObj [(''transfer_id'', JStr tid), (''reason'', JStr reason)]"

definition fileData :: "string \<Rightarrow> string \<Rightarrow> int \<Rightarrow> int \<Rightarrow> string \<Rightarrow> json" where
  "fileData tid d seq off h = JObj ([(''transfer_id'', JStr tid), (''data'', JStr d), (''seq'', JNum seq), (''offset'', JNum off)] @ omit_str ''chunk_hash'' h)"

definition fileDone :: "string \<Rightarrow> int \<Rightarrow> string \<Rightarrow> json" where
  "fileDone tid n h = JObj [(''transfer_id'', JStr tid), (''total_bytes'', JNum n), (''file_hash'', JStr h)]"

definition fileNack :: "string \<Rightarrow> int \<Rightarrow> int \<Rightarrow> json" where
  "fileNack tid seq off = JObj [(''transfer_id'', JStr tid), (''seq'', JNum seq), (''offset'', JNum off)]"

definition fileCancel :: "string \<Rightarrow> string \<Rightarrow> json" where
  "fileCancel tid reason = JObj [(''transfer_id'', JStr tid), (''reason'', JStr reason)]"

text \<open>\<^verbatim>\<open>append([]byte("SM:" + type + ":"), mustJSON(v)...)\<close>, sent over UDP or the relay.\<close>

definition file_signal :: "prims \<Rightarrow> string \<Rightarrow> string \<Rightarrow> json \<Rightarrow> cli \<Rightarrow> cli" where
  "file_signal P peer ty v c = sendViaP2P P peer (str_bytes (''SM:'' @ ty @ '':'') @ p_text P v) ty v c"

section \<open>Transfers\<close>

definition upd_ft :: "nat \<Rightarrow> (fileTransfer \<Rightarrow> fileTransfer) \<Rightarrow> cli \<Rightarrow> cli" where
  "upd_ft i g c = (if i < length (c_fts c) then c\<lparr>c_fts := (c_fts c)[i := g (c_fts c ! i)]\<rparr> else c)"

definition new_transfer :: "string \<Rightarrow> fileTransfer \<Rightarrow> cli \<Rightarrow> cli" where
  "new_transfer tid ft c = c\<lparr>c_fts := c_fts c @ [ft], c_fileTransfers := mput tid (length (c_fts c)) (c_fileTransfers c)\<rparr>"

text \<open>The last component of a path.\<close>

definition base_name :: "string \<Rightarrow> string" where
  "base_name path = last (split_on (CHR ''/'') path)"

text \<open>\<^verbatim>\<open>SendFile\<close> of a path of a regular file in the form \<^verbatim>\<open>dir/name\<close>; \<open>rnd\<close> gives the transfer ID.\<close>

definition SendFile :: "prims \<Rightarrow> string \<Rightarrow> string \<Rightarrow> bytes \<Rightarrow> cli \<Rightarrow> cli \<times> string option" where
  "SendFile P peerID filePath rnd c = (case resolvePeerID peerID c of Inl e \<Rightarrow> (c, None)
     | Inr fullID \<Rightarrow> (case mget (c_disk c) filePath of None \<Rightarrow> (c, None)
       | Some content \<Rightarrow>
          (let tid = generateTunnelID rnd; name = base_name filePath; sz = int (length content); h = file_hash P content;
               ft = \<lparr>ft_TransferID = tid, ft_PeerID = fullID, ft_PeerName = peerName c fullID, ft_FileName = name, ft_FileSize = sz, ft_FileHash = h,
                 ft_FilePath = filePath, ft_Direction = ''send'', ft_Status = ''pending'', ft_File = Some 0, ft_BytesDone = 0, ft_NackCh = Some [],
                 ft_RecvChunks = [], ft_done = False\<rparr>
           in (file_signal P fullID ''file_offer'' (fileOffer tid name sz h) (new_transfer tid ft c), Some tid))))"

text \<open>\<^verbatim>\<open>AcceptFile\<close>; \<open>ok\<close> says whether directory and file could be created. A shorter file under the path is taken for the
  beginning of this one.\<close>

definition AcceptFile :: "prims \<Rightarrow> string \<Rightarrow> string \<Rightarrow> bool \<Rightarrow> cli \<Rightarrow> cli \<times> bool" where
  "AcceptFile P tid savePath ok c = (case mget (c_fileTransfers c) tid of None \<Rightarrow> (c, False)
     | Some i \<Rightarrow>
        (let ft = c_fts c ! i in
         if ft_Direction ft \<noteq> ''receive'' \<or> ft_Status ft \<noteq> ''pending'' \<or> \<not> ok then (c, False)
         else
           (let present = (case mget (c_disk c) savePath of None \<Rightarrow> [] | Some d \<Rightarrow> d);
                off = (if 0 < length present \<and> int (length present) < ft_FileSize ft then int (length present) else 0);
                c1 = (if off > 0 then c else c\<lparr>c_disk := mput savePath [] (c_disk c)\<rparr>);
                c2 = upd_ft i (\<lambda>ft. ft\<lparr>ft_File := Some (nat off), ft_FilePath := savePath, ft_Status := ''active'', ft_BytesDone := off\<rparr>) c1
            in (file_signal P (ft_PeerID ft) ''file_accept'' (fileAccept tid off) c2, True))))"

definition RejectFile :: "prims \<Rightarrow> string \<Rightarrow> cli \<Rightarrow> cli \<times> bool" where
  "RejectFile P tid c = (case mget (c_fileTransfers c) tid of None \<Rightarrow> (c, False)
     | Some i \<Rightarrow> (fst (sendRelay P (ft_PeerID (c_fts c ! i)) ''file_reject'' (fileReject tid ''rejected by user'')
         (upd_ft i (\<lambda>ft. ft\<lparr>ft_done := True\<rparr>) (c\<lparr>c_fileTransfers := mdel tid (c_fileTransfers c)\<rparr>))), True))"

definition fail_ft :: "fileTransfer \<Rightarrow> fileTransfer" where
  "fail_ft ft = ft\<lparr>ft_Status := ''error'', ft_File := None, ft_done := True\<rparr>"

definition CancelFileTransfer :: "prims \<Rightarrow> string \<Rightarrow> cli \<Rightarrow> cli \<times> bool" where
  "CancelFileTransfer P tid c = (case mget (c_fileTransfers c) tid of None \<Rightarrow> (c, False)
     | Some i \<Rightarrow> (fst (sendRelay P (ft_PeerID (c_fts c ! i)) ''file_cancel'' (fileCancel tid ''cancelled'')
         (upd_ft i fail_ft (c\<lparr>c_fileTransfers := mdel tid (c_fileTransfers c)\<rparr>))), True))"

text \<open>\<^verbatim>\<open>FileTransfers\<close>: what the interface shows, without the rates.\<close>

definition file_infos :: "cli \<Rightarrow> (string \<times> string \<times> string \<times> string \<times> int \<times> int \<times> string \<times> string) list" where
  "file_infos c = map (\<lambda>(tid, i). let ft = c_fts c ! i in
     (ft_TransferID ft, ft_PeerID ft, ft_PeerName ft, ft_FileName ft, ft_FileSize ft, ft_BytesDone ft, ft_Direction ft, ft_Status ft)) (c_fileTransfers c)"

section \<open>Handlers\<close>

definition handleFileOffer :: "prims \<Rightarrow> string \<Rightarrow> json option \<Rightarrow> cli \<Rightarrow> cli" where
  "handleFileOffer P from' payload c =
     (if \<not> c_allowFileRecv c then fst (sendRelay P from' ''file_reject'' (fileReject [] ''file receive disabled'') c)
      else case payload of None \<Rightarrow> c
      | Some v \<Rightarrow>
         (let (kvs, ok0) = obj_members v; (tid, ok1) = get_str ''transfer_id'' kvs; (name, ok2) = get_str ''file_name'' kvs;
              (sz, ok3) = get_int ''file_size'' kvs; (h, ok4) = get_str ''file_hash'' kvs
          in if \<not> (ok0 \<and> ok1 \<and> ok2 \<and> ok3 \<and> ok4) then c
             else new_transfer tid \<lparr>ft_TransferID = tid, ft_PeerID = from', ft_PeerName = peerName c from', ft_FileName = name, ft_FileSize = sz,
               ft_FileHash = h, ft_FilePath = [], ft_Direction = ''receive'', ft_Status = ''pending'', ft_File = None, ft_BytesDone = 0, ft_NackCh = None,
               ft_RecvChunks = [], ft_done = False\<rparr> c))"

text \<open>The transfer for which \<^verbatim>\<open>handleFileAccept\<close> starts \<^verbatim>\<open>sendFileViaNetstack\<close>.\<close>

definition handleFileAccept :: "json option \<Rightarrow> cli \<Rightarrow> cli \<times> nat option" where
  "handleFileAccept payload c = (case payload of None \<Rightarrow> (c, None)
     | Some v \<Rightarrow>
        (let (kvs, ok0) = obj_members v; (tid, ok1) = get_str ''transfer_id'' kvs; (off, ok2) = get_int ''offset'' kvs in
         if \<not> (ok0 \<and> ok1 \<and> ok2) then (c, None)
         else case mget (c_fileTransfers c) tid of None \<Rightarrow> (c, None)
              | Some i \<Rightarrow> if ft_Direction (c_fts c ! i) \<noteq> ''send'' then (c, None)
                  else (upd_ft i (\<lambda>ft. if off > 0 \<and> ft_File ft \<noteq> None then ft\<lparr>ft_Status := ''active'', ft_File := Some (nat off), ft_BytesDone := off\<rparr>
                                       else ft\<lparr>ft_Status := ''active''\<rparr>) c, Some i)))"

text \<open>\<^verbatim>\<open>writeFileChunk\<close>: the chunk goes to the end of the file, its offset is only recorded.\<close>

definition append_file :: "string \<Rightarrow> bytes \<Rightarrow> cli \<Rightarrow> cli" where
  "append_file path d c = c\<lparr>c_disk := mput path ((case mget (c_disk c) path of None \<Rightarrow> [] | Some old \<Rightarrow> old) @ d) (c_disk c)\<rparr>"

definition writeFileChunk :: "nat \<Rightarrow> int \<Rightarrow> int \<Rightarrow> bytes \<Rightarrow> cli \<Rightarrow> cli" where
  "writeFileChunk i seq off chunk c =
     (let ft = c_fts c ! i in
      if ft_File ft = None \<or> ft_Status ft \<noteq> ''active'' then c
      else upd_ft i (\<lambda>ft. ft\<lparr>ft_BytesDone := ft_BytesDone ft + int (length chunk), ft_RecvChunks := mput seq off (ft_RecvChunks ft)\<rparr>)
             (append_file (ft_FilePath ft) chunk c))"

text \<open>\<^verbatim>\<open>processFileDataP2P\<close> and, with the sender of the message in place of the peer of the transfer, \<^verbatim>\<open>handleFileData\<close>.\<close>

definition file_chunk :: "prims \<Rightarrow> string option \<Rightarrow> string \<Rightarrow> string \<Rightarrow> int \<Rightarrow> int \<Rightarrow> string \<Rightarrow> cli \<Rightarrow> cli" where
  "file_chunk P from' tid d seq off h c = (case mget (c_fileTransfers c) tid of None \<Rightarrow> c
     | Some i \<Rightarrow>
        if ft_Direction (c_fts c ! i) \<noteq> ''receive'' then c
        else case b64_dec d \<bind> Decompress (p_inflate P) of None \<Rightarrow> c
             | Some chunk \<Rightarrow> if h \<noteq> [] \<and> chunkCRC chunk \<noteq> h
                 then file_signal P (case from' of None \<Rightarrow> ft_PeerID (c_fts c ! i) | Some f \<Rightarrow> f) ''file_nack'' (fileNack tid seq off) c
                 else writeFileChunk i seq off chunk c)"

definition dec_fileData :: "json \<Rightarrow> (string \<times> string \<times> int \<times> int \<times> string) option" where
  "dec_fileData v = (let (kvs, ok0) = obj_members v; (tid, ok1) = get_str ''transfer_id'' kvs; (d, ok2) = get_str ''data'' kvs;
       (seq, ok3) = get_int ''seq'' kvs; (off, ok4) = get_int ''offset'' kvs; (h, ok5) = get_str ''chunk_hash'' kvs
     in if ok0 \<and> ok1 \<and> ok2 \<and> ok3 \<and> ok4 \<and> ok5 then Some (tid, d, seq, off, h) else None)"

definition handleFileData :: "prims \<Rightarrow> string \<Rightarrow> json option \<Rightarrow> cli \<Rightarrow> cli" where
  "handleFileData P from' payload c = (case payload \<bind> dec_fileData of None \<Rightarrow> c
     | Some (tid, d, seq, off, h) \<Rightarrow> file_chunk P (Some from') tid d seq off h c)"

definition processFileDataP2P :: "prims \<Rightarrow> json \<Rightarrow> cli \<Rightarrow> cli" where
  "processFileDataP2P P v c = (case dec_fileData v of None \<Rightarrow> c | Some (tid, d, seq, off, h) \<Rightarrow> file_chunk P None tid d seq off h c)"

text \<open>The verification at the end of \<^verbatim>\<open>handleFileDone\<close>: the log message slices both hashes to 16 characters.\<close>

definition verify_file :: "prims \<Rightarrow> nat \<Rightarrow> string \<Rightarrow> bool \<Rightarrow> cli \<Rightarrow> cli option" where
  "verify_file P i expected logs c =
     (let ft = c_fts c ! i in
      case (if expected \<noteq> [] \<and> ft_FilePath ft \<noteq> [] then hashFile P (ft_FilePath ft) c else None) of
        None \<Rightarrow> Some (upd_ft i (\<lambda>ft. ft\<lparr>ft_Status := ''complete''\<rparr>) c)
      | Some actual \<Rightarrow>
          if actual = expected then if length actual < 16 then None else Some (upd_ft i (\<lambda>ft. ft\<lparr>ft_Status := ''complete''\<rparr>) c)
          else if logs \<and> (length expected < 16 \<or> length actual < 16) then None
          else Some (upd_ft i (\<lambda>ft. ft\<lparr>ft_Status := ''error''\<rparr>) c))"

definition handleFileDone :: "prims \<Rightarrow> string \<Rightarrow> json option \<Rightarrow> cli \<Rightarrow> cli option" where
  "handleFileDone P from' payload c = (case payload of None \<Rightarrow> Some c
     | Some v \<Rightarrow>
        (let (kvs, ok0) = obj_members v; (tid, ok1) = get_str ''transfer_id'' kvs; (n, ok2) = get_int ''total_bytes'' kvs; (h, ok3) = get_str ''file_hash'' kvs in
         if \<not> (ok0 \<and> ok1 \<and> ok2 \<and> ok3) then Some c
         else case mget (c_fileTransfers c) tid of None \<Rightarrow> Some c
              | Some i \<Rightarrow>
                 (let ft = c_fts c ! i in
                  if ft_Direction ft \<noteq> ''receive'' then Some c
                  else if ft_BytesDone ft < n
                  then Some (file_signal P from' ''file_nack'' (fileNack tid (int (length (ft_RecvChunks ft))) (ft_BytesDone ft)) c)
                  else verify_file P i (if h = [] then ft_FileHash ft else h) True (upd_ft i (\<lambda>ft. ft\<lparr>ft_File := None\<rparr>) c))))"

text \<open>\<^verbatim>\<open>handleFileReject\<close> and \<^verbatim>\<open>handleFileCancel\<close>, whose messages have the same members.\<close>

definition drop_transfer :: "json option \<Rightarrow> cli \<Rightarrow> cli" where
  "drop_transfer payload c = (case payload of None \<Rightarrow> c
     | Some v \<Rightarrow>
        (let (kvs, ok0) = obj_members v; (tid, ok1) = get_str ''transfer_id'' kvs; (reason, ok2) = get_str ''reason'' kvs in
         if \<not> (ok0 \<and> ok1 \<and> ok2) then c
         else case mget (c_fileTransfers c) tid of None \<Rightarrow> c
              | Some i \<Rightarrow> upd_ft i fail_ft (c\<lparr>c_fileTransfers := mdel tid (c_fileTransfers c)\<rparr>)))"

definition handleFileReject :: "json option \<Rightarrow> cli \<Rightarrow> cli" where
  "handleFileReject payload c = drop_transfer payload c"

definition handleFileCancel :: "json option \<Rightarrow> cli \<Rightarrow> cli" where
  "handleFileCancel payload c = drop_transfer payload c"

section \<open>Sending chunks\<close>

definition fileChunkSizeP2P :: nat where "fileChunkSizeP2P = 1024"

definition fileChunkSizeRelay :: nat where "fileChunkSizeRelay = 32 * 1024"

text \<open>The variable \<^verbatim>\<open>chunkSize\<close> always goes with \<^verbatim>\<open>useP2P\<close>.\<close>

definition chunk_size :: "bool \<Rightarrow> nat" where
  "chunk_size useP2P = (if useP2P then fileChunkSizeP2P else fileChunkSizeRelay)"

lemma chunk_size_pos [simp]: "0 < chunk_size b" "chunk_size b \<noteq> 0"
  by (simp_all add: chunk_size_def fileChunkSizeP2P_def fileChunkSizeRelay_def)

lemma chunk_step: "\<not> n \<le> pos \<Longrightarrow> n - (pos + min (n - pos) (chunk_size b)) < n - pos"
  using chunk_size_pos(1) [of b] by linarith

definition sendFileP2P :: "string \<Rightarrow> bytes \<Rightarrow> cli \<Rightarrow> cli \<times> bool" where
  "sendFileP2P peerID udpMsg c = (case mget (c_peerConns c) peerID of None \<Rightarrow> (c, False)
     | Some pc \<Rightarrow> if pc_Mode pc \<noteq> ''direct'' then (c, False)
         else (case pc_UDPAddr pc of None \<Rightarrow> (c, False) | Some a \<Rightarrow> udpSend udpMsg a c))"

definition chunk_msg :: "prims \<Rightarrow> string \<Rightarrow> int \<Rightarrow> int \<Rightarrow> bytes \<Rightarrow> json" where
  "chunk_msg P tid seq off raw = fileData tid (b64_enc (Compress (p_deflate P) raw)) seq off (chunkCRC raw)"

text \<open>One chunk on its way: the state, whether it went over UDP and whether it went at all.\<close>

definition send_chunk :: "prims \<Rightarrow> string \<Rightarrow> json \<Rightarrow> bool \<Rightarrow> cli \<Rightarrow> cli \<times> bool \<times> bool" where
  "send_chunk P peer v useP2P c =
     (let (c1, direct) = (if useP2P then sendFileP2P peer (str_bytes ''SF:'' @ Compress (p_deflate P) (p_text P v)) c else (c, False)) in
      if direct then (c1, True, True) else let (c2, ok) = sendRelay P peer ''file_data'' v c1 in (c2, False, ok))"

datatype send_end = SendStopped | SendFailed | SendEOF

text \<open>The loop of \<^verbatim>\<open>sendFileChunks\<close> for the transfer \<open>i\<close> at position \<open>pos\<close> of the file; \<open>stop\<close> tells before which chunk the channels
  \<^verbatim>\<open>Done\<close> or \<^verbatim>\<open>c.done\<close> are found closed.\<close>

function send_loop :: "prims \<Rightarrow> nat \<Rightarrow> bytes \<Rightarrow> (nat \<Rightarrow> bool) \<Rightarrow> bool \<Rightarrow> nat \<Rightarrow> nat \<Rightarrow> nat \<Rightarrow> cli \<Rightarrow> cli \<times> bool \<times> send_end" where
  "send_loop P i content stop useP2P seq fails pos c =
     (if stop seq then (c, useP2P, SendStopped)
      else if length content \<le> pos then (c, useP2P, SendEOF)
      else
        (let raw = take (chunk_size useP2P) (drop pos content); ft = c_fts c ! i;
             (c1, direct, ok) = send_chunk P (ft_PeerID ft) (chunk_msg P (ft_TransferID ft) (int seq) (ft_BytesDone ft) raw) useP2P c;
             fails' = (if \<not> useP2P then fails else if direct then 0 else fails + 1);
             useP2P' = (useP2P \<and> (direct \<or> fails' \<le> 10))
         in if \<not> ok then (upd_ft i (\<lambda>ft. ft\<lparr>ft_Status := ''error''\<rparr>) c1, useP2P', SendFailed)
            else
              (let c2 = upd_ft i (\<lambda>ft. ft\<lparr>ft_BytesDone := ft_BytesDone ft + int (length raw), ft_File := Some (pos + length raw)\<rparr>) c1;
                   useP2P'' = (if (seq + 1) mod 100 = 0 then PeerMode c2 (ft_PeerID ft) = ''direct'' else useP2P')
               in send_loop P i content stop useP2P'' (seq + 1) fails' (pos + length raw) c2)))"
  by pat_completeness auto
termination by (relation "measure (\<lambda>(P, i, content, stop, useP2P, seq, fails, pos, c). length content - pos)") (auto simp: chunk_step)

declare send_loop.simps [simp del]

definition retransmitChunk :: "prims \<Rightarrow> nat \<Rightarrow> bool \<Rightarrow> int \<times> int \<Rightarrow> cli \<Rightarrow> cli" where
  "retransmitChunk P i useP2P nack c =
     (let ft = c_fts c ! i; (seq, off) = nack in
      case mget (c_disk c) (ft_FilePath ft) of None \<Rightarrow> c
      | Some content \<Rightarrow>
         (let pos = (if 0 \<le> off then nat off else case ft_File ft of None \<Rightarrow> 0 | Some p \<Rightarrow> p);
              raw = take (chunk_size useP2P) (drop pos content);
              c1 = upd_ft i (\<lambda>ft. ft\<lparr>ft_File := map_option (\<lambda>_. pos + length raw) (ft_File ft)\<rparr>) c
          in if raw = [] then c1
             else fst (send_chunk P (ft_PeerID ft) (chunk_msg P (ft_TransferID ft) seq off raw) useP2P c1)))"

text \<open>\<^verbatim>\<open>retransmitNacks\<close>: at most \<open>n\<close> rounds; \<open>arr\<close> lists the requests that arrive while it waits in each round.\<close>

fun retransmitNacks :: "prims \<Rightarrow> nat \<Rightarrow> bool \<Rightarrow> nat \<Rightarrow> (int \<times> int) list list \<Rightarrow> cli \<Rightarrow> cli" where
  "retransmitNacks P i useP2P 0 arr c = c"
| "retransmitNacks P i useP2P (Suc n) arr c =
     (let ft = c_fts c ! i;
          nacks = (case ft_NackCh ft of None \<Rightarrow> [] | Some q \<Rightarrow> q) @ (case arr of [] \<Rightarrow> [] | a # as \<Rightarrow> a);
          c1 = upd_ft i (\<lambda>ft. ft\<lparr>ft_NackCh := map_option (\<lambda>_. []) (ft_NackCh ft)\<rparr>) c
      in if nacks = [] then c1
         else
           (let c2 = fold (retransmitChunk P i useP2P) nacks c1;
                c3 = file_signal P (ft_PeerID ft) ''file_done'' (fileDone (ft_TransferID ft) (ft_FileSize ft) (ft_FileHash ft)) c2
            in retransmitNacks P i useP2P n (tl arr) c3))"

text \<open>The end of both ways to send: \<^verbatim>\<open>complete\<close>, the file closed, the announcement.\<close>

definition send_finish :: "prims \<Rightarrow> nat \<Rightarrow> cli \<Rightarrow> cli" where
  "send_finish P i c =
     (let ft = c_fts c ! i in
      file_signal P (ft_PeerID ft) ''file_done'' (fileDone (ft_TransferID ft) (ft_BytesDone ft) (ft_FileHash ft))
        (upd_ft i (\<lambda>ft. ft\<lparr>ft_Status := ''complete'', ft_File := None\<rparr>) c))"

definition sendFileChunks :: "prims \<Rightarrow> nat \<Rightarrow> (nat \<Rightarrow> bool) \<Rightarrow> (int \<times> int) list list \<Rightarrow> cli \<Rightarrow> cli" where
  "sendFileChunks P i stop arr c =
     (let ft = c_fts c ! i in
      case (ft_File ft, mget (c_disk c) (ft_FilePath ft)) of
        (Some pos, Some content) \<Rightarrow>
          (case send_loop P i content stop (PeerMode c (ft_PeerID ft) = ''direct'') 0 0 pos c of
             (c1, useP2P, SendEOF) \<Rightarrow> send_finish P i (retransmitNacks P i useP2P 5 arr c1)
           | (c1, _, _) \<Rightarrow> c1)
      | _ \<Rightarrow> if stop 0 then c else upd_ft i (\<lambda>ft. ft\<lparr>ft_Status := ''error''\<rparr>) c)"

text \<open>\<^verbatim>\<open>handleFileNack\<close>: the channel has room for 256 requests.\<close>

definition handleFileNack :: "prims \<Rightarrow> json option \<Rightarrow> cli \<Rightarrow> cli" where
  "handleFileNack P payload c = (case payload of None \<Rightarrow> c
     | Some v \<Rightarrow>
        (let (kvs, ok0) = obj_members v; (tid, ok1) = get_str ''transfer_id'' kvs; (seq, ok2) = get_int ''seq'' kvs; (off, ok3) = get_int ''offset'' kvs in
         if \<not> (ok0 \<and> ok1 \<and> ok2 \<and> ok3) then c
         else case mget (c_fileTransfers c) tid of None \<Rightarrow> c
              | Some i \<Rightarrow>
                 if ft_Direction (c_fts c ! i) \<noteq> ''send'' then c
                 else case ft_NackCh (c_fts c ! i) of
                   Some q \<Rightarrow> if length q < 256 then upd_ft i (\<lambda>ft. ft\<lparr>ft_NackCh := Some (q @ [(seq, off)])\<rparr>) c
                             else retransmitChunk P i (PeerMode c (ft_PeerID (c_fts c ! i)) = ''direct'') (seq, off) c
                 | None \<Rightarrow> retransmitChunk P i (PeerMode c (ft_PeerID (c_fts c ! i)) = ''direct'') (seq, off) c))"

section \<open>Streams\<close>

definition fileStream :: "string \<Rightarrow> u16 \<Rightarrow> json" where
  "fileStream tid port = JObj [(''port'', JNum (int (unat port))), (''transfer_id'', JStr tid)]"

text \<open>\<^verbatim>\<open>sendFileViaNetstack\<close> up to the dialling: the virtual port, or \<open>None\<close> for the fall-back to chunks.\<close>

definition stream_open :: "prims \<Rightarrow> nat \<Rightarrow> bool \<Rightarrow> cli \<Rightarrow> cli \<times> u16 option" where
  "stream_open P i nsOk c =
     (let ft = c_fts c ! i; (c1, ok) = getOrCreateFwdNetstack (ft_PeerID ft) True nsOk c in
      if \<not> ok then (c1, None)
      else
        (let (c2, vport) = nextVirtualPort c1 in
         (file_signal P (ft_PeerID ft) ''file_stream'' (fileStream (ft_TransferID ft) vport) c2, Some vport)))"

text \<open>The chunks that the loop reads, of at most 64 KiB, and the loop on the dialled connection \<open>k\<close>: \<open>stop\<close> as above, \<open>wfail\<close> tells which write
  fails.\<close>

function stream_loop :: "nat \<Rightarrow> conn \<Rightarrow> bytes \<Rightarrow> (nat \<Rightarrow> bool) \<Rightarrow> (nat \<Rightarrow> bool) \<Rightarrow> nat \<Rightarrow> nat \<Rightarrow> cli \<Rightarrow> cli \<times> send_end" where
  "stream_loop i k content stop wfail n pos c =
     (if stop n then (c, SendStopped)
      else if length content \<le> pos then (c, SendEOF)
      else
        (let d = take (64 * 1024) (drop pos content) in
         if wfail n then (upd_ft i (\<lambda>ft. ft\<lparr>ft_Status := ''error''\<rparr>) c, SendFailed)
         else stream_loop i k content stop wfail (n + 1) (pos + length d)
                (upd_ft i (\<lambda>ft. ft\<lparr>ft_BytesDone := ft_BytesDone ft + int (length d), ft_File := Some (pos + length d)\<rparr>)
                   (c\<lparr>c_tcp := c_tcp c @ [(k, d)]\<rparr>))))"
  by pat_completeness auto
termination by (relation "measure (\<lambda>(i, k, content, stop, wfail, n, pos, c). length content - pos)") auto

declare stream_loop.simps [simp del]

definition stream_send :: "prims \<Rightarrow> nat \<Rightarrow> conn \<Rightarrow> (nat \<Rightarrow> bool) \<Rightarrow> (nat \<Rightarrow> bool) \<Rightarrow> cli \<Rightarrow> cli" where
  "stream_send P i k stop wfail c =
     (let ft = c_fts c ! i; c' = (case (ft_File ft, mget (c_disk c) (ft_FilePath ft)) of
        (Some pos, Some content) \<Rightarrow>
          (case stream_loop i k content stop wfail 0 pos c of
             (c1, SendEOF) \<Rightarrow> send_finish P i c1
           | (c1, _) \<Rightarrow> c1)
      | _ \<Rightarrow> c) in c'\<lparr>c_closed := c_closed c' @ [k]\<rparr>)"

definition RegisterFileTransfer :: "string \<Rightarrow> u16 \<Rightarrow> nat \<Rightarrow> cli \<Rightarrow> cli" where
  "RegisterFileTransfer peerID port i c = (case mget (c_fwdNetstacks c) peerID of None \<Rightarrow> c
     | Some fn \<Rightarrow> c\<lparr>c_fwdNetstacks := mput peerID (fn\<lparr>fn_filePortMap := mput port i (fn_filePortMap fn)\<rparr>) (c_fwdNetstacks c)\<rparr>)"

definition handleFileStream :: "string \<Rightarrow> json option \<Rightarrow> bool \<Rightarrow> cli \<Rightarrow> cli" where
  "handleFileStream from' payload nsOk c = (case payload of None \<Rightarrow> c
     | Some v \<Rightarrow>
        (let (kvs, ok0) = obj_members v; (tid, ok1) = get_str ''transfer_id'' kvs; (port, ok2) = get_int ''port'' kvs in
         if \<not> (ok0 \<and> ok1 \<and> ok2) \<or> port < 0 \<or> 65535 < port then c
         else case mget (c_fileTransfers c) tid of None \<Rightarrow> c
              | Some i \<Rightarrow>
                 if ft_Direction (c_fts c ! i) \<noteq> ''receive'' \<or> ft_Status (c_fts c ! i) \<noteq> ''active'' then c
                 else (let (c1, ok) = getOrCreateFwdNetstack from' False nsOk c in
                       if ok then RegisterFileTransfer from' (of_int port) i c1 else c1)))"

text \<open>The part of \<^verbatim>\<open>handleIncoming\<close> for file streams, which takes the entry out: the transfer whose stream begins.\<close>

definition incoming_file :: "string \<Rightarrow> u16 \<Rightarrow> cli \<Rightarrow> cli \<times> nat option" where
  "incoming_file peerID vport c = (case mget (c_fwdNetstacks c) peerID of None \<Rightarrow> (c, None)
     | Some fn \<Rightarrow>
        if fn_initiator fn then (c, None)
        else case mget (fn_filePortMap fn) vport of None \<Rightarrow> (c, None)
             | Some i \<Rightarrow> (c\<lparr>c_fwdNetstacks := mput peerID (fn\<lparr>fn_filePortMap := mdel vport (fn_filePortMap fn)\<rparr>) (c_fwdNetstacks c)\<rparr>, Some i))"

text \<open>\<^verbatim>\<open>receiveFileStream\<close> for the pieces \<open>ds\<close> that the connection delivers until it ends.\<close>

definition stream_write :: "nat \<Rightarrow> bytes \<Rightarrow> cli \<Rightarrow> cli" where
  "stream_write i d c =
     (let ft = c_fts c ! i; c1 = (if ft_File ft = None then c else append_file (ft_FilePath ft) d c)
      in upd_ft i (\<lambda>ft. ft\<lparr>ft_BytesDone := ft_BytesDone ft + int (length d)\<rparr>) c1)"

definition receiveFileStream :: "prims \<Rightarrow> nat \<Rightarrow> bytes list \<Rightarrow> cli \<Rightarrow> cli option" where
  "receiveFileStream P i ds c =
     (if ft_File (c_fts c ! i) = None then Some c
      else
        (let c1 = upd_ft i (\<lambda>ft. ft\<lparr>ft_File := None\<rparr>) (fold (stream_write i) ds c)
         in verify_file P i (ft_FileHash (c_fts c1 ! i)) False c1))"

end
