(* ===== verification/File_Props.thy ===== *)
theory File_Props
  imports Files
begin

text \<open>
  Properties of file transfers: a stream reproduces the file, a completed transfer has the announced hash, and
  the weaknesses of the transfer in chunks.
\<close>

section \<open>Frames\<close>

lemma upd_ft_same [simp]: "i < length (c_fts c) \<Longrightarrow> c_fts (upd_ft i g c) ! i = g (c_fts c ! i)"
  by (simp add: upd_ft_def)

lemma upd_ft_frame [simp]:
  "length (c_fts (upd_ft i g c)) = length (c_fts c)" "c_disk (upd_ft i g c) = c_disk c" "c_tcp (upd_ft i g c) = c_tcp c" "c_ws (upd_ft i g c) = c_ws c"
  "c_udp (upd_ft i g c) = c_udp c" "c_fileTransfers (upd_ft i g c) = c_fileTransfers c" "c_peerConns (upd_ft i g c) = c_peerConns c" "c_conn (upd_ft i g c) = c_conn c"
  by (simp_all add: upd_ft_def)

lemma append_file_frame [simp]:
  "c_fts (append_file path d c) = c_fts c" "c_fileTransfers (append_file path d c) = c_fileTransfers c"
  "mget (c_disk (append_file path d c)) path = Some ((case mget (c_disk c) path of None \<Rightarrow> [] | Some old \<Rightarrow> old) @ d)"
  by (simp_all add: append_file_def)

lemma file_signal_frame [simp]:
  "c_fts (file_signal P peer ty v c) = c_fts c" "c_disk (file_signal P peer ty v c) = c_disk c" "c_tcp (file_signal P peer ty v c) = c_tcp c"
  "c_fileTransfers (file_signal P peer ty v c) = c_fileTransfers c"
  unfolding file_signal_def by (rule sendViaP2P_other; simp)+

section \<open>Streams\<close>

lemma take_drop_rest: "take n (drop pos xs) @ drop (pos + length (take n (drop pos xs))) xs = drop pos xs"
  using append_take_drop_id [of n "drop pos xs"] by (cases "n \<le> length xs - pos") (simp_all add: add.commute)

text \<open>What the sending loop writes to the connection.\<close>

lemma stream_loop_sends:
  assumes "\<And>n. \<not> stop n" "\<And>n. \<not> wfail n" "i < length (c_fts c)" "pos \<le> length content"
  shows "\<exists>ds c'. stream_loop i k content stop wfail n pos c = (c', SendEOF) \<and> c_tcp c' = c_tcp c @ map (Pair k) ds \<and> concat ds = drop pos content
    \<and> length (c_fts c') = length (c_fts c) \<and> c_disk c' = c_disk c
    \<and> (\<exists>p. c_fts c' ! i = (c_fts c ! i)\<lparr>ft_BytesDone := ft_BytesDone (c_fts c ! i) + int (length content - pos), ft_File := p\<rparr>)"
  using assms
proof (induction i k content stop wfail n pos c rule: stream_loop.induct)
  case (1 i k content stop wfail n pos c)
  show ?case
  proof (cases "length content \<le> pos")
    case True
    then have "pos = length content" using 1(5) by simp
    then have "stream_loop i k content stop wfail n pos c = (c, SendEOF)" using 1(2) by (subst stream_loop.simps) simp
    then show ?thesis using \<open>pos = length content\<close>
      by (intro exI [of _ "[]"] exI [of _ c] conjI exI [of _ "ft_File (c_fts c ! i)"]) simp_all
  next
    case False
    let ?d = "take (64 * 1024) (drop pos content)"
    let ?c = "upd_ft i (\<lambda>ft. ft\<lparr>ft_BytesDone := ft_BytesDone ft + int (length ?d), ft_File := Some (pos + length ?d)\<rparr>) (c\<lparr>c_tcp := c_tcp c @ [(k, ?d)]\<rparr>)"
    have d: "pos + length ?d \<le> length content" "?d @ drop (pos + length ?d) content = drop pos content"
      using False take_drop_rest [of "64 * 1024" pos content] by simp_all
    have i: "i < length (c_fts ?c)" using 1(4) by simp
    obtain ds c' p where ih: "stream_loop i k content stop wfail (n + 1) (pos + length ?d) ?c = (c', SendEOF)" "c_tcp c' = c_tcp ?c @ map (Pair k) ds"
        "concat ds = drop (pos + length ?d) content" "length (c_fts c') = length (c_fts ?c)" "c_disk c' = c_disk ?c"
        "c_fts c' ! i = (c_fts ?c ! i)\<lparr>ft_BytesDone := ft_BytesDone (c_fts ?c ! i) + int (length content - (pos + length ?d)), ft_File := p\<rparr>"
      using 1(1) [OF 1(2) False refl 1(3) 1(2,3) i d(1)] by (elim exE conjE)
    have "stream_loop i k content stop wfail n pos c = (c', SendEOF)"
      by (subst stream_loop.simps) (simp only: 1(2,3) False Let_def if_False ih(1))
    moreover have "c_fts c' ! i = (c_fts c ! i)\<lparr>ft_BytesDone := ft_BytesDone (c_fts c ! i) + int (length content - pos), ft_File := p\<rparr>"
      using ih(6) d(1) 1(4) by simp
    ultimately show ?thesis
      using ih d 1(4) by (intro exI [of _ "?d # ds"] exI [of _ c'] conjI exI [of _ p]) simp_all
  qed
qed

text \<open>What the receiving end does with the pieces.\<close>

lemma stream_write_pieces:
  assumes "i < length (c_fts c)" "ft_File (c_fts c ! i) \<noteq> None" "mget (c_disk c) (ft_FilePath (c_fts c ! i)) = Some old"
  shows "let c' = fold (stream_write i) ds c in length (c_fts c') = length (c_fts c)
    \<and> c_fts c' ! i = (c_fts c ! i)\<lparr>ft_BytesDone := ft_BytesDone (c_fts c ! i) + int (length (concat ds))\<rparr>
    \<and> mget (c_disk c') (ft_FilePath (c_fts c ! i)) = Some (old @ concat ds)"
  using assms
proof (induction ds arbitrary: c old)
  case (Cons d ds)
  let ?c = "stream_write i d c"
  have c: "length (c_fts ?c) = length (c_fts c)" "c_fts ?c ! i = (c_fts c ! i)\<lparr>ft_BytesDone := ft_BytesDone (c_fts c ! i) + int (length d)\<rparr>"
      "mget (c_disk ?c) (ft_FilePath (c_fts c ! i)) = Some (old @ d)"
    using Cons.prems by (auto simp: stream_write_def Let_def)
  show ?case using Cons.IH [of ?c "old @ d"] Cons.prems c by (simp add: Let_def add.assoc)
qed (simp add: Let_def)

lemma verify_file_ok:
  assumes "i < length (c_fts c)" "mget (c_disk c) (ft_FilePath (c_fts c ! i)) = Some content" "16 \<le> length (file_hash P content)"
  shows "verify_file P i (file_hash P content) logs c = Some (upd_ft i (\<lambda>ft. ft\<lparr>ft_Status := ''complete''\<rparr>) c)"
  using assms by (simp add: verify_file_def hashFile_def Let_def)

text \<open>Claim C33.
  A file sent as a stream arrives. The sender, started at any position of the file, writes exactly the rest of
  the file to the connection and ends as complete; the receiver that has the beginning of the file, however the
  connection cuts the stream into pieces, ends with the whole file on disk, its length as the number of bytes done, and
  the status complete because the hash is verified.\<close>

theorem file_stream_roundtrip:
  assumes s: "i < length (c_fts cs)" "ft_File (c_fts cs ! i) = Some pos" "mget (c_disk cs) (ft_FilePath (c_fts cs ! i)) = Some content" "pos \<le> length content"
      "ft_BytesDone (c_fts cs ! i) = int pos" "\<And>n. \<not> stop n" "\<And>n. \<not> wfail n"
    and r: "j < length (c_fts cr)" "ft_File (c_fts cr ! j) \<noteq> None" "mget (c_disk cr) (ft_FilePath (c_fts cr ! j)) = Some (take pos content)"
      "ft_BytesDone (c_fts cr ! j) = int pos" "ft_FileHash (c_fts cr ! j) = file_hash P content" "16 \<le> length (file_hash P content)"
  shows "\<exists>ds. c_tcp (stream_send P i k stop wfail cs) = c_tcp cs @ map (Pair k) ds \<and> ft_Status (c_fts (stream_send P i k stop wfail cs) ! i) = ''complete''
    \<and> ft_BytesDone (c_fts (stream_send P i k stop wfail cs) ! i) = int (length content)
    \<and> (\<forall>es. concat es = concat ds \<longrightarrow> (\<exists>cr'. receiveFileStream P j es cr = Some cr' \<and> mget (c_disk cr') (ft_FilePath (c_fts cr ! j)) = Some content
         \<and> ft_Status (c_fts cr' ! j) = ''complete'' \<and> ft_BytesDone (c_fts cr' ! j) = int (length content)))"
proof -
  obtain ds c1 p where l: "stream_loop i k content stop wfail 0 pos cs = (c1, SendEOF)" "c_tcp c1 = c_tcp cs @ map (Pair k) ds" "concat ds = drop pos content"
      "length (c_fts c1) = length (c_fts cs)"
      "c_fts c1 ! i = (c_fts cs ! i)\<lparr>ft_BytesDone := ft_BytesDone (c_fts cs ! i) + int (length content - pos), ft_File := p\<rparr>"
    using stream_loop_sends [of stop wfail i cs pos content k 0, OF s(6,7,1,4)] by auto
  have "\<exists>cr'. receiveFileStream P j es cr = Some cr' \<and> mget (c_disk cr') (ft_FilePath (c_fts cr ! j)) = Some content
      \<and> ft_Status (c_fts cr' ! j) = ''complete'' \<and> ft_BytesDone (c_fts cr' ! j) = int (length content)" if "concat es = concat ds" for es
  proof -
    let ?c = "fold (stream_write j) es cr" and ?u = "\<lambda>ft. ft\<lparr>ft_File := None\<rparr>"
    have w: "length (c_fts ?c) = length (c_fts cr)" "c_fts ?c ! j = (c_fts cr ! j)\<lparr>ft_BytesDone := int (length content)\<rparr>"
        "mget (c_disk ?c) (ft_FilePath (c_fts cr ! j)) = Some content"
      using stream_write_pieces [OF r(1-3), of es] that l(3) r(4) s(4) by (simp_all add: Let_def)
    have "verify_file P j (file_hash P content) False (upd_ft j ?u ?c) = Some (upd_ft j (\<lambda>ft. ft\<lparr>ft_Status := ''complete''\<rparr>) (upd_ft j ?u ?c))"
      using w r by (intro verify_file_ok) simp_all
    then show ?thesis using w r(1,2,5) by (auto simp: receiveFileStream_def Let_def)
  qed
  then show ?thesis using l s by (intro exI [of _ ds]) (simp add: stream_send_def send_finish_def Let_def)
qed

text \<open>A transfer of four bytes, resumed at the third, with a hash that is just the content, padded.\<close>

definition demo_prims :: prims where
  "demo_prims = \<lparr>p_pub = id, p_ecdh = (\<lambda>_ _. None), p_sha256 = (\<lambda>d. d @ replicate 8 0), p_seal = (\<lambda>_ _ d. d), p_open = (\<lambda>_ _ d. Some d),
     p_deflate = rev, p_inflate = (\<lambda>d. Some (rev d)), p_text = (\<lambda>_. []), p_parse = (\<lambda>_. None), p_resolve = (\<lambda>_. None)\<rparr>"

definition demo_ft :: "string \<Rightarrow> nat option \<Rightarrow> int \<Rightarrow> bytes \<Rightarrow> fileTransfer" where
  "demo_ft dir f n content = \<lparr>ft_TransferID = ''t'', ft_PeerID = ''b'', ft_PeerName = ''b'', ft_FileName = ''f'', ft_FileSize = int (length content),
     ft_FileHash = file_hash demo_prims content, ft_FilePath = ''f'', ft_Direction = dir, ft_Status = ''active'', ft_File = f, ft_BytesDone = n,
     ft_NackCh = Some [], ft_RecvChunks = [], ft_done = False\<rparr>"

definition demo_client :: "fileTransfer \<Rightarrow> bytes \<Rightarrow> cli" where
  "demo_client ft d = (NewClient ''r'' ''n'' [] [])\<lparr>c_conn := Some True, c_fts := [ft], c_fileTransfers := [(''t'', 0)], c_disk := [(''f'', d)]\<rparr>"

lemma demo_hash_length: "16 \<le> length (file_hash demo_prims content)"
  by (simp add: file_hash_def demo_prims_def)

theorem file_stream_roundtrip_witness:
  "\<exists>ds. c_tcp (stream_send demo_prims 0 7 (\<lambda>_. False) (\<lambda>_. False) (demo_client (demo_ft ''send'' (Some 2) 2 [1, 2, 3, 4]) [1, 2, 3, 4])) = map (Pair 7) ds
    \<and> (\<exists>cr'. receiveFileStream demo_prims 0 ds (demo_client (demo_ft ''receive'' (Some 2) 2 [1, 2, 3, 4]) [1, 2]) = Some cr'
        \<and> mget (c_disk cr') ''f'' = Some [1, 2, 3, 4] \<and> ft_Status (c_fts cr' ! 0) = ''complete'')"
proof -
  let ?s = "demo_client (demo_ft ''send'' (Some 2) 2 [1, 2, 3, 4]) [1, 2, 3, 4]" and ?r = "demo_client (demo_ft ''receive'' (Some 2) 2 [1, 2, 3, 4]) [1, 2]"
  have s: "c_fts ?s = [demo_ft ''send'' (Some 2) 2 [1, 2, 3, 4]]" "c_disk ?s = [(''f'', [1, 2, 3, 4])]" "c_tcp ?s = []"
    and r: "c_fts ?r = [demo_ft ''receive'' (Some 2) 2 [1, 2, 3, 4]]" "c_disk ?r = [(''f'', [1, 2])]"
    by (simp_all add: demo_client_def NewClient_def)
  have ft: "ft_File (demo_ft d f n x) = f" "ft_FilePath (demo_ft d f n x) = ''f''" "ft_BytesDone (demo_ft d f n x) = n" "ft_FileHash (demo_ft d f n x) = file_hash demo_prims x"
    for d f n x by (simp_all add: demo_ft_def)
  obtain ds where "c_tcp (stream_send demo_prims 0 7 (\<lambda>_. False) (\<lambda>_. False) ?s) = c_tcp ?s @ map (Pair 7) ds"
      "\<forall>es. concat es = concat ds \<longrightarrow> (\<exists>cr'. receiveFileStream demo_prims 0 es ?r = Some cr' \<and> mget (c_disk cr') (ft_FilePath (c_fts ?r ! 0)) = Some [1, 2, 3, 4]
         \<and> ft_Status (c_fts cr' ! 0) = ''complete'' \<and> ft_BytesDone (c_fts cr' ! 0) = int (length [1, 2, 3, 4 :: byte]))"
    using file_stream_roundtrip [of 0 ?s 2 "[1, 2, 3, 4]" "\<lambda>_. False" "\<lambda>_. False" 0 ?r demo_prims 7] demo_hash_length
    by (simp add: s r ft) blast
  then show ?thesis by (intro exI [of _ ds]) (simp add: s r ft, blast)
qed

section \<open>Completion\<close>

lemma names_fileDone [simp]:
  "\<not> equal_fold ''transfer_id'' ''total_bytes''" "\<not> equal_fold ''transfer_id'' ''file_hash''" "\<not> equal_fold ''total_bytes'' ''transfer_id''"
  "\<not> equal_fold ''total_bytes'' ''file_hash''" "\<not> equal_fold ''file_hash'' ''transfer_id''" "\<not> equal_fold ''file_hash'' ''total_bytes''"
  "\<not> equal_fold ''transfer_id'' ''seq''" "\<not> equal_fold ''transfer_id'' ''offset''" "\<not> equal_fold ''seq'' ''transfer_id''" "\<not> equal_fold ''seq'' ''offset''"
  "\<not> equal_fold ''offset'' ''transfer_id''" "\<not> equal_fold ''offset'' ''seq''" "\<not> equal_fold ''transfer_id'' ''data''" "\<not> equal_fold ''data'' ''transfer_id''"
  "\<not> equal_fold ''data'' ''seq''" "\<not> equal_fold ''data'' ''offset''" "\<not> equal_fold ''seq'' ''data''" "\<not> equal_fold ''offset'' ''data''"
  "\<not> equal_fold ''transfer_id'' ''chunk_hash''" "\<not> equal_fold ''data'' ''chunk_hash''" "\<not> equal_fold ''seq'' ''chunk_hash''" "\<not> equal_fold ''offset'' ''chunk_hash''"
  "\<not> equal_fold ''chunk_hash'' ''transfer_id''" "\<not> equal_fold ''chunk_hash'' ''data''" "\<not> equal_fold ''chunk_hash'' ''seq''" "\<not> equal_fold ''chunk_hash'' ''offset''"
  by (simp_all add: equal_fold_def to_lower_def lower_char_def)

lemma handleFileDone_eq:
  assumes "mget (c_fileTransfers c) tid = Some i" "ft_Direction (c_fts c ! i) = ''receive''" "int64_range n"
  shows "handleFileDone P from' (Some (fileDone tid n h)) c =
    (if ft_BytesDone (c_fts c ! i) < n
     then Some (file_signal P from' ''file_nack'' (fileNack tid (int (length (ft_RecvChunks (c_fts c ! i)))) (ft_BytesDone (c_fts c ! i))) c)
     else verify_file P i (if h = [] then ft_FileHash (c_fts c ! i) else h) True (upd_ft i (\<lambda>ft. ft\<lparr>ft_File := None\<rparr>) c))"
  using assms by (simp add: handleFileDone_def fileDone_def get_str_def get_int_def Let_def)

text \<open>Claim C34.
  A transfer that the receiver reports as complete has the announced content: when the final message
  turns a transfer that was not complete into a complete one, no announced byte is missing, and if a hash was announced in that
  message or in the offer and the file can be read, the file on disk has exactly this hash.\<close>

theorem completed_file_has_hash:
  assumes "mget (c_fileTransfers c) tid = Some i" "ft_Direction (c_fts c ! i) = ''receive''" "i < length (c_fts c)" "int64_range n"
    and "handleFileDone P from' (Some (fileDone tid n h)) c = Some c'" "ft_Status (c_fts c ! i) \<noteq> ''complete''" "ft_Status (c_fts c' ! i) = ''complete''"
    and "expected = (if h = [] then ft_FileHash (c_fts c ! i) else h)" "expected \<noteq> []" "ft_FilePath (c_fts c ! i) \<noteq> []"
  shows "n \<le> ft_BytesDone (c_fts c ! i) \<and>
    (\<forall>content. mget (c_disk c') (ft_FilePath (c_fts c ! i)) = Some content \<longrightarrow> file_hash P content = expected)"
proof -
  have n: "\<not> ft_BytesDone (c_fts c ! i) < n" using assms(5-7) handleFileDone_eq [OF assms(1,2,4)] by auto
  let ?c = "upd_ft i (\<lambda>ft. ft\<lparr>ft_File := None\<rparr>) c"
  have v: "verify_file P i expected True ?c = Some c'"
    using assms(5,8) n handleFileDone_eq [OF assms(1,2,4)] by simp
  have path: "ft_FilePath (c_fts ?c ! i) = ft_FilePath (c_fts c ! i)" using assms(3) by simp
  have "file_hash P content = expected" if "mget (c_disk c') (ft_FilePath (c_fts c ! i)) = Some content" for content
  proof (cases "mget (c_disk c) (ft_FilePath (c_fts c ! i))")
    case None
    then show ?thesis using v that assms(9,10) path by (auto simp: verify_file_def hashFile_def Let_def split: if_splits)
  next
    case (Some d)
    then show ?thesis
      using v that assms(3,7,9,10) path by (auto simp: verify_file_def hashFile_def Let_def split: if_splits)
  qed
  then show ?thesis using n by simp
qed

theorem completed_file_has_hash_witness:
  "\<exists>c'. handleFileDone demo_prims ''b'' (Some (fileDone ''t'' 2 [])) (demo_client (demo_ft ''receive'' (Some 2) 2 [1, 2]) [1, 2]) = Some c'
    \<and> ft_Status (c_fts c' ! 0) = ''complete'' \<and> mget (c_disk c') ''f'' = Some [1, 2]
    \<and> file_hash demo_prims [1, 2] = ft_FileHash (demo_ft ''receive'' (Some 2) 2 [1, 2])"
proof -
  let ?ft = "demo_ft ''receive'' (Some 2) 2 [1, 2]"
  let ?c = "demo_client ?ft [1, 2]"
  have c: "c_fts ?c = [?ft]" "c_disk ?c = [(''f'', [1, 2])]" "mget (c_fileTransfers ?c) ''t'' = Some 0" by (simp_all add: demo_client_def NewClient_def)
  have ft: "ft_Direction ?ft = ''receive''" "ft_BytesDone ?ft = 2" "ft_FileHash ?ft = file_hash demo_prims [1, 2]" "ft_FilePath ?ft = ''f''" "ft_Status ?ft = ''active''"
    by (simp_all add: demo_ft_def)
  have ne: "file_hash demo_prims [1, 2] \<noteq> []" using demo_hash_length [of "[1, 2]"] by auto
  have "verify_file demo_prims 0 (file_hash demo_prims [1, 2]) True (upd_ft 0 (\<lambda>ft. ft\<lparr>ft_File := None\<rparr>) ?c)
      = Some (upd_ft 0 (\<lambda>ft. ft\<lparr>ft_Status := ''complete''\<rparr>) (upd_ft 0 (\<lambda>ft. ft\<lparr>ft_File := None\<rparr>) ?c))"
    using c ft demo_hash_length by (intro verify_file_ok) simp_all
  then obtain c' where d: "handleFileDone demo_prims ''b'' (Some (fileDone ''t'' 2 [])) ?c = Some c'" "ft_Status (c_fts c' ! 0) = ''complete''" "mget (c_disk c') ''f'' = Some [1, 2]"
    using handleFileDone_eq [of ?c "''t''" 0 2 demo_prims "''b''" "[]"] c ft by (simp add: int64_range_def)
  have "file_hash demo_prims [1, 2] = ft_FileHash ?ft"
    using completed_file_has_hash [of ?c "''t''" 0 2 demo_prims "''b''" "[]" c' "ft_FileHash ?ft"] c d ft ne by (simp add: int64_range_def)
  then show ?thesis using d by blast
qed

text \<open>Any peer whose file was accepted can crash the receiver: a final message with a hash of fewer than 16
  characters, announcing no more bytes than arrived, makes the log message of the mismatch slice the hash out of range.\<close>

theorem short_hash_crashes_receiver:
  assumes "mget (c_fileTransfers c) tid = Some i" "ft_Direction (c_fts c ! i) = ''receive''" "i < length (c_fts c)" "int64_range n"
    and "n \<le> ft_BytesDone (c_fts c ! i)" "ft_FilePath (c_fts c ! i) \<noteq> []" "mget (c_disk c) (ft_FilePath (c_fts c ! i)) = Some content"
    and "h \<noteq> []" "length h < 16"
  shows "handleFileDone P from' (Some (fileDone tid n h)) c = None"
proof -
  have "ft_FilePath (c_fts (upd_ft i (\<lambda>ft. ft\<lparr>ft_File := None\<rparr>) c) ! i) = ft_FilePath (c_fts c ! i)" using assms(3) by simp
  then show ?thesis using assms handleFileDone_eq [OF assms(1,2,4)] by (simp add: verify_file_def hashFile_def Let_def)
qed

theorem short_hash_crashes_receiver_witness:
  "handleFileDone demo_prims ''b'' (Some (fileDone ''t'' 0 ''x'')) (demo_client (demo_ft ''receive'' (Some 0) 0 [1]) []) = None"
  using short_hash_crashes_receiver [of "demo_client (demo_ft ''receive'' (Some 0) 0 [1]) []" "''t''" 0 0 "[]" "''x''"]
  by (simp add: demo_client_def demo_ft_def int64_range_def NewClient_def)

section \<open>Chunks\<close>

lemma dec_fileData_msg:
  assumes "int64_range seq" "int64_range off"
  shows "dec_fileData (fileData tid d seq off h) = Some (tid, d, seq, off, h)"
  using assms by (simp add: dec_fileData_def fileData_def get_str_def get_int_def)

text \<open>A chunk that arrives is appended, whatever its number and offset.\<close>

lemma handleFileData_appends:
  assumes inflate: "\<And>d. p_inflate P (p_deflate P d) = Some d"
    and t: "mget (c_fileTransfers c) tid = Some i" "i < length (c_fts c)" "ft_Direction (c_fts c ! i) = ''receive''" "ft_Status (c_fts c ! i) = ''active''"
      "ft_File (c_fts c ! i) \<noteq> None" "mget (c_disk c) (ft_FilePath (c_fts c ! i)) = Some old" "int64_range seq" "int64_range off"
  shows "handleFileData P from' (Some (chunk_msg P tid seq off raw)) c =
    upd_ft i (\<lambda>ft. ft\<lparr>ft_BytesDone := ft_BytesDone ft + int (length raw), ft_RecvChunks := mput seq off (ft_RecvChunks ft)\<rparr>)
      (append_file (ft_FilePath (c_fts c ! i)) raw c)"
proof -
  have "Decompress (p_inflate P) (Compress (p_deflate P) raw) = Some raw" using inflate by (auto simp: Compress_def Decompress_def Let_def)
  then show ?thesis using t by (auto simp: handleFileData_def chunk_msg_def dec_fileData_msg file_chunk_def writeFileChunk_def Let_def)
qed

text \<open>The file after the chunks \<open>cks\<close> (number, offset, data) have arrived in this order.\<close>

definition receive_chunks :: "prims \<Rightarrow> string \<Rightarrow> string \<Rightarrow> (int \<times> int \<times> bytes) list \<Rightarrow> cli \<Rightarrow> cli" where
  "receive_chunks P from' tid = fold (\<lambda>(seq, off, raw). handleFileData P from' (Some (chunk_msg P tid seq off raw)))"

lemma receive_chunks_appends:
  assumes inflate: "\<And>d. p_inflate P (p_deflate P d) = Some d"
    and t: "mget (c_fileTransfers c) tid = Some i" "i < length (c_fts c)" "ft_Direction (c_fts c ! i) = ''receive''" "ft_Status (c_fts c ! i) = ''active''"
      "ft_File (c_fts c ! i) \<noteq> None" "mget (c_disk c) (ft_FilePath (c_fts c ! i)) = Some old"
    and ranges: "list_all (\<lambda>(seq, off, raw). int64_range seq \<and> int64_range off) cks"
  shows "\<exists>rc. let c' = receive_chunks P from' tid cks c in
      c_fts c' ! i = (c_fts c ! i)\<lparr>ft_BytesDone := ft_BytesDone (c_fts c ! i) + int (length (concat (map (snd \<circ> snd) cks))), ft_RecvChunks := rc\<rparr>
    \<and> length (c_fts c') = length (c_fts c) \<and> c_fileTransfers c' = c_fileTransfers c
    \<and> mget (c_disk c') (ft_FilePath (c_fts c ! i)) = Some (old @ concat (map (snd \<circ> snd) cks))"
  using t ranges
proof (induction cks arbitrary: c old)
  case Nil
  then show ?case by (intro exI [of _ "ft_RecvChunks (c_fts c ! i)"]) (simp add: receive_chunks_def Let_def)
next
  case (Cons ck cks)
  obtain seq off raw where ck: "ck = (seq, off, raw)" by (cases ck)
  let ?c = "handleFileData P from' (Some (chunk_msg P tid seq off raw)) c"
  have r: "int64_range seq" "int64_range off" using Cons.prems(7) ck by simp_all
  note c1 = handleFileData_appends [OF inflate Cons.prems(1-6) r]
  have c: "mget (c_fileTransfers ?c) tid = Some i" "i < length (c_fts ?c)" "ft_Direction (c_fts ?c ! i) = ''receive''" "ft_Status (c_fts ?c ! i) = ''active''"
      "ft_File (c_fts ?c ! i) \<noteq> None" "mget (c_disk ?c) (ft_FilePath (c_fts ?c ! i)) = Some (old @ raw)"
    using Cons.prems(1-6) by (simp_all add: c1 append_file_def)
  have rs: "list_all (\<lambda>(seq, off, raw). int64_range seq \<and> int64_range off) cks" using Cons.prems(7) by simp
  obtain rc where "let c' = receive_chunks P from' tid cks ?c in
      c_fts c' ! i = (c_fts ?c ! i)\<lparr>ft_BytesDone := ft_BytesDone (c_fts ?c ! i) + int (length (concat (map (snd \<circ> snd) cks))), ft_RecvChunks := rc\<rparr>
    \<and> length (c_fts c') = length (c_fts ?c) \<and> c_fileTransfers c' = c_fileTransfers ?c
    \<and> mget (c_disk c') (ft_FilePath (c_fts ?c ! i)) = Some ((old @ raw) @ concat (map (snd \<circ> snd) cks))"
    using Cons.IH [OF c rs] by (elim exE)
  moreover have "c_fts ?c ! i = (c_fts c ! i)\<lparr>ft_BytesDone := ft_BytesDone (c_fts c ! i) + int (length raw), ft_RecvChunks := mput seq off (ft_RecvChunks (c_fts c ! i))\<rparr>"
      "length (c_fts ?c) = length (c_fts c)" "c_fileTransfers ?c = c_fileTransfers c"
    using Cons.prems(2) by (simp_all add: c1)
  ultimately show ?case by (intro exI [of _ rc]) (simp add: receive_chunks_def ck Let_def add.assoc comp_def)
qed

text \<open>The final message after the chunks: the transfer is complete exactly if the bytes that arrived, in the order of their arrival, are
  the file (or have its hash).\<close>

lemma done_after_chunks:
  assumes inflate: "\<And>d. p_inflate P (p_deflate P d) = Some d"
    and t: "mget (c_fileTransfers c) tid = Some i" "i < length (c_fts c)" "ft_Direction (c_fts c ! i) = ''receive''" "ft_Status (c_fts c ! i) = ''active''"
      "ft_File (c_fts c ! i) \<noteq> None" "mget (c_disk c) (ft_FilePath (c_fts c ! i)) = Some old" "ft_BytesDone (c_fts c ! i) = int (length old)" "ft_FilePath (c_fts c ! i) \<noteq> []"
    and ranges: "list_all (\<lambda>(seq, off, raw). int64_range seq \<and> int64_range off) cks"
    and fin: "int64_range (int (length content))" "h = file_hash P content" "\<And>d. 16 \<le> length (file_hash P d)"
    and len: "length (old @ concat (map (snd \<circ> snd) cks)) = length content"
  shows "\<exists>c'. handleFileDone P from' (Some (fileDone tid (int (length content)) h)) (receive_chunks P from' tid cks c) = Some c'
    \<and> mget (c_disk c') (ft_FilePath (c_fts c ! i)) = Some (old @ concat (map (snd \<circ> snd) cks))
    \<and> ft_Status (c_fts c' ! i) = (if file_hash P (old @ concat (map (snd \<circ> snd) cks)) = h then ''complete'' else ''error'')"
proof -
  let ?c = "receive_chunks P from' tid cks c" and ?d = "old @ concat (map (snd \<circ> snd) cks)"
  obtain rc where c: "c_fts ?c ! i = (c_fts c ! i)\<lparr>ft_BytesDone := ft_BytesDone (c_fts c ! i) + int (length (concat (map (snd \<circ> snd) cks))), ft_RecvChunks := rc\<rparr>"
      "length (c_fts ?c) = length (c_fts c)" "c_fileTransfers ?c = c_fileTransfers c" "mget (c_disk ?c) (ft_FilePath (c_fts c ! i)) = Some ?d"
    using receive_chunks_appends [OF inflate t(1-6) ranges, of from'] by (auto simp: Let_def)
  have "h \<noteq> []" using fin(2) fin(3) [of content] by auto
  then have "handleFileDone P from' (Some (fileDone tid (int (length content)) h)) ?c = verify_file P i h True (upd_ft i (\<lambda>ft. ft\<lparr>ft_File := None\<rparr>) ?c)"
    using handleFileDone_eq [of ?c tid i "int (length content)" P from' h] c t(1,3,7) fin(1) len by simp
  moreover have "verify_file P i h True (upd_ft i (\<lambda>ft. ft\<lparr>ft_File := None\<rparr>) ?c) =
      Some (upd_ft i (\<lambda>ft. ft\<lparr>ft_Status := (if file_hash P ?d = h then ''complete'' else ''error'')\<rparr>) (upd_ft i (\<lambda>ft. ft\<lparr>ft_File := None\<rparr>) ?c))"
    using c t(2,8) fin(3) [of ?d] fin(3) [of content] \<open>h \<noteq> []\<close> fin(2) by (simp add: verify_file_def hashFile_def Let_def)
  ultimately show ?thesis using c t(2) by simp
qed

text \<open>The chunks that the sending loop cuts the rest of a file into, in relay mode.\<close>

fun number_chunks :: "int \<Rightarrow> int \<Rightarrow> bytes list \<Rightarrow> (int \<times> int \<times> bytes) list" where
  "number_chunks seq off [] = []"
| "number_chunks seq off (raw # raws) = (seq, off, raw) # number_chunks (seq + 1) (off + int (length raw)) raws"

lemma number_chunks_data [simp]: "map (snd \<circ> snd) (number_chunks seq off raws) = raws"
  by (induction seq off raws rule: number_chunks.induct) auto

definition relayed_chunk :: "prims \<Rightarrow> string \<Rightarrow> string \<Rightarrow> int \<times> int \<times> bytes \<Rightarrow> message" where
  "relayed_chunk P peer tid = (\<lambda>(seq, off, raw). \<lparr>mType = ''relay_data'', mFrom = [], mTo = peer, mRoom = [],
     mPayload = Some (relayEnvelope ''file_data'' (chunk_msg P tid seq off raw), 0)\<rparr>)"

lemma send_chunk_relay:
  assumes "c_conn c = Some True" "mget (c_peerConns c) peer = None"
  shows "send_chunk P peer v False c = (c\<lparr>c_ws := c_ws c @ [\<lparr>mType = ''relay_data'', mFrom = [], mTo = peer, mRoom = [],
     mPayload = Some (relayEnvelope ''file_data'' v, 0)\<rparr>]\<rparr>, False, True)"
  using assms by (simp add: send_chunk_def sendRelay_def sendMsg_def Let_def)

lemma send_loop_relay:
  assumes "\<And>n. \<not> stop n" "i < length (c_fts c)" "pos \<le> length content" "c_conn c = Some True" "mget (c_peerConns c) (ft_PeerID (c_fts c ! i)) = None"
  shows "\<exists>raws c'. send_loop P i content stop False seq fails pos c = (c', False, SendEOF) \<and> concat raws = drop pos content
    \<and> list_all (\<lambda>r. r \<noteq> []) raws
    \<and> c_ws c' = c_ws c @ map (relayed_chunk P (ft_PeerID (c_fts c ! i)) (ft_TransferID (c_fts c ! i))) (number_chunks (int seq) (ft_BytesDone (c_fts c ! i)) raws)"
  using assms(2-)
proof (induction "length content - pos" arbitrary: pos c seq rule: less_induct)
  case less
  show ?case
  proof (cases "length content \<le> pos")
    case True
    then show ?thesis using assms(1) by (subst send_loop.simps) (intro exI [of _ "[]"] exI [of _ c], simp)
  next
    case False
    define raw where "raw = take (chunk_size False) (drop pos content)"
    let ?ft = "c_fts c ! i"
    let ?m = "chunk_msg P (ft_TransferID ?ft) (int seq) (ft_BytesDone ?ft) raw"
    define c1 where "c1 = c\<lparr>c_ws := c_ws c @ [\<lparr>mType = ''relay_data'', mFrom = [], mTo = ft_PeerID ?ft, mRoom = [],
       mPayload = Some (relayEnvelope ''file_data'' ?m, 0)\<rparr>]\<rparr>"
    define c2 where "c2 = upd_ft i (\<lambda>ft. ft\<lparr>ft_BytesDone := ft_BytesDone ft + int (length raw), ft_File := Some (pos + length raw)\<rparr>) c1"
    have s: "send_chunk P (ft_PeerID ?ft) ?m False c = (c1, False, True)"
      using send_chunk_relay [OF less.prems(3,4)] by (simp add: c1_def)
    have mode: "PeerMode c2 (ft_PeerID ?ft) \<noteq> ''direct''" using less.prems(4) by (simp add: PeerMode_def c2_def c1_def)
    have step: "send_loop P i content stop False seq fails pos c = send_loop P i content stop False (seq + 1) fails (pos + length raw) c2"
      using assms(1) False mode by (subst send_loop.simps) (simp add: s Let_def raw_def [symmetric] c2_def [symmetric])
    have d: "pos + length raw \<le> length content" "raw @ drop (pos + length raw) content = drop pos content" "raw \<noteq> []"
      using False take_drop_rest [of "chunk_size False" pos content] by (auto simp: raw_def)
    have "length content - (pos + length raw) < length content - pos" using d(3) False by (cases raw) auto
    moreover have "i < length (c_fts c2)" "c_conn c2 = Some True" "mget (c_peerConns c2) (ft_PeerID (c_fts c2 ! i)) = None"
      using less.prems by (simp_all add: c2_def c1_def)
    ultimately obtain raws c' where "send_loop P i content stop False (seq + 1) fails (pos + length raw) c2 = (c', False, SendEOF)" "concat raws = drop (pos + length raw) content"
       "list_all (\<lambda>r. r \<noteq> []) raws" "c_ws c' = c_ws c2 @ map (relayed_chunk P (ft_PeerID (c_fts c2 ! i)) (ft_TransferID (c_fts c2 ! i))) (number_chunks (int (seq + 1)) (ft_BytesDone (c_fts c2 ! i)) raws)"
      using less.hyps [of "pos + length raw" c2 "seq + 1"] d(1) by blast
    then show ?thesis unfolding step using d less.prems(1)
      by (intro exI [of _ "raw # raws"] exI [of _ c']) (simp add: relayed_chunk_def c2_def c1_def add.commute)
  qed
qed

lemma number_chunks_ranges:
  assumes "list_all (\<lambda>r. r \<noteq> []) raws" "0 \<le> seq" "0 \<le> off" "seq + int (length (concat raws)) < 2 ^ 63" "off + int (length (concat raws)) < 2 ^ 63"
  shows "list_all (\<lambda>(seq, off, raw). int64_range seq \<and> int64_range off) (number_chunks seq off raws)"
  using assms
proof (induction seq off raws rule: number_chunks.induct)
  case (2 seq off raw raws)
  have "1 \<le> length raw" using 2(2) by (cases raw) auto
  then show ?case using 2 by (simp add: int64_range_def)
qed simp

text \<open>A file sent in chunks through the relay arrives if no chunk is lost or reordered. The sending loop ends,
  its messages are the numbered chunks of the rest of the file, and a receiver that has the beginning of the file and
  handles these messages in order and then the final message ends with the file on disk and the status complete.\<close>

theorem file_chunks_roundtrip:
  assumes inflate: "\<And>d. p_inflate P (p_deflate P d) = Some d"
    and s: "\<And>n. \<not> stop n" "i < length (c_fts cs)" "pos \<le> length content" "c_conn cs = Some True" "mget (c_peerConns cs) (ft_PeerID (c_fts cs ! i)) = None"
      "ft_BytesDone (c_fts cs ! i) = int pos" "ft_TransferID (c_fts cs ! i) = tid"
    and r: "mget (c_fileTransfers cr) tid = Some j" "j < length (c_fts cr)" "ft_Direction (c_fts cr ! j) = ''receive''" "ft_Status (c_fts cr ! j) = ''active''"
      "ft_File (c_fts cr ! j) \<noteq> None" "mget (c_disk cr) (ft_FilePath (c_fts cr ! j)) = Some (take pos content)" "ft_BytesDone (c_fts cr ! j) = int pos"
      "ft_FilePath (c_fts cr ! j) \<noteq> []"
    and fin: "int (length content) < 2 ^ 63" "\<And>d. 16 \<le> length (file_hash P d)"
  shows "\<exists>cks cs'. send_loop P i content stop False 0 fails pos cs = (cs', False, SendEOF)
    \<and> c_ws cs' = c_ws cs @ map (relayed_chunk P (ft_PeerID (c_fts cs ! i)) tid) cks
    \<and> (\<exists>cr'. handleFileDone P from' (Some (fileDone tid (int (length content)) (file_hash P content))) (receive_chunks P from' tid cks cr) = Some cr'
        \<and> mget (c_disk cr') (ft_FilePath (c_fts cr ! j)) = Some content \<and> ft_Status (c_fts cr' ! j) = ''complete'')"
proof -
  obtain raws cs' where l: "send_loop P i content stop False 0 fails pos cs = (cs', False, SendEOF)" "concat raws = drop pos content" "list_all (\<lambda>r. r \<noteq> []) raws"
      "c_ws cs' = c_ws cs @ map (relayed_chunk P (ft_PeerID (c_fts cs ! i)) tid) (number_chunks 0 (int pos) raws)"
    using send_loop_relay [of stop i cs pos content P 0 fails, OF s(1-5)] s(6,7) by auto
  let ?cks = "number_chunks 0 (int pos) raws"
  have len: "length (concat raws) = length content - pos" using l(2) by simp
  have ranges: "list_all (\<lambda>(seq, off, raw). int64_range seq \<and> int64_range off) ?cks"
    by (rule number_chunks_ranges [OF l(3)]) (use len fin(1) s(3) in linarith)+
  have eq: "take pos content @ concat (map (snd \<circ> snd) ?cks) = content" using l(2) by simp
  have old: "ft_BytesDone (c_fts cr ! j) = int (length (take pos content))" using r(7) s(3) by simp
  have "int64_range (int (length content))" using fin(1) by (simp add: int64_range_def)
  from done_after_chunks [OF inflate r(1-6) old r(8) ranges this refl fin(2), unfolded eq, of from']
  show ?thesis using l by (intro exI [of _ ?cks] exI [of _ cs']) simp
qed

lemma demo_inflate: "p_inflate demo_prims (p_deflate demo_prims d) = Some d"
  by (simp add: demo_prims_def)

lemma demo_client_simps [simp]:
  "c_fts (demo_client ft d) = [ft]" "c_disk (demo_client ft d) = [(''f'', d)]" "mget (c_fileTransfers (demo_client ft d)) ''t'' = Some 0"
  "c_conn (demo_client ft d) = Some True" "c_peerConns (demo_client ft d) = []" "c_ws (demo_client ft d) = []"
  by (simp_all add: demo_client_def NewClient_def)

lemma demo_ft_simps [simp]:
  "ft_TransferID (demo_ft dir f n x) = ''t''" "ft_PeerID (demo_ft dir f n x) = ''b''" "ft_Direction (demo_ft dir f n x) = dir" "ft_Status (demo_ft dir f n x) = ''active''"
  "ft_File (demo_ft dir f n x) = f" "ft_BytesDone (demo_ft dir f n x) = n" "ft_FilePath (demo_ft dir f n x) = ''f''" "ft_NackCh (demo_ft dir f n x) = Some []"
  by (simp_all add: demo_ft_def)

theorem file_chunks_roundtrip_witness:
  "\<exists>cks cs'. send_loop demo_prims 0 [1, 2, 3, 4] (\<lambda>_. False) False 0 0 2 (demo_client (demo_ft ''send'' (Some 2) 2 [1, 2, 3, 4]) [1, 2, 3, 4]) = (cs', False, SendEOF)
    \<and> c_ws cs' = map (relayed_chunk demo_prims ''b'' ''t'') cks
    \<and> (\<exists>cr'. handleFileDone demo_prims ''b'' (Some (fileDone ''t'' 4 (file_hash demo_prims [1, 2, 3, 4])))
          (receive_chunks demo_prims ''b'' ''t'' cks (demo_client (demo_ft ''receive'' (Some 2) 2 [1, 2, 3, 4]) [1, 2])) = Some cr'
        \<and> mget (c_disk cr') ''f'' = Some [1, 2, 3, 4] \<and> ft_Status (c_fts cr' ! 0) = ''complete'')"
  using file_chunks_roundtrip [of demo_prims "\<lambda>_. False" 0 "demo_client (demo_ft ''send'' (Some 2) 2 [1, 2, 3, 4]) [1, 2, 3, 4]" 2 "[1, 2, 3, 4]" "''t''"
      "demo_client (demo_ft ''receive'' (Some 2) 2 [1, 2, 3, 4]) [1, 2]" 0 0 "''b''", OF demo_inflate] demo_hash_length by simp

text \<open>The receiver appends chunks in the order in which they arrive and ignores their offsets. If two
  neighbouring chunks of a file arrive swapped, as datagrams may, or the first had to be requested again because its checksum
  failed, the file on disk is not the file that was sent, and unless the two have the same hash the transfer ends in an error, although
  every byte of it arrived.\<close>

theorem reordered_chunks_corrupt:
  assumes inflate: "\<And>d. p_inflate P (p_deflate P d) = Some d"
    and r: "mget (c_fileTransfers cr) tid = Some j" "j < length (c_fts cr)" "ft_Direction (c_fts cr ! j) = ''receive''" "ft_Status (c_fts cr ! j) = ''active''"
      "ft_File (c_fts cr ! j) \<noteq> None" "mget (c_disk cr) (ft_FilePath (c_fts cr ! j)) = Some []" "ft_BytesDone (c_fts cr ! j) = 0" "ft_FilePath (c_fts cr ! j) \<noteq> []"
    and chunks: "content = concat (map (snd \<circ> snd) (xs @ [a, b] @ ys))" "snd (snd a) @ snd (snd b) \<noteq> snd (snd b) @ snd (snd a)"
      "list_all (\<lambda>(seq, off, raw). int64_range seq \<and> int64_range off) (xs @ [a, b] @ ys)"
    and fin: "int (length content) < 2 ^ 63" "\<And>d. 16 \<le> length (file_hash P d)" "\<And>d. file_hash P d = file_hash P content \<Longrightarrow> d = content"
  shows "\<exists>cr' d. handleFileDone P from' (Some (fileDone tid (int (length content)) (file_hash P content))) (receive_chunks P from' tid (xs @ [b, a] @ ys) cr) = Some cr'
    \<and> mget (c_disk cr') (ft_FilePath (c_fts cr ! j)) = Some d \<and> d \<noteq> content \<and> length d = length content \<and> ft_Status (c_fts cr' ! j) = ''error''"
proof -
  let ?d = "concat (map (snd \<circ> snd) (xs @ [b, a] @ ys))"
  have ne: "?d \<noteq> content" using chunks(1,2) by simp
  have len: "length ([] @ ?d) = length content" using chunks(1) by simp
  have ranges: "list_all (\<lambda>(seq, off, raw). int64_range seq \<and> int64_range off) (xs @ [b, a] @ ys)" using chunks(3) by auto
  have old: "ft_BytesDone (c_fts cr ! j) = int (length ([] :: bytes))" using r(7) by simp
  have "int64_range (int (length content))" using fin(1) by (simp add: int64_range_def)
  from done_after_chunks [OF inflate r(1-6) old r(8) ranges this refl fin(2) len, of from'] fin(3) [of ?d] ne len
  show ?thesis by auto
qed

theorem reordered_chunks_corrupt_witness:
  "\<exists>cr' d. handleFileDone demo_prims ''b'' (Some (fileDone ''t'' 2 (file_hash demo_prims [1, 2])))
      (receive_chunks demo_prims ''b'' ''t'' [(1, 1, [2]), (0, 0, [1])] (demo_client (demo_ft ''receive'' (Some 0) 0 [1, 2]) [])) = Some cr'
    \<and> mget (c_disk cr') ''f'' = Some d \<and> d \<noteq> [1, 2] \<and> length d = 2 \<and> ft_Status (c_fts cr' ! 0) = ''error''"
proof -
  have inj: "d = e" if "file_hash demo_prims d = file_hash demo_prims e" for d e
  proof -
    have "hex_enc (d @ replicate 8 0) = hex_enc (e @ replicate 8 0)" using that unfolding file_hash_def demo_prims_def by (simp only: prims.select_convs)
    then have "d @ replicate 8 0 = e @ replicate 8 0" by (metis hex_dec_enc option.inject)
    then show ?thesis by (simp only: append_same_eq)
  qed
  let ?c = "demo_client (demo_ft ''receive'' (Some 0) 0 [1, 2]) []" and ?a = "(0, 0, [1]) :: int \<times> int \<times> bytes" and ?b = "(1, 1, [2]) :: int \<times> int \<times> bytes"
  have "\<exists>cr' d. handleFileDone demo_prims ''b'' (Some (fileDone ''t'' (int (length [1, 2 :: byte])) (file_hash demo_prims [1, 2])))
      (receive_chunks demo_prims ''b'' ''t'' ([] @ [?b, ?a] @ []) ?c) = Some cr'
    \<and> mget (c_disk cr') (ft_FilePath (c_fts ?c ! 0)) = Some d \<and> d \<noteq> [1, 2] \<and> length d = length [1, 2 :: byte] \<and> ft_Status (c_fts cr' ! 0) = ''error''"
    by (rule reordered_chunks_corrupt [where cr = ?c and j = 0 and xs = "[]" and a = ?a and b = ?b and ys = "[]", OF demo_inflate])
      (simp_all add: demo_hash_length int64_range_def inj)
  then show ?thesis by (simp add: eval_nat_numeral)
qed

section \<open>Requests for retransmission\<close>

lemma handleFileNack_queues:
  assumes "mget (c_fileTransfers c) tid = Some i" "ft_Direction (c_fts c ! i) = ''send''" "ft_NackCh (c_fts c ! i) = Some q" "length q < 256"
    and "int64_range seq" "int64_range off"
  shows "handleFileNack P (Some (fileNack tid seq off)) c = upd_ft i (\<lambda>ft. ft\<lparr>ft_NackCh := Some (q @ [(seq, off)])\<rparr>) c"
  using assms by (simp add: handleFileNack_def fileNack_def get_str_def get_int_def Let_def)

text \<open>A chunk that was lost on the way is never sent again. The sender announces the end only after it has
  stopped listening for requests, and the announcement is what makes the receiver notice the gap: the receiver
  answers it with a request and goes on waiting, with the transfer still active and the file open; the sender puts up to 256 requests into a
  channel that nobody reads any more and sends nothing.\<close>

theorem lost_chunk_never_resent:
  assumes r: "mget (c_fileTransfers cr) tid = Some j" "ft_Direction (c_fts cr ! j) = ''receive''" "ft_BytesDone (c_fts cr ! j) < n" "int64_range n"
    and s: "mget (c_fileTransfers cs) tid = Some i" "i < length (c_fts cs)" "ft_Direction (c_fts cs ! i) = ''send''" "ft_NackCh (c_fts cs ! i) = Some q"
      "length q + length nacks \<le> 256" "list_all (\<lambda>(seq, off). int64_range seq \<and> int64_range off) nacks"
  shows "\<exists>cr'. handleFileDone P from' (Some (fileDone tid n h)) cr = Some cr' \<and> c_fts cr' = c_fts cr
    \<and> (let cs' = fold (\<lambda>(seq, off). handleFileNack P' (Some (fileNack tid seq off))) nacks cs in
        c_ws cs' = c_ws cs \<and> c_udp cs' = c_udp cs \<and> c_tcp cs' = c_tcp cs \<and> ft_NackCh (c_fts cs' ! i) = Some (q @ nacks))"
proof -
  have "let cs' = fold (\<lambda>(seq, off). handleFileNack P' (Some (fileNack tid seq off))) nacks cs in
        c_ws cs' = c_ws cs \<and> c_udp cs' = c_udp cs \<and> c_tcp cs' = c_tcp cs \<and> ft_NackCh (c_fts cs' ! i) = Some (q @ nacks)"
    using s
  proof (induction nacks arbitrary: cs q)
    case (Cons x nacks)
    obtain seq off where x: "x = (seq, off)" by (cases x)
    have "handleFileNack P' (Some (fileNack tid seq off)) cs = upd_ft i (\<lambda>ft. ft\<lparr>ft_NackCh := Some (q @ [(seq, off)])\<rparr>) cs"
      using Cons.prems x by (intro handleFileNack_queues) auto
    then show ?case using Cons.IH [of "upd_ft i (\<lambda>ft. ft\<lparr>ft_NackCh := Some (q @ [(seq, off)])\<rparr>) cs" "q @ [(seq, off)]"] Cons.prems x
      by (simp add: Let_def)
  qed (simp add: Let_def)
  then show ?thesis using handleFileDone_eq [OF r(1,2,4), of P from' h] r(3) by simp
qed

theorem lost_chunk_never_resent_witness:
  "\<exists>cr'. handleFileDone demo_prims ''a'' (Some (fileDone ''t'' 2 [])) (demo_client (demo_ft ''receive'' (Some 1) 1 [1, 2]) [1]) = Some cr'
    \<and> c_fts cr' = [demo_ft ''receive'' (Some 1) 1 [1, 2]]
    \<and> c_ws (handleFileNack demo_prims (Some (fileNack ''t'' 1 1)) (demo_client (demo_ft ''send'' None 2 [1, 2]) [1, 2])) = []"
  using lost_chunk_never_resent [of "demo_client (demo_ft ''receive'' (Some 1) 1 [1, 2]) [1]" "''t''" 0 2 "demo_client (demo_ft ''send'' None 2 [1, 2]) [1, 2]" 0
      "[]" "[(1, 1)]" demo_prims "''a''" "[]" demo_prims] by (simp add: int64_range_def Let_def) blast

end
