(* ===== verification/Settings.thy ===== *)
theory Settings
  imports Tunnel Vpn Files
begin

text \<open>
  The permissions of a client and the snapshots that it gives to the interface, \<^verbatim>\<open>src/client/core/client.go\<close>.
\<close>

section \<open>Permissions\<close>

definition SetAllowForward :: "bool \<Rightarrow> cli \<Rightarrow> cli" where
  "SetAllowForward allow c = c\<lparr>c_allowForward := allow\<rparr>"

definition SetLocalOnly :: "bool \<Rightarrow> cli \<Rightarrow> cli" where
  "SetLocalOnly lcl c = c\<lparr>c_localOnly := lcl\<rparr>"

definition SetAllowVPN :: "bool \<Rightarrow> cli \<Rightarrow> cli" where
  "SetAllowVPN allow c = c\<lparr>c_allowVPN := allow\<rparr>"

definition SetAllowFileRecv :: "bool \<Rightarrow> cli \<Rightarrow> cli" where
  "SetAllowFileRecv allow c = c\<lparr>c_allowFileRecv := allow\<rparr>"

definition SetAllowHopRelay :: "bool \<Rightarrow> cli \<Rightarrow> cli" where
  "SetAllowHopRelay allow c = c\<lparr>c_allowHopRelay := allow\<rparr>"

section \<open>Snapshots\<close>

record forwardInfo =
  fi_LocalPort :: int
  fi_RemoteHost :: string
  fi_RemotePort :: int
  fi_PeerID :: string
  fi_PeerName :: string
  fi_Mode :: string
  fi_ForceRelay :: bool
  fi_ConnCount :: int
  fi_BytesUp :: int
  fi_BytesDown :: int
  fi_RateUp :: int
  fi_RateDown :: int

definition forward_info :: "cli \<Rightarrow> forward \<Rightarrow> forwardInfo" where
  "forward_info c f = \<lparr>fi_LocalPort = f_LocalPort f, fi_RemoteHost = f_RemoteHost f, fi_RemotePort = f_RemotePort f, fi_PeerID = f_PeerID f,
     fi_PeerName = f_PeerName f, fi_Mode = (if f_ForceRelay f then ''RELAY'' else getForwardMode c (f_PeerID f)), fi_ForceRelay = f_ForceRelay f,
     fi_ConnCount = f_ConnCount f, fi_BytesUp = f_BytesUp f, fi_BytesDown = f_BytesDown f,
     fi_RateUp = f_BytesUp f - f_LastUp f, fi_RateDown = f_BytesDown f - f_LastDown f\<rparr>"

definition Forwards :: "cli \<Rightarrow> cli \<times> forwardInfo list" where
  "Forwards c = (c\<lparr>c_forwards := map (\<lambda>(p, f). (p, f\<lparr>f_LastUp := f_BytesUp f, f_LastDown := f_BytesDown f\<rparr>)) (c_forwards c)\<rparr>,
     map (forward_info c \<circ> snd) (c_forwards c))"

record stunInfo =
  si_PublicAddr :: string
  si_Enabled :: bool
  si_NATType :: string
  si_RelayDisabled :: bool
  si_PeerConns :: "(string \<times> string) list"

definition StunStatus :: "cli \<Rightarrow> stunInfo" where
  "StunStatus c = \<lparr>si_PublicAddr = c_publicAddr c, si_Enabled = (c_publicAddr c \<noteq> []), si_NATType = c_natType c,
     si_RelayDisabled = c_relayDisabled c, si_PeerConns = map (map_prod id pc_Mode) (c_peerConns c)\<rparr>"

text \<open>Between two snapshots of the forwards nothing is counted twice: a snapshot right after another shows no traffic.\<close>

lemma Forwards_again:
  assumes "Forwards c = (c', infos)"
  shows "map (\<lambda>i. (fi_RateUp i, fi_RateDown i)) (snd (Forwards c')) = replicate (length infos) (0, 0)"
    and "map fi_BytesUp (snd (Forwards c')) = map fi_BytesUp infos"
  using assms by (auto simp: Forwards_def forward_info_def comp_def case_prod_beta map_replicate_const)

section \<open>Permissions are respected\<close>

text \<open>Whether a hop request is one of the automatic routing.\<close>

definition hop_auto :: "json option \<Rightarrow> bool" where
  "hop_auto payload = (case payload of None \<Rightarrow> False | Some v \<Rightarrow> fst (get_bool ''auto'' (fst (obj_members v))))"

text \<open>Claim C9. A request that the user does not permit changes nothing but the messages sent (and the nonce counter of their encryption): without the permission to
  receive files an offer is refused, without the permission for VPNs no device is made and no command is given to the operating
  system, without the permission to forward no tunnel is opened and no port is bound. A hop request of the automatic routing makes no
  bridge when the permission to relay hops alone is withdrawn, and any other hop request makes none when the permission to forward
  alone is withdrawn; whatever the request says and from whomever it comes.\<close>

theorem permissions_respected:
  "ws_only (SetAllowFileRecv False c) (handleFileOffer P f p (SetAllowFileRecv False c)) \<and>
   ws_only (SetAllowVPN False c) (handleTunSetup P base uid ifc f p (SetAllowVPN False c)) \<and>
   ws_only (SetAllowForward False c) (handleOpenTunnel P f p nsOk dial (SetAllowForward False c)) \<and>
   ws_only (SetAllowForward False c) (handleReverseForwardOffer P f p listenOk fid rnd reason (SetAllowForward False c)) \<and>
   (let d = (if hop_auto p then SetAllowHopRelay False c else SetAllowForward False c) in ws_only d (handleHopForward P f p r1 r2 d))"
proof -
  have "ws_only d (handleFileOffer P f p d)" if "\<not> c_allowFileRecv d" for d
    using that by (simp add: handleFileOffer_def sendRelay_ws_only)
  moreover have "ws_only d (handleTunSetup P base uid ifc f p d)" if "\<not> c_allowVPN d" for d
    using that by (simp add: handleTunSetup_def sendRelay_ws_only)
  moreover have "ws_only d (handleOpenTunnel P f p nsOk dial d)" if "\<not> c_allowForward d" for d
    using that by (simp add: handleOpenTunnel_def open_tunnel_def sendRelay_ws_only Let_def split: option.split prod.split)
  moreover have "ws_only d (handleReverseForwardOffer P f p listenOk fid rnd reason d)" if "\<not> c_allowForward d" for d
    using that by (simp add: handleReverseForwardOffer_def sendRelay_ws_only Let_def split: option.split prod.split)
  moreover have "ws_only d (handleHopForward P f p r1 r2 d)" if "hop_auto p \<and> \<not> c_allowHopRelay d \<or> \<not> hop_auto p \<and> \<not> c_allowForward d" for d
    using that by (auto simp: handleHopForward_def hop_auto_def sendRelay_ws_only Let_def split: option.split prod.split)
  ultimately show ?thesis
    by (simp add: SetAllowFileRecv_def SetAllowVPN_def SetAllowForward_def SetAllowHopRelay_def Let_def)
qed

end
