(* ===== verification/Discovery.thy ===== *)
theory Discovery
  imports Holepunch Ipnet
begin

text \<open>
  How a client learns its public address and the behaviour of its NAT, \<^verbatim>\<open>src/client/core/stun.go\<close>: \<^verbatim>\<open>DiscoverSTUN\<close> asks the
  servers in turn, \<^verbatim>\<open>detectNATType\<close> compares what two servers see, and \<^verbatim>\<open>detectPortAllocation\<close> classifies a symmetric NAT by
  eight samples.

  A query draws from outside whether a socket could be opened, the transaction ID, the datagram read (the buffer of 1024 bytes
  and the number of bytes received; \<open>None\<close> for an error), the local address and the time in nanoseconds.
\<close>

section \<open>Queries\<close>

record query =
  q_listenOk :: bool
  q_txID :: bytes
  q_answer :: "(bytes \<times> nat) option"
  q_local :: string
  q_at :: int

definition NATOpen :: string where "NATOpen = ''NAT1''"

definition NATFullCone :: string where "NATFullCone = ''NAT1''"

text \<open>\<^verbatim>\<open>stunQueryFresh\<close>, with the empty text for every error; \<open>None\<close> is a panic.\<close>

definition stunQueryFresh :: "prims \<Rightarrow> query \<Rightarrow> string \<Rightarrow> string option" where
  "stunQueryFresh P q server = (case p_resolve P server of None \<Rightarrow> Some []
     | Some _ \<Rightarrow> (case q_answer q of None \<Rightarrow> Some []
       | Some (buf, n) \<Rightarrow> stun_fresh buf n (q_txID q)))"

definition stunDiscover :: "prims \<Rightarrow> query \<Rightarrow> string \<Rightarrow> (string + string) option" where
  "stunDiscover P q server = (case p_resolve P server of None \<Rightarrow> Some (Inl ''resolve STUN server'')
     | Some _ \<Rightarrow>
        if \<not> q_listenOk q then Some (Inl ''listen UDP'')
        else case q_answer q of None \<Rightarrow> Some (Inl ''read STUN response'')
             | Some (buf, n) \<Rightarrow> stun_response buf n (q_txID q))"

text \<open>\<^verbatim>\<open>DiscoverSTUN\<close>; the second result is the server that answered, \<open>None\<close> for the error. The loops for datagrams and
  retries and the detection of the NAT type are started with the state that is returned.\<close>

fun discover_from :: "prims \<Rightarrow> (nat \<Rightarrow> query) \<Rightarrow> nat \<Rightarrow> string list \<Rightarrow> cli \<Rightarrow> (cli \<times> string option) option" where
  "discover_from P q n [] c = Some (c, None)"
| "discover_from P q n (s # servers) c =
     (let srv = trim_space s in
      if srv = [] then discover_from P q (Suc n) servers c
      else case stunDiscover P (q n) srv of
          None \<Rightarrow> None
        | Some (Inl e) \<Rightarrow> discover_from P q (Suc n) servers c
        | Some (Inr publicAddr) \<Rightarrow>
            Some (sendStunInfo [] (c\<lparr>c_publicAddr := publicAddr, c_udpConn := True, c_localAddr := q_local (q n)\<rparr>), Some srv))"

definition DiscoverSTUN :: "prims \<Rightarrow> (nat \<Rightarrow> query) \<Rightarrow> string list \<Rightarrow> cli \<Rightarrow> (cli \<times> string option) option" where
  "DiscoverSTUN P q servers c = discover_from P q 0 servers c"

section \<open>Port allocation\<close>

text \<open>A step between two ports, corrected for the wrap-around of the port numbers.\<close>

definition port_step :: "int \<Rightarrow> int \<Rightarrow> int" where
  "port_step p p' = (let d = p' - p in if d < - 30000 then d + 65536 else d)"

fun port_deltas :: "int list \<Rightarrow> int list" where
  "port_deltas (p # p' # ps) = port_step p p' # port_deltas (p' # ps)"
| "port_deltas _ = []"

definition sortedMedian :: "int list \<Rightarrow> int" where
  "sortedMedian vals = sort vals ! (length vals div 2)"

definition max_dev :: "int \<Rightarrow> int list \<Rightarrow> int" where
  "max_dev median ds = fold (\<lambda>d m. max (abs (d - median)) m) ds 0"

text \<open>\<^verbatim>\<open>driftRate > 10\<close> for \<open>ports\<close> ports in \<open>dt\<close> nanoseconds, without the rounding of the quotient.\<close>

definition fast_drift :: "int \<Rightarrow> int \<Rightarrow> bool" where
  "fast_drift ports dt \<longleftrightarrow> 0 < dt \<and> 10 * dt < ports * 1000000000"

definition port_model :: "(int \<times> int) list \<Rightarrow> portModel" where
  "port_model samples =
     (let deltas = port_deltas (map fst samples);
          negCount = length (filter (\<lambda>d. d < 0) deltas);
          drift = fast_drift (port_step (fst (hd samples)) (fst (last samples))) (snd (last samples) - snd (hd samples));
          mostlyPositive = (negCount \<le> length deltas div 5);
          median = sortedMedian deltas;
          model = (\<lambda>name pos delta. \<lparr>pm_Name = name, pm_DriftPos = pos, pm_Delta = delta, pm_Anchor = fst (last samples)\<rparr>)
      in if mostlyPositive \<and> drift then model ''global_counter'' True 0
         else if mostlyPositive \<and> 2 \<le> length deltas \<and> 1 \<le> median \<and> median \<le> 10 \<and> max_dev median deltas \<le> 3 then model ''sequential'' False median
         else model ''random'' False 0)"

text \<open>The port of an address; it is the decimal text that \<^verbatim>\<open>parseXorMappedAddress\<close> wrote.\<close>

definition addr_port :: "string \<Rightarrow> string" where
  "addr_port addr = (case split_host_port addr of None \<Rightarrow> [] | Some (h, p) \<Rightarrow> p)"

definition port_number :: "string \<Rightarrow> int" where
  "port_number addr = (case go_atoi (addr_port addr) of None \<Rightarrow> 0 | Some p \<Rightarrow> p)"

fun port_samples :: "prims \<Rightarrow> string \<Rightarrow> query list \<Rightarrow> (int \<times> int) list option" where
  "port_samples P srv [] = Some []"
| "port_samples P srv (q # qs) = do {
     addr \<leftarrow> (if q_listenOk q then stunQueryFresh P q srv else Some []);
     rest \<leftarrow> port_samples P srv qs;
     Some (if addr \<noteq> [] \<and> 0 < port_number addr then (port_number addr, q_at q) # rest else rest) }"

definition detectPortAllocation :: "prims \<Rightarrow> (nat \<Rightarrow> query) \<Rightarrow> string list \<Rightarrow> cli \<Rightarrow> cli option" where
  "detectPortAllocation P q servers c = (case servers of [] \<Rightarrow> Some c
     | srv # _ \<Rightarrow> do {
         samples \<leftarrow> port_samples P srv (map q [0..<8]);
         Some (if length samples < 3 then c else c\<lparr>c_portModel := Some (port_model samples)\<rparr>) })"

section \<open>The type of the NAT\<close>

text \<open>\<^verbatim>\<open>hasLocalIP\<close>: the interfaces with their state and addresses, \<open>None\<close> if they cannot be listed.\<close>

definition hasLocalIP :: "string \<Rightarrow> (bool \<times> u32 list) list option \<Rightarrow> bool" where
  "hasLocalIP ip ifaces = (case parse_ipv4 ip of None \<Rightarrow> False
     | Some target \<Rightarrow> (case ifaces of None \<Rightarrow> False | Some ifs \<Rightarrow> list_ex (\<lambda>(up, addrs). up \<and> target \<in> set addrs) ifs))"

text \<open>The ports that the first two servers with different addresses see.\<close>

fun nat_ports :: "prims \<Rightarrow> (nat \<Rightarrow> query) \<Rightarrow> nat \<Rightarrow> string list \<Rightarrow> u32 list \<Rightarrow> string list \<Rightarrow> string list option" where
  "nat_ports P q n [] seen ports = Some ports"
| "nat_ports P q n (s # servers) seen ports =
     (let srv = trim_space s; skip = nat_ports P q (Suc n) servers seen ports in
      if srv = [] then skip
      else case p_resolve P srv of None \<Rightarrow> skip
        | Some (ip, _) \<Rightarrow>
           if ip \<in> set seen then skip
           else (case stunQueryFresh P (q n) srv of None \<Rightarrow> None
             | Some addr \<Rightarrow>
                if addr = [] then skip
                else
                  (let ports' = ports @ [addr_port addr] in
                   if 2 \<le> length ports' then Some ports' else nat_ports P q (Suc n) servers (ip # seen) ports')))"

definition detectNATType :: "prims \<Rightarrow> (nat \<Rightarrow> query) \<Rightarrow> (nat \<Rightarrow> query) \<Rightarrow> bool \<Rightarrow> (bool \<times> u32 list) list option \<Rightarrow> string \<Rightarrow> string list \<Rightarrow> cli \<Rightarrow> cli option" where
  "detectNATType P q q' listenOk ifaces publicAddr servers c =
     (let pubIP = (case split_host_port publicAddr of None \<Rightarrow> [] | Some (h, _) \<Rightarrow> h) in
      if hasLocalIP pubIP ifaces then Some (c\<lparr>c_natType := NATOpen\<rparr>)
      else if \<not> listenOk then Some (c\<lparr>c_natType := NATFullCone\<rparr>)
      else (case nat_ports P q 0 servers [] [] of None \<Rightarrow> None
        | Some ports \<Rightarrow>
           if length ports < 2 then Some (c\<lparr>c_natType := NATFullCone\<rparr>)
           else if ports ! 0 = ports ! 1 then Some (c\<lparr>c_natType := NATFullCone\<rparr>)
           else detectPortAllocation P q' servers (c\<lparr>c_natType := NATSymmetric\<rparr>)))"

section \<open>What the servers see\<close>

lemma addr_chars:
  assumes "x \<in> set (addr_str ip port)"
  shows "is_digit x \<or> x = CHR ''.'' \<or> x = CHR '':''"
  using assms by (auto simp: addr_str_def ipv4_str_def bytes32_def dest: show_nat_digits)

lemma split_addr_str: "split_host_port (addr_str ip port) = Some (ipv4_str ip, show_nat (unat port))"
proof -
  have h: "x \<in> set (ipv4_str ip) \<Longrightarrow> is_digit x \<or> x = CHR ''.''" for x by (auto simp: ipv4_str_def bytes32_def dest: show_nat_digits)
  have p: "x \<in> set (show_nat (unat port)) \<Longrightarrow> is_digit x" for x by (rule show_nat_digits)
  have "join_host_port (ipv4_str ip) (show_nat (unat port)) = addr_str ip port"
    using h [of "CHR '':''"] h [of "CHR ''%''"] by (auto simp: join_host_port_def addr_str_def is_digit_def)
  then show ?thesis
    using split_join_host_port [of "ipv4_str ip" "show_nat (unat port)"] h [of "CHR ''[''"] h [of "CHR '']''"]
      p [of "CHR '':''"] p [of "CHR ''[''"] p [of "CHR '']''"] by (auto simp: is_digit_def)
qed

lemma addr_port_addr_str [simp]: "addr_port (addr_str ip port) = show_nat (unat port)"
  by (simp add: addr_port_def split_addr_str)

lemma port_number_addr_str [simp]: "port_number (addr_str ip port) = int (unat port)"
proof -
  have "int (unat port) < int 65536" by (simp only: of_nat_less_iff unat_u16_less)
  also have "\<dots> < 2 ^ 63" by simp
  finally show ?thesis by (simp only: port_number_def addr_port_addr_str go_atoi_show_nat option.case)
qed

lemma addr_str_nonempty [simp]: "addr_str ip port \<noteq> []"
  by (simp add: addr_str_def)

text \<open>A query that reaches the STUN server, which sees it come from \<open>ip:port\<close>.\<close>

definition seen_as :: "u32 \<Rightarrow> u16 \<Rightarrow> query \<Rightarrow> bool" where
  "seen_as ip port q \<longleftrightarrow> q_listenOk q \<and> length (q_txID q) = 12 \<and>
     (\<exists>now s s' resp. stun_serve (Some (stun_request (q_txID q))) (Addr4 ip port) now True s = Some (s', Some resp) \<and>
        q_answer q = Some (resp @ replicate (1024 - length resp) 0, length resp))"

lemma stun_response_fresh: "stun_response buf n tx = Some (Inr addr) \<Longrightarrow> stun_fresh buf n tx = Some addr"
  by (auto simp: stun_response_def stun_fresh_def split: if_splits Option.bind_splits)

lemma seen_as_answer: "seen_as ip port q \<Longrightarrow> p_resolve P srv \<noteq> None \<Longrightarrow> stunQueryFresh P q srv = Some (addr_str ip port)"
proof -
  assume q: "seen_as ip port q" and r: "p_resolve P srv \<noteq> None"
  obtain now s s' resp where resp: "stun_serve (Some (stun_request (q_txID q))) (Addr4 ip port) now True s = Some (s', Some resp)"
      "q_answer q = Some (resp @ replicate (1024 - length resp) 0, length resp)"
    using q by (auto simp: seen_as_def)
  have "stun_response (resp @ replicate (1024 - length resp) 0) (length resp) (q_txID q) = Some (Inr (addr_str ip port))"
    using stun_exchange [of "q_txID q" ip port now s] q resp(1) by (auto simp: seen_as_def)
  then have "stun_fresh (resp @ replicate (1024 - length resp) 0) (length resp) (q_txID q) = Some (addr_str ip port)"
    by (rule stun_response_fresh)
  then show ?thesis using r resp(2) by (auto simp: stunQueryFresh_def)
qed

section \<open>Consecutive ports\<close>

lemma port_step_mod:
  assumes "0 \<le> s" "s < 35536"
  shows "port_step (x mod 65536) ((x + s) mod 65536) = s"
proof -
  let ?r = "x mod 65536"
  have r: "0 \<le> ?r" "?r < 65536" by simp_all
  have "(x + s) mod 65536 = (?r + s) mod 65536" by (simp only: mod_add_left_eq)
  also have "\<dots> = (if ?r + s < 65536 then ?r + s else ?r + s - 65536)"
  proof (cases "?r + s < 65536")
    case False
    then have "(?r + s) mod 65536 = (?r + s - 65536) mod 65536" by (simp only: minus_mod_self2)
    then show ?thesis using False r assms by (simp only: if_False mod_pos_pos_trivial)
  qed (use r assms in \<open>simp only: if_True mod_pos_pos_trivial\<close>)
  finally have m: "(x + s) mod 65536 = (if ?r + s < 65536 then ?r + s else ?r + s - 65536)" .
  show ?thesis unfolding m port_step_def Let_def using r assms by (simp only: split: if_splits) linarith
qed

lemma port_deltas_arith:
  assumes "0 \<le> s" "s < 35536"
  shows "port_deltas (map (\<lambda>i. (a + int i * s) mod 65536) [k..<k + Suc n]) = replicate n s"
proof (induction n arbitrary: k)
  case (Suc n)
  have "[k..<k + Suc (Suc n)] = k # [Suc k..<Suc k + Suc n]" "[Suc k..<Suc k + Suc n] = Suc k # [Suc (Suc k)..<Suc k + Suc n]"
    by (simp_all add: upt_conv_Cons)
  moreover have "port_step ((a + int k * s) mod 65536) ((a + int (Suc k) * s) mod 65536) = s"
    using port_step_mod [OF assms, of "a + int k * s"] by (simp add: algebra_simps)
  ultimately show ?case using Suc [of "Suc k"] by (simp del: upt_Suc)
qed simp

lemma sortedMedian_replicate [simp]: "0 < n \<Longrightarrow> sortedMedian (replicate n x) = x"
  by (simp add: sortedMedian_def sort_key_id_if_sorted)

lemma max_dev_replicate [simp]: "max_dev x (replicate n x) = 0"
  by (induction n) (simp_all add: max_dev_def)

lemma port_model_arith:
  assumes "2 \<le> n" "1 \<le> step" "step \<le> 10" "int n * step < 35536"
  shows "port_model (map (\<lambda>i. ((a + int i * step) mod 65536, t i)) [0..<Suc n]) =
    (if fast_drift (int n * step) (t n - t 0) then \<lparr>pm_Name = ''global_counter'', pm_DriftPos = True, pm_Delta = 0, pm_Anchor = (a + int n * step) mod 65536\<rparr>
     else \<lparr>pm_Name = ''sequential'', pm_DriftPos = False, pm_Delta = step, pm_Anchor = (a + int n * step) mod 65536\<rparr>)"
proof -
  let ?ss = "map (\<lambda>i. ((a + int i * step) mod 65536, t i)) [0..<Suc n]"
  have "port_deltas (map fst ?ss) = replicate n step"
    using port_deltas_arith [of step a 0 n] assms by (simp add: comp_def del: upt_Suc)
  moreover have "last ?ss = ((a + int n * step) mod 65536, t n)" "hd ?ss = (a mod 65536, t 0)"
    by simp (simp add: hd_map hd_upt del: upt_Suc)
  moreover have "port_step (a mod 65536) ((a + int n * step) mod 65536) = int n * step"
    using assms by (intro port_step_mod) auto
  moreover have "filter (\<lambda>d. d < 0) (replicate n step) = []" using assms by (simp add: filter_replicate)
  ultimately show ?thesis using assms unfolding port_model_def Let_def by (simp del: upt_Suc)
qed

lemma port_samples_seen:
  assumes "p_resolve P srv \<noteq> None" "\<And>i. i \<in> set is \<Longrightarrow> seen_as (ip i) (pt i) (q i) \<and> pt i \<noteq> 0"
  shows "port_samples P srv (map q is) = Some (map (\<lambda>i. (int (unat (pt i)), q_at (q i))) is)"
  using assms(2)
proof (induction "is")
  case (Cons i js)
  have "stunQueryFresh P (q i) srv = Some (addr_str (ip i) (pt i))" "q_listenOk (q i)" "uint (pt i) \<noteq> 0"
    using Cons.prems [of i] seen_as_answer [OF _ assms(1), of "ip i" "pt i" "q i"] by (auto simp: seen_as_def uint_0_iff)
  moreover from this(3) have "0 < uint (pt i)" using uint_ge_0 [of "pt i"] by linarith
  ultimately show ?case using Cons by simp
qed simp

text \<open>A symmetric NAT that gives every new connection the next port in steps of 1 to 10 is recognised, also where the port numbers wrap around: the eight
  samples give the model \<^verbatim>\<open>sequential\<close> with exactly this step and the last port as anchor, unless the ports advance by more than
  ten per second while the samples are taken; then the model is \<^verbatim>\<open>global_counter\<close>.\<close>

theorem sequential_nat_recognised:
  assumes "p_resolve P srv \<noteq> None" "1 \<le> step" "step \<le> (10 :: nat)"
    and "\<And>i. i < 8 \<Longrightarrow> seen_as (ip i) (first + of_nat (i * step)) (q i) \<and> first + of_nat (i * step) \<noteq> 0"
  shows "detectPortAllocation P q (srv # servers) c = Some (c\<lparr>c_portModel := Some
    (if fast_drift (7 * int step) (q_at (q 7) - q_at (q 0))
     then \<lparr>pm_Name = ''global_counter'', pm_DriftPos = True, pm_Delta = 0, pm_Anchor = int (unat (first + of_nat (7 * step)))\<rparr>
     else \<lparr>pm_Name = ''sequential'', pm_DriftPos = False, pm_Delta = int step, pm_Anchor = int (unat (first + of_nat (7 * step)))\<rparr>)\<rparr>)"
proof -
  let ?pt = "\<lambda>i. first + of_nat (i * step)"
  have u: "int (unat (?pt i)) = (uint first + int i * int step) mod 65536" for i
    by (simp add: uint_word_ariths uint_nat [symmetric] unsigned_of_nat take_bit_eq_mod zmod_int mod_simps)
  have "port_samples P srv (map q [0..<8]) = Some (map (\<lambda>i. (int (unat (?pt i)), q_at (q i))) [0..<8])"
    by (rule port_samples_seen [OF assms(1)]) (use assms(4) in auto)
  moreover have "map (\<lambda>i. (int (unat (?pt i)), q_at (q i))) [0..<8] = map (\<lambda>i. ((uint first + int i * int step) mod 65536, q_at (q i))) [0..<Suc 7]"
    by (simp only: u) (simp add: eval_nat_numeral)
  ultimately have "port_samples P srv (map q [0..<8]) = Some (map (\<lambda>i. ((uint first + int i * int step) mod 65536, q_at (q i))) [0..<Suc 7])"
    by (simp only:)
  then show ?thesis
    using port_model_arith [of 7 "int step" "uint first" "\<lambda>i. q_at (q i)"] assms(2,3)
    unfolding detectPortAllocation_def u by (simp del: upt_Suc)
qed

text \<open>A query that the server answers, for an example.\<close>

definition example_query :: "u32 \<Rightarrow> u16 \<Rightarrow> int \<Rightarrow> query" where
  "example_query ip port at' =
     (let resp = buildBindingResponse (replicate 12 7) (Addr4 ip port) in
      \<lparr>q_listenOk = True, q_txID = replicate 12 7, q_answer = Some (resp @ replicate (1024 - length resp) 0, length resp), q_local = [], q_at = at'\<rparr>)"

lemma example_query_seen: "seen_as ip port (example_query ip port at')"
proof -
  let ?r = "stun_request (replicate 12 7)" and ?s = "\<lparr>recentClients = [], totalRequests = 0, totalErrors = 0\<rparr>"
  have "u16at ?r 0 = Some StunBindingRequest" "slice ?r 8 20 = Some (replicate 12 7)" "\<not> length ?r < StunHeaderSize" by code_simp+
  then have "\<exists>s'. stun_serve (Some ?r) (Addr4 ip port) 0 True ?s = Some (s', Some (buildBindingResponse (replicate 12 7) (Addr4 ip port)))"
    unfolding stun_serve_def by (simp del: buildBindingResponse.simps)
  then show ?thesis by (auto simp: seen_as_def example_query_def Let_def simp del: buildBindingResponse.simps)
qed

theorem sequential_nat_recognised_witness:
  "detectPortAllocation prims0 (\<lambda>i. example_query 1 (65532 + of_nat (i * 3)) (int i * 1000000000)) [''s''] (cli_with ''a'' []) =
     Some ((cli_with ''a'' [])\<lparr>c_portModel := Some \<lparr>pm_Name = ''sequential'', pm_DriftPos = False, pm_Delta = 3, pm_Anchor = 17\<rparr>\<rparr>)"
proof -
  let ?q = "\<lambda>i. example_query 1 (65532 + of_nat (i * 3)) (int i * 1000000000)"
  have nz: "(65532 + of_nat (i * 3) :: u16) \<noteq> 0" if "i < 8" for i :: nat
  proof -
    have "i = 0 \<or> i = 1 \<or> i = 2 \<or> i = 3 \<or> i = 4 \<or> i = 5 \<or> i = 6 \<or> i = 7" using that by linarith
    then show ?thesis by (elim disjE) simp_all
  qed
  have at: "q_at (example_query ip port t) = t" for ip port t by (simp add: example_query_def Let_def)
  have "p_resolve prims0 ''s'' \<noteq> None" by (simp add: prims0_def)
  from sequential_nat_recognised [OF this, of 3 "\<lambda>_. 1" 65532 ?q "[]" "cli_with ''a'' []"] nz example_query_seen show ?thesis
    by (simp add: at fast_drift_def)
qed

section \<open>Cone and symmetric NATs\<close>

text \<open>A query that gets no answer, or that of a STUN server.\<close>

definition honest :: "query \<Rightarrow> bool" where
  "honest q \<longleftrightarrow> q_answer q = None \<or> (\<exists>ip port. seen_as ip port q)"

lemma honest_returns: "honest q \<Longrightarrow> \<exists>addr. stunQueryFresh P q srv = Some addr"
  using seen_as_answer [of _ _ q P srv]
  by (cases "p_resolve P srv") (auto simp: honest_def stunQueryFresh_def)

lemma honest_samples: "list_all honest qs \<Longrightarrow> \<exists>samples. port_samples P srv qs = Some samples"
proof (induction qs)
  case (Cons q qs)
  then show ?case using honest_returns [of q P srv] by (auto split: if_splits)
qed simp

lemma honest_allocation: "(\<And>i. i < 8 \<Longrightarrow> honest (q i)) \<Longrightarrow> \<exists>c'. detectPortAllocation P q servers c = Some c' \<and> c_natType c' = c_natType c"
proof (cases servers)
  case (Cons srv rest)
  assume "\<And>i. i < 8 \<Longrightarrow> honest (q i)"
  then have "list_all honest (map q [0..<8])" by (simp add: list_all_iff)
  from honest_samples [OF this, of P srv] show ?thesis using Cons by (auto simp: detectPortAllocation_def)
qed (simp add: detectPortAllocation_def)

text \<open>The type of the NAT is detected: when the first two STUN servers, at different addresses, are asked from one socket, the NAT is taken for a
  symmetric one exactly if they see the client at different ports, and the detection ends however the further queries are answered
  by STUN servers or lost.\<close>

theorem nat_type_detected:
  assumes "trim_space s1 \<noteq> []" "trim_space s2 \<noteq> []" "p_resolve P (trim_space s1) = Some (i1, o1)" "p_resolve P (trim_space s2) = Some (i2, o2)" "i1 \<noteq> i2"
    and "seen_as x1 p1 (q 0)" "seen_as x2 p2 (q 1)" "\<And>i. i < 8 \<Longrightarrow> honest (q' i)"
    and "\<not> hasLocalIP (ipv4_str ip) ifaces"
  shows "\<exists>c'. detectNATType P q q' True ifaces (addr_str ip port) (s1 # s2 # servers) c = Some c' \<and>
    c_natType c' = (if p1 = p2 then NATFullCone else NATSymmetric)"
proof -
  have "stunQueryFresh P (q 0) (trim_space s1) = Some (addr_str x1 p1)" "stunQueryFresh P (q 1) (trim_space s2) = Some (addr_str x2 p2)"
    using assms by (simp_all add: seen_as_answer)
  then have "nat_ports P q 0 (s1 # s2 # servers) [] [] = Some [show_nat (unat p1), show_nat (unat p2)]"
    using assms(1-5) by (simp add: Let_def)
  then show ?thesis
    using assms(9) honest_allocation [of q' P "s1 # s2 # servers" "c\<lparr>c_natType := NATSymmetric\<rparr>"] assms(8)
    by (auto simp: detectNATType_def split_addr_str word_unat_eq_iff [of p1 p2] simp del: nat_ports.simps)
qed

definition two_servers :: prims where
  "two_servers = prims0\<lparr>p_resolve := (\<lambda>s. Some (if s = ''s1'' then 1 else 2, 3478))\<rparr>"

theorem nat_type_detected_witness:
  "\<exists>c'. detectNATType two_servers (\<lambda>i. example_query 9 (if i = 0 then 4000 else 4001) 0) (\<lambda>i. example_query 9 (of_nat i) 0) True (Some [])
      (addr_str 9 4000) [''s1'', ''s2''] (cli_with ''a'' []) = Some c' \<and> c_natType c' = ''NAT4''"
proof -
  have "trim_space ''s1'' = ''s1''" "trim_space ''s2'' = ''s2''" by (simp_all add: trim_space_def is_space_def)
  moreover have "honest (example_query 9 (of_nat i) 0)" for i unfolding honest_def using example_query_seen [of 9 "of_nat i" 0] by blast
  ultimately show ?thesis
    using nat_type_detected [of "''s1''" "''s2''" two_servers 1 3478 2 3478 9 4000 "\<lambda>i. example_query 9 (if i = 0 then 4000 else 4001) 0" 9 4001
        "\<lambda>i. example_query 9 (of_nat i) 0" 9 "Some []" 4000 "[]" "cli_with ''a'' []"] example_query_seen
    by (simp add: two_servers_def hasLocalIP_def NATSymmetric_def)
qed

end
