(* ===== verification/Natcheck.thy ===== *)
theory Natcheck
  imports Discovery
begin

text \<open>
  The NAT diagnosis of \<^verbatim>\<open>src/tools/natcheck/main.go\<close>: STUN queries with all attributes, the behaviour tests of RFC 5780, the
  comparison of several servers, port allocation, classification and score. Output to the terminal is left out; the Chinese labels of
  behaviours and types are constructors.

  The network is a parameter: what comes back for a request sent to an address, with the state of the network, in which the NAT
  remembers where the socket has sent to. At the end such a network is given: a NAT with an arbitrary mapping and filtering behaviour
  in front of a server with two addresses.
\<close>

section \<open>Data\<close>

datatype mapping = MapUnset | MapEndpointIndep | MapAddrDep | MapAddrPortDep

datatype filtering = FilterUnset | FilterEndpointIndep | FilterAddrDep | FilterAddrPortDep | FilterUnknown

datatype natClass = ClassUnset | ClassOpen | ClassFullCone | ClassRestrictedCone | ClassPortRestricted | ClassSymmetric | ClassSymFirewall | ClassBlocked

datatype allocation = AllocUnset | AllocUnknown | AllocKept | AllocSequential | AllocRandom

record portAllocInfo =
  pa_Pattern :: allocation
  pa_Delta :: int
  pa_Ports :: "int list"

record stunResult =
  sq_Server :: string
  sq_PublicAddr :: string
  sq_PublicIP :: string
  sq_PublicPort :: int
  sq_OtherAddr :: string
  sq_Error :: bool

datatype difficulty = Easy | Medium | Hard | VeryHard | ExtremelyHard | Impossible

datatype chance = ChanceVeryHigh | ChanceHigh | ChanceMedium | ChanceLow | ChanceVeryLow | ChanceNone

text \<open>The report; \<open>None\<close> for the difficulty and the chance is the empty string. Times are in milliseconds.\<close>

record natReport =
  nr_LocalIP :: string
  nr_PhysicalIF :: string
  nr_PublicIP :: string
  nr_PublicPort :: int
  nr_Results :: "stunResult list"
  nr_MappingBehavior :: mapping
  nr_FilterBehavior :: filtering
  nr_NATType :: natClass
  nr_NATTypeShort :: string
  nr_PortConsistent :: bool
  nr_IPConsistent :: bool
  nr_HairpinOK :: bool
  nr_BindingLifetime :: int
  nr_PortAlloc :: portAllocInfo
  nr_Score :: int
  nr_Difficulty :: "difficulty option"
  nr_HolePunchProb :: "chance option"
  nr_RFC5780 :: bool

record stunResponse =
  sr_MappedAddr :: string
  sr_MappedIP :: string
  sr_MappedPort :: int
  sr_OtherAddr :: string
  sr_OtherIP :: string
  sr_OtherPort :: int
  sr_RespOrigin :: string

section \<open>STUN\<close>

definition buildRequest :: "bytes list \<Rightarrow> bytes \<Rightarrow> bytes" where
  "buildRequest attrs txID = bytes16 StunBindingRequest @ bytes16 (of_nat (length (concat attrs))) @ bytes32 StunMagicCookie @ take 12 txID @ concat attrs"

definition changeIP :: u32 where "changeIP = 4"

definition changePort :: u32 where "changePort = 2"

definition makeChangeRequest :: "u32 \<Rightarrow> bytes" where
  "makeChangeRequest flags = bytes16 3 @ bytes16 4 @ bytes32 flags"

text \<open>Indexing and integer division panic outside their domains, as slicing does: \<open>None\<close> stands for a panic in all of these.\<close>

definition elem_at :: "'a list \<Rightarrow> nat \<Rightarrow> 'a option" where
  "elem_at xs i = (if i < length xs then Some (xs ! i) else None)"

definition int_div :: "int \<Rightarrow> int \<Rightarrow> int option" where
  "int_div a b = (if b = 0 then None else Some (if (a < 0) = (b < 0) then \<bar>a\<bar> div \<bar>b\<bar> else - (\<bar>a\<bar> div \<bar>b\<bar>)))"

lemma elem_at_hd [simp]: "xs \<noteq> [] \<Longrightarrow> elem_at xs 0 = Some (hd xs)"
  by (simp add: elem_at_def hd_conv_nth)

definition decodeAddr :: "bytes \<Rightarrow> bool \<Rightarrow> (string \<times> int) option" where
  "decodeAddr data useXor =
     (if length data < 8 then Some ([], 0)
      else do {
        family \<leftarrow> elem_at data 1;
        if family \<noteq> 1 then Some ([], 0)
        else do {
          rawPort \<leftarrow> u16at data 2;
          rawIP \<leftarrow> u32at data 4;
          let port = (if useXor then rawPort XOR ucast (drop_bit 16 StunMagicCookie) else rawPort);
          let ip = (if useXor then rawIP XOR StunMagicCookie else rawIP);
          Some (ipv4_str ip, int (unat port)) } })"

definition addr_text :: "string \<times> int \<Rightarrow> string" where
  "addr_text = (\<lambda>(ip, port). ip @ '':'' @ show_nat (nat port))"

definition put_attr :: "u16 \<Rightarrow> bytes \<Rightarrow> stunResponse \<Rightarrow> stunResponse option" where
  "put_attr attrType v r =
     (let mapped = (\<lambda>a. r\<lparr>sr_MappedIP := fst a, sr_MappedPort := snd a, sr_MappedAddr := addr_text a\<rparr>);
          other = (\<lambda>a. r\<lparr>sr_OtherIP := fst a, sr_OtherPort := snd a, sr_OtherAddr := addr_text a\<rparr>)
      in if attrType = 0x20 then map_option mapped (decodeAddr v True)
         else if attrType = 1 then (if sr_MappedAddr r = [] then map_option mapped (decodeAddr v False) else Some r)
         else if attrType = 0x802C then map_option other (decodeAddr v False)
         else if attrType = 5 then (if sr_OtherAddr r = [] then map_option other (decodeAddr v False) else Some r)
         else if attrType = 0x802B then map_option (\<lambda>a. r\<lparr>sr_RespOrigin := addr_text a\<rparr>) (decodeAddr v False)
         else Some r)"

text \<open>The loop over the attributes.\<close>

function read_attrs :: "bytes \<Rightarrow> nat \<Rightarrow> stunResponse \<Rightarrow> stunResponse option" where
  "read_attrs attrs offset r =
     (if offset + 4 \<le> length attrs then
        (case (u16at attrs offset, u16at attrs (offset + 2)) of
           (Some attrType, Some lenw) \<Rightarrow>
             (let attrLen = unat lenw; off = offset + 4 in
              if off + attrLen > length attrs then Some r
              else (case slice attrs off (off + attrLen) of None \<Rightarrow> None
                    | Some v \<Rightarrow> (case put_attr attrType v r of None \<Rightarrow> None
                        | Some r' \<Rightarrow> read_attrs attrs (off + attrLen + attr_pad attrLen) r')))
         | _ \<Rightarrow> None)
      else Some r)"
  by pat_completeness auto
termination by (relation "measure (\<lambda>(attrs, offset, r). length attrs - offset)") auto

declare read_attrs.simps [simp del]

definition stunResponse0 :: stunResponse where
  "stunResponse0 = \<lparr>sr_MappedAddr = [], sr_MappedIP = [], sr_MappedPort = 0, sr_OtherAddr = [], sr_OtherIP = [], sr_OtherPort = 0, sr_RespOrigin = []\<rparr>"

type_synonym 'n network = "endpoint \<Rightarrow> bytes \<Rightarrow> 'n \<Rightarrow> bytes option \<times> 'n"

text \<open>\<^verbatim>\<open>sendSTUN\<close>; the network gives the datagram received or nothing. The response is \<open>None\<close> for an error.\<close>

definition sendSTUN :: "'n network \<Rightarrow> endpoint \<Rightarrow> bytes \<Rightarrow> bytes \<Rightarrow> 'n \<Rightarrow> (stunResponse option \<times> 'n) option" where
  "sendSTUN net addr req txID s = (case net addr req s of
       (None, s') \<Rightarrow> Some (None, s')
     | (Some datagram, s') \<Rightarrow>
        let resp = take 1024 datagram in
        if length resp < StunHeaderSize then Some (None, s')
        else do {
          msgType \<leftarrow> u16at resp 0;
          tx \<leftarrow> slice resp 8 20;
          lenw \<leftarrow> u16at resp 2;
          if msgType \<noteq> 0x0101 \<or> tx \<noteq> txID \<or> StunHeaderSize + unat lenw > length resp then Some (None, s')
          else do {
            attrs \<leftarrow> slice resp StunHeaderSize (StunHeaderSize + unat lenw);
            r \<leftarrow> read_attrs attrs 0 stunResponse0;
            Some (Some r, s') } })"

definition querySTUN :: "(string \<Rightarrow> endpoint option) \<Rightarrow> 'n network \<Rightarrow> bytes \<Rightarrow> string \<Rightarrow> 'n \<Rightarrow> (stunResponse option \<times> 'n) option" where
  "querySTUN resolve net txID server s = (case resolve server of None \<Rightarrow> Some (None, s)
     | Some addr \<Rightarrow> sendSTUN net addr (buildRequest [] txID) txID s)"

section \<open>The tests of RFC 5780\<close>

text \<open>The mapping tests II and III after the answer \<open>resp1\<close> to test I, and the filtering tests II and III. \<open>tx\<close> gives
  the transaction IDs.\<close>

definition mapping_tests ::
  "(string \<Rightarrow> endpoint option) \<Rightarrow> 'n network \<Rightarrow> (nat \<Rightarrow> bytes) \<Rightarrow> endpoint \<Rightarrow> stunResponse \<Rightarrow> natReport \<Rightarrow> 'n \<Rightarrow> (natReport \<times> 'n) option" where
  "mapping_tests resolve net tx serverAddr resp1 report s =
     (case resolve (sr_OtherIP resp1 @ '':'' @ show_nat (unat (snd serverAddr))) of None \<Rightarrow> Some (report, s)
      | Some altAddr \<Rightarrow> do {
          (r2, s2) \<leftarrow> sendSTUN net altAddr (buildRequest [] (tx 1)) (tx 1) s;
          (case r2 of None \<Rightarrow> Some (report, s2)
           | Some resp2 \<Rightarrow>
              if sr_MappedAddr resp2 = sr_MappedAddr resp1 then Some (report\<lparr>nr_MappingBehavior := MapEndpointIndep\<rparr>, s2)
              else do {
                (r3, s3) \<leftarrow> (case resolve (sr_OtherAddr resp1) of None \<Rightarrow> Some (None, s2)
                               | Some altAddr2 \<Rightarrow> sendSTUN net altAddr2 (buildRequest [] (tx 2)) (tx 2) s2);
                Some (report\<lparr>nr_MappingBehavior := (case r3 of None \<Rightarrow> MapAddrPortDep
                        | Some resp3 \<Rightarrow> if sr_MappedAddr resp3 = sr_MappedAddr resp2 then MapAddrDep else MapAddrPortDep)\<rparr>, s3) }) })"

definition filtering_tests :: "'n network \<Rightarrow> (nat \<Rightarrow> bytes) \<Rightarrow> endpoint \<Rightarrow> natReport \<Rightarrow> 'n \<Rightarrow> (natReport \<times> 'n) option" where
  "filtering_tests net tx serverAddr report s = do {
     (f2, s2) \<leftarrow> sendSTUN net serverAddr (buildRequest [makeChangeRequest (changeIP OR changePort)] (tx 3)) (tx 3) s;
     if f2 \<noteq> None then Some (report\<lparr>nr_FilterBehavior := FilterEndpointIndep\<rparr>, s2)
     else do {
       (f3, s3) \<leftarrow> sendSTUN net serverAddr (buildRequest [makeChangeRequest changePort] (tx 4)) (tx 4) s2;
       Some (report\<lparr>nr_FilterBehavior := (if f3 \<noteq> None then FilterAddrDep else FilterAddrPortDep)\<rparr>, s3) } }"

definition tryRFC5780 ::
  "(string \<Rightarrow> endpoint option) \<Rightarrow> 'n network \<Rightarrow> (nat \<Rightarrow> bytes) \<Rightarrow> string \<Rightarrow> natReport \<Rightarrow> 'n \<Rightarrow> ((natReport \<times> bool) \<times> 'n) option" where
  "tryRFC5780 resolve net tx server report s = (case resolve server of None \<Rightarrow> Some ((report, False), s)
     | Some serverAddr \<Rightarrow> do {
         (r1, s1) \<leftarrow> sendSTUN net serverAddr (buildRequest [] (tx 0)) (tx 0) s;
         (case r1 of None \<Rightarrow> Some ((report, False), s1)
          | Some resp1 \<Rightarrow>
             if sr_OtherAddr resp1 = [] then Some ((report, False), s1)
             else do {
               (rep2, s2) \<leftarrow> mapping_tests resolve net tx serverAddr resp1 (report\<lparr>nr_RFC5780 := True\<rparr>) s1;
               (rep3, s3) \<leftarrow> filtering_tests net tx serverAddr rep2 s2;
               Some ((rep3, True), s3) }) })"

section \<open>Several servers\<close>

text \<open>What the tool needs of the machine: name resolution, the network, the opening of a socket (\<^verbatim>\<open>listenBypass\<close>, which gives the local port), and the
  time that passes. Opening a socket changes the state of the network, too.\<close>

record 'n machine =
  m_resolve :: "string \<Rightarrow> endpoint option"
  m_net :: "'n network"
  m_listen :: "'n \<Rightarrow> int option \<times> 'n"
  m_sleep :: "int \<Rightarrow> 'n \<Rightarrow> 'n"

text \<open>The standard servers, asked in turn from one socket: all results, and the successful ones, one per address of a server.\<close>

definition result_of :: "string \<Rightarrow> stunResponse option \<Rightarrow> stunResult" where
  "result_of srv r = (case r of
       None \<Rightarrow> \<lparr>sq_Server = srv, sq_PublicAddr = [], sq_PublicIP = [], sq_PublicPort = 0, sq_OtherAddr = [], sq_Error = True\<rparr>
     | Some resp \<Rightarrow> \<lparr>sq_Server = srv, sq_PublicAddr = sr_MappedAddr resp, sq_PublicIP = sr_MappedIP resp, sq_PublicPort = sr_MappedPort resp,
         sq_OtherAddr = sr_OtherAddr resp, sq_Error = False\<rparr>)"

fun ask_all ::
  "'n machine \<Rightarrow> (nat \<Rightarrow> bytes) \<Rightarrow> nat \<Rightarrow> string list \<Rightarrow> u32 option list \<Rightarrow> 'n \<Rightarrow> ((stunResult list \<times> stunResult list) \<times> 'n) option" where
  "ask_all M tx n [] seen s = Some (([], []), s)"
| "ask_all M tx n (srv # servers) seen s = do {
     (resp, s1) \<leftarrow> querySTUN (m_resolve M) (m_net M) (tx n) srv s;
     (let r = result_of srv resp; ipKey = map_option fst (m_resolve M srv); new = (\<not> sq_Error r \<and> ipKey \<notin> set seen) in do {
       ((results, okResults), s2) \<leftarrow> ask_all M tx (Suc n) servers (if new then ipKey # seen else seen) s1;
       Some ((r # results, if new then r # okResults else okResults), s2) }) }"

text \<open>The comparison of the successful answers; the first one is \<^verbatim>\<open>okResults[0]\<close>.\<close>

definition compare_answers :: "stunResult list \<Rightarrow> natReport \<Rightarrow> natReport option" where
  "compare_answers okResults report = map_option (\<lambda>first.
     (let ipOk = (length (remdups (map sq_PublicIP okResults)) = 1); portOk = (length (remdups (map sq_PublicPort okResults)) = 1);
          report = report\<lparr>nr_PublicIP := sq_PublicIP first, nr_PublicPort := sq_PublicPort first, nr_IPConsistent := ipOk, nr_PortConsistent := portOk\<rparr>
      in if portOk \<and> ipOk then (if nr_MappingBehavior report = MapUnset then report\<lparr>nr_MappingBehavior := MapEndpointIndep\<rparr> else report)
         else if ipOk \<and> \<not> portOk then (if nr_MappingBehavior report = MapUnset then report\<lparr>nr_MappingBehavior := MapAddrPortDep\<rparr> else report)
         else report)) (elem_at okResults 0)"

section \<open>Port allocation\<close>

text \<open>The samples: the local and the public port of each new socket that got an answer.\<close>

fun sample_ports :: "'n machine \<Rightarrow> (nat \<Rightarrow> bytes) \<Rightarrow> string \<Rightarrow> nat list \<Rightarrow> 'n \<Rightarrow> ((int \<times> int) list \<times> 'n) option" where
  "sample_ports M tx server [] s = Some ([], s)"
| "sample_ports M tx server (i # is) s = (case m_listen M s of
       (None, s1) \<Rightarrow> sample_ports M tx server is s1
     | (Some lp, s1) \<Rightarrow> do {
         (resp, s2) \<leftarrow> querySTUN (m_resolve M) (m_net M) (tx i) server s1;
         (samples, s3) \<leftarrow> sample_ports M tx server is (m_sleep M 50 s2);
         Some ((case resp of None \<Rightarrow> samples | Some r \<Rightarrow> (lp, sr_MappedPort r) # samples), s3) })"

fun differences :: "int list \<Rightarrow> int list" where
  "differences (p # p' # ps) = (p' - p) # differences (p' # ps)"
| "differences _ = []"

text \<open>The pattern of the samples.\<close>

definition port_pattern :: "(int \<times> int) list \<Rightarrow> portAllocInfo option" where
  "port_pattern samples =
     (let ports = map snd samples in
      if length ports < 3 then Some \<lparr>pa_Pattern = AllocUnknown, pa_Delta = 0, pa_Ports = ports\<rparr>
      else if list_all (\<lambda>(l, p). p = l) samples then Some \<lparr>pa_Pattern = AllocKept, pa_Delta = 0, pa_Ports = ports\<rparr>
      else
        (let sorted = sort ports; deltas = differences sorted in do {
           avg \<leftarrow> int_div (sum_list deltas) (int (length deltas));
           let maxDev = max_dev avg deltas;
           Some (if 1 \<le> avg \<and> avg \<le> 10 \<and> maxDev \<le> 3 then \<lparr>pa_Pattern = AllocSequential, pa_Delta = avg, pa_Ports = sorted\<rparr>
                 else \<lparr>pa_Pattern = AllocRandom, pa_Delta = 0, pa_Ports = sorted\<rparr>) }))"

definition analyzePortAllocation :: "'n machine \<Rightarrow> (nat \<Rightarrow> bytes) \<Rightarrow> string \<Rightarrow> 'n \<Rightarrow> (portAllocInfo \<times> 'n) option" where
  "analyzePortAllocation M tx server s = do {
     (samples, s') \<leftarrow> sample_ports M tx server [0..<5] s;
     info \<leftarrow> port_pattern samples;
     Some (info, s') }"

section \<open>Hairpin and lifetime of a binding\<close>

definition bytes_contain :: "bytes \<Rightarrow> bytes \<Rightarrow> bool" where
  "bytes_contain b t \<longleftrightarrow> list_ex (\<lambda>i. take (length t) (drop i b) = t) [0..<Suc (length b)]"

definition testHairpin :: "'n machine \<Rightarrow> bytes \<Rightarrow> string \<Rightarrow> 'n \<Rightarrow> bool \<times> 'n" where
  "testHairpin M token publicAddr s = (case m_listen M s of
       (None, s1) \<Rightarrow> (False, s1)
     | (Some _, s1) \<Rightarrow> (case m_resolve M publicAddr of
           None \<Rightarrow> (False, s1)
         | Some addr \<Rightarrow> (case m_net M addr (str_bytes ''HAIRPIN:'' @ token) s1 of
               (None, s2) \<Rightarrow> (False, s2)
             | (Some buf, s2) \<Rightarrow> (bytes_contain (take 256 buf) token, s2))))"

definition testBindingLifetime :: "'n machine \<Rightarrow> (nat \<Rightarrow> bytes) \<Rightarrow> string \<Rightarrow> 'n \<Rightarrow> (int \<times> 'n) option" where
  "testBindingLifetime M tx server s = (case m_listen M s of
       (None, s1) \<Rightarrow> Some (0, s1)
     | (Some _, s1) \<Rightarrow> do {
         (r1, s2) \<leftarrow> querySTUN (m_resolve M) (m_net M) (tx 0) server s1;
         (case r1 of None \<Rightarrow> Some (0, s2)
          | Some resp1 \<Rightarrow> do {
              (r2, s3) \<leftarrow> querySTUN (m_resolve M) (m_net M) (tx 1) server (m_sleep M 10000 s2);
              (case r2 of None \<Rightarrow> Some (0, s3)
               | Some resp2 \<Rightarrow> Some (if sr_MappedAddr resp1 = sr_MappedAddr resp2 then 10000 else 0, s3)) }) })"

section \<open>Classification and score\<close>

definition set_class :: "natClass \<Rightarrow> string \<Rightarrow> natReport \<Rightarrow> natReport" where
  "set_class c short r = r\<lparr>nr_NATType := c, nr_NATTypeShort := short\<rparr>"

definition classifyNAT :: "natReport \<Rightarrow> natReport" where
  "classifyNAT r =
     (if nr_LocalIP r = nr_PublicIP r then
        (let r1 = (if nr_PortConsistent r then set_class ClassOpen ''NAT0'' r else set_class ClassSymFirewall ''NAT4'' r)\<lparr>nr_MappingBehavior := MapEndpointIndep\<rparr>
         in if nr_FilterBehavior r1 = FilterUnset then r1\<lparr>nr_FilterBehavior := FilterEndpointIndep\<rparr> else r1)
      else case nr_MappingBehavior r of
        MapEndpointIndep \<Rightarrow>
          (case nr_FilterBehavior r of
             FilterEndpointIndep \<Rightarrow> set_class ClassFullCone ''NAT1'' r
           | FilterAddrDep \<Rightarrow> set_class ClassRestrictedCone ''NAT2'' r
           | FilterAddrPortDep \<Rightarrow> set_class ClassPortRestricted ''NAT3'' r
           | _ \<Rightarrow> (if pa_Pattern (nr_PortAlloc r) = AllocKept then set_class ClassFullCone ''NAT1'' r
                   else set_class ClassPortRestricted ''NAT3'' r)\<lparr>nr_FilterBehavior := FilterUnknown\<rparr>)
      | MapAddrDep \<Rightarrow> (set_class ClassSymmetric ''NAT4'' r)\<lparr>nr_FilterBehavior := (if nr_FilterBehavior r = FilterUnset then FilterAddrPortDep else nr_FilterBehavior r)\<rparr>
      | MapAddrPortDep \<Rightarrow> (set_class ClassSymmetric ''NAT4'' r)\<lparr>nr_FilterBehavior := (if nr_FilterBehavior r = FilterUnset then FilterAddrPortDep else nr_FilterBehavior r)\<rparr>
      | MapUnset \<Rightarrow>
          if nr_PortConsistent r then (set_class ClassPortRestricted ''NAT3'' r)\<lparr>nr_MappingBehavior := MapEndpointIndep, nr_FilterBehavior := FilterUnknown\<rparr>
          else (set_class ClassSymmetric ''NAT4'' r)\<lparr>nr_MappingBehavior := MapAddrPortDep, nr_FilterBehavior := FilterAddrPortDep\<rparr>)"

definition base_score :: "string \<Rightarrow> int" where
  "base_score short = (if short = ''NAT0'' then 100 else if short = ''NAT1'' then 95 else if short = ''NAT2'' then 85
     else if short = ''NAT3'' then 65 else if short = ''NAT4'' then 25 else 0)"

definition verdict :: "int \<Rightarrow> difficulty \<times> chance" where
  "verdict score = (if score \<ge> 90 then (Easy, ChanceVeryHigh) else if score \<ge> 75 then (Easy, ChanceHigh) else if score \<ge> 60 then (Medium, ChanceMedium)
     else if score \<ge> 40 then (Hard, ChanceMedium) else if score \<ge> 20 then (VeryHard, ChanceLow) else if score > 0 then (ExtremelyHard, ChanceVeryLow)
     else (Impossible, ChanceNone))"

definition scoreHolePunch :: "natReport \<Rightarrow> int \<times> difficulty \<times> chance" where
  "scoreHolePunch r =
     (let s0 = base_score (nr_NATTypeShort r);
          s1 = (if nr_NATTypeShort r = ''NAT4'' then s0 + (case pa_Pattern (nr_PortAlloc r) of AllocKept \<Rightarrow> 25 | AllocSequential \<Rightarrow> 20 | _ \<Rightarrow> 0) else s0);
          s2 = (if nr_BindingLifetime r > 0 then s1 + 5 else s1);
          s3 = (if nr_HairpinOK r then s2 + 2 else s2);
          score = max 0 (min 100 s3)
      in (score, verdict score))"

section \<open>The whole diagnosis\<close>

text \<open>The servers of RFC 5780, each from a new socket, until one gives the full result. \<open>tx i k\<close> is the transaction ID of the request
  \<open>k\<close> in the stage \<open>i\<close>.\<close>

fun rfc_loop :: "'n machine \<Rightarrow> (nat \<Rightarrow> nat \<Rightarrow> bytes) \<Rightarrow> nat \<Rightarrow> string list \<Rightarrow> natReport \<Rightarrow> 'n \<Rightarrow> (natReport \<times> 'n) option" where
  "rfc_loop M tx n [] report s = Some (report, s)"
| "rfc_loop M tx n (srv # servers) report s = (case m_listen M s of
       (None, s1) \<Rightarrow> rfc_loop M tx (Suc n) servers report s1
     | (Some _, s1) \<Rightarrow> do {
         ((rep, ok), s2) \<leftarrow> tryRFC5780 (m_resolve M) (m_net M) (tx n) srv report s1;
         if ok then Some (rep, s2) else rfc_loop M tx (Suc n) servers rep s2 })"

definition natReport0 :: "string \<Rightarrow> string \<Rightarrow> natReport" where
  "natReport0 ifName localIP = \<lparr>nr_LocalIP = localIP, nr_PhysicalIF = ifName, nr_PublicIP = [], nr_PublicPort = 0, nr_Results = [], nr_MappingBehavior = MapUnset,
     nr_FilterBehavior = FilterUnset, nr_NATType = ClassUnset, nr_NATTypeShort = [], nr_PortConsistent = False, nr_IPConsistent = False, nr_HairpinOK = False,
     nr_BindingLifetime = 0, nr_PortAlloc = \<lparr>pa_Pattern = AllocUnset, pa_Delta = 0, pa_Ports = []\<rparr>, nr_Score = 0, nr_Difficulty = None, nr_HolePunchProb = None,
     nr_RFC5780 = False\<rparr>"

definition blocked :: "natReport \<Rightarrow> natReport" where
  "blocked r = (set_class ClassBlocked ''blocked'' r)\<lparr>nr_Score := 0\<rparr>"

definition rfc5780Servers :: "string list" where
  "rfc5780Servers = [''stunserver2024.stunprotocol.org:3478'', ''stun.voipgate.com:3478'', ''stun.sipgate.net:3478'']"

definition standardServers :: "string list" where
  "standardServers = [''stun.cloudflare.com:3478'', ''stun.miwifi.com:3478'', ''stun.chat.bilibili.com:3478'', ''stun.l.google.com:19302'',
     ''stun1.l.google.com:19302'', ''stun2.l.google.com:19302'']"

definition scored :: "natReport \<Rightarrow> natReport" where
  "scored r = (case scoreHolePunch r of (score, diff, prob) \<Rightarrow> r\<lparr>nr_Score := score, nr_Difficulty := Some diff, nr_HolePunchProb := Some prob\<rparr>)"

text \<open>The tests 3 to 5 and the conclusion, once there are answers.\<close>

definition finish_diagnosis :: "'n machine \<Rightarrow> (nat \<Rightarrow> nat \<Rightarrow> bytes) \<Rightarrow> bool \<Rightarrow> stunResult list \<Rightarrow> natReport \<Rightarrow> 'n \<Rightarrow> (natReport \<times> 'n) option" where
  "finish_diagnosis M tx fast okResults rep s = do {
     rep1 \<leftarrow> compare_answers okResults rep;
     server \<leftarrow> elem_at standardServers 0;
     (alloc, s1) \<leftarrow> analyzePortAllocation M (tx 0) server s;
     first \<leftarrow> elem_at okResults 0;
     (case testHairpin M (take 8 (tx 1 0)) (sq_PublicAddr first) s1 of (hairpin, s2) \<Rightarrow> do {
        (life, s3) \<leftarrow> (if fast then Some (nr_BindingLifetime rep, s2) else testBindingLifetime M (tx 2) server s2);
        Some (scored (classifyNAT (rep1\<lparr>nr_PortAlloc := alloc, nr_HairpinOK := hairpin, nr_BindingLifetime := life\<rparr>)), s3) }) }"

text \<open>\<^verbatim>\<open>runDiagnostics\<close>; the interface and the local address are those that \<^verbatim>\<open>detectPhysicalIP\<close> and \<^verbatim>\<open>getLocalIP\<close> find.\<close>

definition runDiagnostics :: "'n machine \<Rightarrow> (nat \<Rightarrow> nat \<Rightarrow> bytes) \<Rightarrow> bool \<Rightarrow> string \<Rightarrow> string \<Rightarrow> 'n \<Rightarrow> (natReport \<times> 'n) option" where
  "runDiagnostics M tx fast ifName localIP s = do {
     (rep, s1) \<leftarrow> rfc_loop M tx 4 rfc5780Servers (natReport0 ifName localIP) s;
     (case m_listen M s1 of
        (None, s2) \<Rightarrow> Some (blocked rep, s2)
      | (Some _, s2) \<Rightarrow> do {
          ((results, okResults), s3) \<leftarrow> ask_all M (tx 3) 0 standardServers [] s2;
          (let rep = rep\<lparr>nr_Results := results\<rparr> in
           if okResults = [] then Some (blocked rep, s3) else finish_diagnosis M tx fast okResults rep s3) }) }"

section \<open>A NAT in front of a server with two addresses\<close>

text \<open>The behaviours of RFC 4787: \<open>ext d\<close> is the public endpoint that the NAT uses for packets to \<open>d\<close>, and a packet from
  \<open>src\<close> to a public endpoint is let in depending on the destinations that the socket has sent to from this endpoint.\<close>

definition maps_as :: "mapping \<Rightarrow> (endpoint \<Rightarrow> endpoint) \<Rightarrow> bool" where
  "maps_as m ext \<longleftrightarrow> (case m of MapEndpointIndep \<Rightarrow> (\<forall>d d'. ext d = ext d') | MapAddrDep \<Rightarrow> (\<forall>d d'. ext d = ext d' \<longleftrightarrow> fst d = fst d')
     | MapAddrPortDep \<Rightarrow> (\<forall>d d'. ext d = ext d' \<longleftrightarrow> d = d') | MapUnset \<Rightarrow> False)"

definition lets_in :: "filtering \<Rightarrow> endpoint list \<Rightarrow> endpoint \<Rightarrow> bool" where
  "lets_in f sent src = (case f of FilterEndpointIndep \<Rightarrow> True | FilterAddrDep \<Rightarrow> fst src \<in> fst ` set sent | _ \<Rightarrow> src \<in> set sent)"

text \<open>A server as in RFC 5780 at the addresses \<open>a1\<close> and \<open>a2\<close> and the ports \<open>p1\<close> and \<open>p2\<close>: it tells the endpoint it sees and its
  other address, and answers from the address or the port that the change request asks for.\<close>

definition other_of :: "'a \<Rightarrow> 'a \<Rightarrow> 'a \<Rightarrow> 'a" where
  "other_of x y z = (if z = x then y else x)"

definition change_flags :: "bytes \<Rightarrow> u32" where
  "change_flags req = (case u32at req 24 of None \<Rightarrow> 0 | Some w \<Rightarrow> w)"

definition plain_addr :: "endpoint \<Rightarrow> bytes" where
  "plain_addr e = [0, 1] @ bytes16 (snd e) @ bytes32 (fst e)"

definition xor_addr :: "endpoint \<Rightarrow> bytes" where
  "xor_addr e = [0, 1] @ bytes16 (snd e XOR ucast (drop_bit 16 StunMagicCookie)) @ bytes32 (fst e XOR StunMagicCookie)"

definition rfc_response :: "bytes \<Rightarrow> endpoint \<Rightarrow> endpoint \<Rightarrow> bytes" where
  "rfc_response txID seen other =
     bytes16 0x0101 @ bytes16 24 @ bytes32 StunMagicCookie @ txID @ stun_attr 0x20 (xor_addr seen) @ stun_attr 0x802C (plain_addr other)"

definition rfc_source :: "endpoint \<Rightarrow> endpoint \<Rightarrow> endpoint \<Rightarrow> bytes \<Rightarrow> endpoint" where
  "rfc_source prim sec dest req =
     (if bit (change_flags req) 2 then other_of (fst prim) (fst sec) (fst dest) else fst dest,
      if bit (change_flags req) 1 then other_of (snd prim) (snd sec) (snd dest) else snd dest)"

definition nat_network :: "(endpoint \<Rightarrow> endpoint) \<Rightarrow> filtering \<Rightarrow> endpoint \<Rightarrow> endpoint \<Rightarrow> endpoint list network" where
  "nat_network ext f prim sec dest req sent =
     (let sent' = dest # sent in
      (if fst dest \<in> {fst prim, fst sec} \<and> snd dest \<in> {snd prim, snd sec} \<and>
          lets_in f (filter (\<lambda>d. ext d = ext dest) sent') (rfc_source prim sec dest req)
       then Some (rfc_response (take 12 (drop 8 req)) (ext dest) (other_of (fst prim) (fst sec) (fst dest), other_of (snd prim) (snd sec) (snd dest)))
       else None, sent'))"

lemma decodeAddr_value: "decodeAddr ([0, 1] @ bytes16 p @ bytes32 i) x =
    Some (ipv4_str (if x then i XOR StunMagicCookie else i), int (unat (if x then p XOR ucast (drop_bit 16 StunMagicCookie) else p)))"
proof -
  have "u16at ([0, 1] @ bytes16 p @ bytes32 i) 2 = Some p" by (rule u16at_append) simp
  moreover have "u32at (([0, 1] @ bytes16 p) @ bytes32 i @ []) 4 = Some i" by (rule u32at_append) simp
  ultimately show ?thesis unfolding decodeAddr_def Let_def by (simp add: elem_at_def del: u16at_Some)
qed

lemma decodeAddr_plain [simp]: "decodeAddr (plain_addr e) False = Some (ipv4_str (fst e), int (unat (snd e)))"
  unfolding plain_addr_def decodeAddr_value by simp

lemma decodeAddr_xor [simp]: "decodeAddr (xor_addr e) True = Some (ipv4_str (fst e), int (unat (snd e)))"
  unfolding xor_addr_def decodeAddr_value by (simp add: xor.assoc)

lemma length_addr_values [simp]: "length (plain_addr e) = 8" "length (xor_addr e) = 8"
  by (simp_all add: plain_addr_def xor_addr_def)

lemma read_attrs_one:
  assumes "attrs = xs @ stun_attr ty v @ ys" "length v = 8" "put_attr ty v r = Some r'"
  shows "read_attrs attrs (length xs) r = read_attrs attrs (length xs + 12) r'"
  using attr_at [of attrs xs ty v ys] assms
  by (subst read_attrs.simps) (simp add: Let_def attr_pad_def add.assoc del: u16at_Some slice_Some)

definition rfc_answer :: "endpoint \<Rightarrow> endpoint \<Rightarrow> stunResponse" where
  "rfc_answer seen oth = \<lparr>sr_MappedAddr = addr_str (fst seen) (snd seen), sr_MappedIP = ipv4_str (fst seen), sr_MappedPort = int (unat (snd seen)),
     sr_OtherAddr = addr_str (fst oth) (snd oth), sr_OtherIP = ipv4_str (fst oth), sr_OtherPort = int (unat (snd oth)), sr_RespOrigin = []\<rparr>"

lemma put_attrs_rfc:
  "\<exists>r. put_attr 0x20 (xor_addr seen) stunResponse0 = Some r \<and> put_attr 0x802C (plain_addr oth) r = Some (rfc_answer seen oth)"
  by (simp add: put_attr_def stunResponse0_def rfc_answer_def addr_text_def addr_str_def Let_def)

lemma read_attrs_rfc:
  "read_attrs (stun_attr 0x20 (xor_addr seen) @ stun_attr 0x802C (plain_addr oth)) 0 stunResponse0 = Some (rfc_answer seen oth)"
proof -
  let ?a = "stun_attr 0x20 (xor_addr seen)" and ?b = "stun_attr 0x802C (plain_addr oth)"
  have l: "length ?a = 12" "length ?b = 12" by (simp_all add: attr_pad_def)
  obtain r where r: "put_attr 0x20 (xor_addr seen) stunResponse0 = Some r" "put_attr 0x802C (plain_addr oth) r = Some (rfc_answer seen oth)"
    using put_attrs_rfc by blast
  have "read_attrs (?a @ ?b) 0 stunResponse0 = read_attrs (?a @ ?b) 12 r"
    using read_attrs_one [of "?a @ ?b" "[]" "0x20" "xor_addr seen" ?b stunResponse0 r] r by simp
  also have "\<dots> = read_attrs (?a @ ?b) 24 (rfc_answer seen oth)"
    using read_attrs_one [of "?a @ ?b" ?a "0x802C" "plain_addr oth" "[]" r "rfc_answer seen oth"] l r by simp
  also have "\<dots> = Some (rfc_answer seen oth)"
    by (subst read_attrs.simps) (simp add: l attr_pad_def)
  finally show ?thesis .
qed

lemma rfc_response_read:
  assumes "length txID = 12" "net dest req s = (Some (rfc_response txID seen oth), s')"
  shows "sendSTUN net dest req txID s = Some (Some (rfc_answer seen oth), s')"
proof -
  let ?attrs = "stun_attr 0x20 (xor_addr seen) @ stun_attr 0x802C (plain_addr oth)"
  let ?r = "rfc_response txID seen oth"
  have l: "length ?attrs = 24" "length ?r = 44" using assms(1) by (simp_all add: attr_pad_def rfc_response_def)
  have "u16at ?r 0 = Some 0x0101" using u16at_append [of 0 "[]" "0x0101"] by (simp add: rfc_response_def)
  moreover have "u16at ?r 2 = Some 24" using u16at_append [of 2 "bytes16 0x0101" 24] by (simp add: rfc_response_def del: u16at_Some)
  moreover have "slice ?r 8 20 = Some txID"
    using slice_append [of 8 "bytes16 0x0101 @ bytes16 24 @ bytes32 StunMagicCookie" 20 txID ?attrs] assms(1) by (simp add: rfc_response_def)
  moreover have "slice ?r 20 44 = Some ?attrs"
    using slice_append [of 20 "bytes16 0x0101 @ bytes16 24 @ bytes32 StunMagicCookie @ txID" 44 ?attrs "[]"] assms(1) l(1) by (simp add: rfc_response_def)
  ultimately show ?thesis
    using assms(2) l(2) read_attrs_rfc [of seen oth]
    by (simp add: sendSTUN_def StunHeaderSize_def del: u16at_Some slice_Some)
qed

lemma request_tx: "length txID = 12 \<Longrightarrow> take 12 (drop 8 (buildRequest as txID)) = txID"
  by (simp add: buildRequest_def bytes16_def bytes32_def)

lemma request_flags [simp]:
  "length txID = 12 \<Longrightarrow> change_flags (buildRequest [] txID) = 0"
  "length txID = 12 \<Longrightarrow> change_flags (buildRequest [makeChangeRequest fl] txID) = fl"
proof -
  show "length txID = 12 \<Longrightarrow> change_flags (buildRequest [] txID) = 0"
    by (simp add: change_flags_def buildRequest_def u32at_def)
  assume "length txID = 12"
  then have "u32at ((bytes16 StunBindingRequest @ bytes16 8 @ bytes32 StunMagicCookie @ txID @ bytes16 3 @ bytes16 4) @ bytes32 fl @ []) 24 = Some fl"
    by (intro u32at_append) simp
  then show "change_flags (buildRequest [makeChangeRequest fl] txID) = fl"
    using \<open>length txID = 12\<close> by (simp add: change_flags_def buildRequest_def makeChangeRequest_def)
qed

lemma nat_query:
  assumes "length txID = 12" "fst dest \<in> {fst prim, fst sec}" "snd dest \<in> {snd prim, snd sec}"
  shows "sendSTUN (nat_network ext f prim sec) dest (buildRequest as txID) txID sent =
    Some (if lets_in f (filter (\<lambda>d. ext d = ext dest) (dest # sent)) (rfc_source prim sec dest (buildRequest as txID))
          then Some (rfc_answer (ext dest) (other_of (fst prim) (fst sec) (fst dest), other_of (snd prim) (snd sec) (snd dest))) else None, dest # sent)"
    (is "_ = Some (if ?in then _ else _, _)")
proof (cases ?in)
  case True
  then have "nat_network ext f prim sec dest (buildRequest as txID) sent =
      (Some (rfc_response txID (ext dest) (other_of (fst prim) (fst sec) (fst dest), other_of (snd prim) (snd sec) (snd dest))), dest # sent)"
    using assms by (simp add: nat_network_def Let_def request_tx)
  then show ?thesis using rfc_response_read [where net = "nat_network ext f prim sec"] assms(1) True by simp
next
  case False
  then have "nat_network ext f prim sec dest (buildRequest as txID) sent = (None, dest # sent)"
    by (auto simp: nat_network_def Let_def)
  then show ?thesis unfolding sendSTUN_def using False by simp
qed

lemma addr_str_inject: "addr_str i p = addr_str j q \<longleftrightarrow> i = j \<and> p = q"
proof
  assume "addr_str i p = addr_str j q"
  then have "(ipv4_str i, show_nat (unat p)) = (ipv4_str j, show_nat (unat q))" using split_addr_str by (metis option.inject)
  then show "i = j \<and> p = q" using parse_ipv4_str [of i] parse_ipv4_str [of j] by (auto simp: word_unat_eq_iff)
qed simp

lemma mapped_eq [simp]: "sr_MappedAddr (rfc_answer e o1) = sr_MappedAddr (rfc_answer e' o2) \<longleftrightarrow> e = e'"
  by (auto simp: rfc_answer_def addr_str_inject prod_eq_iff)

lemma other_fields [simp]:
  "sr_OtherIP (rfc_answer e oth) = ipv4_str (fst oth)" "sr_OtherAddr (rfc_answer e oth) = addr_str (fst oth) (snd oth)"
  by (simp_all add: rfc_answer_def)

lemma change_bits: "bit (changeIP OR changePort) 2" "bit (changeIP OR changePort) 1" "\<not> bit changePort 2" "bit changePort 1"
  by (simp_all add: changeIP_def changePort_def bit_or_iff bit_numeral_word_iff)

lemma lets_in_self [simp]: "lets_in f (filter (\<lambda>d. ext d = ext dest) (dest # sent)) dest"
  by (cases f) (simp_all add: lets_in_def)

lemma plain_source [simp]: "length txID = 12 \<Longrightarrow> rfc_source prim sec dest (buildRequest [] txID) = dest"
  by (simp add: rfc_source_def)

text \<open>The tests on such a network, for the server at \<open>(a1, p1)\<close> and \<open>(a2, p2)\<close>.\<close>

lemma nat_plain_query:
  assumes "length txID = 12" "a \<in> {a1, a2}" "p \<in> {p1, p2}"
  shows "sendSTUN (nat_network ext f (a1, p1) (a2, p2)) (a, p) (buildRequest [] txID) txID sent =
    Some (Some (rfc_answer (ext (a, p)) (other_of a1 a2 a, other_of p1 p2 p)), (a, p) # sent)"
  using nat_query [of txID "(a, p)" "(a1, p1)" "(a2, p2)" ext f "[]" sent] assms by (simp only: fst_conv snd_conv plain_source lets_in_self if_True)

lemma mapping_tests_correct:
  assumes "maps_as m ext" "a1 \<noteq> a2" "p1 \<noteq> p2" "\<And>i. length (tx i) = 12" "\<And>ip port. resolve (addr_str ip port) = Some (ip, port)"
  shows "mapping_tests resolve (nat_network ext f (a1, p1) (a2, p2)) tx (a1, p1) (rfc_answer (ext (a1, p1)) (a2, p2)) report sent =
    Some (report\<lparr>nr_MappingBehavior := m\<rparr>, (if m = MapEndpointIndep then [] else [(a2, p2)]) @ (a2, p1) # sent)"
proof -
  have alt: "resolve (ipv4_str a2 @ '':'' @ show_nat (unat p1)) = Some (a2, p1)" using assms(5) [of a2 p1] by (simp add: addr_str_def)
  have ext: "ext (a2, p1) = ext (a1, p1) \<longleftrightarrow> m = MapEndpointIndep" "m \<noteq> MapEndpointIndep \<Longrightarrow> ext (a2, p2) = ext (a2, p1) \<longleftrightarrow> m = MapAddrDep" "m \<noteq> MapUnset"
    using assms(1-3) by (cases m; auto simp: maps_as_def)+
  show ?thesis
    unfolding mapping_tests_def using alt ext assms(4,5) nat_plain_query [where ext = ext and f = f and ?a1.0 = a1 and ?a2.0 = a2 and ?p1.0 = p1 and ?p2.0 = p2]
    by (cases m) simp_all
qed

text \<open>The filtering tests, when \<open>sent\<close> has been sent to from the same socket before.\<close>

lemma filtering_tests_eq:
  assumes "\<And>i. length (tx i) = 12" "f \<in> {FilterEndpointIndep, FilterAddrDep, FilterAddrPortDep}" "a1 \<noteq> a2" "p1 \<noteq> p2"
  shows "\<exists>s'. filtering_tests (nat_network ext f (a1, p1) (a2, p2)) tx (a1, p1) report sent =
    Some (report\<lparr>nr_FilterBehavior :=
      (if lets_in f (filter (\<lambda>d. ext d = ext (a1, p1)) ((a1, p1) # sent)) (a2, p2) then FilterEndpointIndep
       else if lets_in f (filter (\<lambda>d. ext d = ext (a1, p1)) ((a1, p1) # sent)) (a1, p2) then FilterAddrDep else FilterAddrPortDep)\<rparr>, s')"
proof -
  have src: "rfc_source (a1, p1) (a2, p2) (a1, p1) (buildRequest [makeChangeRequest (changeIP OR changePort)] (tx 3)) = (a2, p2)"
      "rfc_source (a1, p1) (a2, p2) (a1, p1) (buildRequest [makeChangeRequest changePort] (tx 4)) = (a1, p2)"
    using assms(1) by (simp_all add: rfc_source_def change_bits change_bits [unfolded One_nat_def] other_of_def)
  have again: "lets_in f (filter (\<lambda>d. ext d = ext (a1, p1)) ((a1, p1) # (a1, p1) # sent)) x = lets_in f (filter (\<lambda>d. ext d = ext (a1, p1)) ((a1, p1) # sent)) x" for x
    using assms(2) by (auto simp: lets_in_def)
  show ?thesis
    unfolding filtering_tests_def using nat_query [where dest = "(a1, p1)" and prim = "(a1, p1)" and sec = "(a2, p2)" and ext = ext and f = f] assms(1) again
    by (simp add: src del: filter.simps)
qed

text \<open>Claim C38. What the behaviour tests find out about a NAT, for every combination of a mapping and a filtering behaviour of RFC 4787 and a server as in
  RFC 5780 with two addresses: the mapping behaviour is always determined correctly. The filtering behaviour is, too, with one
  exception: since the filtering tests use the socket of the mapping tests, which has already sent to the second address of the server, a restricted cone NAT (endpoint-independent mapping,
  address-dependent filtering) lets the first of them pass and is reported as a full cone NAT. \<^verbatim>\<open>NAT2\<close> is never
  reported.\<close>

theorem rfc5780_diagnosis:
  assumes "maps_as m ext" "f \<in> {FilterEndpointIndep, FilterAddrDep, FilterAddrPortDep}" "a1 \<noteq> a2" "p1 \<noteq> p2" "\<And>i. length (tx i) = 12"
    and "\<And>ip port. resolve (addr_str ip port) = Some (ip, port)" "resolve server = Some (a1, p1)"
  shows "\<exists>rep s'. tryRFC5780 resolve (nat_network ext f (a1, p1) (a2, p2)) tx server report [] = Some ((rep, True), s') \<and>
    nr_MappingBehavior rep = m \<and> nr_FilterBehavior rep = (if m = MapEndpointIndep \<and> f = FilterAddrDep then FilterEndpointIndep else f) \<and>
    (nr_LocalIP report \<noteq> nr_PublicIP report \<longrightarrow>
      nr_NATTypeShort (classifyNAT rep) = (if m \<noteq> MapEndpointIndep then ''NAT4'' else if f = FilterAddrPortDep then ''NAT3'' else ''NAT1''))"
proof -
  let ?net = "nat_network ext f (a1, p1) (a2, p2)" and ?sent = "(if m = MapEndpointIndep then [] else [(a2, p2)]) @ [(a2, p1), (a1, p1)]"
  let ?c = "filter (\<lambda>d. ext d = ext (a1, p1)) ((a1, p1) # ?sent)"
  let ?f = "if lets_in f ?c (a2, p2) then FilterEndpointIndep else if lets_in f ?c (a1, p2) then FilterAddrDep else FilterAddrPortDep"
  have r1: "sendSTUN ?net (a1, p1) (buildRequest [] (tx 0)) (tx 0) [] = Some (Some (rfc_answer (ext (a1, p1)) (a2, p2)), [(a1, p1)])"
    using nat_plain_query [of "tx 0" a1 a1 a2 p1 p1 p2 ext f "[]"] assms(5) by (simp add: other_of_def)
  have m: "mapping_tests resolve ?net tx (a1, p1) (rfc_answer (ext (a1, p1)) (a2, p2)) (report\<lparr>nr_RFC5780 := True\<rparr>) [(a1, p1)] =
      Some (report\<lparr>nr_RFC5780 := True, nr_MappingBehavior := m\<rparr>, ?sent)"
    using mapping_tests_correct [OF assms(1,3,4,5,6), where f = f and report = "report\<lparr>nr_RFC5780 := True\<rparr>" and sent = "[(a1, p1)]"] by simp
  obtain s' where fl: "filtering_tests ?net tx (a1, p1) (report\<lparr>nr_RFC5780 := True, nr_MappingBehavior := m\<rparr>) ?sent =
      Some (report\<lparr>nr_RFC5780 := True, nr_MappingBehavior := m, nr_FilterBehavior := ?f\<rparr>, s')"
    using filtering_tests_eq [of tx f a1 a2 p1 p2 ext "report\<lparr>nr_RFC5780 := True, nr_MappingBehavior := m\<rparr>" ?sent, OF assms(5,2,3,4)] by (elim exE)
  have "ext (a2, p1) = ext (a1, p1) \<longleftrightarrow> m = MapEndpointIndep" "ext (a2, p2) = ext (a1, p1) \<longleftrightarrow> m = MapEndpointIndep" "m \<noteq> MapUnset"
    using assms(1,3,4) by (cases m; auto simp: maps_as_def)+
  then have f: "?f = (if m = MapEndpointIndep \<and> f = FilterAddrDep then FilterEndpointIndep else f)"
    using assms(2-4) by (auto simp: lets_in_def)
  have "tryRFC5780 resolve ?net tx server report [] =
      Some ((report\<lparr>nr_RFC5780 := True, nr_MappingBehavior := m, nr_FilterBehavior := ?f\<rparr>, True), s')"
    unfolding tryRFC5780_def using assms(7) r1 m fl by simp
  then show ?thesis unfolding f using assms(1,2)
    by (cases m) (auto simp: classifyNAT_def set_class_def maps_as_def)
qed

theorem rfc5780_diagnosis_witness:
  "\<exists>rep s'. tryRFC5780 (\<lambda>s. if s = ''stun'' then Some (1, 3478) else map_option (\<lambda>(h, p). (the (parse_ipv4 h), of_int (the (go_atoi p)))) (split_host_port s))
      (nat_network (\<lambda>_. (9, 4000)) FilterAddrDep (1, 3478) (2, 3479)) (\<lambda>_. replicate 12 7) ''stun'' (natReport0 ''en0'' ''10.0.0.1'') [] = Some ((rep, True), s') \<and>
    nr_MappingBehavior rep = MapEndpointIndep \<and> nr_FilterBehavior rep = FilterEndpointIndep \<and> nr_NATTypeShort (classifyNAT rep) = ''NAT1''"
proof -
  let ?resolve = "\<lambda>s. if s = ''stun'' then Some (1, 3478) else map_option (\<lambda>(h, p). (the (parse_ipv4 h), of_int (the (go_atoi p)))) (split_host_port s) :: endpoint option"
  have "int (unat port) < 2 ^ 63" for port :: u16
  proof -
    have "int (unat port) < int 65536" by (simp only: of_nat_less_iff unat_u16_less)
    then show ?thesis by simp
  qed
  moreover have "addr_str ip port \<noteq> ''stun''" for ip port using addr_chars [of "CHR ''s''" ip port] by (auto simp: is_digit_def)
  ultimately have "?resolve (addr_str ip port) = Some (ip, port)" for ip port
    using split_addr_str [of ip port] go_atoi_show_nat [of "unat port"] by simp
  then show ?thesis
    using rfc5780_diagnosis [of MapEndpointIndep "\<lambda>_. (9, 4000)" FilterAddrDep 1 2 3478 3479 "\<lambda>_. replicate 12 7" ?resolve "''stun''" "natReport0 ''en0'' ''10.0.0.1''"]
    by (simp add: maps_as_def natReport0_def)
qed

section \<open>The tool on any network\<close>

lemma decodeAddr_total: "\<exists>a. decodeAddr d x = Some a"
proof (cases "length d < 8")
  case False
  then have "elem_at d 1 \<noteq> None" "u16at d 2 \<noteq> None" "u32at d 4 \<noteq> None" by (simp_all add: elem_at_def u16at_def u32at_def)
  then show ?thesis by (auto simp: decodeAddr_def Let_def)
qed (simp add: decodeAddr_def)

lemma put_attr_total: "\<exists>r'. put_attr ty v r = Some r'"
  using decodeAddr_total [of v True] decodeAddr_total [of v False] by (auto simp: put_attr_def Let_def)

lemma length_differences: "length (differences ps) = length ps - 1"
  by (induction ps rule: differences.induct) auto

lemma port_pattern_total: "\<exists>info. port_pattern samples = Some info"
  using length_differences [of "sort (map snd samples)"] by (auto simp: port_pattern_def int_div_def Let_def)

lemma read_attrs_total: "\<exists>r'. read_attrs attrs off r = Some r'"
proof (induction attrs off r rule: read_attrs.induct)
  case (1 attrs off r)
  show ?case
  proof (cases "off + 4 \<le> length attrs")
    case True
    then obtain ty lw where u: "u16at attrs off = Some ty" "u16at attrs (off + 2) = Some lw" by (auto simp: u16at_def)
    let ?n = "unat lw"
    show ?thesis
    proof (cases "off + 4 + ?n > length attrs")
      case True
      with \<open>off + 4 \<le> length attrs\<close> show ?thesis by (subst read_attrs.simps) (simp add: u Let_def del: u16at_Some add_2_eq_Suc')
    next
      case False
      then obtain v where v: "slice attrs (off + 4) (off + 4 + ?n) = Some v" by (simp add: slice_def)
      obtain r' where r': "put_attr ty v r = Some r'" using put_attr_total by blast
      from 1 [OF True _ u(1,2) refl refl False v r'] True False v r' show ?thesis
        by (subst read_attrs.simps) (simp add: u Let_def del: u16at_Some slice_Some add_2_eq_Suc')
    qed
  next
    case False
    then show ?thesis by (subst read_attrs.simps) simp
  qed
qed

lemma sendSTUN_total: "\<exists>r s'. sendSTUN net addr req txID s = Some (r, s')"
proof (cases "net addr req s")
  case (Pair resp s')
  show ?thesis
  proof (cases "resp = None \<or> length (take 1024 (the resp)) < StunHeaderSize")
    case False
    then obtain d0 d where d: "resp = Some d0" "d = take 1024 d0" "\<not> length d < StunHeaderSize" by auto
    then obtain ty tx lw where u: "u16at d 0 = Some ty" "slice d 8 20 = Some tx" "u16at d 2 = Some lw" by (auto simp add: StunHeaderSize_def not_less)
    show ?thesis
    proof (cases "ty \<noteq> 0x0101 \<or> tx \<noteq> txID \<or> StunHeaderSize + unat lw > length d")
      case True
      then show ?thesis using Pair d(1,3) u by (simp add: sendSTUN_def Let_def d(2) [symmetric] del: slice_Some u16at_Some length_take)
    next
      case False
      then obtain attrs where a: "slice d StunHeaderSize (StunHeaderSize + unat lw) = Some attrs" by simp
      obtain r where "read_attrs attrs 0 stunResponse0 = Some r" using read_attrs_total [of attrs 0 stunResponse0] by (elim exE)
      then show ?thesis using Pair d(1,3) u a False by (simp add: sendSTUN_def Let_def d(2) [symmetric] del: slice_Some u16at_Some length_take)
    qed
  qed (use Pair in \<open>auto simp: sendSTUN_def Let_def split: option.split\<close>)
qed

lemma querySTUN_total: "\<exists>r s'. querySTUN resolve net txID server s = Some (r, s')"
  using sendSTUN_total [of net _ "buildRequest [] txID" txID s] by (auto simp: querySTUN_def split: option.split)

lemma tryRFC5780_total: "\<exists>rep ok s'. tryRFC5780 resolve net tx server report s = Some ((rep, ok), s')"
proof -
  have m: "\<exists>rep s'. mapping_tests resolve net tx a resp r s = Some (rep, s')" for a resp r s
  proof (cases "resolve (sr_OtherIP resp @ '':'' @ show_nat (unat (snd a)))")
    case (Some alt)
    obtain r2 s2 where "sendSTUN net alt (buildRequest [] (tx 1)) (tx 1) s = Some (r2, s2)" using sendSTUN_total [of net alt "buildRequest [] (tx 1)" "tx 1" s] by (elim exE)
    moreover obtain r3 s3 where "(case resolve (sr_OtherAddr resp) of None \<Rightarrow> Some (None, s2) | Some alt \<Rightarrow> sendSTUN net alt (buildRequest [] (tx 2)) (tx 2) s2) = Some (r3, s3)"
    proof (cases "resolve (sr_OtherAddr resp)")
      case (Some alt2)
      then show ?thesis using that sendSTUN_total [of net alt2 "buildRequest [] (tx 2)" "tx 2" s2] by auto
    qed (use that in simp)
    ultimately show ?thesis using Some by (simp add: mapping_tests_def split: option.split)
  qed (simp add: mapping_tests_def)
  have f: "\<exists>rep s'. filtering_tests net tx a r s = Some (rep, s')" for a r s
  proof -
    obtain f2 s2 where f2: "sendSTUN net a (buildRequest [makeChangeRequest (changeIP OR changePort)] (tx 3)) (tx 3) s = Some (f2, s2)" using sendSTUN_total [of net a "buildRequest [makeChangeRequest (changeIP OR changePort)] (tx 3)" "tx 3" s] by (elim exE)
    obtain f3 s3 where "sendSTUN net a (buildRequest [makeChangeRequest changePort] (tx 4)) (tx 4) s2 = Some (f3, s3)" using sendSTUN_total [of net a "buildRequest [makeChangeRequest changePort] (tx 4)" "tx 4" s2] by (elim exE)
    with f2 show ?thesis by (simp add: filtering_tests_def)
  qed
  show ?thesis
  proof (cases "resolve server")
    case (Some a)
    obtain r1 s1 where r1: "sendSTUN net a (buildRequest [] (tx 0)) (tx 0) s = Some (r1, s1)" using sendSTUN_total [of net a "buildRequest [] (tx 0)" "tx 0" s] by (elim exE)
    show ?thesis
    proof (cases r1)
      case (Some resp)
      obtain rep2 s2 where r2: "mapping_tests resolve net tx a resp (report\<lparr>nr_RFC5780 := True\<rparr>) s1 = Some (rep2, s2)" using m by blast
      obtain rep3 s3 where "filtering_tests net tx a rep2 s2 = Some (rep3, s3)" using f by blast
      with r1 r2 Some show ?thesis using \<open>resolve server = Some a\<close> by (cases "sr_OtherAddr resp = []") (auto simp: tryRFC5780_def)
    qed (auto simp: tryRFC5780_def \<open>resolve server = Some a\<close> r1)
  qed (auto simp: tryRFC5780_def)
qed

lemma rfc_loop_total: "\<exists>rep s'. rfc_loop M tx n servers report s = Some (rep, s')"
proof (induction servers arbitrary: n report s)
  case (Cons srv servers)
  obtain p s1 where l: "m_listen M s = (p, s1)" by (cases "m_listen M s")
  obtain rep ok s2 where "tryRFC5780 (m_resolve M) (m_net M) (tx n) srv report s1 = Some ((rep, ok), s2)"
    using tryRFC5780_total [of "m_resolve M" "m_net M" "tx n" srv report s1] by (elim exE)
  then show ?case using Cons l by (cases p) simp_all
qed simp

lemma ask_all_total: "\<exists>rs oks s'. ask_all M tx n servers seen s = Some ((rs, oks), s')"
proof (induction servers arbitrary: n seen s)
  case (Cons srv servers)
  obtain r s1 where q: "querySTUN (m_resolve M) (m_net M) (tx n) srv s = Some (r, s1)" using querySTUN_total [of "m_resolve M" "m_net M" "tx n" srv s] by (elim exE)
  let ?k = "map_option fst (m_resolve M srv)"
  let ?seen = "if \<not> sq_Error (result_of srv r) \<and> ?k \<notin> set seen then ?k # seen else seen"
  obtain rs oks s' where "ask_all M tx (Suc n) servers ?seen s1 = Some ((rs, oks), s')" using Cons [of "Suc n" ?seen s1] by (elim exE)
  with q show ?case by (simp add: Let_def)
qed simp

lemma sample_ports_total: "\<exists>ps s'. sample_ports M tx server is s = Some (ps, s')"
proof (induction "is" arbitrary: s)
  case (Cons i "is")
  obtain p s1 where l: "m_listen M s = (p, s1)" by (cases "m_listen M s")
  obtain r s2 where q: "querySTUN (m_resolve M) (m_net M) (tx i) server s1 = Some (r, s2)" using querySTUN_total [of "m_resolve M" "m_net M" "tx i" server s1] by (elim exE)
  obtain ps s' where "sample_ports M tx server is (m_sleep M 50 s2) = Some (ps, s')" using Cons [of "m_sleep M 50 s2"] by (elim exE)
  with q l show ?case using Cons [of s1] by (cases p) simp_all
qed simp

lemma testBindingLifetime_total: "\<exists>l s'. testBindingLifetime M tx server s = Some (l, s')"
proof -
  obtain p s1 where l: "m_listen M s = (p, s1)" by (cases "m_listen M s")
  obtain r s2 where q: "querySTUN (m_resolve M) (m_net M) (tx 0) server s1 = Some (r, s2)" using querySTUN_total [of "m_resolve M" "m_net M" "tx 0" server s1] by (elim exE)
  obtain r' s3 where "querySTUN (m_resolve M) (m_net M) (tx 1) server (m_sleep M 10000 s2) = Some (r', s3)"
    using querySTUN_total [of "m_resolve M" "m_net M" "tx 1" server "m_sleep M 10000 s2"] by (elim exE)
  with q l show ?thesis by (cases p; cases r; cases r') (simp_all add: testBindingLifetime_def)
qed

text \<open>The score of a classified report lies between the base of its class and 100.\<close>

definition nat_classes :: "string set" where
  "nat_classes = {''NAT0'', ''NAT1'', ''NAT2'', ''NAT3'', ''NAT4''}"

lemma classifyNAT_class: "nr_NATTypeShort (classifyNAT r) \<in> nat_classes \<and> nr_NATType (classifyNAT r) \<noteq> ClassBlocked"
  by (simp add: classifyNAT_def nat_classes_def set_class_def Let_def split: mapping.split filtering.split)

lemma scored_sel [simp]: "nr_NATTypeShort (scored r) = nr_NATTypeShort r" "nr_NATType (scored r) = nr_NATType r" "nr_Score (scored r) = fst (scoreHolePunch r)"
  by (simp_all add: scored_def split: prod.split)

lemma score_range: "base_score (nr_NATTypeShort r) \<le> fst (scoreHolePunch r) \<and> fst (scoreHolePunch r) \<le> 100"
  by (auto simp: scoreHolePunch_def base_score_def Let_def split: allocation.split)

definition conclusive :: "natReport \<Rightarrow> bool" where
  "conclusive rep \<longleftrightarrow> nr_NATType rep \<noteq> ClassBlocked \<and> nr_NATTypeShort rep \<in> nat_classes \<and> base_score (nr_NATTypeShort rep) \<le> nr_Score rep \<and> nr_Score rep \<le> 100"

lemma finish_diagnosis_total:
  assumes "oks \<noteq> []"
  shows "\<exists>rep' s'. finish_diagnosis M tx fast oks rep s = Some (rep', s') \<and> conclusive rep'"
proof -
  have srv: "elem_at standardServers 0 = Some (hd standardServers)" by (simp add: standardServers_def)
  obtain ps s1 where a: "sample_ports M (tx 0) (hd standardServers) [0..<5] s = Some (ps, s1)"
    using sample_ports_total [of M "tx 0" "hd standardServers" "[0..<5]" s] by (elim exE)
  obtain info where i: "port_pattern ps = Some info" using port_pattern_total by blast
  obtain rep1 where c: "compare_answers oks rep = Some rep1" using assms by (simp add: compare_answers_def)
  obtain h s2 where h: "testHairpin M (take 8 (tx 1 0)) (sq_PublicAddr (hd oks)) s1 = (h, s2)" by (cases "testHairpin M (take 8 (tx 1 0)) (sq_PublicAddr (hd oks)) s1")
  obtain l s3 where "testBindingLifetime M (tx 2) (hd standardServers) s2 = Some (l, s3)"
    using testBindingLifetime_total [of M "tx 2" "hd standardServers" s2] by (elim exE)
  then show ?thesis using a i c h srv assms classifyNAT_class score_range
    by (simp add: finish_diagnosis_def analyzePortAllocation_def conclusive_def del: upt_rec_numeral)
qed

text \<open>Claim C39. The diagnosis ends with a report whatever the machine and the network do: no answer of a server, well-formed or not, and no lack of answers
  makes it panic (indices, slices and the division of the port analysis are checked). It reports that UDP is blocked, with the score 0, exactly when no socket could be opened for
  the servers or none of them answered; otherwise it reports one of the classes NAT0 to NAT4, with a score between the base of this class and 100.\<close>

theorem natcheck_total:
  "\<exists>rep s'. runDiagnostics M tx fast ifName localIP s = Some (rep, s') \<and>
    (\<exists>rep1 s1. rfc_loop M tx 4 rfc5780Servers (natReport0 ifName localIP) s = Some (rep1, s1) \<and>
      (if fst (m_listen M s1) = None \<or> (\<exists>rs s3. ask_all M (tx 3) 0 standardServers [] (snd (m_listen M s1)) = Some ((rs, []), s3))
       then nr_NATType rep = ClassBlocked \<and> nr_Score rep = 0
       else nr_NATType rep \<noteq> ClassBlocked \<and> nr_NATTypeShort rep \<in> {''NAT0'', ''NAT1'', ''NAT2'', ''NAT3'', ''NAT4''}
         \<and> base_score (nr_NATTypeShort rep) \<le> nr_Score rep \<and> nr_Score rep \<le> 100))"
proof -
  obtain rep s1 where r: "rfc_loop M tx 4 rfc5780Servers (natReport0 ifName localIP) s = Some (rep, s1)"
    using rfc_loop_total [of M tx 4 rfc5780Servers "natReport0 ifName localIP" s] by (elim exE)
  obtain p s2 where l: "m_listen M s1 = (p, s2)" by (cases "m_listen M s1")
  obtain rs oks s3 where a: "ask_all M (tx 3) 0 standardServers [] s2 = Some ((rs, oks), s3)"
    using ask_all_total [of M "tx 3" 0 standardServers "[]" s2] by (elim exE)
  show ?thesis
  proof (cases "p = None \<or> oks = []")
    case True
    then have "runDiagnostics M tx fast ifName localIP s = Some (blocked (if p = None then rep else rep\<lparr>nr_Results := rs\<rparr>), if p = None then s2 else s3)"
      using r l a by (cases p) (simp_all add: runDiagnostics_def Let_def)
    moreover have "fst (m_listen M s1) = None \<or> (\<exists>rs s3. ask_all M (tx 3) 0 standardServers [] (snd (m_listen M s1)) = Some ((rs, []), s3))"
      using True l a by auto
    ultimately show ?thesis using r by (simp add: blocked_def set_class_def)
  next
    case False
    then obtain rep' s' where "finish_diagnosis M tx fast oks (rep\<lparr>nr_Results := rs\<rparr>) s3 = Some (rep', s')" "conclusive rep'"
      using finish_diagnosis_total [of oks M tx fast "rep\<lparr>nr_Results := rs\<rparr>" s3] by blast
    moreover have "\<not> (fst (m_listen M s1) = None \<or> (\<exists>rs s3. ask_all M (tx 3) 0 standardServers [] (snd (m_listen M s1)) = Some ((rs, []), s3)))"
      using False l a by auto
    ultimately show ?thesis using False r l a unfolding conclusive_def nat_classes_def by (auto simp: runDiagnostics_def Let_def)
  qed
qed

end
