(* ===== verification/Dispatch.thy ===== *)
theory Dispatch
  imports Datagrams Files
begin

text \<open>
  The client as a whole, \<^verbatim>\<open>src/client/core/client.go\<close> and \<^verbatim>\<open>stun.go\<close>: its identity, the connection to the server
  (\<^verbatim>\<open>Connect\<close>, \<^verbatim>\<open>JoinRoom\<close>, \<^verbatim>\<open>reconnect\<close>) and the dispatch of everything that arrives to the handlers of the
  components: messages of the server (\<^verbatim>\<open>handleMessage\<close>), messages of peers through the relay
  (\<^verbatim>\<open>handleRelayData\<close>) and datagrams (\<^verbatim>\<open>udpReadLoop\<close>, \<^verbatim>\<open>dispatchSMMessage\<close>).

  \<^item> What a handler draws from outside is in \<open>world\<close>: random bytes, the time, results of system calls.
  \<^item> A goroutine that a handler starts and that does not end with it is a \<open>task\<close> of the result.
  \<^item> The result \<open>None\<close> is a panic of the process, or the deadlock of \<^verbatim>\<open>handlePeerList\<close>.
\<close>

section \<open>Identity\<close>

text \<open>\<^verbatim>\<open>generateMachineID\<close>; \<open>host\<close> is the host name, empty if unknown.\<close>

definition mac_text :: "bytes \<Rightarrow> string" where
  "mac_text mac = join_with '':'' (map (\<lambda>b. hex_enc [b]) mac)"

definition machine_seed :: "bool \<Rightarrow> string \<Rightarrow> netIface list option \<Rightarrow> string \<Rightarrow> string" where
  "machine_seed android host ifs name =
     (if android then ''android:'' @ host @ '':'' @ name
      else case getPrimaryMAC ifs of Some mac \<Rightarrow> mac_text mac @ '':'' @ name | None \<Rightarrow> host @ '':'' @ name)"

definition generateMachineID :: "(bytes \<Rightarrow> bytes) \<Rightarrow> bool \<Rightarrow> string \<Rightarrow> netIface list option \<Rightarrow> string \<Rightarrow> string" where
  "generateMachineID sha android host ifs name = hex_enc (take 8 (sha (str_bytes (machine_seed android host ifs name))))"

text \<open>The address that \<^verbatim>\<open>Connect\<close> and \<^verbatim>\<open>reconnect\<close> dial.\<close>

definition dial_url :: "string \<Rightarrow> string \<Rightarrow> string" where
  "dial_url serverURL machineID = (if machineID = [] then serverURL
     else serverURL @ (if CHR ''?'' \<in> set serverURL then ''&'' else ''?'') @ ''client_id='' @ machineID)"

section \<open>The connection to the server\<close>

text \<open>The first frame of a connection. \<^verbatim>\<open>Connect\<close> insists on the payload, \<^verbatim>\<open>reconnect\<close> ignores its errors. A successful
  dial and read is an argument \<open>Some v\<close> with the value of the frame; the text of a number is immaterial.\<close>

definition welcome_payload :: "json \<Rightarrow> (string decoded) option" where
  "welcome_payload v = (case dec_message 0 v of None \<Rightarrow> None
     | Some m \<Rightarrow> if mType m \<noteq> ''welcome'' then None
         else Some (case mPayload m of None \<Rightarrow> ([], False)
                    | Some (p, _) \<Rightarrow> (let (kvs, ok0) = obj_members p; (i, ok1) = get_str ''id'' kvs in (i, ok0 \<and> ok1))))"

definition Connect :: "json option \<Rightarrow> cli \<Rightarrow> cli \<times> bool" where
  "Connect frame c = (case frame of None \<Rightarrow> (c, False)
     | Some v \<Rightarrow> (case welcome_payload v of Some (i, True) \<Rightarrow> (c\<lparr>c_conn := Some True, c_MyID := i\<rparr>, True)
         | _ \<Rightarrow> (c\<lparr>c_conn := Some False\<rparr>, False)))"

definition join_msg :: "cli \<Rightarrow> message" where
  "join_msg c = \<lparr>mType = ''join'', mFrom = [], mTo = [], mRoom = c_room c,
     mPayload = Some (enc_strmap [(''room'', c_room c), (''password_hash'', c_passwordHash c), (''name'', c_name c)], 0)\<rparr>"

definition JoinRoom :: "cli \<Rightarrow> cli \<times> bool" where
  "JoinRoom c = sendMsg (join_msg c) c"

text \<open>One attempt of \<^verbatim>\<open>reconnect\<close>, after its delay: the state and the value returned, \<open>None\<close> if the loop goes on. \<open>frame\<close> is
  \<open>None\<close> for a failed dial or read. Discovery of the public address is started after a success.\<close>

definition reconnected :: "string \<Rightarrow> cli \<Rightarrow> cli" where
  "reconnected i c = resetP2PState (fst (JoinRoom (c\<lparr>c_conn := Some True, c_MyID := i\<rparr>)))"

definition reconnect_attempt :: "json option \<Rightarrow> cli \<Rightarrow> cli \<times> bool option" where
  "reconnect_attempt frame c =
     (if c_done c then (c, Some False)
      else case frame \<bind> welcome_payload of None \<Rightarrow> (c, None)
           | Some (i, _) \<Rightarrow> (reconnected i c, Some True))"

text \<open>What \<^verbatim>\<open>readLoop\<close> does with the value of \<^verbatim>\<open>reconnect\<close>: it goes on reading, or closes \<^verbatim>\<open>c.done\<close> and returns. Closing a
  closed channel panics.\<close>

definition readLoop_reconnected :: "bool \<Rightarrow> cli \<Rightarrow> cli option" where
  "readLoop_reconnected ok c = (if ok then Some c else if c_done c then None else Some (c\<lparr>c_done := True\<rparr>))"

section \<open>Dispatch\<close>

record world =
  w_punch :: punchEnv
  w_base :: string
  w_uid :: nat
  w_ifc :: "(string \<times> bool) option"
  w_now :: int
  w_sent :: bool
  w_spare :: bytes
  w_nsOk :: bool
  w_dial :: "conn option"
  w_listenOk :: bool
  w_rnd :: bytes
  w_rnd2 :: bytes
  w_reason :: string
  w_mbps :: "int \<Rightarrow> int \<Rightarrow> json"
  w_elapsed :: int
  w_partial :: bytes

datatype task =
    TaskFile nat
  | TaskSpeed speedTest
  | TaskVpn nat

type_synonym outcome = "(cli \<times> task list) option"
type_synonym peer_handler = "string \<Rightarrow> json option \<Rightarrow> cli \<Rightarrow> outcome"

definition plain :: "cli \<Rightarrow> outcome" where
  "plain c = Some (c, [])"

definition partly :: "cli option \<Rightarrow> outcome" where
  "partly r = map_option (\<lambda>c. (c, [])) r"

text \<open>\<^verbatim>\<open>handleSpeedTestData\<close>: \<open>w_partial\<close> is what the decoder returns before an error.\<close>

definition speed_data :: "world \<Rightarrow> string \<Rightarrow> string \<Rightarrow> cli \<Rightarrow> cli" where
  "speed_data w tid d c = processSpeedTestData tid (case b64_dec d of Some x \<Rightarrow> x | None \<Rightarrow> w_partial w) (w_now w) c"

definition handleSpeedTestData :: "world \<Rightarrow> json option \<Rightarrow> cli \<Rightarrow> cli" where
  "handleSpeedTestData w payload c = speed_data w (lenient_str ''test_id'' payload) (lenient_str ''data'' payload) c"

definition st_ready :: "json option \<Rightarrow> cli \<Rightarrow> outcome" where
  "st_ready payload c = Some (c, case handleSTReady payload c of None \<Rightarrow> [] | Some t \<Rightarrow> [TaskSpeed t])"

definition file_accept :: "json option \<Rightarrow> cli \<Rightarrow> outcome" where
  "file_accept payload c = (let (c1, i) = handleFileAccept payload c in Some (c1, case i of None \<Rightarrow> [] | Some i \<Rightarrow> [TaskFile i]))"

text \<open>The goroutine of \<^verbatim>\<open>handleTunSetup\<close> runs for the device that was made.\<close>

definition tun_setup :: "prims \<Rightarrow> world \<Rightarrow> string \<Rightarrow> json option \<Rightarrow> cli \<Rightarrow> outcome" where
  "tun_setup P w from' payload c =
     (let c1 = handleTunSetup P (w_base w) (w_uid w) (w_ifc w) from' payload c in
      Some (c1, if list_ex (\<lambda>(p, d). td_uid d = w_uid w) (c_tunDevices c1) then [TaskVpn (w_uid w)] else []))"

text \<open>The cases of \<^verbatim>\<open>dispatchSMMessage\<close>, to which the cases in \<^verbatim>\<open>udpReadLoop\<close> before it belong, and of
  \<^verbatim>\<open>handleRelayData\<close>.\<close>

definition sm_handlers :: "prims \<Rightarrow> world \<Rightarrow> (string \<times> peer_handler) list" where
  "sm_handlers P w =
    [(''st_begin'', \<lambda>f p c. plain (handleSTBegin P f p (w_uid w) c)),
     (''st_ready'', \<lambda>f p c. st_ready p c),
     (''st_finish'', \<lambda>f p c. plain (handleSTFinish P (w_mbps w) (w_elapsed w) f p c)),
     (''st_result'', \<lambda>f p c. plain (handleSTResult p c)),
     (''st_cancel'', \<lambda>f p c. partly (handleSTCancel p c)),
     (''file_offer'', \<lambda>f p c. plain (handleFileOffer P f p c)),
     (''file_accept'', \<lambda>f p c. file_accept p c),
     (''file_done'', \<lambda>f p c. partly (handleFileDone P f p c)),
     (''file_reject'', \<lambda>f p c. plain (handleFileReject p c)),
     (''file_cancel'', \<lambda>f p c. plain (handleFileCancel p c)),
     (''file_nack'', \<lambda>f p c. plain (handleFileNack P p c)),
     (''file_stream'', \<lambda>f p c. plain (handleFileStream f p (w_nsOk w) c))]"

definition relay_handlers :: "prims \<Rightarrow> world \<Rightarrow> (string \<times> peer_handler) list" where
  "relay_handlers P w =
    [(''open_tunnel'', \<lambda>f p c. plain (handleOpenTunnel P f p (w_nsOk w) (w_dial w) c)),
     (''tunnel_opened'', \<lambda>f p c. plain (handleTunnelOpened p c)),
     (''tunnel_data'', \<lambda>f p c. partly (handleTunnelData P p c)),
     (''close_tunnel'', \<lambda>f p c. plain (handleCloseTunnel P p c)),
     (''tunnel_rejected'', \<lambda>f p c. plain (handleTunnelRejected P p c)),
     (''reverse_forward_offer'', \<lambda>f p c. plain (handleReverseForwardOffer P f p (w_listenOk w) (w_uid w) (w_rnd w) (w_reason w) c)),
     (''reverse_forward_accept'', \<lambda>f p c. plain c),
     (''reverse_forward_reject'', \<lambda>f p c. plain c),
     (''speed_test_request'', \<lambda>f p c. plain (handleSTBegin P f p (w_uid w) c)),
     (''st_begin'', \<lambda>f p c. plain (handleSTBegin P f p (w_uid w) c)),
     (''speed_test_ready'', \<lambda>f p c. st_ready p c),
     (''st_ready'', \<lambda>f p c. st_ready p c),
     (''speed_test_data'', \<lambda>f p c. plain (handleSpeedTestData w p c)),
     (''speed_test_done'', \<lambda>f p c. plain (handleSTFinish P (w_mbps w) (w_elapsed w) f p c)),
     (''st_finish'', \<lambda>f p c. plain (handleSTFinish P (w_mbps w) (w_elapsed w) f p c)),
     (''st_result'', \<lambda>f p c. plain (handleSTResult p c)),
     (''file_offer'', \<lambda>f p c. plain (handleFileOffer P f p c)),
     (''file_accept'', \<lambda>f p c. file_accept p c),
     (''file_data'', \<lambda>f p c. plain (handleFileData P f p c)),
     (''file_done'', \<lambda>f p c. partly (handleFileDone P f p c)),
     (''file_reject'', \<lambda>f p c. plain (handleFileReject p c)),
     (''file_cancel'', \<lambda>f p c. plain (handleFileCancel p c)),
     (''file_nack'', \<lambda>f p c. plain (handleFileNack P p c)),
     (''file_stream'', \<lambda>f p c. plain (handleFileStream f p (w_nsOk w) c)),
     (''p2p_map'', \<lambda>f p c. plain (handleP2PMap f p c)),
     (''hop_forward'', \<lambda>f p c. plain (handleHopForward P f p (w_rnd w) (w_rnd2 w) c)),
     (''hop_forward_accept'', \<lambda>f p c. partly (handleHopForwardAccept f p c)),
     (''hop_forward_reject'', \<lambda>f p c. plain (handleHopForwardReject p c)),
     (''tun_setup'', \<lambda>f p c. tun_setup P w f p c),
     (''tun_ack'', \<lambda>f p c. plain (handleTunAck f p c)),
     (''tun_data'', \<lambda>f p c. partly (handleTunData P (w_now w) (w_sent w) (w_spare w) f p c)),
     (''tun_teardown'', \<lambda>f p c. plain (handleTunTeardown f c)),
     (''fwd_data'', \<lambda>f p c. plain (handleFwdData P f p c))]"

definition dispatch :: "(string \<times> peer_handler) list \<Rightarrow> string \<Rightarrow> peer_handler" where
  "dispatch hs ty f p c = (case map_of hs ty of None \<Rightarrow> plain c | Some h \<Rightarrow> h f p c)"

definition dispatchSMMessage :: "prims \<Rightarrow> world \<Rightarrow> string \<Rightarrow> peer_handler" where
  "dispatchSMMessage P w = dispatch (sm_handlers P w)"

definition client_handleRelayData :: "prims \<Rightarrow> world \<Rightarrow> message \<Rightarrow> cli \<Rightarrow> outcome" where
  "client_handleRelayData P w m c = (case open_relay P m c of None \<Rightarrow> plain c
     | Some (ty, p) \<Rightarrow> dispatch (relay_handlers P w) ty (mFrom m) p c)"

definition client_handleMessage :: "prims \<Rightarrow> world \<Rightarrow> message \<Rightarrow> cli \<Rightarrow> outcome" where
  "client_handleMessage P w m c =
     (if mType m = ''peer_list'' then partly (handlePeerList P m c)
      else if mType m = ''relay_data'' then client_handleRelayData P w m c
      else if mType m = ''stun_info'' then partly (handleStunInfo P (w_punch w) m c)
      else if mType m = ''room_config'' then plain (handleRoomConfig m c)
      else plain c)"

text \<open>One frame of \<^verbatim>\<open>readLoop\<close>: each line is a message; lines that do not parse are skipped. \<open>w\<close> gives the world of each line.\<close>

fun frame_lines :: "prims \<Rightarrow> (nat \<Rightarrow> world) \<Rightarrow> nat \<Rightarrow> string list \<Rightarrow> cli \<Rightarrow> outcome" where
  "frame_lines P w n [] c = plain c"
| "frame_lines P w n (l # ls) c = (case p_parse P (str_bytes l) \<bind> dec_message 0 of
       None \<Rightarrow> frame_lines P w (Suc n) ls c
     | Some m \<Rightarrow> do {
         (c1, ts) \<leftarrow> client_handleMessage P (w n) m c;
         (c2, ts') \<leftarrow> frame_lines P w (Suc n) ls c1;
         Some (c2, ts @ ts') })"

definition readLoop_frame :: "prims \<Rightarrow> (nat \<Rightarrow> world) \<Rightarrow> string \<Rightarrow> cli \<Rightarrow> outcome" where
  "readLoop_frame P w text c = frame_lines P w 0 (splitMessages text) c"

section \<open>Datagrams\<close>

text \<open>A speed test datagram must decode without error, unlike a relayed one.\<close>

definition dec_speed_data :: "json \<Rightarrow> (string \<times> string) option" where
  "dec_speed_data v = (let (kvs, ok0) = obj_members v; (tid, ok1) = get_str ''test_id'' kvs; (d, ok2) = get_str ''data'' kvs;
       (seq, ok3) = get_int ''seq'' kvs in if ok0 \<and> ok1 \<and> ok2 \<and> ok3 then Some (tid, d) else None)"

fun run_upcall :: "prims \<Rightarrow> world \<Rightarrow> upcall \<Rightarrow> cli \<Rightarrow> outcome" where
  "run_upcall P w (UpVPN raw i) c = partly (handleTunDataDirect (w_now w) (w_sent w) (w_spare w) raw i c)"
| "run_upcall P w (UpSpeed d) c = (case p_parse P d \<bind> dec_speed_data of None \<Rightarrow> plain c | Some (tid, x) \<Rightarrow> plain (speed_data w tid x c))"
| "run_upcall P w (UpFile d) c = (case p_parse P d of None \<Rightarrow> plain c | Some v \<Rightarrow> plain (processFileDataP2P P v c))"
| "run_upcall P w (UpSignal ty i d) c = dispatchSMMessage P w ty i (p_parse P d) c"

definition udpReadLoop_datagram :: "prims \<Rightarrow> world \<Rightarrow> bytes \<Rightarrow> endpoint \<Rightarrow> cli \<Rightarrow> outcome" where
  "udpReadLoop_datagram P w d addr c = do {
     (c1, ups) \<leftarrow> udp_recv P (w_punch w) d addr c;
     (case ups of [] \<Rightarrow> plain c1 | up # _ \<Rightarrow> run_upcall P w up c1) }"

end
