(* ===== verification/Subnet_Proxy.thy ===== *)
theory Subnet_Proxy
  imports Vpn Discovery
begin

text \<open>
  The userspace UDP and TCP proxy of \<^verbatim>\<open>src/client/core/tun_proxy.go\<close>: packets of the peer for a routed network are turned into
  datagrams and connections of the operating system, and what comes back into packets. (\<^verbatim>\<open>handlePacket\<close>, in \<open>Vpn\<close>, passes only ICMP to the
  proxy; the TCP and UDP handlers of this theory have no caller in the present sources.)

  \<^item> A goroutine keeps its pointer to a connection when the map of connections has forgotten or replaced it, so the connections
    are a heap: the map gives the index of a connection. \<open>None\<close> in the map of UDP connections is the nil pointer that \<^verbatim>\<open>LoadOrStore\<close> puts there.
  \<^item> A socket is what has been written to it and whether it is closed. Whether the operating system can open it or write to it is an argument.
  \<^item> \<open>sp_sent\<close> are the packets passed to \<^verbatim>\<open>sendTunPacket\<close>, in order. \<open>None\<close> is a panic.
\<close>

section \<open>State\<close>

datatype tcpState = SYN_RECV | ESTABLISHED | CLOSING

record tcpProxyConn =
  tc_written :: bytes
  tc_closed :: bool
  tc_srcIP :: u32
  tc_srcPort :: u16
  tc_dstIP :: u32
  tc_dstPort :: u16
  tc_peerSeq :: u32
  tc_ourSeq :: u32
  tc_state :: tcpState
  tc_lastSeen :: int

record udpProxyConn =
  uc_written :: "(u32 \<times> u16 \<times> bytes) list"
  uc_closed :: bool
  uc_srcIP :: u32
  uc_srcPort :: u16
  uc_dstIP :: u32
  uc_dstPort :: u16
  uc_lastSeen :: int

record subnetProxy =
  sp_tcp :: "tcpProxyConn list"
  sp_tcpConns :: "(string \<times> nat) list"
  sp_udp :: "udpProxyConn list"
  sp_udpConns :: "(string \<times> nat option) list"
  sp_done :: bool
  sp_sent :: "bytes list"
  sp_bytesUp :: int
  sp_ipID :: u32

definition newSubnetProxy :: "u32 \<Rightarrow> subnetProxy" where
  "newSubnetProxy ipID = \<lparr>sp_tcp = [], sp_tcpConns = [], sp_udp = [], sp_udpConns = [], sp_done = False, sp_sent = [], sp_bytesUp = 0, sp_ipID = ipID\<rparr>"

definition flow_key :: "string \<Rightarrow> u32 \<Rightarrow> u16 \<Rightarrow> u32 \<Rightarrow> u16 \<Rightarrow> string" where
  "flow_key proto src sport dst dport = proto @ '':'' @ addr_str src sport @ '':'' @ addr_str dst dport"

definition upd_tcp :: "nat \<Rightarrow> (tcpProxyConn \<Rightarrow> tcpProxyConn) \<Rightarrow> subnetProxy \<Rightarrow> subnetProxy" where
  "upd_tcp i f sp = sp\<lparr>sp_tcp := (sp_tcp sp)[i := f (sp_tcp sp ! i)]\<rparr>"

definition upd_udp :: "nat \<Rightarrow> (udpProxyConn \<Rightarrow> udpProxyConn) \<Rightarrow> subnetProxy \<Rightarrow> subnetProxy" where
  "upd_udp i f sp = sp\<lparr>sp_udp := (sp_udp sp)[i := f (sp_udp sp ! i)]\<rparr>"

definition send_packet :: "bytes \<Rightarrow> subnetProxy \<Rightarrow> subnetProxy" where
  "send_packet pkt sp = sp\<lparr>sp_bytesUp := sp_bytesUp sp + int (length pkt), sp_sent := sp_sent sp @ [pkt]\<rparr>"

section \<open>TCP packets\<close>

text \<open>\<^verbatim>\<open>tcpChecksumFull\<close> clears the checksum in a copy; shorter segments than 18 bytes would make it panic.\<close>

definition tcpChecksumFull :: "bytes \<Rightarrow> u32 \<Rightarrow> u32 \<Rightarrow> u16 option" where
  "tcpChecksumFull seg src dst = map_option csum16 (put16at (pseudo src dst 6 seg) (12 + 16) 0)"

definition tcp_ip_header :: "nat \<Rightarrow> u32 \<Rightarrow> u32 \<Rightarrow> u32 \<Rightarrow> u16 \<Rightarrow> bytes" where
  "tcp_ip_header totalLen ipID src dst ck =
     [0x45, 0] @ bytes16 (of_nat totalLen) @ bytes16 (ucast ipID) @ [0x40, 0, 64, 6] @ bytes16 ck @ bytes32 src @ bytes32 dst"

definition tcp_bytes :: "u16 \<Rightarrow> u16 \<Rightarrow> u32 \<Rightarrow> u32 \<Rightarrow> byte \<Rightarrow> bytes \<Rightarrow> bytes \<Rightarrow> u16 \<Rightarrow> bytes" where
  "tcp_bytes sport dport seq ack flags opts payload ck =
     (let pad = attr_pad (length opts); tcpHdrLen = 20 + (length opts + pad) in
      bytes16 sport @ bytes16 dport @ bytes32 seq @ bytes32 ack @ [push_bit 4 (of_nat (tcpHdrLen div 4)), flags] @ bytes16 65535 @ bytes16 ck @
      [0, 0] @ opts @ replicate pad 0 @ payload)"

definition sendTCPPacketOpts ::
  "u32 \<Rightarrow> u32 \<Rightarrow> u16 \<Rightarrow> u16 \<Rightarrow> u32 \<Rightarrow> u32 \<Rightarrow> byte \<Rightarrow> bytes \<Rightarrow> bytes \<Rightarrow> subnetProxy \<Rightarrow> subnetProxy option" where
  "sendTCPPacketOpts src dst sport dport seq ack flags opts payload sp =
     (let seg = tcp_bytes sport dport seq ack flags opts payload; totalLen = 20 + length (seg 0); ipID = sp_ipID sp + 1 in do {
        tcpCksum \<leftarrow> tcpChecksumFull (seg 0) src dst;
        Some (send_packet (tcp_ip_header totalLen ipID src dst (ipHeaderChecksum (tcp_ip_header totalLen ipID src dst 0)) @ seg tcpCksum) (sp\<lparr>sp_ipID := ipID\<rparr>)) })"

definition sendTCPPacket :: "u32 \<Rightarrow> u32 \<Rightarrow> u16 \<Rightarrow> u16 \<Rightarrow> u32 \<Rightarrow> u32 \<Rightarrow> byte \<Rightarrow> bytes \<Rightarrow> subnetProxy \<Rightarrow> subnetProxy option" where
  "sendTCPPacket src dst sport dport seq ack flags payload sp = sendTCPPacketOpts src dst sport dport seq ack flags [] payload sp"

text \<open>A packet to the peer of a connection.\<close>

definition tcp_answer :: "tcpProxyConn \<Rightarrow> u32 \<Rightarrow> u32 \<Rightarrow> byte \<Rightarrow> bytes \<Rightarrow> subnetProxy \<Rightarrow> subnetProxy option" where
  "tcp_answer tc seq ack flags payload sp = sendTCPPacket (tc_dstIP tc) (tc_srcIP tc) (tc_dstPort tc) (tc_srcPort tc) seq ack flags payload sp"

text \<open>\<^verbatim>\<open>randomSeq\<close>; \<open>None\<close> if there is no randomness.\<close>

definition randomSeq :: "nat option \<Rightarrow> u32" where
  "randomSeq r = (case r of None \<Rightarrow> 100000 | Some n \<Rightarrow> of_nat n)"

definition seqDiff :: "u32 \<Rightarrow> u32 \<Rightarrow> u32" where
  "seqDiff b a = (let d = b - a in if d > 0 \<and> d < push_bit 31 1 then d else 0)"

section \<open>Packets of the peer\<close>

text \<open>What \<^verbatim>\<open>handleTCP\<close> reads from the packet, or \<open>None\<close> if it refuses it: ports, sequence number, flags and payload.\<close>

definition parse_tcp :: "bytes \<Rightarrow> nat \<Rightarrow> (u16 \<times> u16 \<times> u32 \<times> byte \<times> bytes) option" where
  "parse_tcp pkt ihl =
     (if length pkt < ihl + 20 then None
      else
        (let dataOff = unat (drop_bit 4 (pkt ! (ihl + 12))) * 4 in
         if dataOff < 20 \<or> length pkt < ihl + dataOff then None
         else Some (port_at ihl pkt, port_at (ihl + 2) pkt, be32 (pkt ! (ihl + 4)) (pkt ! (ihl + 5)) (pkt ! (ihl + 6)) (pkt ! (ihl + 7)),
                pkt ! (ihl + 13), drop (ihl + dataOff) pkt)))"

definition isSYN :: "byte \<Rightarrow> bool" where "isSYN flags \<longleftrightarrow> flags AND 0x02 \<noteq> 0"

definition isACK :: "byte \<Rightarrow> bool" where "isACK flags \<longleftrightarrow> flags AND 0x10 \<noteq> 0"

definition isFIN :: "byte \<Rightarrow> bool" where "isFIN flags \<longleftrightarrow> flags AND 0x01 \<noteq> 0"

definition isRST :: "byte \<Rightarrow> bool" where "isRST flags \<longleftrightarrow> flags AND 0x04 \<noteq> 0"

text \<open>The connection request: a connection with the same addresses is closed, the target is dialled, and the answer is a reset or a
  SYN-ACK with the segment size.\<close>

definition drop_stale :: "string \<Rightarrow> subnetProxy \<Rightarrow> subnetProxy" where
  "drop_stale key sp = (case mget (sp_tcpConns sp) key of None \<Rightarrow> sp
     | Some i \<Rightarrow> (upd_tcp i (\<lambda>tc. tc\<lparr>tc_state := CLOSING, tc_closed := True\<rparr>) sp)\<lparr>sp_tcpConns := mdel key (sp_tcpConns sp)\<rparr>)"

definition tcp_syn :: "bool \<Rightarrow> nat option \<Rightarrow> u32 \<Rightarrow> u32 \<Rightarrow> u16 \<Rightarrow> u16 \<Rightarrow> u32 \<Rightarrow> subnetProxy \<Rightarrow> subnetProxy option" where
  "tcp_syn dialOk rnd src dst sport dport seq sp0 =
     (let key = flow_key ''tcp'' src sport dst dport; sp = drop_stale key sp0 in
      if \<not> dialOk then sendTCPPacket dst src dport sport 0 (seq + 1) 0x14 [] sp
      else
        (let i = length (sp_tcp sp);
             tc = \<lparr>tc_written = [], tc_closed = False, tc_srcIP = src, tc_srcPort = sport, tc_dstIP = dst, tc_dstPort = dport,
               tc_peerSeq = seq + 1, tc_ourSeq = randomSeq rnd, tc_state = SYN_RECV, tc_lastSeen = 0\<rparr>;
             sp1 = sp\<lparr>sp_tcp := sp_tcp sp @ [tc], sp_tcpConns := mput key i (sp_tcpConns sp)\<rparr> in do {
           sp2 \<leftarrow> sendTCPPacketOpts dst src dport sport (tc_ourSeq tc) (tc_peerSeq tc) 0x12 ([2, 4] @ bytes16 tunMSS) [] sp1;
           Some (upd_tcp i (\<lambda>tc. tc\<lparr>tc_ourSeq := tc_ourSeq tc + 1\<rparr>) sp2) }))"

text \<open>A packet of a known connection: the acknowledgement that completes the handshake, the end of the stream, data, and all of it.\<close>

definition tcp_ack :: "byte \<Rightarrow> nat \<Rightarrow> subnetProxy \<Rightarrow> subnetProxy" where
  "tcp_ack flags i sp = (if isACK flags \<and> tc_state (sp_tcp sp ! i) = SYN_RECV then upd_tcp i (\<lambda>tc. tc\<lparr>tc_state := ESTABLISHED\<rparr>) sp else sp)"

definition tcp_fin :: "nat \<Rightarrow> subnetProxy \<Rightarrow> subnetProxy option" where
  "tcp_fin i sp =
     (let tc = sp_tcp sp ! i in do {
        sp1 \<leftarrow> tcp_answer tc (tc_ourSeq tc) (tc_peerSeq tc + 1) 0x10 [] (upd_tcp i (\<lambda>tc. tc\<lparr>tc_peerSeq := tc_peerSeq tc + 1\<rparr>) sp);
        Some (upd_tcp i (\<lambda>tc. tc\<lparr>tc_closed := True, tc_state := CLOSING\<rparr>) sp1) })"

definition tcp_data :: "bool \<Rightarrow> string \<Rightarrow> nat \<Rightarrow> u32 \<Rightarrow> bytes \<Rightarrow> subnetProxy \<Rightarrow> subnetProxy option" where
  "tcp_data writeOk key i seq payload sp =
     (let tc = sp_tcp sp ! i in
      if seq = tc_peerSeq tc then
        (if \<not> writeOk then do {
           sp1 \<leftarrow> tcp_answer tc (tc_ourSeq tc) (tc_peerSeq tc) 0x14 [] sp;
           Some ((upd_tcp i (\<lambda>tc. tc\<lparr>tc_closed := True, tc_state := CLOSING\<rparr>) sp1)\<lparr>sp_tcpConns := mdel key (sp_tcpConns sp1)\<rparr>) }
         else
           tcp_answer tc (tc_ourSeq tc) (tc_peerSeq tc + of_nat (length payload)) 0x10 []
             (upd_tcp i (\<lambda>tc. tc\<lparr>tc_written := tc_written tc @ payload, tc_peerSeq := tc_peerSeq tc + of_nat (length payload)\<rparr>) sp))
      else tcp_answer tc (tc_ourSeq tc) (tc_peerSeq tc) 0x10 [] sp)"

definition tcp_packet_in :: "int \<Rightarrow> bool \<Rightarrow> string \<Rightarrow> nat \<Rightarrow> u32 \<Rightarrow> byte \<Rightarrow> bytes \<Rightarrow> subnetProxy \<Rightarrow> subnetProxy option" where
  "tcp_packet_in now writeOk key i seq flags payload sp0 =
     (let sp1 = upd_tcp i (\<lambda>tc. tc\<lparr>tc_lastSeen := now\<rparr>) sp0 in
      if isRST flags then Some ((upd_tcp i (\<lambda>tc. tc\<lparr>tc_state := CLOSING, tc_closed := True\<rparr>) sp1)\<lparr>sp_tcpConns := mdel key (sp_tcpConns sp1)\<rparr>)
      else
        (let sp = tcp_ack flags i sp1 in
         if isFIN flags then tcp_fin i sp
         else if payload \<noteq> [] \<and> tc_state (sp_tcp sp ! i) = ESTABLISHED then tcp_data writeOk key i seq payload sp
         else Some sp))"

text \<open>\<^verbatim>\<open>handleTCP\<close>; the flag tells whether the packet was taken.\<close>

definition handleTCP :: "int \<Rightarrow> bool \<Rightarrow> nat option \<Rightarrow> bool \<Rightarrow> bytes \<Rightarrow> nat \<Rightarrow> u32 \<Rightarrow> u32 \<Rightarrow> subnetProxy \<Rightarrow> (subnetProxy \<times> bool) option" where
  "handleTCP now dialOk rnd writeOk pkt ihl src dst sp = (case parse_tcp pkt ihl of
       None \<Rightarrow> Some (sp, False)
     | Some (sport, dport, seq, flags, payload) \<Rightarrow>
        (let key = flow_key ''tcp'' src sport dst dport in
         if isSYN flags \<and> \<not> isACK flags then do { sp' \<leftarrow> tcp_syn dialOk rnd src dst sport dport seq sp; Some (sp', True) }
         else case mget (sp_tcpConns sp) key of
              None \<Rightarrow> Some (sp, False)
            | Some i \<Rightarrow> do { sp' \<leftarrow> tcp_packet_in now writeOk key i seq flags payload sp; Some (sp', True) }))"

section \<open>Data of the target\<close>

text \<open>One round of the inner loop of \<^verbatim>\<open>tcpReadLoop\<close>, for the part of \<open>data\<close> from \<open>off\<close>; the flag is false when the goroutine
  returns.\<close>

definition tcp_chunk :: "nat \<Rightarrow> bytes \<Rightarrow> nat \<Rightarrow> subnetProxy \<Rightarrow> (subnetProxy \<times> bool) option" where
  "tcp_chunk i data off sp =
     (let tc = sp_tcp sp ! i; n = length data; stop = (if off + 1360 > n then n else off + 1360) in
      if tc_state tc \<noteq> ESTABLISHED then Some (sp, False)
      else do {
        sp' \<leftarrow> tcp_answer tc (tc_ourSeq tc) (tc_peerSeq tc) (if stop = n then 0x18 else 0x10) (take (stop - off) (drop off data))
                (upd_tcp i (\<lambda>tc. tc\<lparr>tc_ourSeq := tc_ourSeq tc + of_nat (stop - off)\<rparr>) sp);
        Some (sp', True) })"

function tcp_chunks :: "nat \<Rightarrow> bytes \<Rightarrow> nat \<Rightarrow> subnetProxy \<Rightarrow> (subnetProxy \<times> bool) option" where
  "tcp_chunks i data off sp =
     (if off < length data then do {
        (sp', goOn) \<leftarrow> tcp_chunk i data off sp;
        if goOn then tcp_chunks i data (off + 1360) sp' else Some (sp', False) }
      else Some (sp, True))"
  by pat_completeness auto
termination by (relation "measure (\<lambda>(i, data, off, sp). length data - off)") auto

declare tcp_chunks.simps [simp del]

text \<open>The end of the goroutine, and what its timer does after thirty seconds.\<close>

definition tcp_read_end :: "nat \<Rightarrow> subnetProxy \<Rightarrow> subnetProxy option" where
  "tcp_read_end i sp =
     (let tc = sp_tcp sp ! i in do {
        sp1 \<leftarrow> (if tc_state tc \<noteq> CLOSING then map_option (upd_tcp i (\<lambda>tc. tc\<lparr>tc_state := CLOSING\<rparr>)) (tcp_answer tc (tc_ourSeq tc) (tc_peerSeq tc) 0x11 [] sp)
                else Some sp);
        Some (upd_tcp i (\<lambda>tc. tc\<lparr>tc_closed := True\<rparr>) sp1) })"

definition tcp_forget :: "string \<Rightarrow> subnetProxy \<Rightarrow> subnetProxy" where
  "tcp_forget key sp = sp\<lparr>sp_tcpConns := mdel key (sp_tcpConns sp)\<rparr>"

text \<open>One round of \<^verbatim>\<open>tcpReadLoop\<close>: the bytes read, at most 4096, and whether the read failed; the goroutine ends with
  \<open>tcp_read_end\<close>.\<close>

definition tcp_read :: "nat \<Rightarrow> bytes \<Rightarrow> bool \<Rightarrow> subnetProxy \<Rightarrow> (subnetProxy \<times> bool) option" where
  "tcp_read i data err sp =
     (if sp_done sp then do { sp' \<leftarrow> tcp_read_end i sp; Some (sp', False) }
      else do {
        (sp1, goOn) \<leftarrow> tcp_chunks i data 0 sp;
        if goOn \<and> \<not> err then Some (sp1, True)
        else do { sp' \<leftarrow> tcp_read_end i sp1; Some (sp', False) } })"

section \<open>UDP\<close>

text \<open>\<^verbatim>\<open>handleUDP\<close>; the nil pointer stays in the map if no socket can be opened.\<close>

definition handleUDP :: "int \<Rightarrow> bool \<Rightarrow> bytes \<Rightarrow> nat \<Rightarrow> u32 \<Rightarrow> u32 \<Rightarrow> subnetProxy \<Rightarrow> subnetProxy \<times> bool" where
  "handleUDP now listenOk pkt ihl src dst sp =
     (if length pkt < ihl + 8 then (sp, False)
      else
        (let sport = port_at ihl pkt; dport = port_at (ihl + 2) pkt; udpLen = unat (port_at (ihl + 4) pkt) in
         if udpLen < 8 \<or> length pkt < ihl + udpLen then (sp, False)
         else
           (let payload = take (udpLen - 8) (drop (ihl + 8) pkt); key = flow_key ''udp'' src sport dst dport;
                write = (\<lambda>i. upd_udp i (\<lambda>uc. uc\<lparr>uc_lastSeen := now, uc_written := uc_written uc @ [(dst, dport, payload)]\<rparr>)) in
            case mget (sp_udpConns sp) key of
              Some (Some i) \<Rightarrow> (write i sp, True)
            | _ \<Rightarrow>
               if \<not> listenOk then (sp\<lparr>sp_udpConns := mput key None (sp_udpConns sp)\<rparr>, False)
               else
                 (let i = length (sp_udp sp);
                      uc = \<lparr>uc_written = [], uc_closed = False, uc_srcIP = src, uc_srcPort = sport, uc_dstIP = dst, uc_dstPort = dport, uc_lastSeen = 0\<rparr>
                  in (write i (sp\<lparr>sp_udp := sp_udp sp @ [uc], sp_udpConns := mput key (Some i) (sp_udpConns sp)\<rparr>), True)))))"

text \<open>The goroutine of a socket: a datagram that arrives, and a failed read.\<close>

definition udp_reply :: "nat \<Rightarrow> u32 \<Rightarrow> u16 \<Rightarrow> bytes \<Rightarrow> subnetProxy \<Rightarrow> subnetProxy" where
  "udp_reply i from' fromPort data sp =
     (let uc = sp_udp sp ! i in
      case buildUDPReplyPacket (bytes32 from') (bytes32 (uc_srcIP uc)) fromPort (uc_srcPort uc) data of
        None \<Rightarrow> sp | Some pkt \<Rightarrow> send_packet pkt sp)"

definition udp_read_end :: "nat \<Rightarrow> string \<Rightarrow> subnetProxy \<Rightarrow> subnetProxy" where
  "udp_read_end i key sp = (upd_udp i (\<lambda>uc. uc\<lparr>uc_closed := True\<rparr>) sp)\<lparr>sp_udpConns := mdel key (sp_udpConns sp)\<rparr>"

definition udp_read :: "int \<Rightarrow> nat \<Rightarrow> string \<Rightarrow> (u32 \<times> u16 \<times> bytes) option \<Rightarrow> subnetProxy \<Rightarrow> subnetProxy \<times> bool" where
  "udp_read now i key got sp =
     (if sp_done sp then (udp_read_end i key sp, False)
      else case got of
        None \<Rightarrow> if now - uc_lastSeen (sp_udp sp ! i) > 120 then (udp_read_end i key sp, False) else (sp, True)
      | Some (from', fromPort, data) \<Rightarrow> (udp_reply i from' fromPort data sp, True))"

section \<open>Closing\<close>

definition proxy_Close :: "subnetProxy \<Rightarrow> subnetProxy option" where
  "proxy_Close sp =
     (if sp_done sp then Some sp
      else if None \<in> snd ` set (sp_udpConns sp) then None
      else
        Some (sp\<lparr>sp_done := True,
            sp_udp := map (\<lambda>(j, uc). if Some j \<in> snd ` set (sp_udpConns sp) then uc\<lparr>uc_closed := True\<rparr> else uc) (enumerate 0 (sp_udp sp)),
            sp_udpConns := [],
            sp_tcp := map (\<lambda>(j, tc). if j \<in> snd ` set (sp_tcpConns sp) then tc\<lparr>tc_closed := True\<rparr> else tc) (enumerate 0 (sp_tcp sp)),
            sp_tcpConns := []\<rparr>))"

section \<open>Packets that are sent\<close>

lemma tcpChecksumFull_eq: "tcpChecksumFull seg src dst = tcpChecksumCalc seg src dst"
  by (simp add: tcpChecksumFull_def tcpChecksumCalc_def)

lemma length_tcp_bytes: "length (tcp_bytes sport dport seq ack flags opts payload ck) =
    20 + (length opts + attr_pad (length opts)) + length payload"
  by (simp add: tcp_bytes_def Let_def)

lemma length_tcp_ip_header [simp]: "length (tcp_ip_header n i src dst ck) = 20"
  by (simp add: tcp_ip_header_def)

lemma tcp_ip_header_ok: "sum_ok (tcp_ip_header n i src dst (ipHeaderChecksum (tcp_ip_header n i src dst 0)))"
proof -
  let ?xs = "[0x45, 0] @ bytes16 (of_nat n) @ bytes16 (ucast i) @ [0x40, 0, 64, 6]" and ?ys = "bytes32 src @ bytes32 dst"
  have "sum_ok (?xs @ bytes16 (csum16 (?xs @ bytes16 0 @ ?ys)) @ ?ys)" by (intro csum16_fills) simp_all
  then show ?thesis by (simp add: tcp_ip_header_def ipHeaderChecksum_def)
qed

lemma put16_append: "length xs = n \<Longrightarrow> put16 (xs @ bytes16 v @ ys) n w = xs @ bytes16 w @ ys"
  by (simp add: bytes16_def list_update_append)

lemma tcp_bytes_checksum: "put16 (tcp_bytes sport dport seq ack flags opts payload 0) 16 ck = tcp_bytes sport dport seq ack flags opts payload ck"
  using put16_append [of "bytes16 sport @ bytes16 dport @ bytes32 seq @ bytes32 ack @ [x, flags] @ bytes16 65535" 16 0 _ ck for x] by (simp add: tcp_bytes_def Let_def)

lemma tcp_bytes_zero: "tcp_bytes sport dport seq ack flags opts payload 0 ! 16 = 0" "tcp_bytes sport dport seq ack flags opts payload 0 ! 17 = 0"
  by (simp_all add: tcp_bytes_def Let_def bytes16_def bytes32_def nth_append)

text \<open>A packet as the code builds it, with its two checksums.\<close>

definition tcp_built :: "u32 \<Rightarrow> u32 \<Rightarrow> u16 \<Rightarrow> u16 \<Rightarrow> u32 \<Rightarrow> u32 \<Rightarrow> byte \<Rightarrow> bytes \<Rightarrow> bytes \<Rightarrow> bytes \<Rightarrow> bool" where
  "tcp_built src dst sport dport seq ack flags opts payload pkt \<longleftrightarrow>
     (\<exists>n i ck ck'. pkt = tcp_ip_header n i src dst ck @ tcp_bytes sport dport seq ack flags opts payload ck' \<and>
       n = length pkt \<and> sum_ok (take 20 pkt) \<and> (length pkt \<le> 65535 \<longrightarrow> sum_ok (pseudo src dst 6 (drop 20 pkt))))"

lemma sendTCPPacketOpts_ok:
  "\<exists>pkt. sendTCPPacketOpts src dst sport dport seq ack flags opts payload sp = Some (send_packet pkt (sp\<lparr>sp_ipID := sp_ipID sp + 1\<rparr>)) \<and>
    tcp_built src dst sport dport seq ack flags opts payload pkt"
proof -
  let ?seg = "tcp_bytes sport dport seq ack flags opts payload"
  let ?n = "20 + length (?seg 0)"
  let ?h = "\<lambda>ck. tcp_ip_header ?n (sp_ipID sp + 1) src dst ck"
  have l: "length (?seg ck) = length (?seg 0)" for ck by (simp add: length_tcp_bytes)
  have "18 \<le> length (?seg 0)" by (simp add: length_tcp_bytes)
  then obtain ck where ck: "tcpChecksumFull (?seg 0) src dst = Some ck" by (auto simp: tcpChecksumFull_def put16at_def)
  have "sum_ok (pseudo src dst 6 (?seg ck))" if small: "?n \<le> 65535"
  proof -
    obtain ck' where "tcpChecksumCalc (?seg 0) src dst = Some ck'" "sum_ok (pseudo src dst 6 (put16 (?seg 0) 16 ck'))"
      using tcpChecksumCalc_fills [of "?seg 0" src dst] small tcp_bytes_zero [of sport dport seq ack flags opts payload] \<open>18 \<le> _\<close> by auto
    then show ?thesis using ck by (simp only: tcpChecksumFull_eq tcp_bytes_checksum option.inject)
  qed
  then have "tcp_built src dst sport dport seq ack flags opts payload (?h (ipHeaderChecksum (?h 0)) @ ?seg ck)"
    unfolding tcp_built_def by - (rule exI [of _ ?n], rule exI [of _ "sp_ipID sp + 1"], rule exI [of _ "ipHeaderChecksum (?h 0)"], rule exI [of _ ck], simp add: l [of ck] tcp_ip_header_ok)
  with ck show ?thesis unfolding sendTCPPacketOpts_def by (auto simp: Let_def)
qed

lemma data_offset: "k \<le> 15 \<Longrightarrow> unat (drop_bit 4 (push_bit 4 (of_nat k) :: byte)) = k"
  by (simp add: drop_bit_eq_div push_bit_eq_mult unat_div unat_word_ariths unat_of_nat)

lemma padded_div: "(20 + (n + attr_pad n)) div 4 * 4 = 20 + (n + attr_pad n)"
proof -
  have "(20 + (n + attr_pad n)) mod 4 = 0" by (auto simp: attr_pad_def) presburger
  then show ?thesis by (simp add: mod_eq_0_iff_dvd)
qed

lemma padded_le: "n \<le> 40 \<Longrightarrow> (20 + (n + attr_pad n)) div 4 \<le> 15"
proof -
  assume "n \<le> 40"
  then have "n + attr_pad n \<le> 40" by (auto simp: attr_pad_def) presburger
  then show ?thesis by linarith
qed

lemma drop_exact: "t = x @ y \<Longrightarrow> length x = n \<Longrightarrow> drop n t = y"
  by simp

lemma parse_built:
  assumes "pkt = tcp_ip_header n i src dst ck @ tcp_bytes sport dport seq ack flags opts payload ck'" "length opts \<le> 40"
  shows "parse_tcp pkt 20 = Some (sport, dport, seq, flags, payload)"
proof -
  let ?t = "tcp_bytes sport dport seq ack flags opts payload ck'" and ?l = "20 + (length opts + attr_pad (length opts))"
  have "?t ! 12 = push_bit 4 (of_nat (?l div 4))" by (simp add: tcp_bytes_def Let_def bytes16_def bytes32_def)
  then have "pkt ! 32 = push_bit 4 (of_nat (?l div 4))" by (simp add: assms(1) nth_append)
  then have d: "unat (drop_bit 4 (pkt ! 32)) * 4 = ?l" using data_offset [OF padded_le [OF assms(2)]] padded_div [of "length opts"] by simp
  have l: "length pkt = 20 + (?l + length payload)" by (simp add: assms(1) length_tcp_bytes)
  let ?x = "bytes16 sport @ bytes16 dport @ bytes32 seq @ bytes32 ack @ [push_bit 4 (of_nat (?l div 4)), flags] @ bytes16 65535 @ bytes16 ck' @ [0, 0] @ opts @
    replicate (attr_pad (length opts)) 0"
  have "?t = ?x @ payload" "length ?x = ?l" by (simp_all add: tcp_bytes_def Let_def)
  then have "drop ?l ?t = payload" by (rule drop_exact)
  then have p: "drop (20 + ?l) pkt = payload" by (simp add: assms(1))
  have t: "port_at 0 ?t = sport" "port_at 2 ?t = dport" "?t ! 13 = flags" "be32 (?t ! 4) (?t ! 5) (?t ! 6) (?t ! 7) = seq"
    by (simp_all add: port_at_def tcp_bytes_def Let_def bytes16_def bytes32_def)
  have n: "pkt ! (20 + j) = ?t ! j" for j by (simp add: assms(1) nth_append)
  have "port_at 20 pkt = sport" "port_at 22 pkt = dport" "pkt ! 33 = flags" "be32 (pkt ! 24) (pkt ! 25) (pkt ! 26) (pkt ! 27) = seq"
    using n [of 0] n [of 1] n [of 2] n [of 3] n [of 4] n [of 5] n [of 6] n [of 7] n [of 13] t by (simp_all add: port_at_def)
  then show ?thesis using d l p by (simp add: parse_tcp_def Let_def)
qed

lemma tcp_built_parse:
  assumes "tcp_built src dst sport dport seq ack flags opts payload pkt" "length opts \<le> 40"
  shows "parse_tcp pkt 20 = Some (sport, dport, seq, flags, payload)" "srcIP pkt = src" "dstIP pkt = dst"
proof -
  obtain n i ck ck' where pkt: "pkt = tcp_ip_header n i src dst ck @ tcp_bytes sport dport seq ack flags opts payload ck'"
    using assms(1) by (auto simp: tcp_built_def)
  show "parse_tcp pkt 20 = Some (sport, dport, seq, flags, payload)" using pkt assms(2) by (rule parse_built)
  show "srcIP pkt = src" "dstIP pkt = dst"
    by (simp_all add: pkt ip_at_def tcp_ip_header_def bytes16_def bytes32_def nth_append)
qed

lemma tcp_answer_ok:
  "\<exists>pkt. tcp_answer tc seq ack flags payload sp = Some (send_packet pkt (sp\<lparr>sp_ipID := sp_ipID sp + 1\<rparr>)) \<and>
    tcp_built (tc_dstIP tc) (tc_srcIP tc) (tc_dstPort tc) (tc_srcPort tc) seq ack flags [] payload pkt"
  unfolding tcp_answer_def sendTCPPacket_def by (rule sendTCPPacketOpts_ok)

section \<open>The connections of the map\<close>

text \<open>The invariant of the map: an entry points to a connection with the addresses of its key, so no two entries share one.\<close>

definition conn_key :: "tcpProxyConn \<Rightarrow> string" where
  "conn_key tc = flow_key ''tcp'' (tc_srcIP tc) (tc_srcPort tc) (tc_dstIP tc) (tc_dstPort tc)"

definition proxy_ok :: "subnetProxy \<Rightarrow> bool" where
  "proxy_ok sp \<longleftrightarrow> (\<forall>k i. mget (sp_tcpConns sp) k = Some i \<longrightarrow> i < length (sp_tcp sp) \<and> k = conn_key (sp_tcp sp ! i))"

lemma proxy_okD: "proxy_ok sp \<Longrightarrow> mget (sp_tcpConns sp) k = Some i \<Longrightarrow> i < length (sp_tcp sp) \<and> k = conn_key (sp_tcp sp ! i)"
  by (simp add: proxy_ok_def)

lemma send_packet_fields [simp]:
  "sp_tcp (send_packet p sp) = sp_tcp sp" "sp_tcpConns (send_packet p sp) = sp_tcpConns sp" "sp_udp (send_packet p sp) = sp_udp sp"
  "sp_udpConns (send_packet p sp) = sp_udpConns sp" "sp_done (send_packet p sp) = sp_done sp" "sp_sent (send_packet p sp) = sp_sent sp @ [p]"
  by (simp_all add: send_packet_def)

lemma upd_tcp_fields [simp]:
  "sp_tcp (upd_tcp i f sp) = (sp_tcp sp)[i := f (sp_tcp sp ! i)]" "sp_tcpConns (upd_tcp i f sp) = sp_tcpConns sp" "sp_udp (upd_tcp i f sp) = sp_udp sp"
  "sp_udpConns (upd_tcp i f sp) = sp_udpConns sp" "sp_done (upd_tcp i f sp) = sp_done sp" "sp_sent (upd_tcp i f sp) = sp_sent sp"
  by (simp_all add: upd_tcp_def)

text \<open>\<open>keeps j k sp sp'\<close>: the step from \<open>sp\<close> to \<open>sp'\<close> keeps the invariant and the connection \<open>j\<close> with its entry \<open>k\<close>.\<close>

definition keeps :: "nat \<Rightarrow> string \<Rightarrow> subnetProxy \<Rightarrow> subnetProxy \<Rightarrow> bool" where
  "keeps j k sp sp' \<longleftrightarrow> (proxy_ok sp \<and> mget (sp_tcpConns sp) k = Some j \<longrightarrow>
     proxy_ok sp' \<and> mget (sp_tcpConns sp') k = Some j \<and> sp_tcp sp' ! j = sp_tcp sp ! j)"

lemma keeps_refl: "keeps j k sp sp"
  by (simp add: keeps_def)

lemma keeps_trans: "keeps j k sp sp1 \<Longrightarrow> keeps j k sp1 sp2 \<Longrightarrow> keeps j k sp sp2"
  by (simp add: keeps_def)

lemma keeps_view: "sp_tcp sp' = sp_tcp sp \<Longrightarrow> sp_tcpConns sp' = sp_tcpConns sp \<Longrightarrow> keeps j k sp sp'"
  by (simp add: keeps_def proxy_ok_def)

lemma keeps_send: "keeps j k sp (send_packet p (sp\<lparr>sp_ipID := x\<rparr>))"
  by (rule keeps_view) simp_all

lemma key_upd: "(\<And>tc. conn_key (f tc) = conn_key tc) \<Longrightarrow> m < length xs \<Longrightarrow> conn_key (xs[i := f (xs ! i)] ! m) = conn_key (xs ! m)"
  by (cases "i = m") simp_all

lemma proxy_ok_upd: "(\<And>tc. conn_key (f tc) = conn_key tc) \<Longrightarrow> proxy_ok sp \<Longrightarrow> proxy_ok (upd_tcp i f sp)"
  by (auto simp: proxy_ok_def key_upd)

lemma keeps_upd: "i \<noteq> j \<Longrightarrow> (\<And>tc. conn_key (f tc) = conn_key tc) \<Longrightarrow> keeps j k sp (upd_tcp i f sp)"
  by (simp add: keeps_def proxy_ok_upd)

lemma keeps_del: "k' \<noteq> k \<Longrightarrow> keeps j k sp (sp\<lparr>sp_tcpConns := mdel k' (sp_tcpConns sp)\<rparr>)"
  by (auto simp: keeps_def proxy_ok_def)

lemma keeps_upd_del:
  "i \<noteq> j \<Longrightarrow> (\<And>tc. conn_key (f tc) = conn_key tc) \<Longrightarrow> k' \<noteq> k \<Longrightarrow> keeps j k sp ((upd_tcp i f sp)\<lparr>sp_tcpConns := mdel k' (sp_tcpConns sp)\<rparr>)"
  by (auto simp: keeps_def proxy_ok_def key_upd)

lemma conn_key_upd [simp]:
  "conn_key (tc\<lparr>tc_state := st\<rparr>) = conn_key tc" "conn_key (tc\<lparr>tc_closed := b\<rparr>) = conn_key tc" "conn_key (tc\<lparr>tc_lastSeen := t\<rparr>) = conn_key tc"
  "conn_key (tc\<lparr>tc_peerSeq := q\<rparr>) = conn_key tc" "conn_key (tc\<lparr>tc_ourSeq := q\<rparr>) = conn_key tc" "conn_key (tc\<lparr>tc_written := w\<rparr>) = conn_key tc"
  by (simp_all add: conn_key_def)

lemma tcp_answer_frame:
  assumes "tcp_answer tc seq ack flags payload sp = Some sp'"
  shows "sp_tcp sp' = sp_tcp sp" "sp_tcpConns sp' = sp_tcpConns sp" "sp_udpConns sp' = sp_udpConns sp" "sp_done sp' = sp_done sp"
  using assms tcp_answer_ok [of tc seq ack flags payload sp] by auto

lemma keeps_answer: "keeps j k sp sp1 \<Longrightarrow> tcp_answer tc seq ack flags payload sp1 = Some sp2 \<Longrightarrow> keeps j k sp sp2"
  using tcp_answer_ok [of tc seq ack flags payload sp1] by (auto intro: keeps_trans keeps_send)

lemma proxy_ok_push:
  "proxy_ok sp \<Longrightarrow> proxy_ok (sp\<lparr>sp_tcp := sp_tcp sp @ [tc], sp_tcpConns := mput (conn_key tc) (length (sp_tcp sp)) (sp_tcpConns sp)\<rparr>)"
  by (auto simp: proxy_ok_def nth_append intro: less_SucI)

lemma keeps_push:
  "conn_key tc = k' \<Longrightarrow> k' \<noteq> k \<Longrightarrow> keeps j k sp (sp\<lparr>sp_tcp := sp_tcp sp @ [tc], sp_tcpConns := mput k' (length (sp_tcp sp)) (sp_tcpConns sp)\<rparr>)"
  using proxy_ok_push [of sp tc] by (auto simp: keeps_def nth_append dest: proxy_okD)

lemma keeps_syn:
  assumes "tcp_syn dialOk rnd src dst sport dport seq sp = Some sp'" "flow_key ''tcp'' src sport dst dport \<noteq> k" "proxy_ok sp" "mget (sp_tcpConns sp) k = Some j"
  shows "keeps j k sp sp'"
proof -
  let ?k = "flow_key ''tcp'' src sport dst dport"
  let ?sp = "drop_stale ?k sp"
  have s: "keeps j k sp ?sp"
  proof (cases "mget (sp_tcpConns sp) ?k")
    case (Some i)
    then have "i \<noteq> j" using proxy_okD [OF assms(3)] assms(2,4) by metis
    then show ?thesis unfolding drop_stale_def using Some assms(2)
      by (simp add: keeps_upd_del)
  qed (simp add: drop_stale_def keeps_refl)
  show ?thesis
  proof (cases dialOk)
    case False
    then show ?thesis using assms(1) s sendTCPPacketOpts_ok [of dst src dport sport 0 "seq + 1" "0x14" "[]" "[]" ?sp]
      by (auto simp: tcp_syn_def sendTCPPacket_def Let_def intro: keeps_trans keeps_send)
  next
    case True
    let ?tc = "\<lparr>tc_written = [], tc_closed = False, tc_srcIP = src, tc_srcPort = sport, tc_dstIP = dst, tc_dstPort = dport,
               tc_peerSeq = seq + 1, tc_ourSeq = randomSeq rnd, tc_state = SYN_RECV, tc_lastSeen = 0\<rparr>"
    let ?i = "length (sp_tcp ?sp)"
    let ?sp1 = "?sp\<lparr>sp_tcp := sp_tcp ?sp @ [?tc], sp_tcpConns := mput ?k ?i (sp_tcpConns ?sp)\<rparr>"
    obtain pkt where "sp' = upd_tcp ?i (\<lambda>tc. tc\<lparr>tc_ourSeq := tc_ourSeq tc + 1\<rparr>) (send_packet pkt (?sp1\<lparr>sp_ipID := sp_ipID ?sp + 1\<rparr>))"
      using True assms(1) sendTCPPacketOpts_ok [of dst src dport sport "randomSeq rnd" "seq + 1" "0x12" "[2, 4] @ bytes16 tunMSS" "[]" ?sp1]
      by (auto simp: tcp_syn_def Let_def)
    moreover have "keeps j k ?sp ?sp1"
      using assms(2) by (intro keeps_push) (simp_all add: conn_key_def)
    moreover have "?i \<noteq> j" using s assms(3,4) proxy_okD [of ?sp k j] by (auto simp: keeps_def)
    moreover have "keeps j k ?sp1 (send_packet pkt (?sp1\<lparr>sp_ipID := sp_ipID ?sp + 1\<rparr>))" by (rule keeps_send)
    ultimately show ?thesis using s by (auto intro!: keeps_trans [OF _ keeps_upd] intro: keeps_trans)
  qed
qed

lemma keeps_ack: "i \<noteq> j \<Longrightarrow> keeps j k sp (tcp_ack flags i sp)"
  by (simp add: tcp_ack_def keeps_upd keeps_refl)

lemma keeps_upd_answer:
  "tcp_answer tc seq ack flags payload (upd_tcp i f sp) = Some sp' \<Longrightarrow> i \<noteq> j \<Longrightarrow> (\<And>tc. conn_key (f tc) = conn_key tc) \<Longrightarrow> keeps j k sp sp'"
  by (rule keeps_answer [OF keeps_upd])

lemma keeps_fin:
  assumes "tcp_fin i sp = Some sp'" "i \<noteq> j"
  shows "keeps j k sp sp'"
proof -
  obtain sp1 where "tcp_answer (sp_tcp sp ! i) (tc_ourSeq (sp_tcp sp ! i)) (tc_peerSeq (sp_tcp sp ! i) + 1) 0x10 []
      (upd_tcp i (\<lambda>tc. tc\<lparr>tc_peerSeq := tc_peerSeq tc + 1\<rparr>) sp) = Some sp1" "sp' = upd_tcp i (\<lambda>tc. tc\<lparr>tc_closed := True, tc_state := CLOSING\<rparr>) sp1"
    using assms(1) by (auto simp: tcp_fin_def Let_def split: bind_splits)
  then show ?thesis using keeps_trans [OF keeps_upd_answer keeps_upd] assms(2) by simp
qed

lemma keeps_data:
  assumes "tcp_data writeOk k' i seq payload sp = Some sp'" "i \<noteq> j" "k' \<noteq> k"
  shows "keeps j k sp sp'"
proof -
  consider "seq \<noteq> tc_peerSeq (sp_tcp sp ! i)" | "seq = tc_peerSeq (sp_tcp sp ! i)" "writeOk" | "seq = tc_peerSeq (sp_tcp sp ! i)" "\<not> writeOk" by blast
  then show ?thesis
  proof cases
    case 1
    then show ?thesis using assms(1) keeps_answer [OF keeps_refl] by (simp add: tcp_data_def Let_def)
  next
    case 2
    then have "tcp_answer (sp_tcp sp ! i) (tc_ourSeq (sp_tcp sp ! i)) (tc_peerSeq (sp_tcp sp ! i) + of_nat (length payload)) 0x10 []
        (upd_tcp i (\<lambda>tc. tc\<lparr>tc_written := tc_written tc @ payload, tc_peerSeq := tc_peerSeq tc + of_nat (length payload)\<rparr>) sp) = Some sp'"
      using assms(1) by (simp add: tcp_data_def Let_def)
    then show ?thesis using assms(2) by (rule keeps_upd_answer) simp
  next
    case 3
    then show ?thesis
      using assms keeps_trans [OF keeps_answer [OF keeps_refl] keeps_upd_del [OF assms(2) _ assms(3)]]
      by (auto simp: tcp_data_def Let_def split: bind_splits)
  qed
qed

lemma keeps_packet:
  assumes "tcp_packet_in now writeOk k' i seq flags payload sp = Some sp'" "i \<noteq> j" "k' \<noteq> k"
  shows "keeps j k sp sp'"
proof -
  let ?sp1 = "upd_tcp i (\<lambda>tc. tc\<lparr>tc_lastSeen := now\<rparr>) sp"
  have sp1: "keeps j k sp ?sp1" using assms(2) by (rule keeps_upd) simp
  have sp: "keeps j k sp (tcp_ack flags i ?sp1)" using sp1 keeps_ack [OF assms(2)] by (rule keeps_trans)
  have rst: "keeps j k ?sp1 ((upd_tcp i (\<lambda>tc. tc\<lparr>tc_state := CLOSING, tc_closed := True\<rparr>) ?sp1)\<lparr>sp_tcpConns := mdel k' (sp_tcpConns ?sp1)\<rparr>)"
    using assms(2,3) by (intro keeps_upd_del) simp_all
  consider "isRST flags" | "\<not> isRST flags" "isFIN flags" | "\<not> isRST flags" "\<not> isFIN flags" by blast
  then show ?thesis
  proof cases
    case 1
    then show ?thesis using assms(1) keeps_trans [OF sp1 rst] by (simp add: tcp_packet_in_def)
  next
    case 2
    then show ?thesis using assms(1,2) keeps_trans [OF sp keeps_fin] by (simp add: tcp_packet_in_def Let_def)
  next
    case 3
    then show ?thesis using assms keeps_trans [OF sp keeps_data] sp by (auto simp: tcp_packet_in_def Let_def split: if_splits)
  qed
qed

lemma keeps_other:
  assumes "handleTCP now dialOk rnd writeOk pkt ihl src dst sp = Some (sp', b)" "parse_tcp pkt ihl = Some (sport, dport, seq, flags, payload)"
    "flow_key ''tcp'' src sport dst dport \<noteq> k" "proxy_ok sp" "mget (sp_tcpConns sp) k = Some j"
  shows "keeps j k sp sp'"
proof (cases "isSYN flags \<and> \<not> isACK flags")
  case True
  then show ?thesis using assms keeps_syn [OF _ assms(3-5)] by (auto simp: handleTCP_def Let_def split: bind_splits)
next
  case False
  have "i \<noteq> j" if "mget (sp_tcpConns sp) (flow_key ''tcp'' src sport dst dport) = Some i" for i
    using proxy_okD [OF assms(4)] that assms(3,5) by metis
  then show ?thesis using assms False by (auto simp: handleTCP_def Let_def keeps_refl split: bind_splits option.splits intro: keeps_packet)
qed

section \<open>The stream of the peer\<close>

lemma tcp_data_total: "\<exists>sp'. tcp_data writeOk key i seq payload sp = Some sp'"
proof -
  have "\<exists>sp'. tcp_answer tc s a f [] sp1 = Some sp'" for tc s a f sp1 using tcp_answer_ok [of tc s a f "[]" sp1] by blast
  then show ?thesis by (auto simp: tcp_data_def Let_def bind_eq_Some_conv)
qed

lemma handleTCP_total: "\<exists>sp' b. handleTCP now dialOk rnd writeOk pkt ihl src dst sp = Some (sp', b)"
proof -
  have a: "\<exists>sp'. tcp_answer tc s a f [] sp1 = Some sp'" for tc s a f sp1 using tcp_answer_ok [of tc s a f "[]" sp1] by blast
  have o: "\<exists>sp'. sendTCPPacketOpts s d x y q k f opts [] sp1 = Some sp'" for s d x y q k f opts sp1
    using sendTCPPacketOpts_ok [of s d x y q k f opts "[]" sp1] by blast
  have "\<exists>sp'. tcp_syn dialOk rnd src dst sport dport seq sp = Some sp'" for sport dport seq
    using o by (simp add: tcp_syn_def sendTCPPacket_def Let_def bind_eq_Some_conv)
  moreover have "\<exists>sp'. tcp_packet_in now writeOk k i seq flags payload sp = Some sp'" for k i seq flags payload
    using tcp_data_total a by (auto simp: tcp_packet_in_def tcp_fin_def Let_def bind_eq_Some_conv)
  ultimately show ?thesis by (auto simp: handleTCP_def Let_def bind_eq_Some_conv split: option.split prod.split)
qed

text \<open>A packet that arrives, with what the operating system does: time, dialling, randomness, writing, the packet, the length of its IP header and
  its addresses.\<close>

type_synonym tcp_in = "int \<times> bool \<times> nat option \<times> bool \<times> bytes \<times> nat \<times> u32 \<times> u32"

fun tcp_run :: "tcp_in list \<Rightarrow> subnetProxy \<Rightarrow> subnetProxy option" where
  "tcp_run [] sp = Some sp"
| "tcp_run ((now, dialOk, rnd, writeOk, pkt, ihl, src, dst) # ps) sp = do {
     (sp', b) \<leftarrow> handleTCP now dialOk rnd writeOk pkt ihl src dst sp;
     tcp_run ps sp' }"

text \<open>The specification of a receiver: it has accepted the first \<open>w\<close> bytes of the stream and takes a segment, given by its offset and its length, if it
  continues them. \<open>carries\<close> says that a packet is a segment of the stream \<open>S\<close> of the connection \<open>key\<close> whose first byte has the sequence
  number \<open>isn + 1\<close>, or belongs to another connection.\<close>

fun receive :: "(nat \<times> nat) option \<Rightarrow> nat \<Rightarrow> nat" where
  "receive None w = w"
| "receive (Some (off, n)) w = (if off = w then w + n else w)"

definition carries :: "bytes \<Rightarrow> u32 \<Rightarrow> string \<Rightarrow> tcp_in \<Rightarrow> (nat \<times> nat) option \<Rightarrow> bool" where
  "carries S isn key p seg = (case p of (now, dialOk, rnd, writeOk, pkt, ihl, src, dst) \<Rightarrow>
     (case parse_tcp pkt ihl of None \<Rightarrow> seg = None
      | Some (sport, dport, seq, flags, payload) \<Rightarrow>
         if flow_key ''tcp'' src sport dst dport \<noteq> key then seg = None
         else writeOk \<and> isACK flags \<and> \<not> isFIN flags \<and> \<not> isRST flags \<and>
           (\<exists>off. seg = Some (off, length payload) \<and> seq = isn + 1 + of_nat off \<and> off + length payload \<le> length S \<and> payload = take (length payload) (drop off S))))"

text \<open>The state of a connection that has accepted \<open>w\<close> bytes.\<close>

definition accepted :: "bytes \<Rightarrow> u32 \<Rightarrow> string \<Rightarrow> nat \<Rightarrow> nat \<Rightarrow> subnetProxy \<Rightarrow> bool" where
  "accepted S isn key i w sp \<longleftrightarrow> proxy_ok sp \<and> mget (sp_tcpConns sp) key = Some i \<and> w \<le> length S \<and>
     tc_state (sp_tcp sp ! i) \<noteq> CLOSING \<and> tc_written (sp_tcp sp ! i) = take w S \<and> tc_peerSeq (sp_tcp sp ! i) = isn + 1 + of_nat w"

lemma of_nat_u32_inject: "a < 4294967296 \<Longrightarrow> b < 4294967296 \<Longrightarrow> (of_nat a :: u32) = of_nat b \<longleftrightarrow> a = b"
  by (simp add: word_of_nat_eq_iff take_bit_eq_mod)

lemma tcp_data_accepts:
  assumes "accepted S isn key i w sp" "length S < 4294967296" "tcp_data True key i (isn + 1 + of_nat off) payload sp = Some sp'"
    "off + length payload \<le> length S" "payload = take (length payload) (drop off S)"
  shows "accepted S isn key i (receive (Some (off, length payload)) w) sp'"
proof -
  note acc = assms(1) [unfolded accepted_def]
  have i: "i < length (sp_tcp sp)" using acc proxy_okD by blast
  have eq: "isn + 1 + of_nat off = tc_peerSeq (sp_tcp sp ! i) \<longleftrightarrow> off = w" using acc assms(2,4) of_nat_u32_inject [of off w] by auto
  show ?thesis
  proof (cases "off = w")
    case False
    then have "tcp_answer (sp_tcp sp ! i) (tc_ourSeq (sp_tcp sp ! i)) (tc_peerSeq (sp_tcp sp ! i)) 0x10 [] sp = Some sp'"
      using assms(3) eq by (simp add: tcp_data_def Let_def)
    then have "sp_tcp sp' = sp_tcp sp" "sp_tcpConns sp' = sp_tcpConns sp" by (simp_all add: tcp_answer_frame)
    then show ?thesis using acc False by (simp add: accepted_def proxy_ok_def)
  next
    case True
    let ?f = "\<lambda>tc. tc\<lparr>tc_written := tc_written tc @ payload, tc_peerSeq := tc_peerSeq tc + of_nat (length payload)\<rparr>"
    have "tcp_answer (sp_tcp sp ! i) (tc_ourSeq (sp_tcp sp ! i)) (tc_peerSeq (sp_tcp sp ! i) + of_nat (length payload)) 0x10 [] (upd_tcp i ?f sp) = Some sp'"
      using assms(3) eq True by (simp add: tcp_data_def Let_def)
    then have "sp_tcp sp' = sp_tcp (upd_tcp i ?f sp)" "sp_tcpConns sp' = sp_tcpConns (upd_tcp i ?f sp)" by (simp_all only: tcp_answer_frame)
    moreover have "proxy_ok (upd_tcp i ?f sp)" using acc by (intro proxy_ok_upd) simp_all
    moreover have "take w S @ payload = take (w + length payload) S" using assms(5) True by (metis take_add)
    ultimately show ?thesis using acc i True assms(4) by (auto simp: accepted_def proxy_ok_def add.assoc)
  qed
qed

lemma accepted_keeps: "accepted S isn key i w sp \<Longrightarrow> keeps i key sp sp' \<Longrightarrow> accepted S isn key i w sp'"
  by (auto simp: accepted_def keeps_def)

lemma accepted_upd:
  assumes "accepted S isn key i w sp" "\<And>tc. conn_key (f tc) = conn_key tc" "\<And>tc. tc_state tc \<noteq> CLOSING \<Longrightarrow> tc_state (f tc) \<noteq> CLOSING"
    "\<And>tc. tc_written (f tc) = tc_written tc" "\<And>tc. tc_peerSeq (f tc) = tc_peerSeq tc"
  shows "accepted S isn key i w (upd_tcp i f sp)"
proof -
  have "i < length (sp_tcp sp)" using assms proxy_okD by (auto simp: accepted_def)
  moreover have "proxy_ok (upd_tcp i f sp)" using assms by (intro proxy_ok_upd) (simp_all add: accepted_def)
  ultimately show ?thesis using assms by (simp add: accepted_def)
qed

lemma accepted_ack:
  assumes "accepted S isn key i w sp" "isACK flags"
  shows "accepted S isn key i w (tcp_ack flags i sp)" "tc_state (sp_tcp (tcp_ack flags i sp) ! i) = ESTABLISHED"
proof -
  show "accepted S isn key i w (tcp_ack flags i sp)" using assms by (auto simp: tcp_ack_def intro: accepted_upd)
  have "i < length (sp_tcp sp)" using assms proxy_okD by (auto simp: accepted_def)
  then show "tc_state (sp_tcp (tcp_ack flags i sp) ! i) = ESTABLISHED"
    using assms by (cases "tc_state (sp_tcp sp ! i)") (auto simp: accepted_def tcp_ack_def)
qed

lemma handleTCP_accepts:
  assumes "carries S isn key (now, dialOk, rnd, writeOk, pkt, ihl, src, dst) seg" "accepted S isn key i w sp" "length S < 4294967296"
    "handleTCP now dialOk rnd writeOk pkt ihl src dst sp = Some (sp', b)"
  shows "accepted S isn key i (receive seg w) sp'"
proof (cases "parse_tcp pkt ihl")
  case None
  then show ?thesis using assms by (simp add: carries_def handleTCP_def)
next
  case (Some f)
  obtain sport dport seq flags payload where f: "f = (sport, dport, seq, flags, payload)" by (cases f) auto
  note acc = assms(2) [unfolded accepted_def]
  show ?thesis
  proof (cases "flow_key ''tcp'' src sport dst dport = key")
    case False
    then have "keeps i key sp sp'" using keeps_other [OF assms(4) Some [unfolded f]] acc by blast
    moreover have "seg = None" using assms(1) Some f False by (simp add: carries_def)
    ultimately show ?thesis using accepted_keeps [OF assms(2)] by simp
  next
    case True
    let ?sp = "tcp_ack flags i (upd_tcp i (\<lambda>tc. tc\<lparr>tc_lastSeen := now\<rparr>) sp)"
    obtain off where c: "writeOk" "isACK flags" "\<not> isFIN flags" "\<not> isRST flags" "seg = Some (off, length payload)" "seq = isn + 1 + of_nat off"
      "off + length payload \<le> length S" "payload = take (length payload) (drop off S)" using assms(1) Some f True by (auto simp: carries_def)
    have t: "accepted S isn key i w (upd_tcp i (\<lambda>tc. tc\<lparr>tc_lastSeen := now\<rparr>) sp)" using assms(2) by (rule accepted_upd) simp_all
    note ack = accepted_ack [OF t c(2)]
    have h: "(if payload \<noteq> [] then tcp_data True key i seq payload ?sp else Some ?sp) = Some sp'"
      using assms(4) Some f True acc ack(2) c
      by (auto simp: handleTCP_def tcp_packet_in_def Let_def split: bind_splits if_splits)
    show ?thesis
    proof (cases "payload = []")
      case True
      then show ?thesis using h c(5) ack(1) by simp
    next
      case False
      then show ?thesis using tcp_data_accepts [OF ack(1) assms(3) _ c(7,8)] h c(5,6) by simp
    qed
  qed
qed

lemma tcp_run_accepts:
  assumes "list_all2 (carries S isn key) ps segs" "accepted S isn key i w sp" "length S < 4294967296"
  shows "\<exists>sp'. tcp_run ps sp = Some sp' \<and> accepted S isn key i (fold receive segs w) sp'"
  using assms(1,2)
proof (induction ps segs arbitrary: w sp rule: list_all2_induct)
  case (Cons p ps seg segs)
  obtain now dialOk rnd writeOk pkt ihl src dst where p: "p = (now, dialOk, rnd, writeOk, pkt, ihl, src, dst)" by (cases p) auto
  obtain sp1 b where h: "handleTCP now dialOk rnd writeOk pkt ihl src dst sp = Some (sp1, b)"
    using handleTCP_total [of now dialOk rnd writeOk pkt ihl src dst sp] by (elim exE)
  have "accepted S isn key i (receive seg w) sp1"
    using handleTCP_accepts Cons.hyps(1) Cons.prems assms(3) h unfolding p .
  then show ?case using Cons.IH [of "receive seg w" sp1] h by (simp add: p)
qed simp

lemma syn_accepted:
  assumes "tcp_syn True rnd src dst sport dport isn sp = Some sp'" "proxy_ok sp"
  shows "\<exists>i. accepted S isn (flow_key ''tcp'' src sport dst dport) i 0 sp'"
proof -
  let ?k = "flow_key ''tcp'' src sport dst dport"
  let ?sp = "drop_stale ?k sp"
  let ?tc = "\<lparr>tc_written = [], tc_closed = False, tc_srcIP = src, tc_srcPort = sport, tc_dstIP = dst, tc_dstPort = dport,
               tc_peerSeq = isn + 1, tc_ourSeq = randomSeq rnd, tc_state = SYN_RECV, tc_lastSeen = 0\<rparr>"
  let ?i = "length (sp_tcp ?sp)"
  let ?sp1 = "?sp\<lparr>sp_tcp := sp_tcp ?sp @ [?tc], sp_tcpConns := mput ?k ?i (sp_tcpConns ?sp)\<rparr>"
  have "proxy_ok ?sp"
  proof (cases "mget (sp_tcpConns sp) ?k")
    case (Some i)
    have "proxy_ok (upd_tcp i (\<lambda>tc. tc\<lparr>tc_state := CLOSING, tc_closed := True\<rparr>) sp)" using assms(2) by (intro proxy_ok_upd) simp_all
    then show ?thesis using Some by (auto simp: drop_stale_def proxy_ok_def)
  qed (simp add: drop_stale_def assms(2))
  then have ok: "proxy_ok ?sp1" using proxy_ok_push [of ?sp ?tc] by (simp add: conn_key_def)
  obtain pkt where sp': "sp' = upd_tcp ?i (\<lambda>tc. tc\<lparr>tc_ourSeq := tc_ourSeq tc + 1\<rparr>) (send_packet pkt (?sp1\<lparr>sp_ipID := sp_ipID ?sp + 1\<rparr>))"
    using assms(1) sendTCPPacketOpts_ok [of dst src dport sport "randomSeq rnd" "isn + 1" "0x12" "[2, 4] @ bytes16 tunMSS" "[]" ?sp1]
    by (auto simp: tcp_syn_def Let_def)
  have "proxy_ok (send_packet pkt (?sp1\<lparr>sp_ipID := sp_ipID ?sp + 1\<rparr>))" using ok by (simp add: proxy_ok_def)
  then have "accepted S isn ?k ?i 0 (send_packet pkt (?sp1\<lparr>sp_ipID := sp_ipID ?sp + 1\<rparr>))" by (simp add: accepted_def nth_append)
  then show ?thesis unfolding sp' by (intro exI, rule accepted_upd) simp_all
qed

fun pieces :: "nat \<Rightarrow> nat list \<Rightarrow> (nat \<times> nat) option list" where
  "pieces off [] = []"
| "pieces off (n # ns) = Some (off, n) # pieces (off + n) ns"

lemma fold_receive_pieces: "fold receive (pieces w ns) w = w + sum_list ns"
  by (induction ns arbitrary: w) (simp_all add: add.assoc)

text \<open>Claim C10. The proxy passes on the stream of the peer in order: after the request for a connection, whatever segments of the stream arrive in whatever order, with
  repetitions, gaps and packets of other connections between them, the bytes written to the target are those that a receiver of the
  specification accepts, a prefix of the stream, and the number that is acknowledged is their end, also when it wraps around. If the segments arrive in
  order the whole stream is written. The stream is shorter than 4 GiB.\<close>

theorem tcp_stream_in_order:
  assumes "proxy_ok sp" "length S < 4294967296" "parse_tcp syn ihl = Some (sport, dport, isn, flags, p)" "isSYN flags" "\<not> isACK flags"
    and "list_all2 (carries S isn (flow_key ''tcp'' src sport dst dport)) ps segs"
  shows "\<exists>sp1 sp' i. handleTCP now True rnd ok syn ihl src dst sp = Some (sp1, True) \<and> tcp_run ps sp1 = Some sp' \<and>
    mget (sp_tcpConns sp') (flow_key ''tcp'' src sport dst dport) = Some i \<and> fold receive segs 0 \<le> length S \<and>
    tc_written (sp_tcp sp' ! i) = take (fold receive segs 0) S \<and> tc_peerSeq (sp_tcp sp' ! i) = isn + 1 + of_nat (fold receive segs 0) \<and>
    (\<forall>ns. segs = pieces 0 ns \<and> sum_list ns = length S \<longrightarrow> tc_written (sp_tcp sp' ! i) = S)"
proof -
  obtain sp1 b where h: "handleTCP now True rnd ok syn ihl src dst sp = Some (sp1, b)" using handleTCP_total [of now True rnd ok syn ihl src dst sp] by (elim exE)
  then have s: "tcp_syn True rnd src dst sport dport isn sp = Some sp1" "b" using assms(3-5) by (auto simp: handleTCP_def Let_def split: bind_splits)
  obtain i where "accepted S isn (flow_key ''tcp'' src sport dst dport) i 0 sp1" using syn_accepted [OF s(1) assms(1)] by blast
  from tcp_run_accepts [OF assms(6) this assms(2)] h s(2) show ?thesis
    by (fastforce simp: accepted_def fold_receive_pieces)
qed

definition plain_tcp :: "u32 \<Rightarrow> byte \<Rightarrow> bytes \<Rightarrow> bytes" where
  "plain_tcp seq flags payload = tcp_ip_header 0 0 1 2 0 @ tcp_bytes 1000 80 seq 0 flags [] payload 0"

lemma parse_plain_tcp [simp]: "parse_tcp (plain_tcp seq flags payload) 20 = Some (1000, 80, seq, flags, payload)"
  unfolding plain_tcp_def by (rule parse_built [OF refl]) simp

theorem tcp_stream_in_order_witness:
  "\<exists>sp1 sp' i. handleTCP 0 True None True (plain_tcp 0xFFFFFFFE 0x02 []) 20 1 2 (newSubnetProxy 0) = Some (sp1, True) \<and>
    tcp_run [(1, True, None, True, plain_tcp 1 0x10 [7], 20, 1, 2), (2, True, None, True, plain_tcp 0xFFFFFFFF 0x10 [5, 6], 20, 1, 2),
             (3, True, None, True, plain_tcp 0xFFFFFFFF 0x10 [5, 6], 20, 1, 2), (4, True, None, True, plain_tcp 1 0x10 [7], 20, 1, 2)] sp1 = Some sp' \<and>
    mget (sp_tcpConns sp') (flow_key ''tcp'' 1 1000 2 80) = Some i \<and> tc_written (sp_tcp sp' ! i) = [5, 6, 7] \<and> tc_peerSeq (sp_tcp sp' ! i) = 2"
proof -
  let ?ps = "[(1, True, None, True, plain_tcp 1 0x10 [7], 20, 1, 2), (2, True, None, True, plain_tcp 0xFFFFFFFF 0x10 [5, 6], 20, 1, 2),
             (3, True, None, True, plain_tcp 0xFFFFFFFF 0x10 [5, 6], 20, 1, 2), (4, True, None, True, plain_tcp 1 0x10 [7], 20, 1, 2)] :: tcp_in list"
  let ?segs = "[Some (2, 1), Some (0, 2), Some (0, 2), Some (2, 1)]"
  have "carries [5, 6, 7] 0xFFFFFFFE (flow_key ''tcp'' 1 1000 2 80) (t, True, None, True, plain_tcp 1 0x10 [7], 20, 1, 2) (Some (2, 1))"
    "carries [5, 6, 7] 0xFFFFFFFE (flow_key ''tcp'' 1 1000 2 80) (t, True, None, True, plain_tcp 0xFFFFFFFF 0x10 [5, 6], 20, 1, 2) (Some (0, 2))" for t
    by (simp_all add: carries_def isACK_def isFIN_def isRST_def)
  then have "list_all2 (carries [5, 6, 7] 0xFFFFFFFE (flow_key ''tcp'' 1 1000 2 80)) ?ps ?segs" by simp
  moreover have "fold receive ?segs 0 = 3" "(0xFFFFFFFE :: u32) + 1 + of_nat 3 = 2" by simp_all
  moreover have "proxy_ok (newSubnetProxy 0)" by (simp add: proxy_ok_def newSubnetProxy_def)
  moreover have "isSYN 2" "\<not> isACK 2" by (simp_all add: isSYN_def isACK_def)
  ultimately show ?thesis
    using tcp_stream_in_order [of "newSubnetProxy 0" "[5, 6, 7]" "plain_tcp 0xFFFFFFFE 0x02 []" 20 1000 80 "0xFFFFFFFE" "0x02" "[]" 1 2 ?ps ?segs 0 None True]
    by (fastforce simp del: tcp_run.simps)
qed

section \<open>The stream of the target\<close>

fun cut :: "nat \<Rightarrow> bytes \<Rightarrow> (nat \<times> bytes) list" where
  "cut off [] = []"
| "cut off (x # xs) = (off, take 1360 (x # xs)) # cut (off + 1360) (drop 1360 (x # xs))"

lemma concat_cut: "concat (map snd (cut off data)) = data"
  by (induction off data rule: cut.induct) (simp_all del: take_Suc_Cons drop_Suc_Cons)

lemma cut_small: "list_all (\<lambda>(off, d). 0 < length d \<and> length d \<le> 1360) (cut off data)"
  by (induction off data rule: cut.induct) (simp_all del: take_Suc_Cons drop_Suc_Cons)

text \<open>The packets of one read of the target.\<close>

definition segments_of :: "tcpProxyConn \<Rightarrow> (nat \<times> bytes) list \<Rightarrow> bytes list \<Rightarrow> bool" where
  "segments_of tc ds pkts \<longleftrightarrow> list_all2 (\<lambda>(off, d) pkt. \<exists>fl. fl \<in> {0x10, 0x18} \<and> srcIP pkt = tc_dstIP tc \<and> dstIP pkt = tc_srcIP tc \<and>
     parse_tcp pkt 20 = Some (tc_dstPort tc, tc_srcPort tc, tc_ourSeq tc + of_nat off, fl, d)) ds pkts"

lemma cut_step: "d \<noteq> [] \<Longrightarrow> cut off d = (off, take 1360 d) # cut (off + 1360) (drop 1360 d)"
  by (cases d) simp_all

lemma ourSeq_same: "tc_ourSeq tc = q \<Longrightarrow> tc\<lparr>tc_ourSeq := q\<rparr> = (tc :: tcpProxyConn)"
  by (cases tc) simp

lemma tcp_chunk_sent:
  assumes "i < length (sp_tcp sp)" "tc = sp_tcp sp ! i" "tc_state tc = ESTABLISHED" "off < length data"
  shows "\<exists>sp1 pkt fl. tcp_chunk i data off sp = Some (sp1, True) \<and> sp_sent sp1 = sp_sent sp @ [pkt] \<and> sp_tcpConns sp1 = sp_tcpConns sp \<and>
    sp_tcp sp1 = (sp_tcp sp)[i := tc\<lparr>tc_ourSeq := tc_ourSeq tc + of_nat (min 1360 (length data - off))\<rparr>] \<and> fl \<in> {0x10, 0x18} \<and>
    tcp_built (tc_dstIP tc) (tc_srcIP tc) (tc_dstPort tc) (tc_srcPort tc) (tc_ourSeq tc) (tc_peerSeq tc) fl [] (take 1360 (drop off data)) pkt"
proof -
  let ?stop = "if off + 1360 > length data then length data else off + 1360"
  let ?fl = "if ?stop = length data then 0x18 else 0x10 :: byte"
  let ?sp = "upd_tcp i (\<lambda>tc. tc\<lparr>tc_ourSeq := tc_ourSeq tc + of_nat (?stop - off)\<rparr>) sp"
  have n: "?stop - off = min 1360 (length data - off)" using assms(4) by auto
  have d: "take (?stop - off) (drop off data) = take 1360 (drop off data)" unfolding n by (simp add: min_def)
  obtain pkt where a: "tcp_answer tc (tc_ourSeq tc) (tc_peerSeq tc) ?fl (take 1360 (drop off data)) ?sp = Some (send_packet pkt (?sp\<lparr>sp_ipID := sp_ipID ?sp + 1\<rparr>))"
    "tcp_built (tc_dstIP tc) (tc_srcIP tc) (tc_dstPort tc) (tc_srcPort tc) (tc_ourSeq tc) (tc_peerSeq tc) ?fl [] (take 1360 (drop off data)) pkt"
    using tcp_answer_ok [of tc "tc_ourSeq tc" "tc_peerSeq tc" ?fl "take 1360 (drop off data)" ?sp] by (elim exE conjE)
  have "tcp_chunk i data off sp = Some (send_packet pkt (?sp\<lparr>sp_ipID := sp_ipID ?sp + 1\<rparr>), True)"
    unfolding tcp_chunk_def Let_def assms(2) [symmetric] d using a(1) assms(3) by simp
  then show ?thesis using a(2) assms(2) n by (intro exI [of _ "send_packet pkt (?sp\<lparr>sp_ipID := sp_ipID ?sp + 1\<rparr>)"] exI [of _ pkt] exI [of _ ?fl]) simp
qed

lemma tcp_chunks_sent:
  assumes "i < length (sp_tcp sp)" "tc = sp_tcp sp ! i" "tc_state tc = ESTABLISHED" "tc_ourSeq tc = base + of_nat (min off (length data))"
  shows "\<exists>sp' pkts. tcp_chunks i data off sp = Some (sp', True) \<and> sp_sent sp' = sp_sent sp @ pkts \<and> sp_tcpConns sp' = sp_tcpConns sp \<and>
    segments_of (tc\<lparr>tc_ourSeq := base\<rparr>) (cut off (drop off data)) pkts \<and> sp_tcp sp' = (sp_tcp sp)[i := tc\<lparr>tc_ourSeq := base + of_nat (length data)\<rparr>]"
  using assms
proof (induction i data off sp arbitrary: tc rule: tcp_chunks.induct)
  case (1 i data off sp)
  show ?case
  proof (cases "off < length data")
    case False
    then have eq: "tc\<lparr>tc_ourSeq := base + of_nat (length data)\<rparr> = tc" using 1(5) by (intro ourSeq_same) (simp add: min_def split: if_splits)
    have "(sp_tcp sp)[i := tc\<lparr>tc_ourSeq := base + of_nat (length data)\<rparr>] = sp_tcp sp"
      unfolding eq using list_update_id [of "sp_tcp sp" i] unfolding 1(3) [symmetric] .
    then show ?thesis using False by (subst tcp_chunks.simps) (simp add: segments_of_def)
  next
    case True
    let ?n = "min 1360 (length data - off)"
    let ?tc = "tc\<lparr>tc_ourSeq := tc_ourSeq tc + of_nat ?n\<rparr>"
    obtain sp1 pkt fl where c: "tcp_chunk i data off sp = Some (sp1, True)" "sp_sent sp1 = sp_sent sp @ [pkt]" "sp_tcpConns sp1 = sp_tcpConns sp"
        "sp_tcp sp1 = (sp_tcp sp)[i := ?tc]" "fl \<in> {0x10, 0x18}"
        "tcp_built (tc_dstIP tc) (tc_srcIP tc) (tc_dstPort tc) (tc_srcPort tc) (tc_ourSeq tc) (tc_peerSeq tc) fl [] (take 1360 (drop off data)) pkt"
      using tcp_chunk_sent [OF 1(2-4) True] by (elim exE conjE)
    have "min (off + 1360) (length data) = off + ?n" using True by auto
    then have q: "tc_ourSeq ?tc = base + of_nat (min (off + 1360) (length data))" using 1(5) True by (simp add: add.assoc)
    have len: "i < length (sp_tcp sp1)" "?tc = sp_tcp sp1 ! i" "tc_state ?tc = ESTABLISHED" using 1(2,4) c(4) by simp_all
    obtain sp' pkts where r: "tcp_chunks i data (off + 1360) sp1 = Some (sp', True)" "sp_sent sp' = sp_sent sp1 @ pkts" "sp_tcpConns sp' = sp_tcpConns sp1"
        "segments_of (?tc\<lparr>tc_ourSeq := base\<rparr>) (cut (off + 1360) (drop (off + 1360) data)) pkts" "sp_tcp sp' = (sp_tcp sp1)[i := ?tc\<lparr>tc_ourSeq := base + of_nat (length data)\<rparr>]"
      using 1(1) [OF True c(1) refl TrueI len q] by (elim exE conjE)
    have "cut off (drop off data) = (off, take 1360 (drop off data)) # cut (off + 1360) (drop (off + 1360) data)"
      using True cut_step [of "drop off data" off] by (simp add: add.commute)
    moreover have "parse_tcp pkt 20 = Some (tc_dstPort tc, tc_srcPort tc, base + of_nat off, fl, take 1360 (drop off data))" "srcIP pkt = tc_dstIP tc" "dstIP pkt = tc_srcIP tc"
      using tcp_built_parse [OF c(6)] 1(5) True by simp_all
    ultimately have "segments_of (tc\<lparr>tc_ourSeq := base\<rparr>) (cut off (drop off data)) (pkt # pkts)" using r(4) c(5) by (auto simp: segments_of_def)
    then show ?thesis using True c(1-4) r by (subst tcp_chunks.simps) auto
  qed
qed

text \<open>Claim C11. What the proxy reads from the target reaches the peer as TCP segments of the connection: at most 1360 bytes each, none empty, with addresses and
  ports of the target, the sequence numbers consecutive from the current one (modulo \<open>2\<^sup>3\<^sup>2\<close>), and together exactly the data that was read. The
  sequence number of the connection advances by the length of the data.\<close>

theorem tcp_download_segments:
  assumes "i < length (sp_tcp sp)" "tc = sp_tcp sp ! i" "tc_state tc = ESTABLISHED" "\<not> sp_done sp"
  shows "\<exists>sp' segs pkts. tcp_read i data False sp = Some (sp', True) \<and> sp_sent sp' = sp_sent sp @ pkts \<and> segments_of tc segs pkts \<and>
    segs = cut 0 data \<and> concat (map snd segs) = data \<and> list_all (\<lambda>(off, d). 0 < length d \<and> length d \<le> 1360) segs \<and>
    sp_tcp sp' = (sp_tcp sp)[i := tc\<lparr>tc_ourSeq := tc_ourSeq tc + of_nat (length data)\<rparr>]"
proof -
  obtain sp' pkts where "tcp_chunks i data 0 sp = Some (sp', True)" "sp_sent sp' = sp_sent sp @ pkts" "segments_of (tc\<lparr>tc_ourSeq := tc_ourSeq tc\<rparr>) (cut 0 data) pkts"
      "sp_tcp sp' = (sp_tcp sp)[i := tc\<lparr>tc_ourSeq := tc_ourSeq tc + of_nat (length data)\<rparr>]"
    using tcp_chunks_sent [OF assms(1-3), of "tc_ourSeq tc" 0 data] by auto
  then show ?thesis using assms(4) concat_cut [of 0 data] cut_small [of 0 data] ourSeq_same [OF refl, of tc]
    by (intro exI [of _ sp'] exI [of _ "cut 0 data"] exI [of _ pkts]) (simp add: tcp_read_def)
qed

definition sample_conn :: "tcpState \<Rightarrow> tcpProxyConn" where
  "sample_conn st = \<lparr>tc_written = [], tc_closed = False, tc_srcIP = 1, tc_srcPort = 1000, tc_dstIP = 2, tc_dstPort = 80, tc_peerSeq = 5, tc_ourSeq = 0xFFFFFFFF,
     tc_state = st, tc_lastSeen = 0\<rparr>"

definition sample_proxy :: "tcpState \<Rightarrow> subnetProxy" where
  "sample_proxy st = (newSubnetProxy 0)\<lparr>sp_tcp := [sample_conn st], sp_tcpConns := [(flow_key ''tcp'' 1 1000 2 80, 0)]\<rparr>"

theorem tcp_download_segments_witness:
  "\<exists>sp' segs pkts. tcp_read 0 [7, 8] False (sample_proxy ESTABLISHED) = Some (sp', True) \<and> sp_sent sp' = pkts \<and>
    segments_of (sample_conn ESTABLISHED) segs pkts \<and> segs = [(0, [7, 8])] \<and> tc_ourSeq (sp_tcp sp' ! 0) = 1"
  using tcp_download_segments [of 0 "sample_proxy ESTABLISHED" "sample_conn ESTABLISHED" "[7, 8]"]
  by (auto simp: sample_proxy_def sample_conn_def newSubnetProxy_def)

section \<open>Flaws\<close>

text \<open>A target that speaks first, before the peer has acknowledged the connection, loses it: the goroutine that reads from it returns because the connection
  is not established yet, sends the end of the stream instead of the data, and closes the connection.\<close>

theorem early_data_closes_connection:
  assumes "i < length (sp_tcp sp)" "tc = sp_tcp sp ! i" "tc_state tc = SYN_RECV" "\<not> sp_done sp" "data \<noteq> []"
  shows "\<exists>sp' pkt. tcp_read i data err sp = Some (sp', False) \<and> sp_sent sp' = sp_sent sp @ [pkt] \<and>
    parse_tcp pkt 20 = Some (tc_dstPort tc, tc_srcPort tc, tc_ourSeq tc, 0x11, []) \<and> tc_state (sp_tcp sp' ! i) = CLOSING \<and> tc_closed (sp_tcp sp' ! i)"
proof -
  obtain pkt where a: "tcp_answer tc (tc_ourSeq tc) (tc_peerSeq tc) 0x11 [] sp = Some (send_packet pkt (sp\<lparr>sp_ipID := sp_ipID sp + 1\<rparr>))"
    "tcp_built (tc_dstIP tc) (tc_srcIP tc) (tc_dstPort tc) (tc_srcPort tc) (tc_ourSeq tc) (tc_peerSeq tc) 0x11 [] [] pkt"
    using tcp_answer_ok [of tc "tc_ourSeq tc" "tc_peerSeq tc" "0x11" "[]" sp] by (elim exE conjE)
  have "tcp_chunks i data 0 sp = Some (sp, False)" using assms by (subst tcp_chunks.simps) (simp add: tcp_chunk_def)
  then show ?thesis using assms a(1) tcp_built_parse(1) [OF a(2)] by (simp add: tcp_read_def tcp_read_end_def Let_def)
qed

text \<open>The timer of a closed connection removes the entry of its addresses thirty seconds later, also if a new connection has taken it: packets of the new connection are then
  refused.\<close>

theorem stale_timer_drops_connection:
  assumes "parse_tcp pkt ihl = Some (sport, dport, seq, flags, payload)" "\<not> isSYN flags"
  shows "handleTCP now dialOk rnd ok pkt ihl src dst (tcp_forget (flow_key ''tcp'' src sport dst dport) sp) = Some (tcp_forget (flow_key ''tcp'' src sport dst dport) sp, False)"
  using assms by (simp add: handleTCP_def tcp_forget_def Let_def)

text \<open>A datagram for which no socket can be opened leaves a nil pointer in the map, and closing the proxy dereferences it.\<close>

theorem close_after_failed_socket_panics:
  assumes "\<not> sp_done sp" "8 \<le> unat (port_at (ihl + 4) pkt)" "ihl + unat (port_at (ihl + 4) pkt) \<le> length pkt"
    "mget (sp_udpConns sp) (flow_key ''udp'' src (port_at ihl pkt) dst (port_at (ihl + 2) pkt)) = None"
  shows "proxy_Close (fst (handleUDP now False pkt ihl src dst sp)) = None"
proof -
  let ?k = "flow_key ''udp'' src (port_at ihl pkt) dst (port_at (ihl + 2) pkt)"
  have "mget (mput ?k None (sp_udpConns sp)) ?k = Some None" by simp
  then have "None \<in> snd ` set (mput ?k None (sp_udpConns sp))" by (metis map_of_SomeD snd_conv image_eqI)
  then show ?thesis using assms by (simp add: handleUDP_def Let_def proxy_Close_def)
qed

section \<open>The proxy as a transition system\<close>

text \<open>The steps of the proxy: a packet of the peer, a read from a target, the timer of a connection, a datagram of the peer, a read from a UDP
  socket, and closing.\<close>

inductive proxy_step :: "subnetProxy \<Rightarrow> subnetProxy \<Rightarrow> bool" where
  step_tcp: "handleTCP now dialOk rnd writeOk pkt ihl src dst sp = Some (sp', b) \<Longrightarrow> proxy_step sp sp'"
| step_tcp_read: "tcp_read i data err sp = Some (sp', b) \<Longrightarrow> proxy_step sp sp'"
| step_tcp_timer: "proxy_step sp (tcp_forget key sp)"
| step_udp: "proxy_step sp (fst (handleUDP now listenOk pkt ihl src dst sp))"
| step_udp_read: "proxy_step sp (fst (udp_read now i key got sp))"
| step_close: "proxy_Close sp = Some sp' \<Longrightarrow> proxy_step sp sp'"

lemma proxy_ok_view: "proxy_ok sp \<Longrightarrow> sp_tcp sp' = sp_tcp sp \<Longrightarrow> sp_tcpConns sp' = sp_tcpConns sp \<Longrightarrow> proxy_ok sp'"
  by (simp add: proxy_ok_def)

lemma proxy_ok_del: "proxy_ok sp \<Longrightarrow> proxy_ok (sp\<lparr>sp_tcpConns := mdel k (sp_tcpConns sp)\<rparr>)"
  by (simp add: proxy_ok_def)

lemma proxy_ok_upd_del: "(\<And>tc. conn_key (f tc) = conn_key tc) \<Longrightarrow> proxy_ok sp \<Longrightarrow> proxy_ok ((upd_tcp i f sp)\<lparr>sp_tcpConns := mdel k (sp_tcpConns sp)\<rparr>)"
  using proxy_ok_upd [of f sp i] by (auto simp: proxy_ok_def)

lemma proxy_ok_answer: "tcp_answer tc seq ack flags payload sp = Some sp' \<Longrightarrow> proxy_ok sp \<Longrightarrow> proxy_ok sp'"
  by (erule proxy_ok_view) (simp_all add: tcp_answer_frame)

lemma proxy_ok_syn:
  assumes "tcp_syn dialOk rnd src dst sport dport seq sp = Some sp'" "proxy_ok sp"
  shows "proxy_ok sp'"
proof (cases dialOk)
  case True
  then show ?thesis using syn_accepted [of rnd src dst sport dport seq sp sp' "[]"] assms by (auto simp: accepted_def)
next
  case False
  let ?k = "flow_key ''tcp'' src sport dst dport"
  have "proxy_ok (drop_stale ?k sp)" using assms(2) by (auto simp: drop_stale_def intro!: proxy_ok_upd_del split: option.split)
  then show ?thesis using False assms(1) sendTCPPacketOpts_ok [of dst src dport sport 0 "seq + 1" "0x14" "[]" "[]" "drop_stale ?k sp"]
    by (auto simp: tcp_syn_def sendTCPPacket_def Let_def intro: proxy_ok_view)
qed

lemma proxy_ok_packet:
  assumes "tcp_packet_in now writeOk k i seq flags payload sp = Some sp'" "proxy_ok sp"
  shows "proxy_ok sp'"
proof -
  have fin: "proxy_ok b" if "tcp_fin i a = Some b" "proxy_ok a" for a b
    using that by (auto simp: tcp_fin_def Let_def split: bind_splits intro!: proxy_ok_upd elim!: proxy_ok_answer)
  have data: "proxy_ok b" if "tcp_data writeOk k i seq payload a = Some b" "proxy_ok a" for a b
    using that by (auto simp: tcp_data_def Let_def split: bind_splits if_splits intro!: proxy_ok_upd proxy_ok_upd_del elim!: proxy_ok_answer)
  have "proxy_ok (upd_tcp i (\<lambda>tc. tc\<lparr>tc_lastSeen := now\<rparr>) sp)" (is "proxy_ok ?sp") using assms(2) by (rule proxy_ok_upd [rotated]) simp
  moreover from this have "proxy_ok (tcp_ack flags i ?sp)" by (auto simp: tcp_ack_def simp del: upd_tcp_fields intro!: proxy_ok_upd)
  moreover have "proxy_ok ((upd_tcp i (\<lambda>tc. tc\<lparr>tc_state := CLOSING, tc_closed := True\<rparr>) ?sp)\<lparr>sp_tcpConns := mdel k (sp_tcpConns ?sp)\<rparr>)"
    using calculation(1) by (intro proxy_ok_upd_del) simp_all
  ultimately show ?thesis using assms(1) fin data by (auto simp: tcp_packet_in_def Let_def simp del: upd_tcp_fields split: if_splits)
qed

lemma proxy_ok_chunks: "tcp_chunks i data off sp = Some (sp', b) \<Longrightarrow> proxy_ok sp \<Longrightarrow> proxy_ok sp'"
proof (induction i data off sp rule: tcp_chunks.induct)
  case (1 i data off sp)
  have chunk: "proxy_ok x" if "tcp_chunk i data off sp = Some (x, c)" for x c
    using that 1(3) by (auto simp: tcp_chunk_def Let_def split: bind_splits if_splits intro!: proxy_ok_upd elim!: proxy_ok_answer)
  show ?case using 1(2,3) 1(1) [OF _ _ refl] chunk
    by (subst (asm) tcp_chunks.simps) (auto split: bind_splits if_splits)
qed

lemma proxy_ok_read_end: "tcp_read_end i sp = Some sp' \<Longrightarrow> proxy_ok sp \<Longrightarrow> proxy_ok sp'"
  by (auto simp: tcp_read_end_def Let_def split: bind_splits if_splits intro!: proxy_ok_upd elim!: proxy_ok_answer)

lemma proxy_step_ok: "proxy_step sp sp' \<Longrightarrow> proxy_ok sp \<Longrightarrow> proxy_ok sp'"
proof (induction rule: proxy_step.induct)
  case (step_tcp now dialOk rnd writeOk pkt ihl src dst sp sp' b)
  then show ?case by (auto simp: handleTCP_def Let_def split: option.splits bind_splits if_splits intro: proxy_ok_syn proxy_ok_packet)
next
  case (step_tcp_read i data err sp sp' b)
  then show ?case by (auto simp: tcp_read_def split: bind_splits if_splits dest: proxy_ok_chunks dest!: proxy_ok_read_end)
next
  case (step_tcp_timer sp key)
  then show ?case unfolding tcp_forget_def by (rule proxy_ok_del)
next
  case (step_udp sp now listenOk pkt ihl src dst)
  then show ?case by (auto simp: handleUDP_def Let_def upd_udp_def split: option.split elim!: proxy_ok_view)
next
  case (step_udp_read sp now i key got)
  then show ?case by (auto simp: udp_read_def udp_read_end_def udp_reply_def upd_udp_def Let_def split: option.split elim!: proxy_ok_view)
next
  case (step_close sp sp')
  then show ?case by (auto simp: proxy_Close_def proxy_ok_def split: if_splits)
qed

interpretation subnet_proxy: transition_system "\<lambda>sp. \<exists>ipID. sp = newSubnetProxy ipID" proxy_step proxy_ok
proof unfold_locales
  show "\<exists>ipID. s = newSubnetProxy ipID \<Longrightarrow> proxy_ok s" for s by (auto simp: newSubnetProxy_def proxy_ok_def)
  show "proxy_ok s \<Longrightarrow> proxy_step s t \<Longrightarrow> proxy_ok t" for s t by (rule proxy_step_ok)
qed

text \<open>In every state that the proxy can reach no two connections of the map are the same object, and every entry belongs to the addresses of its
  connection.\<close>

theorem proxy_connections_separate:
  assumes "proxy_step\<^sup>*\<^sup>* (newSubnetProxy ipID) sp" "mget (sp_tcpConns sp) k = Some i"
  shows "i < length (sp_tcp sp)" "k = conn_key (sp_tcp sp ! i)" "mget (sp_tcpConns sp) k' = Some i \<Longrightarrow> k' = k"
  using subnet_proxy.inv_reachable [OF _ assms(1)] assms(2) by (auto dest: proxy_okD)

end
