(* ===== verification/Command_Line.thy ===== *)
theory Command_Line
  imports Dispatch Settings Discovery File_Props
begin

text \<open>
  The command-line client, \<^verbatim>\<open>src/client/main_cli.go\<close>: parsing of command lines and the operations of the client that they call, the tables that it
  prints, and the reaction to events of the client (\<^verbatim>\<open>src/client/core/events.go\<close>).

  \<^item> What is printed is a list of lines with their colour; tables are the list of their rows, before padding. A number that the code formats from a
    floating-point value which is not exact (the progress of a transfer) is given as text.
  \<^item> \<^verbatim>\<open>path/filepath\<close> is modelled for Unix.
  \<^item> \<open>None\<close> is a panic.
\<close>

section \<open>Text\<close>

text \<open>\<^verbatim>\<open>strings.Fields\<close>.\<close>

fun fields_from :: "string \<Rightarrow> string \<Rightarrow> string list" where
  "fields_from w [] = (if w = [] then [] else [w])"
| "fields_from w (c # cs) = (if is_space c then (if w = [] then fields_from [] cs else w # fields_from [] cs) else fields_from (w @ [c]) cs)"

definition str_fields :: "string \<Rightarrow> string list" where
  "str_fields s = fields_from [] s"

text \<open>\<^verbatim>\<open>filepath.Clean\<close> and \<^verbatim>\<open>filepath.Join\<close>: components that are empty or a dot go, two dots take back the component before them; above the root
  there is nothing to take back, and a relative path keeps them.\<close>

fun clean_parts :: "bool \<Rightarrow> string list \<Rightarrow> string list \<Rightarrow> string list" where
  "clean_parts rooted acc [] = rev acc"
| "clean_parts rooted acc (p # ps) =
     (if p = [] \<or> p = ''.'' then clean_parts rooted acc ps
      else if p = ''..'' then
        (case acc of
           [] \<Rightarrow> if rooted then clean_parts rooted [] ps else clean_parts rooted [''..''] ps
         | a # as \<Rightarrow> if a = ''..'' then clean_parts rooted (''..'' # acc) ps else clean_parts rooted as ps)
      else clean_parts rooted (p # acc) ps)"

definition path_clean :: "string \<Rightarrow> string" where
  "path_clean path =
     (let rooted = (path \<noteq> [] \<and> hd path = CHR ''/''); ps = clean_parts rooted [] (split_on (CHR ''/'') path) in
      if rooted then ''/'' @ join_with ''/'' ps else if ps = [] then ''.'' else join_with ''/'' ps)"

definition path_join :: "string list \<Rightarrow> string" where
  "path_join elems = (let es = dropWhile (\<lambda>e. e = []) elems in if es = [] then [] else path_clean (join_with ''/'' es))"

text \<open>\<^verbatim>\<open>%.1f\<close> and \<^verbatim>\<open>%.2f\<close> of a number of bytes divided by a power of two, which is exact in floating point.\<close>

definition round_even :: "int \<Rightarrow> int \<Rightarrow> int" where
  "round_even n d = (let q = n div d; r = n mod d in if 2 * r < d then q else if 2 * r > d then q + 1 else if even q then q else q + 1)"

definition fixed_point :: "nat \<Rightarrow> int \<Rightarrow> int \<Rightarrow> string" where
  "fixed_point k n d =
     (let v = nat (round_even (n * 10 ^ k) d); f = show_nat (v mod 10 ^ k) in show_nat (v div 10 ^ k) @ ''.'' @ replicate (k - length f) (CHR ''0'') @ f)"

definition show_int :: "int \<Rightarrow> string" where
  "show_int n = (if n < 0 then ''-'' @ show_nat (nat (- n)) else show_nat (nat n))"

definition fmtBytes :: "int \<Rightarrow> string" where
  "fmtBytes b = (if b < 1024 then show_int b @ ''B'' else if b < 1024 * 1024 then fixed_point 1 b 1024 @ ''K''
     else if b < 1024 * 1024 * 1024 then fixed_point 1 b (1024 * 1024) @ ''M'' else fixed_point 2 b (1024 * 1024 * 1024) @ ''G'')"

definition fmtFileBytes :: "int \<Rightarrow> string" where
  "fmtFileBytes b = (if b < 1024 then show_int b @ ''B'' else if b < 1024 * 1024 then fixed_point 1 b 1024 @ ''KB''
     else if b < 1024 * 1024 * 1024 then fixed_point 1 b (1024 * 1024) @ ''MB'' else fixed_point 2 b (1024 * 1024 * 1024) @ ''GB'')"

definition cli_shortID :: "string \<Rightarrow> string" where
  "cli_shortID i = (if length i > 8 then take 8 i else i)"

text \<open>\<^verbatim>\<open>s[:8]\<close>, without a check of the length.\<close>

definition first8 :: "string \<Rightarrow> string option" where
  "first8 s = (if length s < 8 then None else Some (take 8 s))"

section \<open>Events\<close>

datatype eventType =
    EventConnected | EventDisconnected | EventReconnecting | EventReconnected | EventJoinedRoom | EventPeerListUpdated | EventPeerJoined | EventPeerLeft
  | EventForwardStarted | EventForwardStopped | EventTunnelOpened | EventTunnelClosed | EventTunnelRejected | EventStunDiscovered | EventHolePunchSuccess
  | EventSpeedTestProgress | EventSpeedTestResult | EventLog | EventError | EventReverseForwardOffer | EventReverseForwardStarted | EventReverseForwardStopped
  | EventFileOffer | EventFileProgress | EventFileComplete | EventFileError | EventTunStarted | EventTunStopped | EventTunError | EventAutoHopEstablished
  | EventAutoHopFailed

text \<open>The data of an event; the progress of a transfer comes with its percentage as text and its rate.\<close>

datatype eventData =
    LogEvent string string
  | PeerEvent string string string
  | ForwardEvent int string int string string
  | FileOfferEvent string string string string int
  | FileProgressEvent string string int
  | FileCompleteEvent string string string
  | FileErrorEvent string string
  | OtherData

datatype colour = Red | Green | Yellow | Cyan | Gray

type_synonym line = "colour \<times> string"

text \<open>Events whose message is printed as it is, with their colour and what is put before it.\<close>

definition log_event :: "eventType \<Rightarrow> string \<Rightarrow> (colour \<times> string) option" where
  "log_event t level =
     (if t \<in> {EventDisconnected, EventTunStopped, EventAutoHopFailed} then Some (Yellow, [])
      else if t = EventReconnecting then Some (Cyan, [])
      else if t \<in> {EventReconnected, EventTunStarted, EventAutoHopEstablished} then Some (Green, [])
      else if t = EventTunnelRejected then Some (Red, [])
      else if t = EventTunError then Some (Red, ''VPN error: '')
      else if t = EventError then Some (Red, ''ERROR: '')
      else if t = EventLog then Some (if level = ''error'' then Red else if level = ''warn'' then Yellow else Cyan, [])
      else None)"

text \<open>Where an offered file is saved: \<open>home\<close> is the home directory of the user.\<close>

definition save_path :: "string \<Rightarrow> string \<Rightarrow> string" where
  "save_path home fileName = path_join [path_join [home, ''Downloads'', ''StunMax''], fileName]"

text \<open>\<^verbatim>\<open>consumeEvents\<close> for one event; \<open>ok\<close> tells whether the directory and the file can be created.\<close>

definition consumeEvent :: "prims \<Rightarrow> string \<Rightarrow> bool \<Rightarrow> eventType \<Rightarrow> eventData \<Rightarrow> cli \<Rightarrow> (cli \<times> line list) option" where
  "consumeEvent P home ok t d c = (case d of
       LogEvent level msg \<Rightarrow> (case log_event t level of None \<Rightarrow> Some (c, []) | Some (col, pre) \<Rightarrow> Some (c, [(col, pre @ msg)]))
     | PeerEvent i name status \<Rightarrow>
        if t = EventPeerJoined then Some (c, [(Green, ''Peer joined: '' @ name @ '' ('' @ cli_shortID i @ '')'')])
        else if t = EventPeerLeft then Some (c, [(Yellow, ''Peer left: '' @ name)])
        else if t = EventHolePunchSuccess then Some (c, [(Green, ''P2P direct with '' @ cli_shortID i)])
        else Some (c, [])
     | ForwardEvent lport rhost rport name mode \<Rightarrow>
        if t = EventReverseForwardStarted then
          Some (c, [(Green, ''Reverse forward active: peer exposed :'' @ show_int lport @ '' -> '' @ rhost @ '':'' @ show_int rport @ '' via '' @ name)])
        else if t = EventReverseForwardStopped then Some (c, [(Yellow, ''Reverse forward stopped: :'' @ show_int lport)])
        else Some (c, [])
     | FileOfferEvent tid peerID name fileName fileSize \<Rightarrow>
        if t = EventFileOffer then
          (let savePath = save_path home fileName; (c', accepted) = AcceptFile P tid savePath ok c in
           Some (c', [(Cyan, ''Incoming file from '' @ name @ '': '' @ fileName @ '' ('' @ fmtFileBytes fileSize @ '')''),
             if accepted then (Green, ''Auto-accepted, saving to '' @ savePath) else (Red, ''Auto-accept failed'')]))
        else Some (c, [])
     | FileProgressEvent tid pct speed \<Rightarrow>
        if t = EventFileProgress then do {
          i \<leftarrow> first8 tid;
          Some (c, [(Cyan, ''Transfer '' @ i @ '': '' @ pct @ ''% ('' @ fmtFileBytes speed @ ''/s)'')]) }
        else Some (c, [])
     | FileCompleteEvent tid fileName dir \<Rightarrow>
        if t = EventFileComplete then Some (c, [(Green, (if dir = ''send'' then ''File sent: '' else ''File received: '') @ fileName)])
        else Some (c, [])
     | FileErrorEvent tid e \<Rightarrow>
        if t = EventFileError then do {
          i \<leftarrow> first8 tid;
          Some (c, [(Red, ''File transfer error ['' @ i @ '']: '' @ e)]) }
        else Some (c, [])
     | OtherData \<Rightarrow> Some (c, []))"

section \<open>Commands\<close>

text \<open>What a command prints. A failure is the error that the client returned.\<close>

datatype reply =
    Usage string
  | InvalidHostPort string
  | InvalidPort string
  | InvalidSecondPort string
  | Unknown string
  | Failed
  | Table "string list list"
  | Started string

text \<open>What a command gets from the machine: randomness, whether a port can be listened on, fresh identifiers, the base of virtual addresses.\<close>

record cmdEnv =
  e_rnd :: bytes
  e_listenOk :: bool
  e_uid :: nat
  e_base :: string

definition atoi_port :: "string \<Rightarrow> int option" where
  "atoi_port s = (case go_atoi s of None \<Rightarrow> None | Some n \<Rightarrow> if n \<le> 0 \<or> n > 65535 then None else Some n)"

text \<open>The arguments of \<^verbatim>\<open>cmdForward\<close>, \<^verbatim>\<open>cmdExpose\<close> and \<^verbatim>\<open>cmdHop\<close> after the peers: an address and an optional second port.\<close>

definition host_ports :: "string \<Rightarrow> string list \<Rightarrow> reply + (string \<times> int \<times> int)" where
  "host_ports hostPort rest = (case split_host_port hostPort of None \<Rightarrow> Inl (InvalidHostPort hostPort)
     | Some (host, portStr) \<Rightarrow> (case atoi_port portStr of None \<Rightarrow> Inl (InvalidPort portStr)
       | Some p \<Rightarrow> (case rest of [] \<Rightarrow> Inr (host, p, p)
         | s # _ \<Rightarrow> (case atoi_port s of None \<Rightarrow> Inl (InvalidSecondPort s) | Some q \<Rightarrow> Inr (host, p, q)))))"

definition failed_unless :: "bool \<Rightarrow> reply list" where
  "failed_unless ok = (if ok then [] else [Failed])"

definition cmdForward :: "prims \<Rightarrow> cmdEnv \<Rightarrow> string list \<Rightarrow> cli \<Rightarrow> cli \<times> reply list" where
  "cmdForward P e args c = (case args of
       peer # hostPort # rest \<Rightarrow> (case host_ports hostPort rest of
           Inl r \<Rightarrow> (c, [r])
         | Inr (host, remotePort, localPort) \<Rightarrow> (case StartForward P peer host remotePort localPort (e_listenOk e) (e_uid e) (e_rnd e) c of
             (c', ok) \<Rightarrow> (c', failed_unless ok)))
     | _ \<Rightarrow> (c, [Usage ''forward <peer> <host:port> [local_port]'']))"

definition cmdExpose :: "prims \<Rightarrow> cmdEnv \<Rightarrow> string list \<Rightarrow> cli \<Rightarrow> cli \<times> reply list" where
  "cmdExpose P e args c = (case args of
       peer # hostPort # rest \<Rightarrow> (case host_ports hostPort rest of
           Inl r \<Rightarrow> (c, [r])
         | Inr (host, srcPort, remotePort) \<Rightarrow> (case ExposePort P peer host srcPort remotePort (e_rnd e) c of (c', ok) \<Rightarrow> (c', failed_unless ok)))
     | _ \<Rightarrow> (c, [Usage ''expose <peer> <host:port> [remote_port]'']))"

definition cmdHop :: "prims \<Rightarrow> cmdEnv \<Rightarrow> string list \<Rightarrow> cli \<Rightarrow> cli \<times> reply list" where
  "cmdHop P e args c = (case args of
       viaPeer # targetPeer # hostPort # rest \<Rightarrow> (case host_ports hostPort rest of
           Inl r \<Rightarrow> (c, [r])
         | Inr (host, remotePort, localPort) \<Rightarrow> (case StartHopForward P viaPeer targetPeer host remotePort localPort (e_rnd e) c of (c', ok) \<Rightarrow> (c', failed_unless ok)))
     | _ \<Rightarrow> (c, [Usage ''hop <via_peer> <target_peer> <host:port> [local_port]'']))"

definition cmdUnforward :: "string list \<Rightarrow> cli \<Rightarrow> (cli \<times> reply list) option" where
  "cmdUnforward args c = (case args of
       [] \<Rightarrow> Some (c, [Usage ''unforward <local_port>''])
     | a # _ \<Rightarrow> (case go_atoi a of None \<Rightarrow> Some (c, [InvalidPort a])
       | Some port \<Rightarrow> do { (c', ok) \<leftarrow> StopForward port c; Some (c', failed_unless ok) }))"

definition cmdSpeedTest :: "prims \<Rightarrow> cmdEnv \<Rightarrow> string list \<Rightarrow> cli \<Rightarrow> (cli \<times> reply list) option" where
  "cmdSpeedTest P e args c = (case args of
       [] \<Rightarrow> Some (c, [Usage ''speedtest <peer> [size_mb]''])
     | peer # rest \<Rightarrow>
        (let sizeMB = (case rest of [] \<Rightarrow> 10 | a # _ \<Rightarrow> (case go_atoi a of Some n \<Rightarrow> if n > 0 then n else 10 | None \<Rightarrow> 10));
             mode = (case rest of _ # m # _ \<Rightarrow> if m = ''p2p'' \<or> m = ''relay'' then m else ''auto'' | _ \<Rightarrow> ''auto'') in
         case StartSpeedTest P peer sizeMB mode (e_rnd e) (e_uid e) c of
           (c', None) \<Rightarrow> Some (c', [Failed])
         | (c', Some testID) \<Rightarrow> do { i \<leftarrow> first8 testID; Some (c', [Started i]) }))"

definition cmdSendFile :: "prims \<Rightarrow> cmdEnv \<Rightarrow> string list \<Rightarrow> cli \<Rightarrow> (cli \<times> reply list) option" where
  "cmdSendFile P e args c = (case args of
       peer # path # rest \<Rightarrow> (case SendFile P peer (join_with '' '' (path # rest)) (e_rnd e) c of
           (c', None) \<Rightarrow> Some (c', [Failed])
         | (c', Some tid) \<Rightarrow> do { i \<leftarrow> first8 tid; Some (c', [Started i]) })
     | _ \<Rightarrow> Some (c, [Usage ''send <peer> <filepath>'']))"

text \<open>The routes and the exit address of \<^verbatim>\<open>cmdVPN\<close>.\<close>

fun vpn_args :: "string list \<Rightarrow> string list \<Rightarrow> string \<Rightarrow> string list \<times> string" where
  "vpn_args [] routes exitIP = (routes, exitIP)"
| "vpn_args [a] routes exitIP = (routes @ [a], exitIP)"
| "vpn_args (a # b # rest) routes exitIP = (if a = ''--exit-ip'' then vpn_args rest routes b else vpn_args (b # rest) (routes @ [a]) exitIP)"

definition tun_row :: "tunInfo \<Rightarrow> string list" where
  "tun_row info = [ti_PeerName info, ti_VirtualIP info, ti_PeerIP info, ti_Subnet info, ti_ExitIP info, join_with '', '' (ti_Routes info),
     fmtBytes (ti_BytesUp info), fmtBytes (ti_BytesDown info)]"

text \<open>\<^verbatim>\<open>StartTun\<close> waits for the peer; what it waits for is the last component.\<close>

definition cmdVPN :: "prims \<Rightarrow> cmdEnv \<Rightarrow> string list \<Rightarrow> cli \<Rightarrow> cli \<times> reply list \<times> tun_start option" where
  "cmdVPN P e args c = (case args of
       [] \<Rightarrow> (c, [Usage ''vpn <peer> [subnet1 ...] [--exit-ip IP] | vpn stop [peer] | vpn status''], None)
     | a # rest \<Rightarrow>
        (let subcmd = to_lower a in
         if subcmd = ''stop'' then
           (case (case rest of p # _ \<Rightarrow> StopTunPeer P p c | [] \<Rightarrow> StopTun P c) of (c', err) \<Rightarrow> (c', failed_unless (err = None), None))
         else if subcmd = ''status'' then (case TunStatusAll c of (c', infos) \<Rightarrow> (c', [Table (map tun_row infos)], None))
         else
           (let (routes, exitIP) = vpn_args rest [] [] in
            case StartTun P (e_base e) subcmd routes exitIP c of
              (c', TunReturns err) \<Rightarrow> (c', failed_unless (err = None), None)
            | (c', w) \<Rightarrow> (c', [], Some w))))"

section \<open>Tables\<close>

definition cut_at :: "nat \<Rightarrow> string \<Rightarrow> string" where
  "cut_at n s = (if length s > n then take n s else s)"

definition dash :: "string \<Rightarrow> string" where
  "dash s = (if s = [] then ''-'' else s)"

text \<open>A line of \<^verbatim>\<open>printPeers\<close>: ID, name, type of the NAT, mode and status.\<close>

definition peer_row :: "cli \<Rightarrow> peerInfo \<Rightarrow> string list" where
  "peer_row c p =
     (let me = (pi_ID p = c_MyID c);
          natType = (if me then si_NATType (StunStatus c) else let t = PeerNATType c (pi_ID p) in if t \<noteq> [] then t else pi_NATType p);
          m = PeerMode c (pi_ID p);
          mode = (if me then ''-'' else if m = ''direct'' then ''P2P'' else if m = ''connecting'' then ''connecting''
                  else if getForwardMode c (pi_ID p) = ''HOP'' then ''HOP'' else ''RELAY'')
      in [cut_at 14 (pi_ID p), cut_at 12 (dash (pi_Name p)), dash natType, mode, if me then ''YOU'' else pi_Status p])"

definition forward_row :: "forwardInfo \<Rightarrow> string list" where
  "forward_row f =
     ['':'' @ show_int (fi_LocalPort f), fi_RemoteHost f @ '':'' @ show_int (fi_RemotePort f), fi_PeerName f, fi_Mode f, show_int (fi_ConnCount f),
      fmtBytes (fi_BytesUp f), fmtBytes (fi_BytesDown f),
      if fi_RateUp f > 0 \<or> fi_RateDown f > 0 then fmtBytes (fi_RateUp f) @ '' '' @ fmtBytes (fi_RateDown f) else []]"

definition stun_rows :: "stunInfo \<Rightarrow> string list list" where
  "stun_rows info = [if si_Enabled info then [''Public'', si_PublicAddr info] else [''STUN'', ''disabled'']] @
     map (\<lambda>(i, mode). [cli_shortID i, mode]) (si_PeerConns info)"

text \<open>A line of \<^verbatim>\<open>cmdTransfers\<close>, without progress and speed.\<close>

definition transfer_row :: "string \<times> string \<times> string \<times> string \<times> int \<times> int \<times> string \<times> string \<Rightarrow> string list" where
  "transfer_row = (\<lambda>(tid, peerID, name, fileName, fileSize, bytesDone, dir, status).
     [cut_at 8 tid, dir, if length fileName > 18 then take 18 fileName @ ''..'' else fileName, cut_at 12 name, status])"

text \<open>What the completion of peers offers.\<close>

definition peer_names :: "cli \<Rightarrow> string list" where
  "peer_names c = concat (map (\<lambda>p. if pi_ID p = c_MyID c then [] else if pi_Name p \<noteq> [] then [pi_Name p, pi_ID p] else [pi_ID p]) (c_peers c))"

definition test_peer_names :: "cli \<Rightarrow> string list" where
  "test_peer_names c = concat (map (\<lambda>p. if pi_ID p = c_MyID c then [] else if pi_Name p \<noteq> [] then [pi_Name p] else [pi_ID p]) (c_peers c))"

section \<open>The loop\<close>

definition helpText :: "string list" where
  "helpText = [''peers'', ''forward <peer> <host:port> [local]'', ''hop <via> <target> <host:port> [local]'', ''expose <peer> <host:port> [remote]'',
     ''unforward <local_port>'', ''forwards'', ''stun'', ''speedtest <peer>'', ''send <peer> <filepath>'', ''transfers'', ''vpn <peer> [subnets...] [--exit-ip IP]'',
     ''vpn stop'', ''vpn status'', ''help'', ''quit'']"

text \<open>The outcome of a round: the client, what is printed, the wait of a VPN that is being set up, and whether the loop goes on.\<close>

type_synonym round = "cli \<times> reply list \<times> tun_start option \<times> bool"

definition again :: "cli \<times> reply list \<Rightarrow> round" where
  "again = (\<lambda>(c, rs). (c, rs, None, True))"

definition run_command :: "prims \<Rightarrow> cmdEnv \<Rightarrow> string list \<Rightarrow> cli \<Rightarrow> round option" where
  "run_command P e parts c = (case parts of [] \<Rightarrow> None
     | w # args \<Rightarrow>
        (let cmd = to_lower w in
         if cmd = ''peers'' then Some (again (c, [Table (map (peer_row c) (c_peers c))]))
         else if cmd = ''forwards'' \<or> cmd = ''tunnels'' then (case Forwards c of (c', fs) \<Rightarrow> Some (again (c', [Table (map forward_row fs)])))
         else if cmd = ''forward'' then Some (again (cmdForward P e args c))
         else if cmd = ''expose'' then Some (again (cmdExpose P e args c))
         else if cmd = ''unforward'' then map_option again (cmdUnforward args c)
         else if cmd = ''stun'' then Some (again (c, [Table (stun_rows (StunStatus c))]))
         else if cmd = ''speedtest'' then map_option again (cmdSpeedTest P e args c)
         else if cmd = ''send'' then map_option again (cmdSendFile P e args c)
         else if cmd = ''transfers'' then Some (again (c, [Table (map transfer_row (file_infos c))]))
         else if cmd = ''hop'' then Some (again (cmdHop P e args c))
         else if cmd = ''vpn'' then (case cmdVPN P e args c of (c', rs, w) \<Rightarrow> Some (c', rs, w, True))
         else if cmd = ''help'' then Some (again (c, [Table (map (\<lambda>l. [l]) helpText)]))
         else if cmd = ''quit'' \<or> cmd = ''exit'' then do { c' \<leftarrow> Disconnect P c; Some (c', [], None, False) }
         else Some (again (c, [Unknown cmd]))))"

text \<open>One round of \<^verbatim>\<open>runCLI\<close>; \<open>None\<close> for the line is the end of the input or an interrupt.\<close>

definition runCLI_round :: "prims \<Rightarrow> cmdEnv \<Rightarrow> string option \<Rightarrow> cli \<Rightarrow> round option" where
  "runCLI_round P e input c =
     (if c_done c then Some (c, [], None, False)
      else case input of
        None \<Rightarrow> do { c' \<leftarrow> Disconnect P c; Some (c', [], None, False) }
      | Some raw \<Rightarrow>
         (let l = trim_space raw in if l = [] then Some (again (c, [])) else run_command P e (str_fields l) c))"

section \<open>Start\<close>

record cliFlags =
  fl_server :: string
  fl_room :: string
  fl_password :: string
  fl_name :: string
  fl_stun :: string
  fl_noStun :: bool

text \<open>The name and the STUN servers; \<open>hostname\<close> is that of the machine, empty if it has none.\<close>

definition flag_name :: "string \<Rightarrow> cliFlags \<Rightarrow> string" where
  "flag_name hostname fl = (if fl_name fl = [] then (if hostname = [] then ''client'' else hostname) else fl_name fl)"

definition flag_servers :: "cliFlags \<Rightarrow> string list" where
  "flag_servers fl = (if fl_stun fl \<noteq> [] then split_on (CHR '','') (fl_stun fl) else [])"

definition defaultServers :: "string list" where
  "defaultServers = [''8.141.118.226:3478'', ''stun.cloudflare.com:3478'', ''stun.miwifi.com:3478'']"

text \<open>\<^verbatim>\<open>main\<close> up to the loop: the exit with an error, or the client and the servers to ask for the public address. \<open>hash\<close> and \<open>host\<close> are what
  \<^verbatim>\<open>NewClient\<close> derives from password and server, \<open>frame\<close> is the first message of the server.\<close>

definition cli_main :: "string \<Rightarrow> string \<Rightarrow> string \<Rightarrow> json option \<Rightarrow> cliFlags \<Rightarrow> string + (cli \<times> string list)" where
  "cli_main hostname hash host frame fl =
     (if fl_room fl = [] then Inl ''usage''
      else
        (let (c1, ok) = Connect frame (NewClient (fl_room fl) (flag_name hostname fl) hash host) in
         if \<not> ok then Inl ''connection failed''
         else
           (let (c2, joined) = JoinRoom c1 in
            if \<not> joined then Inl ''join failed''
            else Inr (c2, if fl_noStun fl then [] else let servers = flag_servers fl in if servers = [] then defaultServers else servers))))"

section \<open>Commands as they are typed\<close>

definition word :: "string \<Rightarrow> bool" where
  "word w \<longleftrightarrow> w \<noteq> [] \<and> (\<forall>x\<in>set w. \<not> is_space x)"

lemma fields_from_word: "\<forall>x\<in>set w. \<not> is_space x \<Longrightarrow> fields_from acc (w @ s) = fields_from (acc @ w) s"
  by (induction w arbitrary: acc) simp_all

lemma is_space_blank [simp]: "is_space (CHR '' '')"
  by (simp add: is_space_def)

lemma fields_from_join: "list_all word ws \<Longrightarrow> fields_from [] (join_with '' '' ws) = ws"
proof (induction "'' ''" ws rule: join_with.induct)
  case (2 w)
  then show ?case using fields_from_word [of w "[]" "[]"] by (simp add: word_def)
next
  case (3 w v ws)
  then show ?case using fields_from_word [of w "[]" "'' '' @ join_with '' '' (v # ws)"] by (simp add: word_def)
qed simp

lemma join_ends:
  assumes "list_all word ws" "ws \<noteq> []"
  shows "join_with '' '' ws \<noteq> [] \<and> \<not> is_space (hd (join_with '' '' ws)) \<and> \<not> is_space (last (join_with '' '' ws))"
  using assms
proof (induction "'' ''" ws rule: join_with.induct)
  case (3 w v ws)
  then show ?case by (cases w) (auto simp: word_def)
qed (auto simp: word_def)

lemma trim_space_same: "s \<noteq> [] \<Longrightarrow> \<not> is_space (hd s) \<Longrightarrow> \<not> is_space (last s) \<Longrightarrow> trim_space s = s"
proof -
  assume s: "s \<noteq> []" "\<not> is_space (hd s)" "\<not> is_space (last s)"
  then have "dropWhile is_space s = s" by (cases s) simp_all
  moreover from s have "dropWhile is_space (rev s) = rev s" by (cases s rule: rev_cases) simp_all
  ultimately show ?thesis by (simp add: trim_space_def)
qed

text \<open>A line of words is split into them.\<close>

lemma runCLI_words:
  assumes "list_all word ws" "ws \<noteq> []" "\<not> c_done c"
  shows "runCLI_round P e (Some (join_with '' '' ws)) c = run_command P e ws c"
  using join_ends [OF assms(1,2)] trim_space_same fields_from_join [OF assms(1)] assms(3) by (simp add: runCLI_round_def str_fields_def Let_def)

lemma atoi_port_show: "0 < n \<Longrightarrow> n \<le> 65535 \<Longrightarrow> atoi_port (show_nat n) = Some (int n)"
  by (simp add: atoi_port_def go_atoi_show_nat)

lemma not_in_show_nat: "\<not> is_digit x \<Longrightarrow> x \<notin> set (show_nat n)"
  using show_nat_digits by blast

lemma word_show_nat [simp]: "word (show_nat n)"
proof -
  have "is_space x \<Longrightarrow> \<not> is_digit x" for x by (auto simp: is_space_def is_digit_def)
  then show ?thesis using show_nat_digits show_nat_nonempty by (auto simp: word_def)
qed

text \<open>The forward command does what it says: for every peer, host and pair of ports, the line as a user writes it runs \<^verbatim>\<open>StartForward\<close> with
  exactly these values, and prints nothing but its failure.\<close>

theorem forward_command:
  assumes "word peer" "word host" "set host \<inter> {CHR '':'', CHR ''['', CHR '']'', CHR ''%''} = {}" "0 < p" "p \<le> 65535" "0 < q" "q \<le> 65535" "\<not> c_done c"
  shows "runCLI_round P e (Some (join_with '' '' [''forward'', peer, host @ '':'' @ show_nat p, show_nat q])) c =
    (case StartForward P peer host (int p) (int q) (e_listenOk e) (e_uid e) (e_rnd e) c of (c', ok) \<Rightarrow> Some (c', failed_unless ok, None, True))"
proof -
  have "set (show_nat p) \<inter> {CHR '':'', CHR ''['', CHR '']''} = {}" by (simp add: not_in_show_nat is_digit_def)
  then have "split_host_port (host @ '':'' @ show_nat p) = Some (host, show_nat p)"
    using split_join_host_port [of host "show_nat p"] assms(3) by (simp add: join_host_port_def)
  then have "host_ports (host @ '':'' @ show_nat p) [show_nat q] = Inr (host, int p, int q)"
    using assms(4-7) by (simp add: host_ports_def atoi_port_show)
  moreover have "word (host @ '':'' @ show_nat p)" using assms(2) word_show_nat [of p] by (auto simp: word_def is_space_def)
  moreover have "word ''forward''" by (simp add: word_def is_space_def)
  moreover have "to_lower ''forward'' = ''forward''" by (simp add: to_lower_def lower_char_def)
  ultimately show ?thesis
    using runCLI_words [of "[''forward'', peer, host @ '':'' @ show_nat p, show_nat q]" c P e] assms(1,8)
    by (simp add: run_command_def cmdForward_def again_def split: prod.split)
qed

text \<open>Lines that are refused: the client is left as it was and the loop goes on.\<close>

definition refusal :: "reply \<Rightarrow> bool" where
  "refusal r \<longleftrightarrow> (case r of Usage _ \<Rightarrow> True | InvalidHostPort _ \<Rightarrow> True | InvalidPort _ \<Rightarrow> True | InvalidSecondPort _ \<Rightarrow> True | Unknown _ \<Rightarrow> True | _ \<Rightarrow> False)"

lemma failed_not_refusal [simp]: "r \<in> set (failed_unless ok) \<Longrightarrow> \<not> refusal r"
  by (simp add: failed_unless_def refusal_def split: if_splits)

lemma started_not_refusal [simp]: "\<not> refusal (Started i)" "\<not> refusal (Table t)" "\<not> refusal Failed"
  by (simp_all add: refusal_def)

lemma host_ports_refusal: "host_ports hp rest = Inl r \<Longrightarrow> refusal r"
  by (auto simp: host_ports_def refusal_def split: option.splits list.splits)

lemma cmd_refusals:
  "cmdForward P e args c = (c', rs) \<Longrightarrow> r \<in> set rs \<Longrightarrow> refusal r \<Longrightarrow> c' = c"
  "cmdExpose P e args c = (c', rs) \<Longrightarrow> r \<in> set rs \<Longrightarrow> refusal r \<Longrightarrow> c' = c"
  "cmdHop P e args c = (c', rs) \<Longrightarrow> r \<in> set rs \<Longrightarrow> refusal r \<Longrightarrow> c' = c"
  "cmdUnforward args c = Some (c', rs) \<Longrightarrow> r \<in> set rs \<Longrightarrow> refusal r \<Longrightarrow> c' = c"
  "cmdSpeedTest P e args c = Some (c', rs) \<Longrightarrow> r \<in> set rs \<Longrightarrow> refusal r \<Longrightarrow> c' = c"
  "cmdSendFile P e args c = Some (c', rs) \<Longrightarrow> r \<in> set rs \<Longrightarrow> refusal r \<Longrightarrow> c' = c"
  "cmdVPN P e args c = (c', rs, w) \<Longrightarrow> r \<in> set rs \<Longrightarrow> refusal r \<Longrightarrow> c' = c"
  by (auto simp: cmdForward_def cmdExpose_def cmdHop_def cmdUnforward_def cmdSpeedTest_def cmdSendFile_def cmdVPN_def Let_def
      split: list.splits sum.splits prod.splits option.splits bind_splits if_splits tun_start.splits)

theorem refused_lines_change_nothing:
  assumes "runCLI_round P e input c = Some (c', rs, w, goOn)" "r \<in> set rs" "refusal r"
  shows "c' = c \<and> goOn"
proof -
  have "run_command P e parts c = Some (c', rs, w, goOn) \<Longrightarrow> c' = c \<and> goOn" for parts
    using assms(2,3)
    by (auto simp: run_command_def again_def Let_def split: list.splits if_splits bind_splits prod.splits dest: cmd_refusals)
  then show ?thesis using assms by (auto simp: runCLI_round_def again_def Let_def split: if_splits option.splits bind_splits)
qed

section \<open>Files that are offered\<close>

definition name_ok :: "string \<Rightarrow> bool" where
  "name_ok p \<longleftrightarrow> p \<noteq> [] \<and> p \<noteq> ''.'' \<and> p \<noteq> ''..'' \<and> CHR ''/'' \<notin> set p"

definition abs_path :: "string list \<Rightarrow> string" where
  "abs_path ps = ''/'' @ join_with ''/'' ps"

lemma clean_push: "list_all name_ok ps \<Longrightarrow> clean_parts r acc (ps @ qs) = clean_parts r (rev ps @ acc) qs"
  by (induction ps arbitrary: acc) (auto simp: name_ok_def)

lemma clean_pop: "list_all name_ok acc \<Longrightarrow> clean_parts True acc (replicate n ''..'' @ qs) = clean_parts True (drop n acc) qs"
proof (induction n arbitrary: acc)
  case (Suc n)
  then show ?case using Suc.IH [of "tl acc"] by (cases acc) (auto simp: name_ok_def drop_Suc)
qed simp

lemma path_clean_abs: "ps \<noteq> [] \<Longrightarrow> \<forall>p\<in>set ps. CHR ''/'' \<notin> set p \<Longrightarrow> path_clean (abs_path ps) = abs_path (clean_parts True [] ps)"
  using split_join [of ps "CHR ''/''"] by (simp add: path_clean_def abs_path_def)

lemma abs_path_append: "ps \<noteq> [] \<Longrightarrow> qs \<noteq> [] \<Longrightarrow> abs_path ps @ ''/'' @ join_with ''/'' qs = abs_path (ps @ qs)"
proof -
  have "join_with ''/'' ps @ ''/'' @ join_with ''/'' qs = join_with ''/'' (ps @ qs)" if "ps \<noteq> []" "qs \<noteq> []" for ps qs
    using that by (induction "''/''" ps rule: join_with.induct) (auto simp: neq_Nil_conv)
  then show "ps \<noteq> [] \<Longrightarrow> qs \<noteq> [] \<Longrightarrow> abs_path ps @ ''/'' @ join_with ''/'' qs = abs_path (ps @ qs)" by (simp add: abs_path_def)
qed

lemma path_join_abs: "path_join (abs_path hs # es) = path_clean (join_with ''/'' (abs_path hs # es))"
  by (simp add: path_join_def abs_path_def)

lemma name_ok_parts: "list_all name_ok ps \<Longrightarrow> \<forall>p\<in>set ps. CHR ''/'' \<notin> set p"
  by (auto simp: list_all_iff name_ok_def)

lemma path_clean_ok: "list_all name_ok ps \<Longrightarrow> ps \<noteq> [] \<Longrightarrow> path_clean (abs_path ps) = abs_path ps"
  using path_clean_abs [of ps] name_ok_parts [of ps] clean_push [of ps True "[]" "[]"] by simp

lemma path_join_up:
  assumes "list_all name_ok base" "base \<noteq> []" "list_all name_ok ps" "ps \<noteq> []" "length base \<le> n"
  shows "path_join [abs_path base, join_with ''/'' (replicate n ''..'' @ ps)] = abs_path ps"
proof -
  have "path_join [abs_path base, join_with ''/'' (replicate n ''..'' @ ps)] = path_clean (abs_path (base @ replicate n ''..'' @ ps))"
    unfolding path_join_abs join_with.simps using abs_path_append [of base "replicate n ''..'' @ ps"] assms(2,4) by simp
  also have "\<dots> = abs_path (clean_parts True [] (base @ replicate n ''..'' @ ps))"
    using name_ok_parts [OF assms(1)] name_ok_parts [OF assms(3)] assms(2) by (intro path_clean_abs) auto
  also have "clean_parts True [] (base @ replicate n ''..'' @ ps) = clean_parts True (drop n (rev base)) ps"
    using clean_push [OF assms(1), of True "[]"] clean_pop [of "rev base" n ps] assms(1) by (simp add: list_all_iff)
  also have "\<dots> = ps" using assms(5) clean_push [OF assms(3), of True "[]" "[]"] by simp
  finally show ?thesis .
qed

lemma save_path_escapes:
  assumes "list_all name_ok hs" "hs \<noteq> []" "list_all name_ok ps" "ps \<noteq> []" "length hs + 2 \<le> n"
  shows "save_path (abs_path hs) (join_with ''/'' (replicate n ''..'' @ ps)) = abs_path ps"
proof -
  define base where "base = hs @ [''Downloads'', ''StunMax'']"
  have ok: "list_all name_ok base" "base \<noteq> []" "length base \<le> n" using assms(1,5) by (simp_all add: base_def name_ok_def)
  have "path_join [abs_path hs, ''Downloads'', ''StunMax''] = path_clean (abs_path base)"
    unfolding path_join_abs join_with.simps base_def using abs_path_append [OF assms(2), of "[''Downloads'', ''StunMax'']"] by simp
  also have "\<dots> = abs_path base" using ok(1,2) by (rule path_clean_ok)
  finally show ?thesis unfolding save_path_def using path_join_up [OF ok(1,2) assms(3,4) ok(3)] by (simp only:)
qed

lemma offer_fields [simp]:
  "\<not> equal_fold ''transfer_id'' ''file_name''" "\<not> equal_fold ''transfer_id'' ''file_size''" "\<not> equal_fold ''file_name'' ''transfer_id''" "\<not> equal_fold ''file_name'' ''file_size''" "\<not> equal_fold ''file_name'' ''file_hash''" "\<not> equal_fold ''file_size'' ''transfer_id''" "\<not> equal_fold ''file_size'' ''file_name''" "\<not> equal_fold ''file_size'' ''file_hash''" "\<not> equal_fold ''file_hash'' ''file_name''" "\<not> equal_fold ''file_hash'' ''file_size''"
  by (simp_all add: equal_fold_def to_lower_def lower_char_def)

lemma handleFileOffer_new:
  "c_allowFileRecv c \<Longrightarrow> int64_range sz \<Longrightarrow> \<exists>ft. handleFileOffer P from' (Some (fileOffer tid name sz h)) c = new_transfer tid ft c \<and> ft_Direction ft = ''receive'' \<and>
    ft_Status ft = ''pending'' \<and> ft_FileSize ft = sz"
  by (auto simp: handleFileOffer_def fileOffer_def get_str_def get_int_def Let_def)

text \<open>Claim C21. The command-line client accepts every offered file and derives the place where it is saved from the name in the offer, which it does not check: a member of the room who
  offers a file under a name that starts with enough \<^verbatim>\<open>../\<close> empties any file that the user can write, wherever it lies (here: whenever
  the announced size is not larger than the file), and goes on to fill it with the bytes it sends.\<close>

theorem auto_accept_overwrites_any_file:
  assumes "c_allowFileRecv c" "int64_range sz" "list_all name_ok hs" "hs \<noteq> []" "list_all name_ok ps" "ps \<noteq> []" "length hs + 2 \<le> n"
    and "mget (c_disk c) (abs_path ps) = Some old" "sz \<le> int (length old)" "name = join_with ''/'' (replicate n ''..'' @ ps)"
  shows "\<exists>c' ls i. consumeEvent P (abs_path hs) True EventFileOffer (FileOfferEvent tid from' peer name sz) (handleFileOffer P from' (Some (fileOffer tid name sz h)) c) = Some (c', ls) \<and>
    mget (c_disk c') (abs_path ps) = Some [] \<and> mget (c_fileTransfers c') tid = Some i \<and> ft_Status (c_fts c' ! i) = ''active'' \<and> ft_FilePath (c_fts c' ! i) = abs_path ps"
proof -
  obtain ft where ft: "handleFileOffer P from' (Some (fileOffer tid name sz h)) c = new_transfer tid ft c" "ft_Direction ft = ''receive''" "ft_Status ft = ''pending''" "ft_FileSize ft = sz"
    using handleFileOffer_new [OF assms(1,2), of P from' tid name h] by (elim exE conjE)
  have "\<exists>c' i. AcceptFile P tid (abs_path ps) True (new_transfer tid ft c) = (c', True) \<and> mget (c_disk c') (abs_path ps) = Some [] \<and>
      mget (c_fileTransfers c') tid = Some i \<and> ft_Status (c_fts c' ! i) = ''active'' \<and> ft_FilePath (c_fts c' ! i) = abs_path ps"
    using ft(2-4) assms(8,9) by (simp add: AcceptFile_def new_transfer_def upd_ft_def Let_def)
  moreover have "save_path (abs_path hs) name = abs_path ps" unfolding assms(10) using assms(3-7) by (rule save_path_escapes)
  ultimately show ?thesis unfolding ft(1) consumeEvent_def Let_def by auto
qed

theorem auto_accept_overwrites_any_file_witness:
  "\<exists>c' ls i. consumeEvent prims0 ''/home/me'' True EventFileOffer (FileOfferEvent ''id'' ''mallory'' ''M'' ''../../../../etc/hosts'' 0)
      (handleFileOffer prims0 ''mallory'' (Some (fileOffer ''id'' ''../../../../etc/hosts'' 0 [])) ((NewClient ''room'' ''me'' [] [])\<lparr>c_disk := [(''/etc/hosts'', [1, 2, 3])]\<rparr>)) = Some (c', ls) \<and>
    mget (c_disk c') ''/etc/hosts'' = Some [] \<and> mget (c_fileTransfers c') ''id'' = Some i \<and> ft_Status (c_fts c' ! i) = ''active'' \<and>
    ft_FilePath (c_fts c' ! i) = ''/etc/hosts''"
proof -
  have "abs_path [''home'', ''me''] = ''/home/me''" "abs_path [''etc'', ''hosts''] = ''/etc/hosts''" by (simp_all add: abs_path_def)
  moreover have "join_with ''/'' (replicate 4 ''..'' @ [''etc'', ''hosts'']) = ''../../../../etc/hosts''" by (simp add: eval_nat_numeral)
  moreover have "list_all name_ok [''home'', ''me'']" "list_all name_ok [''etc'', ''hosts'']" by (simp_all add: name_ok_def)
  ultimately show ?thesis
    using auto_accept_overwrites_any_file [of "(NewClient ''room'' ''me'' [] [])\<lparr>c_disk := [(''/etc/hosts'', [1, 2, 3])]\<rparr>" 0 "[''home'', ''me'']" "[''etc'', ''hosts'']" 4
        "[1, 2, 3]" "''../../../../etc/hosts''" prims0 "''id''" "''mallory''" "''M''" "[]"]
    by (simp add: NewClient_def int64_range_def)
qed

text \<open>A peer that chooses a transfer ID of fewer than eight characters stops the command-line client at the first progress or error of the
  transfer: the ID is cut to eight characters without a check.\<close>

theorem short_transfer_id_panics:
  assumes "length tid < 8"
  shows "consumeEvent P home ok EventFileProgress (FileProgressEvent tid pct speed) c = None"
    "consumeEvent P home ok EventFileError (FileErrorEvent tid e) c = None"
  using assms by (simp_all add: consumeEvent_def first8_def)

end
