(* ===== verification/Platform.thy ===== *)
theory Platform
  imports Vpn_Props Command_Line "HOL-Library.Multiset"
begin

text \<open>
  What the operating system is told to do for a VPN, \<^verbatim>\<open>src/client/core/tun_config_linux.go\<close>, \<^verbatim>\<open>tun_config_darwin.go\<close> and \<^verbatim>\<open>tun_config_windows.go\<close>, and the choice
  of the physical interface in \<^verbatim>\<open>src/client/core/proxy_bypass.go\<close>.

  \<^item> A function that runs commands gives the list of their arguments, in order. Names start with \<open>lin\<close>, \<open>mac\<close> or \<open>win\<close> for the three files.
  \<^item> \<open>platEnv\<close> is the machine: results of \<^verbatim>\<open>net.LookupHost\<close> and \<^verbatim>\<open>net.Interfaces\<close>, exit status and output of commands.
  \<^item> \<open>lin_exec\<close>, \<open>mac_exec\<close> and \<open>win_exec\<close> refine the platform commands \<open>oscmd\<close> that the client records.
\<close>

type_synonym argv = "string list"

section \<open>The machine\<close>

text \<open>An address of an interface: \<^verbatim>\<open>*net.IPNet\<close>, \<^verbatim>\<open>*net.IPAddr\<close> or another type; the IP is \<open>None\<close> if it is not an IPv4 address.\<close>

datatype ifAddr = IfNet "u32 option" | IfIP "u32 option" | IfOther

record ifInfo =
  ii_Name :: string
  ii_Index :: int
  ii_Up :: bool
  ii_Loopback :: bool
  ii_PointToPoint :: bool
  ii_Broadcast :: bool
  ii_HardwareAddr :: bytes
  ii_Addrs :: "ifAddr list option"

record platEnv =
  pe_lookup :: "string \<Rightarrow> string list option"
  pe_ifaces :: "ifInfo list option"
  pe_ok :: "argv \<Rightarrow> bool"
  pe_out :: "argv \<Rightarrow> string"

text \<open>The first address of a host; \<open>None\<close> if the lookup fails or is empty.\<close>

definition first_ip :: "platEnv \<Rightarrow> string \<Rightarrow> string option" where
  "first_ip e host = (case pe_lookup e host of Some (ip # _) \<Rightarrow> Some ip | _ \<Rightarrow> None)"

section \<open>The physical interface\<close>

definition skipPrefixes :: "string list" where
  "skipPrefixes = [''utun'', ''tun'', ''tap'', ''lo'', ''docker'', ''br-'', ''veth'', ''virbr'', ''vboxnet'', ''vmnet'', ''wg'', ''tailscale'', ''ts'',
     ''clash'', ''meta'', ''wintun'', ''rmnet'', ''ccmni'', ''dummy'']"

definition skip_name :: "string \<Rightarrow> bool" where
  "skip_name name \<longleftrightarrow> list_ex (has_prefix (to_lower name)) skipPrefixes"

definition isWifi :: "string \<Rightarrow> bool" where
  "isWifi name \<longleftrightarrow> has_prefix (to_lower name) ''wlan'' \<or> has_prefix (to_lower name) ''en0''"

text \<open>Loopback, link-local and the addresses 198.18.0.0/15.\<close>

definition ip_refused :: "u32 \<Rightarrow> bool" where
  "ip_refused ip \<longleftrightarrow> ip_octet 0 ip = 127 \<or> (ip_octet 0 ip = 169 \<and> ip_octet 1 ip = 254) \<or> (ip_octet 0 ip = 198 \<and> (ip_octet 1 ip = 18 \<or> ip_octet 1 ip = 19))"

fun addr_candidate :: "ifInfo \<Rightarrow> ifAddr \<Rightarrow> (u32 \<times> ifInfo) option" where
  "addr_candidate i (IfNet (Some ip)) = (if ip_refused ip \<or> (ip_octet 0 ip = 10 \<and> ii_HardwareAddr i = []) then None else Some (ip, i))"
| "addr_candidate i _ = None"

definition iface_candidates :: "ifInfo \<Rightarrow> (u32 \<times> ifInfo) list" where
  "iface_candidates i =
     (if \<not> ii_Up i \<or> ii_Loopback i \<or> ii_PointToPoint i \<or> skip_name (ii_Name i) then []
      else case ii_Addrs i of None \<Rightarrow> [] | Some as \<Rightarrow> List.map_filter (addr_candidate i) as)"

definition detectPhysicalIP :: "platEnv \<Rightarrow> u32 option" where
  "detectPhysicalIP e = (case pe_ifaces e of None \<Rightarrow> None
     | Some is \<Rightarrow>
        (let cs = concat (map iface_candidates is) in
         case find (\<lambda>(ip, i). isWifi (ii_Name i)) cs of Some c \<Rightarrow> Some (fst c)
         | None \<Rightarrow> (case find (\<lambda>(ip, i). ii_Broadcast i) cs of Some c \<Rightarrow> Some (fst c)
           | None \<Rightarrow> (case cs of [] \<Rightarrow> None | c # _ \<Rightarrow> Some (fst c)))))"

text \<open>\<^verbatim>\<open>initProxyBypass\<close>, \<^verbatim>\<open>BypassIP\<close>, the local address of the sockets of \<^verbatim>\<open>bypassDialer\<close> and \<^verbatim>\<open>bypassListenUDP\<close>, and \<^verbatim>\<open>getLocalIP\<close>; \<open>route\<close> is the source
  address that the system chooses for a public destination.\<close>

definition initProxyBypass :: "platEnv \<Rightarrow> u32 option \<Rightarrow> u32 option" where
  "initProxyBypass e physicalIP = (case detectPhysicalIP e of None \<Rightarrow> physicalIP | Some ip \<Rightarrow> Some ip)"

definition BypassIP :: "u32 option \<Rightarrow> string" where
  "BypassIP physicalIP = (case physicalIP of None \<Rightarrow> [] | Some ip \<Rightarrow> ipv4_str ip)"

definition bypass_laddr :: "u32 option \<Rightarrow> (u32 \<times> u16) option" where
  "bypass_laddr physicalIP = map_option (\<lambda>ip. (ip, 0)) physicalIP"

definition getLocalIP :: "u32 option \<Rightarrow> u32 option \<Rightarrow> string" where
  "getLocalIP route physicalIP = (case physicalIP of Some ip \<Rightarrow> ipv4_str ip | None \<Rightarrow> (case route of None \<Rightarrow> [] | Some ip \<Rightarrow> ipv4_str ip))"

section \<open>The exit address\<close>

text \<open>\<^verbatim>\<open>detectExitIP\<close>, the same in the three files.\<close>

fun addr_ip :: "ifAddr \<Rightarrow> u32 option" where
  "addr_ip (IfNet ip) = ip"
| "addr_ip (IfIP ip) = ip"
| "addr_ip IfOther = None"

definition iface_ips :: "ifInfo \<Rightarrow> u32 list" where
  "iface_ips i = (if \<not> ii_Up i \<or> ii_Loopback i then [] else case ii_Addrs i of None \<Rightarrow> [] | Some as \<Rightarrow> List.map_filter addr_ip as)"

definition detectExitIP :: "platEnv \<Rightarrow> string \<Rightarrow> u32 option" where
  "detectExitIP e subnet = (case parse_cidr subnet of None \<Rightarrow> None
     | Some rn \<Rightarrow> (case pe_ifaces e of None \<Rightarrow> None | Some is \<Rightarrow> find (net_contains rn) (concat (map iface_ips is))))"

section \<open>Linux\<close>

definition lin_configureTunInterface :: "platEnv \<Rightarrow> string \<Rightarrow> string \<Rightarrow> string \<Rightarrow> argv list \<times> bool" where
  "lin_configureTunInterface e ifName localIP peerIP =
     (let c1 = [''ip'', ''addr'', ''add'', localIP @ ''/24'', ''dev'', ifName]; c2 = [''ip'', ''link'', ''set'', ''dev'', ifName, ''up''] in
      if \<not> pe_ok e c1 then ([c1], False)
      else if \<not> pe_ok e c2 then ([c1, c2], False)
      else ([c1, c2, [''ip'', ''route'', ''add'', peerIP @ ''/32'', ''dev'', ifName]], True))"

definition lin_addRoute :: "string \<Rightarrow> string \<Rightarrow> string \<Rightarrow> argv" where
  "lin_addRoute ifName subnet gateway = [''ip'', ''route'', ''add'', subnet, ''via'', gateway, ''dev'', ifName]"

definition lin_removeRoute :: "string \<Rightarrow> string \<Rightarrow> argv" where
  "lin_removeRoute ifName subnet = [''ip'', ''route'', ''del'', subnet, ''dev'', ifName]"

text \<open>The default gateway: the third word of the first line that starts with \<^verbatim>\<open>default via\<close>.\<close>

definition lin_gateway :: "string \<Rightarrow> string option" where
  "lin_gateway out = (case find (\<lambda>l. has_prefix l ''default via '') (split_on (CHR 10) out) of None \<Rightarrow> None
     | Some l \<Rightarrow> (case str_fields l of _ # _ # gw # _ \<Rightarrow> Some gw | _ \<Rightarrow> None))"

definition lin_protectServerRoute :: "platEnv \<Rightarrow> string \<Rightarrow> argv list" where
  "lin_protectServerRoute e host = (case first_ip e host of None \<Rightarrow> []
     | Some ip \<Rightarrow>
        (let show = [''ip'', ''route'', ''show'', ''default''] in
         show # (case lin_gateway (pe_out e show) of None \<Rightarrow> [] | Some gw \<Rightarrow> [[''ip'', ''route'', ''add'', ip @ ''/32'', ''via'', gw]])))"

definition lin_removeServerRoute :: "platEnv \<Rightarrow> string \<Rightarrow> argv list" where
  "lin_removeServerRoute e host = (case first_ip e host of None \<Rightarrow> [] | Some ip \<Rightarrow> [[''ip'', ''route'', ''del'', ip @ ''/32'']])"

definition lin_enableNAT :: "string \<Rightarrow> argv list" where
  "lin_enableNAT ifName =
     [[''iptables'', ''-t'', ''nat'', ''-A'', ''POSTROUTING'', ''-s'', ''10.7.0.0/24'', ''!'', ''-o'', ifName, ''-j'', ''MASQUERADE''],
      [''iptables'', ''-A'', ''FORWARD'', ''-i'', ifName, ''-j'', ''ACCEPT''],
      [''iptables'', ''-A'', ''FORWARD'', ''-o'', ifName, ''-m'', ''state'', ''--state'', ''RELATED,ESTABLISHED'', ''-j'', ''ACCEPT'']]"

definition lin_disableNAT :: "string \<Rightarrow> argv list" where
  "lin_disableNAT ifName =
     [[''iptables'', ''-t'', ''nat'', ''-D'', ''POSTROUTING'', ''-s'', ''10.7.0.0/24'', ''!'', ''-o'', ifName, ''-j'', ''MASQUERADE''],
      [''iptables'', ''-D'', ''FORWARD'', ''-i'', ifName, ''-j'', ''ACCEPT''],
      [''iptables'', ''-D'', ''FORWARD'', ''-o'', ifName, ''-m'', ''state'', ''--state'', ''RELATED,ESTABLISHED'', ''-j'', ''ACCEPT'']]"

definition lin_setupSNATRoute :: "string \<Rightarrow> u32 \<Rightarrow> argv" where
  "lin_setupSNATRoute ifName snatIP = [''ip'', ''route'', ''add'', ipv4_str snatIP @ ''/32'', ''dev'', ifName]"

definition lin_cleanupSNATRoute :: "string \<Rightarrow> u32 option \<Rightarrow> argv list" where
  "lin_cleanupSNATRoute ifName snatIP = (case snatIP of None \<Rightarrow> [] | Some ip \<Rightarrow> [[''ip'', ''route'', ''del'', ipv4_str ip @ ''/32'', ''dev'', ifName]])"

definition lin_removeTunInterface :: "string \<Rightarrow> argv list" where
  "lin_removeTunInterface ifName = [[''ip'', ''link'', ''set'', ''dev'', ifName, ''down'']]"

definition lin_enableIPForwarding :: "argv list" where
  "lin_enableIPForwarding = [[''sysctl'', ''-w'', ''net.ipv4.ip_forward=1'']]"

definition lin_checkForwardingStatus :: "platEnv \<Rightarrow> string" where
  "lin_checkForwardingStatus e = trim_space (pe_out e [''sysctl'', ''net.ipv4.ip_forward''])"

fun lin_exec :: "platEnv \<Rightarrow> oscmd \<Rightarrow> argv list" where
  "lin_exec e (AddRoute ifName subnet gw) = [lin_addRoute ifName subnet gw]"
| "lin_exec e (RemoveRoute ifName subnet) = [lin_removeRoute ifName subnet]"
| "lin_exec e (ProtectServer host) = lin_protectServerRoute e host"
| "lin_exec e (RemoveServerRoute host) = lin_removeServerRoute e host"
| "lin_exec e EnableForwarding = lin_enableIPForwarding"
| "lin_exec e (EnableNAT ifName) = lin_enableNAT ifName"
| "lin_exec e (DisableNAT ifName) = lin_disableNAT ifName"
| "lin_exec e (SetupSNAT ifName ip) = [lin_setupSNATRoute ifName ip]"
| "lin_exec e (CleanupSNAT ifName ip) = lin_cleanupSNATRoute ifName ip"
| "lin_exec e (RemoveTun ifName) = lin_removeTunInterface ifName"
| "lin_exec e StopPlatformVPN = []"

section \<open>macOS\<close>

text \<open>\<^verbatim>\<open>wgTunIface.Write\<close> and \<^verbatim>\<open>Read\<close>: four bytes before the packet say its family.\<close>

definition mac_frame :: "bytes \<Rightarrow> bytes" where
  "mac_frame b = [0, 0, 0, if b \<noteq> [] \<and> drop_bit 4 (hd b) = 6 then 30 else 2] @ b"

definition mac_read :: "nat \<Rightarrow> bytes \<Rightarrow> bytes option" where
  "mac_read n frame = (if length frame \<le> 4 then None else Some (take n (drop 4 frame)))"

definition mac_configureTunInterface :: "platEnv \<Rightarrow> string \<Rightarrow> string \<Rightarrow> string \<Rightarrow> argv list \<times> bool" where
  "mac_configureTunInterface e ifName localIP peerIP =
     (let c1 = [''ifconfig'', ifName, localIP, peerIP, ''up''] in
      if \<not> pe_ok e c1 then ([c1], False) else ([c1, [''route'', ''add'', ''-host'', peerIP, ''-interface'', ifName]], True))"

text \<open>The value of the first line of the output of \<^verbatim>\<open>route -n get default\<close> that starts with a key; empty if there is none.\<close>

definition mac_field :: "string \<Rightarrow> string \<Rightarrow> string" where
  "mac_field key out = (case find (\<lambda>l. has_prefix l key) (map trim_space (split_on (CHR 10) out)) of None \<Rightarrow> []
     | Some l \<Rightarrow> trim_space (trim_prefix l key))"

definition mac_route_get :: argv where
  "mac_route_get = [''route'', ''-n'', ''get'', ''default'']"

definition mac_protectServerRoute :: "platEnv \<Rightarrow> string \<Rightarrow> argv list" where
  "mac_protectServerRoute e host = (case first_ip e host of None \<Rightarrow> []
     | Some ip \<Rightarrow> mac_route_get #
         (let gw = mac_field ''gateway:'' (pe_out e mac_route_get) in if gw \<noteq> [] then [[''route'', ''add'', ''-host'', ip, gw]] else []))"

definition mac_removeServerRoute :: "platEnv \<Rightarrow> string \<Rightarrow> argv list" where
  "mac_removeServerRoute e host = (case first_ip e host of None \<Rightarrow> [] | Some ip \<Rightarrow> [[''route'', ''delete'', ''-host'', ip]])"

definition mac_enableNAT :: "platEnv \<Rightarrow> string \<Rightarrow> argv list" where
  "mac_enableNAT e ifName = mac_route_get #
     (let phys = mac_field ''interface:'' (pe_out e mac_route_get) in
      if \<not> pe_ok e mac_route_get \<or> phys = [] \<or> phys = ifName then []
      else [[''bash'', ''-c'', ''echo \"nat on '' @ phys @ '' from 10.7.0.0/24 to any -> ('' @ phys @ '')\" | pfctl -ef - 2>/dev/null'']])"

definition mac_addRoute :: "string \<Rightarrow> string \<Rightarrow> argv" where
  "mac_addRoute subnet gw = [''route'', ''add'', ''-net'', subnet, gw]"

definition mac_removeRoute :: "string \<Rightarrow> argv" where
  "mac_removeRoute subnet = [''route'', ''delete'', ''-net'', subnet]"

definition mac_enableIPForwarding :: "argv" where
  "mac_enableIPForwarding = [''sysctl'', ''-w'', ''net.inet.ip.forwarding=1'']"

definition mac_disableNAT :: "argv" where
  "mac_disableNAT = [''pfctl'', ''-d'']"

definition mac_setupSNATRoute :: "string \<Rightarrow> u32 \<Rightarrow> argv" where
  "mac_setupSNATRoute ifName ip = [''route'', ''add'', ''-host'', ipv4_str ip, ''-interface'', ifName]"

definition mac_cleanupSNATRoute :: "u32 option \<Rightarrow> argv list" where
  "mac_cleanupSNATRoute ip = (case ip of None \<Rightarrow> [] | Some ip \<Rightarrow> [[''route'', ''delete'', ''-host'', ipv4_str ip]])"

fun mac_exec :: "platEnv \<Rightarrow> oscmd \<Rightarrow> argv list" where
  "mac_exec e (AddRoute ifName subnet gw) = [mac_addRoute subnet gw]"
| "mac_exec e (RemoveRoute ifName subnet) = [mac_removeRoute subnet]"
| "mac_exec e (ProtectServer host) = mac_protectServerRoute e host"
| "mac_exec e (RemoveServerRoute host) = mac_removeServerRoute e host"
| "mac_exec e EnableForwarding = [mac_enableIPForwarding]"
| "mac_exec e (EnableNAT ifName) = mac_enableNAT e ifName"
| "mac_exec e (DisableNAT ifName) = [mac_disableNAT]"
| "mac_exec e (SetupSNAT ifName ip) = [mac_setupSNATRoute ifName ip]"
| "mac_exec e (CleanupSNAT ifName ip) = mac_cleanupSNATRoute ip"
| "mac_exec e (RemoveTun ifName) = []"
| "mac_exec e StopPlatformVPN = []"

section \<open>Windows\<close>

definition win_configureTunInterface :: "platEnv \<Rightarrow> string \<Rightarrow> string \<Rightarrow> string \<Rightarrow> argv list \<times> bool" where
  "win_configureTunInterface e ifName localIP peerIP =
     (let c1 = [''netsh'', ''interface'', ''ip'', ''set'', ''address'', ifName, ''static'', localIP, ''255.255.255.0''] in
      if \<not> pe_ok e c1 then ([c1], False) else ([c1, [''netsh'', ''interface'', ''ip'', ''add'', ''route'', peerIP @ ''/32'', ifName]], True))"

text \<open>The PowerShell scripts for the default gateway and for forwarding; \<open>quoted\<close> puts a text between apostrophes.\<close>

definition quoted :: "string \<Rightarrow> string" where
  "quoted s = [CHR 0x27] @ s @ [CHR 0x27]"

definition win_powershell :: "string \<Rightarrow> argv" where
  "win_powershell script = [''powershell'', ''-NoProfile'', ''-NonInteractive'', ''-Command'', script]"

definition win_gateway_query :: argv where
  "win_gateway_query = win_powershell (''(Get-NetRoute -DestinationPrefix '' @ quoted ''0.0.0.0/0'' @
     '' | Sort-Object RouteMetric | Select-Object -First 1).NextHop'')"

definition win_protectServerRoute :: "platEnv \<Rightarrow> string \<Rightarrow> argv list" where
  "win_protectServerRoute e host = (case first_ip e host of None \<Rightarrow> []
     | Some ip \<Rightarrow> win_gateway_query #
         (let gw = trim_space (pe_out e win_gateway_query) in
          if gw = [] \<or> gw = ''0.0.0.0'' then [] else [[''route'', ''add'', ip, ''mask'', ''255.255.255.255'', gw, ''metric'', ''1'']]))"

definition win_removeServerRoute :: "platEnv \<Rightarrow> string \<Rightarrow> argv list" where
  "win_removeServerRoute e host = (case first_ip e host of None \<Rightarrow> [] | Some ip \<Rightarrow> [[''route'', ''delete'', ip, ''mask'', ''255.255.255.255'']])"

definition win_enableIPForwarding :: "argv list" where
  "win_enableIPForwarding =
     [win_powershell (''Get-NetAdapter | Where-Object { $_.Name -like '' @ quoted ''StunMax*'' @ '' -or $_.Name -like '' @ quoted ''Ethernet*'' @
        '' -or $_.Name -like '' @ quoted ''Wi-Fi*'' @
        '' } | ForEach-Object { Set-NetIPInterface -InterfaceIndex $_.ifIndex -Forwarding Enabled -ErrorAction SilentlyContinue }''),
      [''reg'', ''add'', join_with [CHR 0x5C] [''HKLM'', ''SYSTEM'', ''CurrentControlSet'', ''Services'', ''Tcpip'', ''Parameters''],
       ''/v'', ''IPEnableRouter'', ''/t'', ''REG_DWORD'', ''/d'', ''1'', ''/f'']]"

definition win_rule :: "string \<Rightarrow> string \<Rightarrow> argv" where
  "win_rule name dir = [''netsh'', ''advfirewall'', ''firewall'', ''add'', ''rule'', ''name='' @ name, ''dir='' @ dir, ''action=allow'', ''enable=yes'', ''profile=any'', ''protocol=any'']"

definition win_enableNAT :: "string \<Rightarrow> argv list" where
  "win_enableNAT ifName = [win_rule ''StunMax-Forward'' ''in'', win_rule ''StunMax-Forward-Out'' ''out'']"

definition win_disableNAT :: "string \<Rightarrow> argv list" where
  "win_disableNAT ifName = map (\<lambda>n. [''netsh'', ''advfirewall'', ''firewall'', ''delete'', ''rule'', ''name='' @ n]) [''StunMax-Forward'', ''StunMax-Forward-Out'']"

fun str_contains :: "string \<Rightarrow> string \<Rightarrow> bool" where
  "str_contains [] t \<longleftrightarrow> t = []"
| "str_contains (c # s) t \<longleftrightarrow> has_prefix (c # s) t \<or> str_contains s t"

definition getInterfaceIndex :: "platEnv \<Rightarrow> string \<Rightarrow> string" where
  "getInterfaceIndex e ifName = (case pe_ifaces e of None \<Rightarrow> ''0''
     | Some is \<Rightarrow>
        (case find (\<lambda>i. ii_Name i = ifName) is of Some i \<Rightarrow> show_int (ii_Index i)
         | None \<Rightarrow> (case find (\<lambda>i. str_contains (ii_Name i) ifName \<or> str_contains ifName (ii_Name i)) is of
             Some i \<Rightarrow> show_int (ii_Index i) | None \<Rightarrow> ''0'')))"

definition win_setupSNATRoute :: "platEnv \<Rightarrow> string \<Rightarrow> u32 \<Rightarrow> argv list" where
  "win_setupSNATRoute e ifName snatIP =
     [[''route'', ''add'', ipv4_str snatIP, ''mask'', ''255.255.255.255'', ''0.0.0.0'', ''metric'', ''1'', ''if'', getInterfaceIndex e ifName],
      [''netsh'', ''interface'', ''ip'', ''add'', ''route'', ipv4_str snatIP @ ''/32'', ifName, ''0.0.0.0'', ''metric=1'']]"

definition win_cleanupSNATRoute :: "string \<Rightarrow> u32 option \<Rightarrow> argv list" where
  "win_cleanupSNATRoute ifName snatIP = (case snatIP of None \<Rightarrow> []
     | Some ip \<Rightarrow> [[''route'', ''delete'', ipv4_str ip], [''netsh'', ''interface'', ''ip'', ''delete'', ''route'', ipv4_str ip @ ''/32'', ifName]])"

definition win_addRoute :: "string \<Rightarrow> string \<Rightarrow> string \<Rightarrow> argv" where
  "win_addRoute ifName subnet gw = [''netsh'', ''interface'', ''ip'', ''add'', ''route'', subnet, ifName, gw]"

definition win_removeRoute :: "string \<Rightarrow> string \<Rightarrow> argv" where
  "win_removeRoute ifName subnet = [''netsh'', ''interface'', ''ip'', ''delete'', ''route'', subnet, ifName]"

fun win_exec :: "platEnv \<Rightarrow> oscmd \<Rightarrow> argv list" where
  "win_exec e (AddRoute ifName subnet gw) = [win_addRoute ifName subnet gw]"
| "win_exec e (RemoveRoute ifName subnet) = [win_removeRoute ifName subnet]"
| "win_exec e (ProtectServer host) = win_protectServerRoute e host"
| "win_exec e (RemoveServerRoute host) = win_removeServerRoute e host"
| "win_exec e EnableForwarding = win_enableIPForwarding"
| "win_exec e (EnableNAT ifName) = win_enableNAT ifName"
| "win_exec e (DisableNAT ifName) = win_disableNAT ifName"
| "win_exec e (SetupSNAT ifName ip) = win_setupSNATRoute e ifName ip"
| "win_exec e (CleanupSNAT ifName ip) = win_cleanupSNATRoute ifName ip"
| "win_exec e (RemoveTun ifName) = []"
| "win_exec e StopPlatformVPN = []"

section \<open>Properties\<close>

text \<open>What the commands leave in the tables of \<^verbatim>\<open>iptables\<close>, which appends a rule for \<^verbatim>\<open>-A\<close> and deletes one equal rule for \<^verbatim>\<open>-D\<close>: a rule is the list of its
  arguments without the operation.\<close>

definition ipt_op :: "string \<Rightarrow> bool" where
  "ipt_op a \<longleftrightarrow> a = ''-A'' \<or> a = ''-D''"

definition iptables :: "argv \<Rightarrow> argv multiset \<Rightarrow> argv multiset" where
  "iptables cmd rules =
     (if cmd = [] \<or> hd cmd \<noteq> ''iptables'' \<or> dropWhile (\<lambda>a. \<not> ipt_op a) cmd = [] then rules
      else
        (let op' = hd (dropWhile (\<lambda>a. \<not> ipt_op a) cmd); r = takeWhile (\<lambda>a. \<not> ipt_op a) cmd @ tl (dropWhile (\<lambda>a. \<not> ipt_op a) cmd) in
         if op' = ''-A'' then add_mset r rules else rules - {#r#}))"

definition lin_rules :: "platEnv \<Rightarrow> oscmd list \<Rightarrow> argv multiset" where
  "lin_rules e cmds = fold iptables (concat (map (lin_exec e) cmds)) {#}"

definition vpn_rules :: "string \<Rightarrow> argv multiset" where
  "vpn_rules ifName =
     {#[''iptables'', ''-t'', ''nat'', ''POSTROUTING'', ''-s'', ''10.7.0.0/24'', ''!'', ''-o'', ifName, ''-j'', ''MASQUERADE''],
       [''iptables'', ''FORWARD'', ''-i'', ifName, ''-j'', ''ACCEPT''],
       [''iptables'', ''FORWARD'', ''-o'', ifName, ''-m'', ''state'', ''--state'', ''RELATED,ESTABLISHED'', ''-j'', ''ACCEPT'']#}"

lemma fold_enableNAT: "fold iptables (lin_enableNAT i) rules = rules + vpn_rules i"
  by (simp add: lin_enableNAT_def iptables_def ipt_op_def vpn_rules_def)

lemma fold_disableNAT: "fold iptables (lin_disableNAT i) rules = rules - vpn_rules i"
  by (simp add: lin_disableNAT_def iptables_def ipt_op_def vpn_rules_def add_mset_commute)

definition changes_rules :: "oscmd \<Rightarrow> bool" where
  "changes_rules cmd \<longleftrightarrow> (\<exists>i. cmd = EnableNAT i \<or> cmd = DisableNAT i)"

lemma fold_other: "\<not> changes_rules cmd \<Longrightarrow> fold iptables (lin_exec e cmd) rules = rules"
  by (cases cmd) (auto simp: changes_rules_def iptables_def lin_addRoute_def lin_removeRoute_def lin_protectServerRoute_def lin_removeServerRoute_def
      lin_enableIPForwarding_def lin_setupSNATRoute_def lin_cleanupSNATRoute_def lin_removeTunInterface_def Let_def split: option.splits)

lemma lin_rules_append: "lin_rules e (cs @ ds) = fold iptables (concat (map (lin_exec e) ds)) (lin_rules e cs)"
  by (simp add: lin_rules_def)

lemma fold_others: "list_all (\<lambda>cmd. \<not> changes_rules cmd) cmds \<Longrightarrow> fold iptables (concat (map (lin_exec e) cmds)) rules = rules"
  by (induction cmds arbitrary: rules) (simp_all add: fold_other)

text \<open>The platform commands of stopping a device; sending and reporting add none.\<close>

lemma os_sendMsg: "c_os (fst (sendMsg m c)) = c_os c"
  by (simp add: sendMsg_def split: option.splits)

lemma os_sendRelay: "c_os (fst (sendRelay P p t v c)) = c_os c"
  by (auto simp: sendRelay_def Let_def os_sendMsg split: option.splits prod.splits if_splits)

definition stop_cmds :: "tunDevice \<Rightarrow> oscmd list" where
  "stop_cmds dev = map (RemoveRoute (td_ifName dev)) (td_routes dev) @
     [CleanupSNAT (td_ifName dev) (td_snatIP dev), DisableNAT (td_ifName dev), RemoveTun (td_ifName dev), RemoveServerRoute (td_serverHost dev)]"

lemma os_stopTunDevice: "c_os (stopTunDevice P dev c) = c_os c @ stop_cmds dev \<or> c_os (stopTunDevice P dev c) = c_os c @ stop_cmds dev @ [StopPlatformVPN]"
  by (simp add: stopTunDevice_def Let_def os_def ReportFeatures_def os_sendMsg os_sendRelay stop_cmds_def)

lemma fold_stop_cmds: "fold iptables (concat (map (lin_exec e) (stop_cmds dev))) rules = rules - vpn_rules (td_ifName dev)"
proof -
  have "list_all (\<lambda>cmd. \<not> changes_rules cmd) (map (RemoveRoute (td_ifName dev)) (td_routes dev))" by (simp add: list_all_iff changes_rules_def)
  from fold_others [OF this, of e] show ?thesis
    by (simp add: stop_cmds_def fold_disableNAT fold_other changes_rules_def del: lin_exec.simps)
      (simp add: fold_disableNAT)
qed

lemma fold_background: "routes \<noteq> [] \<Longrightarrow> fold iptables (concat (map (lin_exec e) (background_os host dev routes))) rules = rules + vpn_rules (td_ifName dev)"
  by (cases "host = []") (auto simp: background_os_def fold_enableNAT fold_other [of "ProtectServer host", simplified] fold_other [of EnableForwarding, simplified]
      fold_other [of "SetupSNAT i ip" for i ip, simplified] changes_rules_def split: option.splits)

text \<open>On Linux stopping a VPN takes back the firewall rules of its set-up: after the set-up of a device with routes and the stop of this device
  the rules are those that were there before. If the peer ends the VPN instead, the rules stay.\<close>

theorem firewall_rules_taken_back:
  assumes "routes \<noteq> []"
  shows "lin_rules e (c_os (stopTunDevice P dev (os (background_os host dev routes) c))) = lin_rules e (c_os c) \<and>
     (mget (c_tunDevices c) p = Some dev \<longrightarrow>
        lin_rules e (c_os (handleTunTeardown p (os (background_os host dev routes) c))) = lin_rules e (c_os c) + vpn_rules (td_ifName dev))"
proof (intro conjI impI)
  let ?c = "os (background_os host dev routes) c"
  have s: "lin_rules e (c_os ?c) = lin_rules e (c_os c) + vpn_rules (td_ifName dev)"
    using fold_background [OF assms] by (simp add: os_def lin_rules_append)
  then have "lin_rules e (c_os ?c @ stop_cmds dev @ cs) = fold iptables (concat (map (lin_exec e) cs)) (lin_rules e (c_os c))" for cs
    by (simp add: lin_rules_append fold_stop_cmds)
  from this [of "[]"] this [of "[StopPlatformVPN]"] show "lin_rules e (c_os (stopTunDevice P dev ?c)) = lin_rules e (c_os c)"
    using os_stopTunDevice [of P dev ?c] by auto
  assume "mget (c_tunDevices c) p = Some dev"
  then have "c_os (handleTunTeardown p ?c) = c_os ?c @ [CleanupSNAT (td_ifName dev) (td_snatIP dev), RemoveTun (td_ifName dev), RemoveServerRoute (td_serverHost dev)]"
    by (simp add: handleTunTeardown_def os_def)
  moreover have "list_all (\<lambda>cmd. \<not> changes_rules cmd) [CleanupSNAT (td_ifName dev) (td_snatIP dev), RemoveTun (td_ifName dev), RemoveServerRoute (td_serverHost dev)]"
    by (simp add: changes_rules_def)
  ultimately show "lin_rules e (c_os (handleTunTeardown p ?c)) = lin_rules e (c_os c) + vpn_rules (td_ifName dev)"
    using s by (simp only: lin_rules_append fold_others)
qed

text \<open>The rule that translates addresses covers the first VPN only: an address of the network of the VPN with index \<open>i\<close> lies in it exactly for \<open>i = 0\<close>.\<close>

lemma masquerade_first_vpn_only:
  assumes "i < 256"
  shows "\<exists>rn. parse_cidr ''10.7.0.0/24'' = Some rn \<and> (net_contains rn (be32 10 7 (of_nat i) k) \<longleftrightarrow> i = 0)"
proof -
  have "parse_cidr ''10.7.0.0/24'' = Some (be32 10 7 0 0, 0xFFFFFF00)"
    using parse_vpn_subnet [of 0] by (simp add: vpn_subnet_def show_nat.simps [of 0] char_of_def bit_0)
  moreover have "be32 10 7 (of_nat i) k AND 0xFFFFFF00 = be32 10 7 (of_nat i) 0"
    using vpn_subnet_contains [of "of_nat i" k] by (simp add: net_contains_def)
  moreover have "be32 10 7 (of_nat i) 0 = be32 10 7 0 0 \<longleftrightarrow> i = 0"
  proof
    assume "be32 10 7 (of_nat i) 0 = be32 10 7 0 0"
    then have "bytes32 (be32 10 7 (of_nat i) 0) = bytes32 (be32 10 7 0 0)" by (rule arg_cong)
    then have "unat (of_nat i :: byte) = 0" by simp
    then show "i = 0" using assms by (simp add: unat_of_nat)
  qed simp
  ultimately show ?thesis by (simp add: net_contains_def)
qed

text \<open>An address that \<^verbatim>\<open>detectPhysicalIP\<close> may choose.\<close>

definition eligible :: "ifInfo \<Rightarrow> u32 \<Rightarrow> bool" where
  "eligible i ip \<longleftrightarrow> ii_Up i \<and> \<not> ii_Loopback i \<and> \<not> ii_PointToPoint i \<and> \<not> skip_name (ii_Name i) \<and> (\<exists>as. ii_Addrs i = Some as \<and> IfNet (Some ip) \<in> set as) \<and>
     \<not> ip_refused ip \<and> (ip_octet 0 ip = 10 \<longrightarrow> ii_HardwareAddr i \<noteq> [])"

lemma addr_candidate_Some: "addr_candidate i a = Some (ip, j) \<longleftrightarrow> j = i \<and> a = IfNet (Some ip) \<and> \<not> ip_refused ip \<and> (ip_octet 0 ip = 10 \<longrightarrow> ii_HardwareAddr i \<noteq> [])"
  by (induction i a rule: addr_candidate.induct) auto

lemma iface_candidates_iff: "(ip, j) \<in> set (iface_candidates i) \<longleftrightarrow> j = i \<and> eligible i ip"
  by (auto simp: iface_candidates_def eligible_def map_filter_def addr_candidate_Some image_iff split: option.splits) (metis addr_candidate_Some option.sel)+

lemma find_some_candidate: "find Q xs = Some x \<Longrightarrow> x \<in> set xs \<and> Q x"
  by (metis find_Some_iff nth_mem)

definition first_of :: "('a \<times> 'b \<Rightarrow> bool) \<Rightarrow> ('a \<times> 'b \<Rightarrow> bool) \<Rightarrow> ('a \<times> 'b) list \<Rightarrow> 'a option" where
  "first_of W B cs = (case find W cs of Some c \<Rightarrow> Some (fst c)
     | None \<Rightarrow> (case find B cs of Some c \<Rightarrow> Some (fst c) | None \<Rightarrow> (case cs of [] \<Rightarrow> None | c # _ \<Rightarrow> Some (fst c))))"

lemma first_of_member: "first_of W B cs = Some ip \<Longrightarrow> \<exists>i. (ip, i) \<in> set cs"
  unfolding first_of_def by (auto split: option.splits list.splits dest!: find_some_candidate)

lemma first_of_None: "first_of W B cs = None \<longleftrightarrow> cs = []"
  by (auto simp: first_of_def split: option.splits list.splits)

lemma first_of_first: "c \<in> set cs \<Longrightarrow> W c \<Longrightarrow> \<exists>ip i. first_of W B cs = Some ip \<and> W (ip, i) \<and> (ip, i) \<in> set cs"
proof (cases "find W cs")
  case None
  moreover assume "c \<in> set cs" "W c"
  ultimately show ?thesis by (cases c) (auto simp: find_None_iff)
next
  case (Some d)
  then have "first_of W B cs = Some (fst d)" by (simp add: first_of_def)
  then show ?thesis using find_some_candidate [OF Some] by (cases d) auto
qed

text \<open>The address chosen for the sockets of the client is one of a physical interface: an interface that is up, neither loopback nor
  point-to-point nor named like a virtual one; it is no loopback, link-local or benchmarking address, and an interface without a hardware
  address contributes no private 10.0.0.0/8 address. An address is found whenever there is an eligible one, and one of a wireless interface if
  there is one.\<close>

theorem physical_interface:
  assumes "pe_ifaces e = Some ifs"
  shows "(\<forall>ip. detectPhysicalIP e = Some ip \<longrightarrow> (\<exists>i\<in>set ifs. eligible i ip)) \<and>
     (detectPhysicalIP e = None \<longleftrightarrow> \<not> (\<exists>i\<in>set ifs. \<exists>ip. eligible i ip)) \<and>
     ((\<exists>i\<in>set ifs. \<exists>ip. isWifi (ii_Name i) \<and> eligible i ip) \<longrightarrow>
        (\<exists>ip. \<exists>i\<in>set ifs. detectPhysicalIP e = Some ip \<and> isWifi (ii_Name i) \<and> eligible i ip))"
proof -
  define cs where "cs = concat (map iface_candidates ifs)"
  have mem: "(ip, i) \<in> set cs \<longleftrightarrow> i \<in> set ifs \<and> eligible i ip" for ip i by (auto simp: cs_def iface_candidates_iff)
  have val: "detectPhysicalIP e = first_of (\<lambda>(ip, i). isWifi (ii_Name i)) (\<lambda>(ip, i). ii_Broadcast i) cs"
    using assms by (simp add: detectPhysicalIP_def first_of_def Let_def cs_def)
  have empty: "cs = [] \<longleftrightarrow> \<not> (\<exists>i\<in>set ifs. \<exists>ip. eligible i ip)" using mem by (cases cs) auto
  let ?W = "\<lambda>(ip :: u32, i). isWifi (ii_Name i)" and ?B = "\<lambda>(ip :: u32, i). ii_Broadcast i"
  have "\<exists>i\<in>set ifs. eligible i ip" if "detectPhysicalIP e = Some ip" for ip
    using first_of_member [OF that [unfolded val]] mem by blast
  moreover have "detectPhysicalIP e = None \<longleftrightarrow> \<not> (\<exists>i\<in>set ifs. \<exists>ip. eligible i ip)" unfolding val first_of_None empty ..
  moreover have "\<exists>ip. \<exists>i\<in>set ifs. detectPhysicalIP e = Some ip \<and> isWifi (ii_Name i) \<and> eligible i ip"
    if el: "i \<in> set ifs" "isWifi (ii_Name i)" "eligible i ip" for i ip
  proof -
    have "(ip, i) \<in> set cs" "?W (ip, i)" using el mem by simp_all
    from first_of_first [of "(ip, i)" cs ?W ?B, OF this] show ?thesis unfolding val [symmetric] mem by auto
  qed
  ultimately show ?thesis by blast
qed

text \<open>The names that are skipped include the one that Windows gives to its first network adapter.\<close>

lemma local_area_connection_skipped: "skip_name ''Local Area Connection''"
  by code_simp

text \<open>The exit address lies in the routed network and belongs to an interface that is up.\<close>

lemma exit_address_in_network:
  assumes "detectExitIP e subnet = Some ip"
  shows "\<exists>rn ifs i. parse_cidr subnet = Some rn \<and> net_contains rn ip \<and> pe_ifaces e = Some ifs \<and> i \<in> set ifs \<and> ii_Up i \<and> \<not> ii_Loopback i \<and> ip \<in> set (iface_ips i)"
proof -
  obtain rn ifs where r: "parse_cidr subnet = Some rn" "pe_ifaces e = Some ifs" "find (net_contains rn) (concat (map iface_ips ifs)) = Some ip"
    using assms by (auto simp: detectExitIP_def split: option.splits)
  from find_some_candidate [OF r(3)] obtain i where i: "net_contains rn ip" "i \<in> set ifs" "ip \<in> set (iface_ips i)" by auto
  then have "ii_Up i \<and> \<not> ii_Loopback i" by (auto simp: iface_ips_def split: if_splits)
  with r i show ?thesis by blast
qed

text \<open>On Windows the rules do not depend on the interface: the commands that stop one VPN delete the rules of every other one.\<close>

lemma windows_rules_shared: "win_disableNAT i = win_disableNAT j \<and> win_enableNAT i = win_enableNAT j"
  by (simp add: win_disableNAT_def win_enableNAT_def)

lemma mac_frame_read: "b \<noteq> [] \<Longrightarrow> length b \<le> n \<Longrightarrow> mac_read n (mac_frame b) = Some b"
  by (simp add: mac_read_def mac_frame_def)

end
