(* ===== verification/Punchtest.thy ===== *)
theory Punchtest
  imports Dispatch Discovery
begin

text \<open>
  The hole punching test, \<^verbatim>\<open>src/tools/punchtest/main.go\<close>: a program that joins a room, exchanges endpoints with the peers and tries to reach each of
  them in three phases.

  \<^item> \<open>pt_ws\<close> and \<open>pt_udp\<close> are the messages and datagrams sent, in order; the sockets of the birthday phase are distinguished from the main one.
  \<^item> While a phase runs the goroutines that read from the server and the socket run too: \<open>env n\<close> is what they have done to the state before the step
    \<open>n\<close> of the phase.
  \<^item> Times are in milliseconds. \<open>None\<close> is a panic.
\<close>

section \<open>State\<close>

record toolPeer =
  tp_ID :: string
  tp_Status :: string
  tp_Name :: string
  tp_Endpoint :: string

record punchResult =
  pr_PeerID :: string
  pr_PeerName :: string
  pr_PeerEndpoint :: string
  pr_Phase1Sent :: int
  pr_Phase2Sent :: int
  pr_Phase3Sent :: int
  pr_Received :: int
  pr_Success :: bool
  pr_SuccessTime :: int
  pr_SuccessPhase :: string
  pr_SuccessAddr :: string
  pr_StartTime :: int

datatype toolSocket = MainSocket | BirthdaySocket nat

record punchTest =
  pt_room :: string
  pt_passwordHash :: string
  pt_name :: string
  pt_myID :: string
  pt_conn :: bool
  pt_publicAddr :: string
  pt_localAddr :: string
  pt_peers :: "toolPeer list"
  pt_punchResults :: "(string \<times> punchResult) list"
  pt_seenStunInfo :: "string list"
  pt_punchCount :: nat
  pt_birthdaySock :: nat
  pt_portRange :: nat
  pt_done :: bool
  pt_ws :: "message list"
  pt_udp :: "(toolSocket \<times> endpoint \<times> bytes) list"

definition tool_shortID :: "string \<Rightarrow> string" where
  "tool_shortID i = (if length i > 12 then take 12 i @ ''...'' else i)"

definition generateTestID :: "(bytes \<Rightarrow> bytes) \<Rightarrow> bytes \<Rightarrow> string \<Rightarrow> string" where
  "generateTestID sha rnd name = hex_enc (take 8 (sha (take 8 rnd @ str_bytes name)))"

section \<open>The public address\<close>

text \<open>\<^verbatim>\<open>parseXorMapped\<close> from an offset: the address, an error (\<open>Inl\<close>) or a panic. An address of another family is skipped without its
  padding.\<close>

function parseXorMapped :: "bytes \<Rightarrow> nat \<Rightarrow> (string + string \<times> u16) option" where
  "parseXorMapped attrs offset =
     (if offset + 4 \<le> length attrs then
        (case (u16at attrs offset, u16at attrs (offset + 2)) of
           (Some attrType, Some lenw) \<Rightarrow>
             (let attrLen = unat lenw; off = offset + 4 in
              if off + attrLen > length attrs then Some (Inl ''XOR-MAPPED-ADDRESS not found'')
              else if attrType = StunAttrXorMapped \<and> attrLen \<ge> 8 then
                (if attrs ! (off + 1) \<noteq> 1 then parseXorMapped attrs (off + attrLen)
                 else
                   (let rawPort = be16 (attrs ! (off + 2)) (attrs ! (off + 3));
                        rawIP = be32 (attrs ! (off + 4)) (attrs ! (off + 5)) (attrs ! (off + 6)) (attrs ! (off + 7))
                    in Some (Inr (ipv4_str (rawIP XOR StunMagicCookie), rawPort XOR ucast (drop_bit 16 StunMagicCookie)))))
              else parseXorMapped attrs (off + attrLen + attr_pad attrLen))
         | _ \<Rightarrow> None)
      else Some (Inl ''XOR-MAPPED-ADDRESS not found''))"
  by pat_completeness auto
termination
  by (relation "measure (\<lambda>(attrs, offset). length attrs - offset)") auto

declare parseXorMapped.simps [simp del]

text \<open>The response in \<open>stunDiscover\<close> and \<open>quickNATCheck\<close>; the slice of the attributes is bounded by the buffer.\<close>

definition tool_response :: "bytes \<Rightarrow> nat \<Rightarrow> bytes \<Rightarrow> (string + string) option" where
  "tool_response buf n txID =
     (if n < StunHeaderSize then Some (Inl ''response too short'')
      else do {
        msgType \<leftarrow> u16at buf 0;
        tx \<leftarrow> slice buf 8 20;
        if msgType \<noteq> 0x0101 then Some (Inl ''not a binding response'')
        else if tx \<noteq> txID then Some (Inl ''txID mismatch'')
        else do {
          msgLen \<leftarrow> u16at buf 2;
          attrs \<leftarrow> slice buf StunHeaderSize (StunHeaderSize + unat msgLen);
          r \<leftarrow> parseXorMapped attrs 0;
          Some (map_sum id (\<lambda>(ip, port). ip @ '':'' @ show_nat (unat port)) r) } })"

definition tool_stunDiscover :: "prims \<Rightarrow> query \<Rightarrow> string \<Rightarrow> (string + string) option" where
  "tool_stunDiscover P q server = (case p_resolve P server of None \<Rightarrow> Some (Inl ''resolve'')
     | Some _ \<Rightarrow> if \<not> q_listenOk q then Some (Inl ''listen'')
         else case q_answer q of None \<Rightarrow> Some (Inl ''read'') | Some (buf, n) \<Rightarrow> tool_response buf n (q_txID q))"

fun check_servers :: "prims \<Rightarrow> (nat \<Rightarrow> query) \<Rightarrow> nat \<Rightarrow> string list \<Rightarrow> string list option" where
  "check_servers P q k [] = Some []"
| "check_servers P q k (srv # servers) = (case p_resolve P srv of None \<Rightarrow> check_servers P q (Suc k) servers
     | Some _ \<Rightarrow> (case q_answer (q k) of None \<Rightarrow> check_servers P q (Suc k) servers
       | Some (buf, n) \<Rightarrow> do {
           r \<leftarrow> tool_response buf n (q_txID (q k));
           rest \<leftarrow> check_servers P q (Suc k) servers;
           Some (case r of Inl e \<Rightarrow> rest | Inr a \<Rightarrow> a # rest) }))"

definition quickNATCheck :: "prims \<Rightarrow> bool \<Rightarrow> (nat \<Rightarrow> query) \<Rightarrow> string \<Rightarrow> string \<Rightarrow> string option" where
  "quickNATCheck P listenOk q firstAddr localIP =
     (if (case split_host_port firstAddr of None \<Rightarrow> [] | Some (h, p) \<Rightarrow> h) = localIP then Some ''Open Internet (NAT1)''
      else if \<not> listenOk then Some ''Unknown''
      else do {
        addrs \<leftarrow> check_servers P q 0 [''stun.miwifi.com:3478'', ''stun.l.google.com:19302''];
        Some (case addrs of a # b # _ \<Rightarrow> if a = b then ''Cone NAT (NAT1-3)'' else ''Symmetric NAT (NAT4)'' | _ \<Rightarrow> ''Cone NAT (NAT1-3)'') })"

section \<open>The server\<close>

definition tool_sendMsg :: "message \<Rightarrow> punchTest \<Rightarrow> punchTest" where
  "tool_sendMsg m pt = (if pt_conn pt then pt\<lparr>pt_ws := pt_ws pt @ [m]\<rparr> else pt)"

text \<open>\<^verbatim>\<open>connect\<close>; errors of the payload are ignored.\<close>

definition tool_connect :: "json option \<Rightarrow> punchTest \<Rightarrow> punchTest \<times> bool" where
  "tool_connect frame pt = (case frame of None \<Rightarrow> (pt, False)
     | Some v \<Rightarrow> (case welcome_payload v of None \<Rightarrow> (pt, False) | Some (i, _) \<Rightarrow> (pt\<lparr>pt_myID := i, pt_conn := True\<rparr>, True)))"

definition tool_joinRoom :: "punchTest \<Rightarrow> punchTest" where
  "tool_joinRoom pt = tool_sendMsg \<lparr>mType = ''join'', mFrom = [], mTo = [], mRoom = pt_room pt,
     mPayload = Some (enc_strmap [(''room'', pt_room pt), (''password_hash'', pt_passwordHash pt), (''name'', pt_name pt)], 0)\<rparr> pt"

definition stun_info_to :: "string \<Rightarrow> punchTest \<Rightarrow> punchTest" where
  "stun_info_to to' pt = tool_sendMsg \<lparr>mType = ''stun_info'', mFrom = [], mTo = to', mRoom = pt_room pt,
     mPayload = Some (enc_strmap [(''addr'', pt_publicAddr pt), (''local'', pt_localAddr pt)], 0)\<rparr> pt"

definition broadcastStunInfo :: "punchTest \<Rightarrow> punchTest" where
  "broadcastStunInfo pt = stun_info_to [] pt"

definition dec_toolPeer :: "json \<Rightarrow> toolPeer decoded" where
  "dec_toolPeer v = (let (kvs, ok0) = obj_members v; (i, ok1) = get_str ''id'' kvs; (st, ok2) = get_str ''status'' kvs;
        (n, ok3) = get_str ''name'' kvs; (ep, ok4) = get_str ''endpoint'' kvs
      in (\<lparr>tp_ID = i, tp_Status = st, tp_Name = n, tp_Endpoint = ep\<rparr>, ok0 \<and> ok1 \<and> ok2 \<and> ok3 \<and> ok4))"

fun dec_toolPeers :: "json \<Rightarrow> toolPeer list option" where
  "dec_toolPeers (JArr vs) = (if list_all (\<lambda>v. snd (dec_toolPeer v)) vs then Some (map (fst \<circ> dec_toolPeer) vs) else None)"
| "dec_toolPeers JNull = Some []"
| "dec_toolPeers _ = None"

fun set_endpoint :: "string \<Rightarrow> string \<Rightarrow> toolPeer list \<Rightarrow> toolPeer list" where
  "set_endpoint i a [] = []"
| "set_endpoint i a (p # ps) = (if tp_ID p = i then p\<lparr>tp_Endpoint := a\<rparr> # ps else p # set_endpoint i a ps)"

definition host_of :: "string \<Rightarrow> string" where
  "host_of a = (case split_host_port a of None \<Rightarrow> [] | Some (h, p) \<Rightarrow> h)"

text \<open>The address to punch: the local one for a peer behind the same public address.\<close>

definition target_addr :: "string \<Rightarrow> string \<Rightarrow> string \<Rightarrow> string" where
  "target_addr own addr local =
     (if local \<noteq> [] \<and> own \<noteq> [] \<and> host_of own \<noteq> [] \<and> host_of own = host_of addr then local else addr)"

definition tool_handleMessage :: "message \<Rightarrow> punchTest \<Rightarrow> punchTest" where
  "tool_handleMessage m pt =
     (if mType m = ''peer_list'' then
        (case mPayload m of None \<Rightarrow> pt | Some (v, _) \<Rightarrow> (case dec_toolPeers v of None \<Rightarrow> pt | Some ps \<Rightarrow> pt\<lparr>pt_peers := ps\<rparr>))
      else if mType m = ''stun_info'' then
        (if mFrom m = [] \<or> mFrom m = pt_myID pt then pt
         else case mPayload m of None \<Rightarrow> pt
           | Some (v, _) \<Rightarrow>
              (let (kvs, ok0) = obj_members v; (addr, ok1) = get_str ''addr'' kvs; (local, ok2) = get_str ''local'' kvs in
               if \<not> (ok0 \<and> ok1 \<and> ok2) \<or> addr = [] then pt
               else
                 (let targetAddr = target_addr (pt_publicAddr pt) addr local; key = mFrom m @ '':'' @ targetAddr;
                      pt1 = pt\<lparr>pt_peers := set_endpoint (mFrom m) targetAddr (pt_peers pt)\<rparr>
                  in if key \<in> set (pt_seenStunInfo pt) then pt1
                     else stun_info_to (mFrom m) (pt1\<lparr>pt_seenStunInfo := key # pt_seenStunInfo pt\<rparr>))))
      else pt)"

section \<open>Punching\<close>

definition tool_targets :: "punchTest \<Rightarrow> toolPeer list" where
  "tool_targets pt = filter (\<lambda>p. tp_ID p \<noteq> pt_myID pt \<and> tp_Endpoint p \<noteq> []) (pt_peers pt)"

definition peer_label :: "toolPeer \<Rightarrow> string" where
  "peer_label p = (if tp_Name p = [] then tool_shortID (tp_ID p) else tp_Name p)"

definition new_result :: "string \<Rightarrow> string \<Rightarrow> string \<Rightarrow> int \<Rightarrow> punchResult" where
  "new_result i name ep start = \<lparr>pr_PeerID = i, pr_PeerName = name, pr_PeerEndpoint = ep, pr_Phase1Sent = 0, pr_Phase2Sent = 0, pr_Phase3Sent = 0, pr_Received = 0,
     pr_Success = False, pr_SuccessTime = 0, pr_SuccessPhase = [], pr_SuccessAddr = [], pr_StartTime = start\<rparr>"

definition init_results :: "int \<Rightarrow> punchTest \<Rightarrow> punchTest" where
  "init_results now pt =
     pt\<lparr>pt_punchResults := fold (\<lambda>p rs. mput (tp_ID p) (new_result (tp_ID p) (peer_label p) (tp_Endpoint p) now) rs) (tool_targets pt) (pt_punchResults pt)\<rparr>"

definition tool_punch :: "punchTest \<Rightarrow> bytes" where
  "tool_punch pt = str_bytes (''PUNCH:'' @ pt_myID pt)"

definition tool_send :: "toolSocket \<Rightarrow> endpoint \<Rightarrow> bytes \<Rightarrow> punchTest \<Rightarrow> punchTest" where
  "tool_send s a d pt = pt\<lparr>pt_udp := pt_udp pt @ [(s, a, d)]\<rparr>"

definition upd_result :: "string \<Rightarrow> (punchResult \<Rightarrow> punchResult) \<Rightarrow> punchTest \<Rightarrow> punchTest" where
  "upd_result i f pt = (case mget (pt_punchResults pt) i of None \<Rightarrow> pt | Some r \<Rightarrow> pt\<lparr>pt_punchResults := mput i (f r) (pt_punchResults pt)\<rparr>)"

text \<open>Phase 1: a burst of packets; the flag is false if the test was stopped.\<close>

fun phase1 :: "(nat \<Rightarrow> punchTest \<Rightarrow> punchTest) \<Rightarrow> string \<Rightarrow> endpoint \<Rightarrow> nat \<Rightarrow> punchTest \<Rightarrow> punchTest \<times> bool" where
  "phase1 env i a 0 pt = (pt, True)"
| "phase1 env i a (Suc n) pt =
     (let pt = env n pt in
      if pt_done pt then (pt, False)
      else phase1 env i a n (upd_result i (\<lambda>r. r\<lparr>pr_Phase1Sent := pr_Phase1Sent r + 1\<rparr>) (tool_send MainSocket a (tool_punch pt) pt)))"

text \<open>Phase 2: five packets from each of the sockets that could be opened; in some order.\<close>

fun phase2 :: "(nat \<Rightarrow> punchTest \<Rightarrow> punchTest) \<Rightarrow> string \<Rightarrow> endpoint \<Rightarrow> nat list \<Rightarrow> punchTest \<Rightarrow> punchTest" where
  "phase2 env i a [] pt = pt"
| "phase2 env i a (s # ss) pt =
     (let pt = env (length ss) pt in
      phase2 env i a ss (upd_result i (\<lambda>r. r\<lparr>pr_Phase2Sent := pr_Phase2Sent r + 1\<rparr>) (tool_send (BirthdaySocket s) a (tool_punch pt) pt)))"

text \<open>Phase 3: the neighbouring ports.\<close>

definition port_offsets :: "nat \<Rightarrow> int list" where
  "port_offsets n = filter (\<lambda>d. d \<noteq> 0) [- int n .. int n]"

fun phase3 :: "(nat \<Rightarrow> punchTest \<Rightarrow> punchTest) \<Rightarrow> string \<Rightarrow> endpoint \<Rightarrow> int list \<Rightarrow> punchTest \<Rightarrow> punchTest \<times> bool" where
  "phase3 env i a [] pt = (pt, True)"
| "phase3 env i a (d # ds) pt =
     (let pt = env (length ds) pt in
      if pt_done pt then (pt, False)
      else
        (let p = int (unat (snd a)) + d in
         if p \<le> 0 \<or> p > 65535 then phase3 env i a ds pt
         else phase3 env i a ds (upd_result i (\<lambda>r. r\<lparr>pr_Phase3Sent := pr_Phase3Sent r + 1\<rparr>)
                (tool_send MainSocket (fst a, of_int p) (tool_punch pt) pt))))"

definition succeeded :: "string \<Rightarrow> punchTest \<Rightarrow> bool" where
  "succeeded i pt = (case mget (pt_punchResults pt) i of None \<Rightarrow> False | Some r \<Rightarrow> pr_Success r)"

text \<open>\<^verbatim>\<open>punchPeer\<close>; \<open>order\<close> are the sockets of phase 2 in the order of their packets, and \<open>late\<close> is what happens in the five seconds at the end. A
  panic is not possible.\<close>

definition punchPeer ::
  "prims \<Rightarrow> (nat \<Rightarrow> nat \<Rightarrow> punchTest \<Rightarrow> punchTest) \<Rightarrow> nat list \<Rightarrow> (punchTest \<Rightarrow> punchTest) \<Rightarrow> toolPeer \<Rightarrow> punchTest \<Rightarrow> punchTest" where
  "punchPeer P env order late peer pt = (case p_resolve P (tp_Endpoint peer) of None \<Rightarrow> pt
     | Some a \<Rightarrow>
        if mget (pt_punchResults pt) (tp_ID peer) = None then pt
        else
          (let (pt1, goOn1) = phase1 (env 1) (tp_ID peer) a (pt_punchCount pt) pt in
           if \<not> goOn1 \<or> succeeded (tp_ID peer) pt1 then pt1
           else
             (let pt2 = phase2 (env 2) (tp_ID peer) a order pt1 in
              if succeeded (tp_ID peer) pt2 then pt2
              else
                (let (pt3, goOn3) = phase3 (env 3) (tp_ID peer) a (port_offsets (pt_portRange pt)) pt2 in
                 if \<not> goOn3 \<or> succeeded (tp_ID peer) pt3 then pt3 else late pt3))))"

section \<open>Answers\<close>

definition success_phase :: "string \<Rightarrow> punchResult \<Rightarrow> string" where
  "success_phase via r =
     (if pr_Phase1Sent r = 0 \<and> pr_Phase2Sent r = 0 \<and> pr_Phase3Sent r = 0 then ''Peer-initiated ('' @ via @ '')''
      else if pr_Phase3Sent r > 0 then ''Phase 3 (Port Prediction)''
      else if pr_Phase2Sent r > 0 then ''Phase 2 (Birthday Attack)'' else ''Phase 1 (Rapid Burst)'')"

definition recordSuccess :: "int \<Rightarrow> string \<Rightarrow> endpoint \<Rightarrow> string \<Rightarrow> punchTest \<Rightarrow> punchTest" where
  "recordSuccess now i a via pt =
     (let name = (case find (\<lambda>p. tp_ID p = i \<and> tp_Name p \<noteq> []) (pt_peers pt) of None \<Rightarrow> tool_shortID i | Some p \<Rightarrow> tp_Name p);
          r = (case mget (pt_punchResults pt) i of Some r \<Rightarrow> r | None \<Rightarrow> new_result i name [] (now - 1000));
          r' = (if pr_Success r then r
                else r\<lparr>pr_Received := pr_Received r + 1, pr_Success := True, pr_SuccessTime := now - pr_StartTime r,
                       pr_SuccessAddr := addr_str (fst a) (snd a), pr_SuccessPhase := success_phase via r\<rparr>)
      in pt\<lparr>pt_punchResults := mput i r' (pt_punchResults pt)\<rparr>)"

text \<open>One datagram of \<^verbatim>\<open>udpReadLoop\<close>.\<close>

definition tool_datagram :: "int \<Rightarrow> bytes \<Rightarrow> endpoint \<Rightarrow> punchTest \<Rightarrow> punchTest" where
  "tool_datagram now data from' pt =
     (if pt_done pt then pt
      else if bpre data ''PUNCH:'' then
        recordSuccess now (bytes_str (drop 6 data)) from' ''PUNCH'' (tool_send MainSocket from' (str_bytes (''PUNCH_ACK:'' @ pt_myID pt)) pt)
      else if bpre data ''PUNCH_ACK:'' then recordSuccess now (bytes_str (drop 10 data)) from' ''ACK'' pt
      else pt)"

section \<open>The report\<close>

datatype analysis = NoAttempts | AllSucceeded | PartialSuccess | AllFailed

definition printReport :: "punchTest \<Rightarrow> int \<times> int \<times> int \<times> analysis" where
  "printReport pt =
     (let rs = map snd (pt_punchResults pt); ok = int (length (filter pr_Success rs)); failed = int (length (filter (\<lambda>r. \<not> pr_Success r) rs)); total = ok + failed in
      if rs = [] then (0, 0, 0, NoAttempts)
      else (ok, failed, if total > 0 then ok * 100 div total else 0,
            if ok > 0 \<and> failed = 0 then AllSucceeded else if ok > 0 then PartialSuccess else AllFailed))"


section \<open>The run\<close>

text \<open>\<^verbatim>\<open>main\<close>: the state with the flags; a negative number of packets or ports acts as 0.\<close>

definition tool_new :: "(bytes \<Rightarrow> bytes) \<Rightarrow> string \<Rightarrow> string \<Rightarrow> string \<Rightarrow> int \<Rightarrow> int \<Rightarrow> int \<Rightarrow> punchTest" where
  "tool_new sha room password name packets birthday portRange =
     \<lparr>pt_room = room, pt_passwordHash = (if password = [] then [] else hex_enc (sha (str_bytes password))), pt_name = name, pt_myID = [], pt_conn = False,
      pt_publicAddr = [], pt_localAddr = [], pt_peers = [], pt_punchResults = [], pt_seenStunInfo = [], pt_punchCount = nat packets, pt_birthdaySock = nat birthday,
      pt_portRange = nat portRange, pt_done = False, pt_ws = [], pt_udp = []\<rparr>"

definition tool_discover :: "prims \<Rightarrow> (nat \<Rightarrow> query) \<Rightarrow> string \<Rightarrow> (nat \<Rightarrow> nat) \<Rightarrow> punchTest \<Rightarrow> (punchTest \<times> bool) option" where
  "tool_discover P q localIP localPort pt = do {
     r0 \<leftarrow> tool_stunDiscover P (q 0) ''stun.cloudflare.com:3478'';
     (r, k) \<leftarrow> (case r0 of Inr a \<Rightarrow> Some (r0, 0) | Inl _ \<Rightarrow> map_option (\<lambda>r. (r, 1)) (tool_stunDiscover P (q 1) ''stun.miwifi.com:3478''));
     Some (case r of Inl _ \<Rightarrow> (pt, False)
       | Inr a \<Rightarrow> (pt\<lparr>pt_publicAddr := a, pt_localAddr := localIP @ '':'' @ show_nat (localPort k)\<rparr>, True)) }"

text \<open>\<^verbatim>\<open>run\<close>. The functions \<open>found\<close>, \<open>settle\<close> and \<open>later\<close> are what the reader of the server's messages does while the tool waits for peers, for
  their endpoints and once more for endpoints; \<open>attempts\<close> is the joint effect of the goroutines that punch and of the reader of datagrams up to the
  end or the timeout. Without a report the run ended with an error.\<close>

definition tool_run ::
  "prims \<Rightarrow> (nat \<Rightarrow> query) \<Rightarrow> string \<Rightarrow> (nat \<Rightarrow> nat) \<Rightarrow> bool \<Rightarrow> (nat \<Rightarrow> query) \<Rightarrow> json option \<Rightarrow> (punchTest \<Rightarrow> punchTest) \<Rightarrow> (punchTest \<Rightarrow> punchTest) \<Rightarrow> (punchTest \<Rightarrow> punchTest)
    \<Rightarrow> (toolPeer list \<Rightarrow> punchTest \<Rightarrow> punchTest) \<Rightarrow> int \<Rightarrow> punchTest \<Rightarrow> (punchTest \<times> (int \<times> int \<times> int \<times> analysis) option) option" where
  "tool_run P q localIP localPort listenOk qn frame found settle later attempts now pt = do {
     (pt1, ok1) \<leftarrow> tool_discover P q localIP localPort pt;
     if \<not> ok1 then Some (pt1, None)
     else do {
       natType \<leftarrow> quickNATCheck P listenOk qn (pt_publicAddr pt1) localIP;
       (let (pt2, ok2) = tool_connect frame pt1; pt3 = found (tool_joinRoom pt2) in
        if \<not> ok2 then Some (pt2, None)
        else if filter (\<lambda>p. tp_ID p \<noteq> pt_myID pt3) (pt_peers pt3) = [] then Some (pt3, None)
        else
          (let pt4 = settle (broadcastStunInfo pt3); pt5 = (if tool_targets pt4 = [] then later pt4 else pt4) in
           if tool_targets pt5 = [] then Some (pt5, Some (printReport pt5))
           else
             (let pt6 = attempts (tool_targets pt5) (init_results now pt5) in Some (pt6, Some (printReport pt6))))) } }"

section \<open>Lemmas\<close>

lemma tool_send_simps [simp]:
  "pt_udp (tool_send s a d pt) = pt_udp pt @ [(s, a, d)]" "pt_punchResults (tool_send s a d pt) = pt_punchResults pt"
  "pt_done (tool_send s a d pt) = pt_done pt" "pt_myID (tool_send s a d pt) = pt_myID pt" "pt_portRange (tool_send s a d pt) = pt_portRange pt"
  by (simp_all add: tool_send_def)

lemma upd_result_simps [simp]:
  "pt_udp (upd_result i f pt) = pt_udp pt" "pt_done (upd_result i f pt) = pt_done pt" "pt_myID (upd_result i f pt) = pt_myID pt"
  "pt_portRange (upd_result i f pt) = pt_portRange pt"
  "mget (pt_punchResults (upd_result i f pt)) j = (if j = i then map_option f (mget (pt_punchResults pt) i) else mget (pt_punchResults pt) j)"
  by (auto simp: upd_result_def split: option.splits)

lemma tool_punch_cong [simp]: "tool_punch (upd_result i f pt) = tool_punch pt" "tool_punch (tool_send s a d pt) = tool_punch pt"
  by (simp_all add: tool_punch_def)

lemma recordSuccess_succeeds: "succeeded i (recordSuccess now i a via pt)"
  by (auto simp: recordSuccess_def succeeded_def Let_def)

lemma recordSuccess_simps [simp]: "pt_udp (recordSuccess now i a via pt) = pt_udp pt" "pt_myID (recordSuccess now i a via pt) = pt_myID pt"
  by (simp_all add: recordSuccess_def Let_def)

lemma bpre_prefix: "bpre (str_bytes (s @ t)) s"
  by (simp add: bpre_def)

lemma bpre_punch_ack: "\<not> bpre (str_bytes (''PUNCH_ACK:'' @ i)) ''PUNCH:''"
  by (simp add: bpre_def str_bytes_def)

lemma tag_text: "bytes_str (drop (length s) (str_bytes (s @ t))) = t"
  by simp

lemma datagram_punch:
  assumes "\<not> pt_done pt"
  shows "tool_datagram now (str_bytes (''PUNCH:'' @ i)) a pt =
    recordSuccess now i a ''PUNCH'' (tool_send MainSocket a (str_bytes (''PUNCH_ACK:'' @ pt_myID pt)) pt)"
proof -
  define d where "d = str_bytes (''PUNCH:'' @ i)"
  have "bpre d ''PUNCH:''" "bytes_str (drop 6 d) = i" using bpre_prefix [of "''PUNCH:''" i] tag_text [of "''PUNCH:''" i] by (simp_all add: d_def)
  then have "tool_datagram now d a pt = recordSuccess now i a ''PUNCH'' (tool_send MainSocket a (str_bytes (''PUNCH_ACK:'' @ pt_myID pt)) pt)"
    using assms by (simp only: tool_datagram_def if_True if_False)
  then show ?thesis by (simp only: d_def)
qed

lemma datagram_ack:
  assumes "\<not> pt_done pt"
  shows "tool_datagram now (str_bytes (''PUNCH_ACK:'' @ i)) a pt = recordSuccess now i a ''ACK'' pt"
proof -
  define d where "d = str_bytes (''PUNCH_ACK:'' @ i)"
  have "bpre d ''PUNCH_ACK:''" "\<not> bpre d ''PUNCH:''" "bytes_str (drop 10 d) = i"
    using bpre_prefix [of "''PUNCH_ACK:''" i] bpre_punch_ack [of i] tag_text [of "''PUNCH_ACK:''" i] by (simp_all add: d_def)
  then have "tool_datagram now d a pt = recordSuccess now i a ''ACK'' pt"
    using assms by (simp only: tool_datagram_def if_True if_False)
  then show ?thesis by (simp only: d_def)
qed

text \<open>The phases without an answer.\<close>

lemma phase1_quiet:
  assumes "\<not> pt_done pt" "mget (pt_punchResults pt) i = Some r"
  obtains pt' where "phase1 (\<lambda>_. id) i a n pt = (pt', True)" "pt_udp pt' = pt_udp pt @ replicate n (MainSocket, a, tool_punch pt)"
    "mget (pt_punchResults pt') i = Some (r\<lparr>pr_Phase1Sent := pr_Phase1Sent r + int n\<rparr>)"
    "\<not> pt_done pt'" "pt_myID pt' = pt_myID pt" "pt_portRange pt' = pt_portRange pt"
  using assms
proof (induction n arbitrary: pt r thesis)
  case (Suc n)
  let ?pt = "upd_result i (\<lambda>r. r\<lparr>pr_Phase1Sent := pr_Phase1Sent r + 1\<rparr>) (tool_send MainSocket a (tool_punch pt) pt)"
  let ?r = "r\<lparr>pr_Phase1Sent := pr_Phase1Sent r + 1\<rparr>"
  have pre: "\<not> pt_done ?pt" "mget (pt_punchResults ?pt) i = Some ?r" using Suc.prems by auto
  obtain pt' where pt': "phase1 (\<lambda>_. id) i a n ?pt = (pt', True)" "pt_udp pt' = pt_udp ?pt @ replicate n (MainSocket, a, tool_punch ?pt)"
    "mget (pt_punchResults pt') i = Some (?r\<lparr>pr_Phase1Sent := pr_Phase1Sent ?r + int n\<rparr>)" "\<not> pt_done pt'" "pt_myID pt' = pt_myID ?pt"
    "pt_portRange pt' = pt_portRange ?pt"
    using Suc.IH [OF _ pre] by blast
  have "phase1 (\<lambda>_. id) i a (Suc n) pt = (pt', True)" using pt'(1) Suc.prems(2) by (simp add: Let_def)
  moreover have "pt_udp pt' = pt_udp pt @ replicate (Suc n) (MainSocket, a, tool_punch pt)" using pt'(2) by simp
  moreover have "mget (pt_punchResults pt') i = Some (r\<lparr>pr_Phase1Sent := pr_Phase1Sent r + int (Suc n)\<rparr>)" using pt'(3) by (simp add: algebra_simps)
  moreover note pt'(4)
  moreover have "pt_myID pt' = pt_myID pt" "pt_portRange pt' = pt_portRange pt" using pt'(5,6) by simp_all
  ultimately show ?case by (rule Suc.prems(1))
qed simp

lemma phase2_quiet:
  fixes a :: endpoint and ss :: "nat list"
  assumes "mget (pt_punchResults pt) i = Some r"
  defines "pt' \<equiv> phase2 (\<lambda>_. id) i a ss pt"
  shows "pt_udp pt' = pt_udp pt @ map (\<lambda>s. (BirthdaySocket s, a, tool_punch pt)) ss"
    and "mget (pt_punchResults pt') i = Some (r\<lparr>pr_Phase2Sent := pr_Phase2Sent r + int (length ss)\<rparr>)"
    and "pt_done pt' = pt_done pt" and "pt_myID pt' = pt_myID pt" and "pt_portRange pt' = pt_portRange pt"
  unfolding pt'_def using assms(1) by (induction ss arbitrary: pt r) (simp_all add: algebra_simps)

definition valid_port :: "int \<Rightarrow> bool" where
  "valid_port p \<longleftrightarrow> 0 < p \<and> p \<le> 65535"

lemma phase3_quiet:
  fixes a :: endpoint
  assumes "\<not> pt_done pt" "mget (pt_punchResults pt) i = Some r"
  defines "ps \<equiv> \<lambda>ds. filter valid_port (map (\<lambda>d. int (unat (snd a)) + d) ds)"
  obtains pt' where "phase3 (\<lambda>_. id) i a ds pt = (pt', True)"
    "pt_udp pt' = pt_udp pt @ map (\<lambda>p. (MainSocket, (fst a, of_int p), tool_punch pt)) (ps ds)"
    "mget (pt_punchResults pt') i = Some (r\<lparr>pr_Phase3Sent := pr_Phase3Sent r + int (length (ps ds))\<rparr>)"
  using assms(1,2)
proof (induction ds arbitrary: pt r thesis)
  case Nil
  then show ?case by (simp add: ps_def)
next
  case (Cons d ds)
  let ?p = "int (unat (snd a)) + d"
  let ?pt = "if valid_port ?p then upd_result i (\<lambda>r. r\<lparr>pr_Phase3Sent := pr_Phase3Sent r + 1\<rparr>) (tool_send MainSocket (fst a, of_int ?p) (tool_punch pt) pt) else pt"
  let ?r = "if valid_port ?p then r\<lparr>pr_Phase3Sent := pr_Phase3Sent r + 1\<rparr> else r"
  have pre: "\<not> pt_done ?pt" "mget (pt_punchResults ?pt) i = Some ?r" using Cons.prems by auto
  obtain pt' where pt': "phase3 (\<lambda>_. id) i a ds ?pt = (pt', True)" "pt_udp pt' = pt_udp ?pt @ map (\<lambda>p. (MainSocket, (fst a, of_int p), tool_punch ?pt)) (ps ds)"
    "mget (pt_punchResults pt') i = Some (?r\<lparr>pr_Phase3Sent := pr_Phase3Sent ?r + int (length (ps ds))\<rparr>)"
    using Cons.IH [OF _ pre] by blast
  have "phase3 (\<lambda>_. id) i a (d # ds) pt = (pt', True)" using pt'(1) Cons.prems(2) by (auto simp: valid_port_def Let_def)
  moreover have "pt_udp pt' = pt_udp pt @ map (\<lambda>p. (MainSocket, (fst a, of_int p), tool_punch pt)) (ps (d # ds))"
    using pt'(2) by (simp add: ps_def)
  moreover have "mget (pt_punchResults pt') i = Some (r\<lparr>pr_Phase3Sent := pr_Phase3Sent r + int (length (ps (d # ds)))\<rparr>)"
    using pt'(3) by (simp add: ps_def)
  ultimately show ?case by (rule Cons.prems(1))
qed

lemma filter_upto: "filter (\<lambda>p. l \<le> p \<and> p \<le> h) [i .. j] = [max i l .. min j h]" for i :: int
proof (rule sorted_distinct_set_unique)
  show "sorted (filter (\<lambda>p. l \<le> p \<and> p \<le> h) [i .. j])" by (simp add: sorted_wrt_filter)
qed auto

lemma map_plus_upto: "map (\<lambda>d. b + d) [i .. j] = [b + i .. b + j]" for b :: int
proof (rule sorted_distinct_set_unique)
  show "sorted (map (\<lambda>d. b + d) [i .. j])" by (simp add: sorted_map sorted_wrt_mono_rel [of _ "(\<le>)"])
  show "set (map (\<lambda>d. b + d) [i .. j]) = set [b + i .. b + j]" by (auto intro: image_eqI [of _ _ "x - b" for x])
qed (auto simp: distinct_map inj_on_def)

lemma ports_tried: "filter valid_port (map (\<lambda>d. b + d) (port_offsets n)) = filter (\<lambda>p. p \<noteq> b) [max (b - int n) 1 .. min (b + int n) 65535]"
proof -
  have "map (\<lambda>d. b + d) (port_offsets n) = filter (\<lambda>p. p \<noteq> b) (map (\<lambda>d. b + d) [- int n .. int n])"
    by (simp add: port_offsets_def filter_map o_def)
  also have "\<dots> = filter (\<lambda>p. p \<noteq> b) [b - int n .. b + int n]" by (simp add: map_plus_upto)
  finally have "filter valid_port (map (\<lambda>d. b + d) (port_offsets n)) = filter (\<lambda>p. p \<noteq> b) (filter (\<lambda>p. 1 \<le> p \<and> p \<le> 65535) [b - int n .. b + int n])"
    by (auto simp: valid_port_def conj_commute intro!: filter_cong)
  then show ?thesis by (simp add: filter_upto)
qed

section \<open>Properties\<close>

text \<open>A peer that never answers is tried in full: the test sends the number of packets asked for to its endpoint, one packet for each turn of a
  birthday socket, and one packet to every port from 1 to 65535 within the range around the port of the endpoint, that port excepted. The
  result stays a failure and its counters are the numbers of packets sent.\<close>

theorem silent_peer_tried_in_full:
  assumes "p_resolve P (tp_Endpoint peer) = Some a" "mget (pt_punchResults pt) (tp_ID peer) = Some r" "\<not> pr_Success r" "\<not> pt_done pt"
  shows "let pt' = punchPeer P (\<lambda>_ _. id) order id peer pt; b = int (unat (snd a));
             ports = filter (\<lambda>p. p \<noteq> b) [max (b - int (pt_portRange pt)) 1 .. min (b + int (pt_portRange pt)) 65535]
         in pt_udp pt' = pt_udp pt @ replicate (pt_punchCount pt) (MainSocket, a, tool_punch pt)
                @ map (\<lambda>s. (BirthdaySocket s, a, tool_punch pt)) order
                @ map (\<lambda>p. (MainSocket, (fst a, of_int p), tool_punch pt)) ports \<and>
            mget (pt_punchResults pt') (tp_ID peer) = Some (r\<lparr>pr_Phase1Sent := pr_Phase1Sent r + int (pt_punchCount pt),
              pr_Phase2Sent := pr_Phase2Sent r + int (length order), pr_Phase3Sent := pr_Phase3Sent r + int (length ports)\<rparr>)"
proof -
  let ?i = "tp_ID peer"
  obtain p1 where p1: "phase1 (\<lambda>_. id) ?i a (pt_punchCount pt) pt = (p1, True)" "pt_udp p1 = pt_udp pt @ replicate (pt_punchCount pt) (MainSocket, a, tool_punch pt)"
    "mget (pt_punchResults p1) ?i = Some (r\<lparr>pr_Phase1Sent := pr_Phase1Sent r + int (pt_punchCount pt)\<rparr>)" "\<not> pt_done p1" "pt_myID p1 = pt_myID pt"
    "pt_portRange p1 = pt_portRange pt"
    by (rule phase1_quiet [OF assms(4,2)])
  define p2 where "p2 = phase2 (\<lambda>_. id) ?i a order p1"
  note p2 = phase2_quiet [OF p1(3), of a order, folded p2_def]
  have done2: "\<not> pt_done p2" using p1(4) p2(3) by simp
  obtain p3 where p3: "phase3 (\<lambda>_. id) ?i a (port_offsets (pt_portRange pt)) p2 = (p3, True)"
    "pt_udp p3 = pt_udp p2 @ map (\<lambda>p. (MainSocket, (fst a, of_int p), tool_punch p2)) (filter valid_port (map (\<lambda>d. int (unat (snd a)) + d) (port_offsets (pt_portRange pt))))"
    "mget (pt_punchResults p3) ?i = Some ((r\<lparr>pr_Phase1Sent := pr_Phase1Sent r + int (pt_punchCount pt), pr_Phase2Sent := pr_Phase2Sent r + int (length order)\<rparr>)
       \<lparr>pr_Phase3Sent := pr_Phase3Sent r + int (length (filter valid_port (map (\<lambda>d. int (unat (snd a)) + d) (port_offsets (pt_portRange pt)))))\<rparr>)"
    using phase3_quiet [OF done2 p2(2), of a "port_offsets (pt_portRange pt)"] by (simp del: length_filter_map filter_map) blast
  have "\<not> succeeded ?i p1" "\<not> succeeded ?i p2" "\<not> succeeded ?i p3"
    using assms(3) p1(3) p2(2) p3(3) by (simp_all add: succeeded_def)
  then have run: "punchPeer P (\<lambda>_ _. id) order id peer pt = p3"
    using assms(1,2) p1(1) p3(1) by (simp add: punchPeer_def Let_def p2_def)
  have punch: "tool_punch p1 = tool_punch pt" "tool_punch p2 = tool_punch pt" using p1(5) p2(4) by (simp_all add: tool_punch_def)
  show ?thesis unfolding Let_def run p3(2,3) ports_tried using p1(2) p2(1) by (simp add: punch)
qed

definition tool0 :: "string \<Rightarrow> punchTest" where
  "tool0 i = \<lparr>pt_room = ''room'', pt_passwordHash = [], pt_name = ''tool'', pt_myID = i, pt_conn = True, pt_publicAddr = [], pt_localAddr = [], pt_peers = [],
     pt_punchResults = [(''peer'', new_result ''peer'' ''peer'' ''192.0.2.1:65534'' 0)], pt_seenStunInfo = [], pt_punchCount = 2, pt_birthdaySock = 1, pt_portRange = 3,
     pt_done = False, pt_ws = [], pt_udp = []\<rparr>"

lemma tool0_simps [simp]:
  "pt_udp (tool0 i) = []" "\<not> pt_done (tool0 i)" "pt_punchCount (tool0 i) = 2" "pt_portRange (tool0 i) = 3"
  "mget (pt_punchResults (tool0 i)) = [''peer'' \<mapsto> new_result ''peer'' ''peer'' ''192.0.2.1:65534'' 0]"
  by (auto simp: tool0_def fun_eq_iff)

theorem silent_peer_tried_in_full_witness:
  "map (\<lambda>(s, a, d). (s, a)) (pt_udp (punchPeer (prims0\<lparr>p_resolve := \<lambda>_. Some (0xC0000201, 65534)\<rparr>) (\<lambda>_ _. id) [0] id
       \<lparr>tp_ID = ''peer'', tp_Status = [], tp_Name = [], tp_Endpoint = ''192.0.2.1:65534''\<rparr> (tool0 ''a''))) =
     [(MainSocket, 0xC0000201, 65534), (MainSocket, 0xC0000201, 65534), (BirthdaySocket 0, 0xC0000201, 65534),
      (MainSocket, 0xC0000201, 65531), (MainSocket, 0xC0000201, 65532), (MainSocket, 0xC0000201, 65533), (MainSocket, 0xC0000201, 65535)]"
proof -
  let ?P = "prims0\<lparr>p_resolve := \<lambda>_. Some (0xC0000201, 65534)\<rparr>"
  let ?peer = "\<lparr>tp_ID = ''peer'', tp_Status = [], tp_Name = [], tp_Endpoint = ''192.0.2.1:65534''\<rparr>"
  have "[max (65534 - int 3) 1 .. min (65534 + int 3) 65535] = [65531, 65532, 65533, 65534, 65535]" by code_simp
  moreover have "replicate 2 x = [x, x]" for x :: "toolSocket \<times> endpoint \<times> bytes" by (simp add: numeral_2_eq_2)
  ultimately show ?thesis
    using silent_peer_tried_in_full [of ?P ?peer "(0xC0000201, 65534)" "tool0 ''a''" "new_result ''peer'' ''peer'' ''192.0.2.1:65534'' 0" "[0]"]
    by (simp add: new_result_def Let_def)
qed

lemma udpConn_sendMsg: "c_udpConn (fst (sendMsg m c)) = c_udpConn c"
  by (simp add: sendMsg_def split: option.splits)

lemma udpConn_sendRelay: "c_udpConn (fst (sendRelay P p t v c)) = c_udpConn c"
  by (auto simp: sendRelay_def Let_def udpConn_sendMsg split: option.splits prod.splits if_splits)

lemma udpConn_fold: "c_udpConn (fold (\<lambda>p c. fst (sendRelay P p t v c)) ps c) = c_udpConn c"
  by (induction ps arbitrary: c) (simp_all add: udpConn_sendRelay)

lemma udpConn_broadcast: "c_udpConn (broadcastP2PMap P c) = c_udpConn c"
  by (simp add: broadcastP2PMap_def Let_def udpConn_fold)

lemma udpConn_key: "c_udpConn (sendKeyExchange p c) = c_udpConn c" "c_udpConn (sendStatusUpdate st c) = c_udpConn c"
  by (simp_all add: sendKeyExchange_def sendStatusUpdate_def udpConn_sendMsg Let_def split: option.splits)

lemma punched_udpConn: "c_udpConn (onHolePunchSuccess P e p a c) = c_udpConn c"
  by (simp add: onHolePunchSuccess_def Let_def udpConn_broadcast udpConn_key)

text \<open>Claim C40. The test and a client understand each other: a punch of the test makes a client with an open socket consider the connection direct, the last
  datagram it then sends is an acknowledgement for which the test records success, and a punch of the client is recorded by the test and answered
  by what the client reads as the acknowledgement of the test.\<close>

theorem tool_and_client_agree:
  assumes "\<not> pt_done pt" "c_udpConn c"
  shows "(\<exists>c' pc ack. udp_recv P e (tool_punch pt) a c = Some (c', []) \<and> mget (c_peerConns c') (pt_myID pt) = Some pc \<and> pc_Mode pc = ''direct'' \<and>
            last (c_udp c') = (a, ack) \<and> succeeded (c_MyID c) (tool_datagram now ack b pt)) \<and>
         (\<exists>pt' ack. tool_datagram now (build (DPunch (c_MyID c))) b pt = pt' \<and> succeeded (c_MyID c) pt' \<and>
            pt_udp pt' = pt_udp pt @ [(MainSocket, b, ack)] \<and> classify ack = DPunchAck (pt_myID pt))"
proof
  let ?c = "onHolePunchSuccess P e (pt_myID pt) a c"
  let ?c' = "udpWrite (str_bytes (''PUNCH_ACK:'' @ c_MyID c)) a ?c"
  have "classify (tool_punch pt) = DPunch (pt_myID pt)" using classify_build [of "DPunch (pt_myID pt)"] by (simp only: build.simps dgram_ok.simps tool_punch_def)
  then have r: "udp_recv P e (tool_punch pt) a c = Some (?c', [])" by (simp only: udp_recv_def dgram.case)
  have "c_udpConn ?c" using assms(2) by (simp only: punched_udpConn)
  then have last: "last (c_udp ?c') = (a, str_bytes (''PUNCH_ACK:'' @ c_MyID c))" by (simp add: udpWrite_def)
  have conns: "c_peerConns ?c' = c_peerConns ?c" by (simp add: udpWrite_def)
  show "\<exists>c' pc ack. udp_recv P e (tool_punch pt) a c = Some (c', []) \<and> mget (c_peerConns c') (pt_myID pt) = Some pc \<and> pc_Mode pc = ''direct'' \<and>
            last (c_udp c') = (a, ack) \<and> succeeded (c_MyID c) (tool_datagram now ack b pt)"
    using punched_is_direct [of P e "pt_myID pt" a c] r last conns datagram_ack [OF assms(1), of now "c_MyID c" b]
      recordSuccess_succeeds [of "c_MyID c" now b "''ACK''" pt] by metis
next
  have "classify (str_bytes (''PUNCH_ACK:'' @ pt_myID pt)) = DPunchAck (pt_myID pt)"
    using classify_build [of "DPunchAck (pt_myID pt)"] by (simp only: build.simps dgram_ok.simps)
  then show "\<exists>pt' ack. tool_datagram now (build (DPunch (c_MyID c))) b pt = pt' \<and> succeeded (c_MyID c) pt' \<and>
            pt_udp pt' = pt_udp pt @ [(MainSocket, b, ack)] \<and> classify ack = DPunchAck (pt_myID pt)"
    unfolding build.simps datagram_punch [OF assms(1)] by (metis recordSuccess_succeeds recordSuccess_simps(1) tool_send_simps(1))
qed

theorem tool_and_client_agree_witness:
  "\<exists>c' pc ack. udp_recv prims0 env0 (tool_punch (tool0 ''t'')) (1, 2) ((NewClient ''room'' ''me'' [] [])\<lparr>c_udpConn := True\<rparr>) = Some (c', []) \<and>
     mget (c_peerConns c') ''t'' = Some pc \<and> pc_Mode pc = ''direct'' \<and>
     last (c_udp c') = ((1, 2), ack) \<and> succeeded (c_MyID (NewClient ''room'' ''me'' [] [])) (tool_datagram 0 ack (3, 4) (tool0 ''t''))"
proof -
  let ?c = "(NewClient ''room'' ''me'' [] [])\<lparr>c_udpConn := True\<rparr>"
  have "c_udpConn ?c" "c_MyID ?c = c_MyID (NewClient ''room'' ''me'' [] [])" "pt_myID (tool0 ''t'') = ''t''" by (simp_all add: tool0_def)
  then show ?thesis using tool_and_client_agree [of "tool0 ''t''" ?c prims0 env0 "(1, 2)" 0 "(3, 4)"] tool0_simps(2) by metis
qed

text \<open>The numbers of the report agree with the results.\<close>

lemma report_counts:
  assumes "printReport pt = (ok, failed, rate, an)"
  shows "ok + failed = int (length (pt_punchResults pt)) \<and> 0 \<le> rate \<and> rate \<le> 100 \<and> (an = AllSucceeded \<longrightarrow> rate = 100) \<and> (an = AllFailed \<longrightarrow> rate = 0)"
proof (cases "pt_punchResults pt = []")
  case True
  then show ?thesis using assms by (auto simp: printReport_def)
next
  case False
  define k l where "k = length (filter pr_Success (map snd (pt_punchResults pt)))" and "l = length (filter (\<lambda>r. \<not> pr_Success r) (map snd (pt_punchResults pt)))"
  have all: "k + l = length (pt_punchResults pt)" using sum_length_filter_compl [of pr_Success "map snd (pt_punchResults pt)"] by (simp add: k_def l_def)
  then have pos: "0 < int k + int l" using False by (metis length_greater_0_conv of_nat_0_less_iff of_nat_add)
  have eqs: "ok = int k" "failed = int l" "rate = int k * 100 div (int k + int l)"
    "an = (if int k > 0 \<and> int l = 0 then AllSucceeded else if int k > 0 then PartialSuccess else AllFailed)"
    using assms False pos unfolding printReport_def Let_def k_def [symmetric] l_def [symmetric] by auto
  have "int k * 100 div (int k + int l) \<le> 100 * (int k + int l) div (int k + int l)" by (rule zdiv_mono1) (use pos in simp_all)
  moreover have "100 * (int k + int l) div (int k + int l) = 100" by (rule nonzero_mult_div_cancel_right) (use pos in simp)
  ultimately have "rate \<le> 100" using eqs(3) by simp
  moreover have "0 \<le> rate" using pos eqs(3) by (simp add: pos_imp_zdiv_nonneg_iff)
  ultimately show ?thesis using eqs all by (auto split: if_splits)
qed

text \<open>The length of the attributes in a STUN response is trusted, as in the client: too large a number ends the test with a panic.\<close>

lemma tool_response_oversized_panics:
  assumes "length buf = 1024" "20 \<le> n" "u16at buf 0 = Some 0x0101" "slice buf 8 20 = Some txID" "u16at buf 2 = Some msgLen" "1004 < unat msgLen"
  shows "tool_response buf n txID = None"
  using assms by (simp add: tool_response_def StunHeaderSize_def slice_def)

end
