(* ===== verification/Client_Props.thy ===== *)
theory Client_Props
  imports Dispatch Vpn_Props File_Props Udp_Props
begin

text \<open>
  Properties of the client as a whole, which compose the components through the dispatch: a packet of the VPN from
  interface to interface, the validity of the references that the state holds, and losing the connection.
\<close>

section \<open>A packet of the VPN from end to end\<close>

text \<open>The device \<open>dev'\<close> is \<open>dev\<close> after it has received \<open>pkt\<close>: through its interface, or its userspace stack if the packet is
  for a routed network.\<close>

definition received :: "bytes \<Rightarrow> tunDevice \<Rightarrow> tunDevice \<Rightarrow> bool" where
  "received pkt dev dev' \<longleftrightarrow>
     (if in_route dev pkt \<and> 20 \<le> length pkt \<and> drop_bit 4 (pkt ! 0) = 4
      then td_nsProxy dev' = map_option (\<lambda>ps. ps @ [pkt]) (td_nsProxy dev) \<and> td_iface dev' = td_iface dev
      else td_iface dev' = td_iface dev @ [pkt] \<and> td_nsProxy dev' = td_nsProxy dev)"

text \<open>A packet that can be clamped without leaving its bounds: unless it is a SYN segment with options, its header is complete.\<close>

definition complete_packet :: "bytes \<Rightarrow> bool" where
  "complete_packet pkt \<longleftrightarrow> pkt \<noteq> [] \<and> length pkt \<le> 65535 \<and> (syn_with_options pkt \<longrightarrow> 20 \<le> hdr_len pkt \<and> hdr_len pkt + data_off pkt \<le> length pkt)"

lemma tun_deliver_received:
  assumes "clampMSS pkt spare = Some pkt" "td_routeNets dev \<noteq> [] \<longrightarrow> td_nsProxy dev \<noteq> None"
  shows "\<exists>dev'. tun_deliver now sent spare pkt dev = Some (dev', None) \<and> received pkt dev dev'"
proof (cases "in_route dev pkt")
  case False
  then show ?thesis using tun_deliver_plain [OF assms(1)] by (simp add: received_def)
next
  case True
  then obtain ps where "td_nsProxy dev = Some ps" using assms(2) by (cases "td_routeNets dev") (auto simp: in_route_def)
  then show ?thesis using tun_deliver_netstack [OF assms(1) True] tun_deliver_not_ip4 [OF assms(1)] True
    by (cases "20 \<le> length pkt \<and> drop_bit 4 (pkt ! 0) = 4") (auto simp: received_def)
qed

lemma deliver_to_received:
  assumes "clampMSS pkt spare = Some pkt" "td_routeNets dev \<noteq> [] \<longrightarrow> td_nsProxy dev \<noteq> None"
  shows "\<exists>c' dev'. deliver_to now sent spare key pkt dev c = Some c' \<and> mget (c_tunDevices c') key = Some dev' \<and> received pkt dev dev'"
  using tun_deliver_received [OF assms, of now sent] by (auto simp: deliver_to_def)

lemma dispatch_tun_data:
  assumes "mType m = ''relay_data''" "open_relay P m b = Some (''tun_data'', Some v)"
  shows "client_handleMessage P w m b = partly (handleTunData P (w_now w) (w_sent w) (w_spare w) (mFrom m) (Some v) b)"
  using assms by (simp add: client_handleMessage_def client_handleRelayData_def dispatch_def relay_handlers_def)

lemma get_tunData [simp]: "get_str ''data'' [(''data'', JStr s)] = (s, True)"
  by (simp add: get_str_def)

lemma handleTunData_received:
  assumes "mget (c_tunDevices b) i = Some dev" "Decompress (p_inflate P) z = Some pkt"
    and "clampMSS pkt spare = Some pkt" "td_routeNets dev \<noteq> [] \<longrightarrow> td_nsProxy dev \<noteq> None"
  shows "\<exists>b' dev'. handleTunData P now sent spare i (Some (tunData (b64_enc z))) b = Some b' \<and> mget (c_tunDevices b') i = Some dev' \<and> received pkt dev dev'"
  using deliver_to_received [OF assms(3,4), of now sent i b] assms(1,2) by (simp add: handleTunData_def tunData_def)

lemma datagram_VPN:
  assumes "z \<noteq> []" "Decompress (p_inflate P) z = Some raw"
  shows "udpReadLoop_datagram P w (str_bytes ''VPN:'' @ z) addr b = partly (handleTunDataDirect (w_now w) (w_sent w) (w_spare w) raw (findPeerByUDPAddr b addr) b)"
proof -
  have "classify (str_bytes ''VPN:'' @ z) = DVpn z" using classify_build [of "DVpn z"] assms(1) by simp
  then show ?thesis using assms(2) by (simp add: udpReadLoop_datagram_def udp_recv_def)
qed

text \<open>What one packet read from the interface makes the initiator send.\<close>

lemma tun_read_sends:
  assumes inflate: "\<And>d. p_inflate P (p_deflate P d) = Some d"
    and dev: "mget (c_tunDevices a) key = Some dev" "td_snatIP dev = None" "\<not> td_done dev" "\<not> c_done a"
    and pkt: "pkt \<noteq> []" "clampMSS pkt spare = Some p1"
  shows "\<exists>z a'. tun_read P now spare pkt key a = Some a' \<and> Decompress (p_inflate P) z = Some p1 \<and> z \<noteq> []
    \<and> c_udp a' = c_udp (fst (tun_send P (td_peerID dev) z a)) \<and> c_ws a' = c_ws (fst (tun_send P (td_peerID dev) z a))"
proof -
  obtain z where z: "tunCompress (p_deflate P) p1 = Some z" "Decompress (p_inflate P) z = Some p1" "z \<noteq> []"
    using tunCompress_decompress [of "p_inflate P" "p_deflate P" p1] inflate by blast
  then show ?thesis using dev pkt by (cases "tun_send P (td_peerID dev) z a") (auto simp: tun_read_def)
qed

lemma tunSendUDP_cases:
  "tunSendUDP i z a = (a, False) \<or> (\<exists>addr. PeerMode a i = ''direct'' \<and> tunSendUDP i z a = (a\<lparr>c_udp := c_udp a @ [(addr, str_bytes ''VPN:'' @ z)]\<rparr>, True))"
proof (cases "c_udpConn a \<and> (\<exists>pc addr. mget (c_peerConns a) i = Some pc \<and> pc_Mode pc = ''direct'' \<and> pc_UDPAddr pc = Some addr \<and> addr \<notin> set (c_udpErr a))")
  case True
  then obtain pc addr where "c_udpConn a" "addr \<notin> set (c_udpErr a)" "mget (c_peerConns a) i = Some pc" "pc_Mode pc = ''direct''" "pc_UDPAddr pc = Some addr" by blast
  then show ?thesis by (intro disjI2 exI [of _ addr] conjI) (simp_all add: PeerMode_def tunSendUDP_def udpSend_def)
next
  case False
  then show ?thesis by (intro disjI1) (auto simp: tunSendUDP_def udpSend_def split: option.split)
qed

text \<open>Claim C6. A packet that the interface of the initiator of a VPN delivers reaches the other side, by UDP while the peer is direct and
  through the relay otherwise: the one datagram, or the one message, that is sent makes the other client write exactly this packet,
  with its segment size clamped, to its own interface, or hand it to its userspace stack if it is for a routed network.\<close>

theorem vpn_packet_delivered:
  assumes inflate: "\<And>d. p_inflate P (p_deflate P d) = Some d"
    and a: "mget (c_tunDevices a) (c_MyID b) = Some da" "td_peerID da = c_MyID b" "td_snatIP da = None" "\<not> td_done da" "\<not> c_done a" "c_conn a = Some True"
    and b: "mget (c_tunDevices b) (c_MyID a) = Some db" "td_routeNets db \<noteq> [] \<longrightarrow> td_nsProxy db \<noteq> None"
    and pkt: "complete_packet pkt" "clampMSS pkt spare = Some pkt'"
    and direct: "c_MyID a \<noteq> []" "PeerMode a (c_MyID b) = ''direct'' \<Longrightarrow> findPeerByUDPAddr b src = c_MyID a"
    and relay: "channel_agreed P a b" "\<And>d. p_parse P (p_text P (relayEnvelope ''tun_data'' (tunData d))) = Some (relayEnvelope ''tun_data'' (tunData d))"
  shows "\<exists>a' b' db'. tun_read P now spare pkt (c_MyID b) a = Some a' \<and> mget (c_tunDevices b') (c_MyID a) = Some db' \<and> received pkt' db db' \<and>
    ((\<exists>addr d. c_udp a' = c_udp a @ [(addr, d)] \<and> c_ws a' = c_ws a \<and> udpReadLoop_datagram P w d src b = Some (b', [])) \<or>
     (\<exists>m. c_udp a' = c_udp a \<and> c_ws a' = c_ws a @ [m] \<and> mTo m = c_MyID b \<and> client_handleMessage P w (m\<lparr>mFrom := c_MyID a\<rparr>) b = Some (b', [])))"
proof -
  have ne: "pkt \<noteq> []" using pkt(1) by (simp add: complete_packet_def)
  have clamp: "clampMSS pkt' (w_spare w) = Some pkt'"
    using clampMSS_again [OF _ _ pkt(2)] pkt(1) by (simp add: complete_packet_def)
  obtain z a' where s: "tun_read P now spare pkt (c_MyID b) a = Some a'" "Decompress (p_inflate P) z = Some pkt'" "z \<noteq> []"
      "c_udp a' = c_udp (fst (tun_send P (c_MyID b) z a))" "c_ws a' = c_ws (fst (tun_send P (c_MyID b) z a))"
    using tun_read_sends [of P a "c_MyID b" da pkt spare pkt' now, OF inflate a(1,3-5) ne pkt(2)] a(2) by auto
  from tunSendUDP_cases [of "c_MyID b" z a] show ?thesis
  proof (elim disjE exE conjE)
    fix addr
    assume mode: "PeerMode a (c_MyID b) = ''direct''" and "tunSendUDP (c_MyID b) z a = (a\<lparr>c_udp := c_udp a @ [(addr, str_bytes ''VPN:'' @ z)]\<rparr>, True)"
    then have sent: "c_udp a' = c_udp a @ [(addr, str_bytes ''VPN:'' @ z)]" "c_ws a' = c_ws a" using s(4,5) by (simp_all add: tun_send_def)
    obtain b' db' where got: "udpReadLoop_datagram P w (str_bytes ''VPN:'' @ z) src b = Some (b', [])" "mget (c_tunDevices b') (c_MyID a) = Some db'" "received pkt' db db'"
      using datagram_VPN [OF s(3,2), of w src b] deliver_to_received [OF clamp b(2), of "w_now w" "w_sent w" "c_MyID a" b] direct(1) direct(2) [OF mode] b(1)
      by (auto simp: handleTunDataDirect_def partly_def)
    show ?thesis by (rule exI [of _ a'], rule exI [of _ b'], rule exI [of _ db'], intro conjI disjI1 exI) (fact s(1) got sent)+
  next
    assume u: "tunSendUDP (c_MyID b) z a = (a, False)"
    obtain m where m: "c_ws (fst (sendRelay P (c_MyID b) ''tun_data'' (tunData (b64_enc z)) a)) = c_ws a @ [m]" "mType m = ''relay_data''" "mTo m = c_MyID b"
        "open_relay P (m\<lparr>mFrom := c_MyID a\<rparr>) b = Some (''tun_data'', Some (tunData (b64_enc z)))"
      using relay_delivers [OF a(6) _ _ relay(1), of "''tun_data''" "tunData (b64_enc z)"] relay(2) by auto
    have sent: "c_udp a' = c_udp a" "c_ws a' = c_ws a @ [m]" using s(4,5) m(1) by (simp_all add: tun_send_def u sendRelay_other [where f = c_udp])
    obtain b' db' where got: "client_handleMessage P w (m\<lparr>mFrom := c_MyID a\<rparr>) b = Some (b', [])" "mget (c_tunDevices b') (c_MyID a) = Some db'" "received pkt' db db'"
      using handleTunData_received [OF b(1) s(2) clamp b(2), of "w_now w" "w_sent w"] dispatch_tun_data [of "m\<lparr>mFrom := c_MyID a\<rparr>"] m(2,4)
      by (auto simp: partly_def)
    show ?thesis by (rule exI [of _ a'], rule exI [of _ b'], rule exI [of _ db'], intro conjI disjI2 exI) (fact s(1) got sent m(3))+
  qed
qed

text \<open>Two clients with a VPN between them and no direct connection; texts of messages carry the data only.\<close>

fun data_text :: "json \<Rightarrow> bytes" where
  "data_text (JObj [(t, JStr ty), (p, JObj [(k, JStr d)])]) = str_bytes d"
| "data_text _ = []"

definition vpn_prims :: prims where
  "vpn_prims = prims0\<lparr>p_text := data_text, p_parse := (\<lambda>d. Some (relayEnvelope ''tun_data'' (tunData (bytes_str d))))\<rparr>"

definition vpn_peer :: "string \<Rightarrow> string \<Rightarrow> cli" where
  "vpn_peer i j = (cli_with i [])\<lparr>c_tunDevices := [(j, exit_device\<lparr>td_peerID := j, td_snatIP := None, td_routeNets := [], td_done := False\<rparr>)]\<rparr>"

definition world0 :: world where
  "world0 = \<lparr>w_punch = env0, w_base = [], w_uid = 0, w_ifc = None, w_now = 0, w_sent = False, w_spare = [], w_nsOk = True, w_dial = None,
     w_listenOk = True, w_rnd = [], w_rnd2 = [], w_reason = [], w_mbps = (\<lambda>_ _. JNum 0), w_elapsed = 0, w_partial = []\<rparr>"

theorem vpn_packet_delivered_witness:
  "\<exists>a' b' db'. tun_read vpn_prims 0 [] [0x60, 1, 2] ''bob'' (vpn_peer ''ann'' ''bob'') = Some a' \<and> mget (c_tunDevices b') ''ann'' = Some db' \<and> td_iface db' = [[0x60, 1, 2]]
     \<and> ((\<exists>addr d. c_udp a' = [(addr, d)] \<and> udpReadLoop_datagram vpn_prims world0 d (1, 2) (vpn_peer ''bob'' ''ann'') = Some (b', []))
       \<or> (\<exists>m. c_ws a' = [m] \<and> client_handleMessage vpn_prims world0 (m\<lparr>mFrom := ''ann''\<rparr>) (vpn_peer ''bob'' ''ann'') = Some (b', [])))"
proof -
  let ?a = "vpn_peer ''ann'' ''bob''" and ?b = "vpn_peer ''bob'' ''ann''" and ?pkt = "[0x60, 1, 2] :: bytes"
  have id: "c_MyID ?a = ''ann''" "c_MyID ?b = ''bob''" "c_conn ?a = Some True" "\<not> c_done ?a" "c_udp ?a = []" "c_ws ?a = []"
    by (simp_all add: vpn_peer_def cli_with_def)
  have devs: "mget (c_tunDevices ?a) ''bob'' = Some (exit_device\<lparr>td_peerID := ''bob'', td_snatIP := None, td_routeNets := [], td_done := False\<rparr>)"
      "mget (c_tunDevices ?b) ''ann'' = Some (exit_device\<lparr>td_peerID := ''ann'', td_snatIP := None, td_routeNets := [], td_done := False\<rparr>)"
    by (simp_all add: vpn_peer_def)
  have "PeerMode ?a ''bob'' \<noteq> ''direct''" "channel_agreed vpn_prims ?a ?b"
    by (simp_all add: vpn_peer_def cli_with_def PeerMode_def channel_agreed_def keyed_def peer_crypto_def)
  moreover have "complete_packet ?pkt" "clampMSS ?pkt [] = Some ?pkt" by (simp_all add: complete_packet_def syn_with_options_def clampMSS_def)
  moreover have "p_inflate vpn_prims (p_deflate vpn_prims d) = Some d" for d by (simp add: vpn_prims_def prims0_def)
  moreover have "p_parse vpn_prims (p_text vpn_prims (relayEnvelope ''tun_data'' (tunData d))) = Some (relayEnvelope ''tun_data'' (tunData d))" for d
    by (simp add: vpn_prims_def relayEnvelope_def tunData_def)
  ultimately show ?thesis
    using vpn_packet_delivered [of vpn_prims ?a ?b "exit_device\<lparr>td_peerID := ''bob'', td_snatIP := None, td_routeNets := [], td_done := False\<rparr>"
        "exit_device\<lparr>td_peerID := ''ann'', td_snatIP := None, td_routeNets := [], td_done := False\<rparr>" ?pkt "[]" ?pkt "(1, 2)" 0 world0]
    by (simp add: id devs received_def in_route_def exit_device_def) blast
qed

section \<open>Disconnecting while the connection is being restored\<close>

lemma tcp_close_done: "tcp_close k c = Some c' \<Longrightarrow> c_done c \<Longrightarrow> c_done c'"
  by (auto simp: tcp_close_def split: option.splits)

lemma StopForward_done: "StopForward lp c = Some (c', b) \<Longrightarrow> c_done c \<Longrightarrow> c_done c'"
  by (auto simp: StopForward_def Let_def split: option.splits Option.bind_splits if_splits
      elim!: foldM_keeps [where P = c_done]) (rule tcp_close_done)

lemma Disconnect_done: "Disconnect P c = Some c' \<Longrightarrow> c_done c'"
proof (cases "c_done c")
  case False
  assume d: "Disconnect P c = Some c'"
  define c0 where "c0 = tunCleanup P (c\<lparr>c_done := True\<rparr>)"
  have c0: "c_done c0" unfolding c0_def by (subst tunCleanup_other [where f = c_done]) simp_all
  obtain c1 c2 where c1: "foldM (\<lambda>port c. map_option fst (StopForward port c)) (map fst (c_forwards c0)) c0 = Some c1"
    and c2: "foldM (\<lambda>(tid, tc) c. tcp_close (tc_Conn tc) c \<bind> (\<lambda>c'. Some (c'\<lparr>c_tunnels := mdel tid (c_tunnels c')\<rparr>))) (c_tunnels c1) c1 = Some c2" and c': "c' = close_rest c2"
    using d False unfolding Disconnect_def Let_def c0_def [symmetric] by (auto split: Option.bind_splits)
  have "c_done c1" using c1 c0 by (rule foldM_keeps) (clarsimp, rule StopForward_done)
  with c2 have "c_done c2" by (rule foldM_keeps) (clarsimp split: Option.bind_splits, rule tcp_close_done)
  then show ?thesis by (simp add: c' close_rest_def)
qed (simp add: Disconnect_def)

text \<open>Disconnecting while \<^verbatim>\<open>readLoop\<close> waits to reconnect crashes the program: the next attempt of \<^verbatim>\<open>reconnect\<close> returns false, which it does only
  for a closed channel \<^verbatim>\<open>c.done\<close>, and \<^verbatim>\<open>readLoop\<close> then closes this channel a second time. In every other case \<^verbatim>\<open>reconnect\<close> goes
  on until it succeeds.\<close>

theorem disconnect_while_reconnecting_panics:
  assumes "Disconnect P c = Some c'"
  shows "reconnect_attempt fr c' = (c', Some False) \<and> readLoop_reconnected False c' = None \<and>
    (\<not> c_done c \<longrightarrow> snd (reconnect_attempt fr c) \<noteq> Some False)"
  using Disconnect_done [OF assms]
  by (auto simp: reconnect_attempt_def readLoop_reconnected_def split: option.split)

theorem disconnect_while_reconnecting_panics_witness:
  "\<exists>c'. Disconnect prims0 (cli_with ''a'' []) = Some c' \<and> reconnect_attempt None c' = (c', Some False) \<and> readLoop_reconnected False c' = None"
proof -
  obtain c' where "Disconnect prims0 (cli_with ''a'' []) = Some c'"
    by (simp add: Disconnect_def cli_with_def tunCleanup_def)
  then show ?thesis using disconnect_while_reconnecting_panics [of prims0 "cli_with ''a'' []" c' None] by blast
qed

end
