(* ===== verification/Client_Inv.thy ===== *)
theory Client_Inv
  imports Client_Props Settings Discovery Tunnel_Props
begin

text \<open>
  The client as one transition system, and what holds in every state it can reach. \<open>client_step\<close> has every operation that changes
  the state of a client: the frames of the server and the datagrams, whatever they contain, the goroutines, the timers, the reconnects and the operations of
  the interface. The invariant \<open>client_ok\<close> says of the connections that a direct peer has an address, key material and no counted failure,
  that every listed peer has a connection record, unless it is the client itself under one of the IDs it has had, and, as long as
  the local-only setting has not been switched off, that no target of a forward is on another host.
\<close>

section \<open>The invariant\<close>

definition is_local :: "string \<Rightarrow> bool" where
  "is_local t \<longleftrightarrow> (\<exists>h \<in> local_hosts. \<exists>port. t = join_host_port h port)"

text \<open>Every target registered with a userspace stack is on this host.\<close>

definition stacks_local :: "(string \<times> fwdNetstack) list \<Rightarrow> bool" where
  "stacks_local ns \<longleftrightarrow> (\<forall>p fn v t. mget ns p = Some fn \<longrightarrow> mget (fn_portMap fn) v = Some t \<longrightarrow> is_local t)"

lemma stacks_local_simps [simp]: "stacks_local []" "stacks_local ns \<Longrightarrow> stacks_local (mdel p ns)"
  by (auto simp: stacks_local_def)

lemma stacks_local_mput:
  "stacks_local ns \<Longrightarrow> (\<And>v t. mget (fn_portMap fn) v = Some t \<Longrightarrow> is_local t) \<Longrightarrow> stacks_local (mput p fn ns)"
  by (auto simp: stacks_local_def split: if_splits)

lemma stacks_localD: "stacks_local ns \<Longrightarrow> mget ns p = Some fn \<Longrightarrow> mget (fn_portMap fn) v = Some t \<Longrightarrow> is_local t"
  unfolding stacks_local_def by blast

text \<open>\<open>I\<close> are the IDs that the client has had so far, \<open>L\<close> tells whether it has been local-only all the time.\<close>

definition listed_ok :: "string set \<Rightarrow> cli \<Rightarrow> bool" where
  "listed_ok I c \<longleftrightarrow> (\<forall>p \<in> set (c_peers c). pi_ID p \<notin> I \<longrightarrow> mget (c_peerConns c) (pi_ID p) \<noteq> None)"

definition client_ok :: "string set \<Rightarrow> bool \<Rightarrow> cli \<Rightarrow> bool" where
  "client_ok I L c \<longleftrightarrow> p2p_ok c \<and> c_MyID c \<in> I \<and> listed_ok I c
     \<and> (L \<longrightarrow> c_localOnly c \<and> stacks_local (c_fwdNetstacks c) \<and> list_all is_local (c_dials c))"

lemmas client_ok_defs = client_ok_def listed_ok_def p2p_ok_def pview_def

text \<open>Updates of fields that it does not depend on.\<close>

lemma ok_upd [simp]:
  "client_ok I L (c\<lparr>c_conn := x1\<rparr>) = client_ok I L c" "client_ok I L (c\<lparr>c_udpConn := x2\<rparr>) = client_ok I L c" "client_ok I L (c\<lparr>c_publicAddr := x3\<rparr>) = client_ok I L c"
  "client_ok I L (c\<lparr>c_p2pMaps := x4\<rparr>) = client_ok I L c" "client_ok I L (c\<lparr>c_forwards := x5\<rparr>) = client_ok I L c" "client_ok I L (c\<lparr>c_tunnels := x6\<rparr>) = client_ok I L c"
  "client_ok I L (c\<lparr>c_bridges := x7\<rparr>) = client_ok I L c" "client_ok I L (c\<lparr>c_hops := x8\<rparr>) = client_ok I L c" "client_ok I L (c\<lparr>c_hopBridgeByTunnel := x9\<rparr>) = client_ok I L c"
  "client_ok I L (c\<lparr>c_vport := x10\<rparr>) = client_ok I L c" "client_ok I L (c\<lparr>c_pendingLeaves := x11\<rparr>) = client_ok I L c" "client_ok I L (c\<lparr>c_tunDevices := x12\<rparr>) = client_ok I L c"
  "client_ok I L (c\<lparr>c_tunAckChs := x13\<rparr>) = client_ok I L c" "client_ok I L (c\<lparr>c_ackChans := x14\<rparr>) = client_ok I L c" "client_ok I L (c\<lparr>c_vpnRestoreConfigs := x15\<rparr>) = client_ok I L c"
  "client_ok I L (c\<lparr>c_restores := x16\<rparr>) = client_ok I L c" "client_ok I L (c\<lparr>c_speedTests := x17\<rparr>) = client_ok I L c" "client_ok I L (c\<lparr>c_fts := x18\<rparr>) = client_ok I L c"
  "client_ok I L (c\<lparr>c_fileTransfers := x19\<rparr>) = client_ok I L c" "client_ok I L (c\<lparr>c_relayDisabled := x20\<rparr>) = client_ok I L c" "client_ok I L (c\<lparr>c_done := x21\<rparr>) = client_ok I L c"
  "client_ok I L (c\<lparr>c_ws := x22\<rparr>) = client_ok I L c" "client_ok I L (c\<lparr>c_udp := x23\<rparr>) = client_ok I L c" "client_ok I L (c\<lparr>c_tcp := x24\<rparr>) = client_ok I L c"
  "client_ok I L (c\<lparr>c_closed := x25\<rparr>) = client_ok I L c" "client_ok I L (c\<lparr>c_disk := x26\<rparr>) = client_ok I L c" "client_ok I L (c\<lparr>c_icmp := x27\<rparr>) = client_ok I L c"
  "client_ok I L (c\<lparr>c_os := x28\<rparr>) = client_ok I L c" "client_ok I L (c\<lparr>c_localAddr := x29\<rparr>) = client_ok I L c" "client_ok I L (c\<lparr>c_natType := x30\<rparr>) = client_ok I L c"
  "client_ok I L (c\<lparr>c_portModel := x31\<rparr>) = client_ok I L c" "client_ok I L (c\<lparr>c_allowForward := x32\<rparr>) = client_ok I L c" "client_ok I L (c\<lparr>c_allowVPN := x33\<rparr>) = client_ok I L c"
  "client_ok I L (c\<lparr>c_allowFileRecv := x34\<rparr>) = client_ok I L c" "client_ok I L (c\<lparr>c_allowHopRelay := x35\<rparr>) = client_ok I L c" "client_ok I L (c\<lparr>c_udpErr := x36\<rparr>) = client_ok I L c"
  by (simp_all add: client_ok_defs)

lemma conns_upd [simp]:
  "p2p_ok (c\<lparr>c_fwdNetstacks := x\<rparr>) = p2p_ok c" "listed_ok I (c\<lparr>c_fwdNetstacks := x\<rparr>) = listed_ok I c"
  "p2p_ok (c\<lparr>c_dials := y\<rparr>) = p2p_ok c" "listed_ok I (c\<lparr>c_dials := y\<rparr>) = listed_ok I c"
  by (simp_all add: p2p_ok_def pview_def listed_ok_def)

lemma ok_shrink [simp]:
  "client_ok I L c \<Longrightarrow> client_ok I L (c\<lparr>c_fwdNetstacks := mdel p (c_fwdNetstacks c)\<rparr>)"
  "client_ok I L (upd_ft i g c) = client_ok I L c" "client_ok I L (new_transfer t ft c) = client_ok I L c" "client_ok I L (drop_bridge b c) = client_ok I L c"
  by (simp_all add: upd_ft_def new_transfer_def drop_bridge_def Let_def) (simp add: client_ok_def)

text \<open>Changes of the connections alone.\<close>

definition keeps_rest :: "cli \<Rightarrow> cli \<Rightarrow> bool" where
  "keeps_rest c c' \<longleftrightarrow> c_peers c' = c_peers c \<and> c_MyID c' = c_MyID c \<and> c_localOnly c' = c_localOnly c \<and> c_fwdNetstacks c' = c_fwdNetstacks c
     \<and> c_dials c' = c_dials c \<and> (\<forall>k. mget (c_peerConns c) k \<noteq> None \<longrightarrow> mget (c_peerConns c') k \<noteq> None)"

lemma ok_conns: "client_ok I L c \<Longrightarrow> p2p_ok c' \<Longrightarrow> keeps_rest c c' \<Longrightarrow> client_ok I L c'"
  by (simp add: client_ok_def listed_ok_def keeps_rest_def)

lemma conn_view: "(mget (c_peerConns c) k = None) = (pview c k = None)"
  by (simp add: pview_def)

lemma ok_same_view:
  assumes "client_ok I L c" "same_view c c'" "c_peers c' = c_peers c" "c_MyID c' = c_MyID c" "c_localOnly c' = c_localOnly c"
    "c_fwdNetstacks c' = c_fwdNetstacks c" "c_dials c' = c_dials c"
  shows "client_ok I L c'"
proof (rule ok_conns [OF assms(1)])
  show "p2p_ok c'" using assms(1,2) by (auto simp: client_ok_def intro: p2p_ok_same)
  have "(mget (c_peerConns c') k = None) = (mget (c_peerConns c) k = None)" for k
    using assms(2) by (simp add: conn_view same_view_def)
  then show "keeps_rest c c'" using assms(3-) by (simp add: keeps_rest_def)
qed

lemma ok_stack:
  assumes "client_ok I L c" "mget (c_fwdNetstacks c) p = Some fn" "fn_portMap fn' = fn_portMap fn"
  shows "client_ok I L (c\<lparr>c_fwdNetstacks := mput p fn' (c_fwdNetstacks c)\<rparr>)"
  using assms stacks_localD [OF _ assms(2)] by (auto simp: client_ok_def intro!: stacks_local_mput)

lemma ok_stacks [simp]:
  "client_ok I L c \<Longrightarrow> client_ok I L (fst (getOrCreateFwdNetstack p ini ok c))" "client_ok I L c \<Longrightarrow> client_ok I L (InjectInbound p pkt c)"
  "client_ok I L c \<Longrightarrow> client_ok I L (RegisterFileTransfer p v i c)"
  by (auto simp: getOrCreateFwdNetstack_def InjectInbound_def RegisterFileTransfer_def ok_stack split: option.splits)
     (auto simp: client_ok_def intro!: stacks_local_mput)

lemma ok_RegisterTarget: "client_ok I L c \<Longrightarrow> (L \<Longrightarrow> is_local t) \<Longrightarrow> client_ok I L (RegisterTarget p v t c)"
  by (auto simp: RegisterTarget_def client_ok_def intro!: stacks_local_mput dest: stacks_localD split: option.splits if_splits)

lemma ok_dial: "client_ok I L c \<Longrightarrow> (L \<Longrightarrow> is_local t) \<Longrightarrow> client_ok I L (c\<lparr>c_dials := c_dials c @ [t]\<rparr>)"
  by (simp add: client_ok_def)

lemma ok_bridgeForward [simp]: "client_ok I L c \<Longrightarrow> client_ok I L (bridgeForward p v c)"
  by (auto simp: bridgeForward_def handleIncoming_def client_ok_def intro!: ok_dial split: option.splits dest: stacks_localD)

section \<open>Sending\<close>

lemma ok_sendMsg [simp]: "client_ok I L (fst (sendMsg m c)) = client_ok I L c"
  by (simp add: sendMsg_def split: option.splits)

lemma mwf_mput_iff [simp]: "mwf (mput k v m) = mwf m"
  by (auto simp: update_keys)

lemma client_ok_view:
  assumes "mwf (c_peerConns c') = mwf (c_peerConns c)" "pview c' = pview c" "c_peers c' = c_peers c" "c_MyID c' = c_MyID c"
    "c_localOnly c' = c_localOnly c" "c_fwdNetstacks c' = c_fwdNetstacks c" "c_dials c' = c_dials c"
  shows "client_ok I L c' = client_ok I L c"
proof -
  have "(mget (c_peerConns c') k = None) = (mget (c_peerConns c) k = None)" for k
    using assms(2) by (simp add: conn_view)
  then show ?thesis using assms by (simp add: client_ok_def listed_ok_def p2p_ok_def)
qed

lemma ok_sendRelay [simp]: "client_ok I L (fst (sendRelay P p ty v c)) = client_ok I L c"
proof (rule client_ok_view)
  show "pview (fst (sendRelay P p ty v c)) = pview c" using same_view_sendRelay by (simp add: same_view_def)
  show "mwf (c_peerConns (fst (sendRelay P p ty v c))) = mwf (c_peerConns c)"
    by (simp add: sendRelay_def Let_def split: option.split prod.split)
qed (rule sendRelay_other, simp)+

lemma ok_sends [simp]:
  "client_ok I L (sendViaP2P P p d ty v c) = client_ok I L c" "client_ok I L (stSend P p tr d ty v c) = client_ok I L c" "client_ok I L (stSignalWith P p tr ty v c) = client_ok I L c"
  "client_ok I L (udpWrite d a c) = client_ok I L c" "client_ok I L (file_signal P p ty v c) = client_ok I L c" "client_ok I L (fst (udpSend d a c)) = client_ok I L c" "client_ok I L (sendTunnelClose P p t c) = client_ok I L c"
  "client_ok I L (ReportFeatures c) = client_ok I L c" "client_ok I L (os cmds c) = client_ok I L c" "client_ok I L (sendStunInfo p c) = client_ok I L c" "client_ok I L (sendStatusUpdate s c) = client_ok I L c"
  by (simp_all add: sendViaP2P_def stSend_def stSignalWith_def file_signal_def udpSend_def udpWrite_def sendTunnelClose_def ReportFeatures_def os_def
      sendStunInfo_def sendStatusUpdate_def Let_def split: option.splits)

lemma ok_sendRelay_pair: "sendRelay P p ty v c = (c', ok) \<Longrightarrow> client_ok I L c' = client_ok I L c"
  using ok_sendRelay [of I L P p ty v c] by simp

lemma ok_fold: "client_ok I L c \<Longrightarrow> (\<And>x c. client_ok I L c \<Longrightarrow> client_ok I L (f x c)) \<Longrightarrow> client_ok I L (fold f xs c)"
  by (induction xs arbitrary: c) simp_all

lemma ok_foldM: "foldM f xs c = Some c' \<Longrightarrow> client_ok I L c \<Longrightarrow> (\<And>x c d. f x c = Some d \<Longrightarrow> client_ok I L c \<Longrightarrow> client_ok I L d) \<Longrightarrow> client_ok I L c'"
  by (erule foldM_keeps) blast+

section \<open>Connections and peers\<close>

lemma keeps_rest_refl: "keeps_rest c c"
  by (simp add: keeps_rest_def)

lemma keeps_rest_trans: "keeps_rest c d \<Longrightarrow> keeps_rest d e \<Longrightarrow> keeps_rest c e"
  by (simp add: keeps_rest_def)

lemma ok_p2pD: "client_ok I L c \<Longrightarrow> p2p_ok c"
  by (simp add: client_ok_def)

lemma keeps_rest_punching:
  "keeps_rest c (attemptHolePunch P e p lan c)" "keeps_rest c (handleKeyExchange P e p k a c)"
  by (auto simp: keeps_rest_def attemptHolePunch_def handleKeyExchange_def Let_def split: option.split)

lemma ok_punching [simp]:
  "client_ok I L (sendKeyExchange p c) = client_ok I L c" "client_ok I L c \<Longrightarrow> client_ok I L (attemptHolePunch P e p lan c)"
  "client_ok I L c \<Longrightarrow> client_ok I L (handleKeyExchange P e p k a c)"
proof -
  show "client_ok I L (sendKeyExchange p c) = client_ok I L c" by (simp add: sendKeyExchange_def split: option.split)
  assume c: "client_ok I L c"
  show "client_ok I L (attemptHolePunch P e p lan c)" "client_ok I L (handleKeyExchange P e p k a c)"
    by (rule ok_conns [OF c], rule p2p_ok_attempt p2p_ok_key, rule ok_p2pD [OF c], rule keeps_rest_punching)+
qed

lemma same_view_cleanup: "same_view c (cleanupPeerP2PMap p c)"
proof -
  have "pview (cleanupPeerP2PMap p c) q = pview c q" for q
    by (auto simp: cleanupPeerP2PMap_def pview_def map_of_map option.map_comp o_def split: if_splits intro!: option.map_cong)
  moreover have "map fst (c_peerConns (cleanupPeerP2PMap p c)) = map fst (c_peerConns c)" by (simp add: cleanupPeerP2PMap_def o_def split_def)
  ultimately show ?thesis unfolding same_view_def by (metis ext)
qed

lemma ok_maps [simp]:
  "client_ok I L c \<Longrightarrow> client_ok I L (broadcastP2PMap P c)" "client_ok I L (handleP2PMap p v c) = client_ok I L c"
  "client_ok I L c \<Longrightarrow> client_ok I L (cleanupPeerP2PMap p c)" "client_ok I L c \<Longrightarrow> client_ok I L (tryAutoHop p c)"
proof -
  show "client_ok I L (handleP2PMap p v c) = client_ok I L c" by (simp add: handleP2PMap_def Let_def split: option.split prod.split)
  assume c: "client_ok I L c"
  show "client_ok I L (broadcastP2PMap P c)" unfolding broadcastP2PMap_def Let_def using c by (rule ok_fold) simp
  show "client_ok I L (cleanupPeerP2PMap p c)" by (rule ok_same_view [OF c same_view_cleanup]) (simp_all add: cleanupPeerP2PMap_def)
  show "client_ok I L (tryAutoHop p c)" by (rule ok_same_view [OF c same_view_tryAutoHop]) (simp_all add: tryAutoHop_def Let_def split: option.split)
qed

text \<open>A record put for a peer, if its view is right.\<close>

lemma ok_mput:
  assumes "client_ok I L c" "view_ok (pc_Mode pc, pc_UDPAddr pc, pc_PunchFails pc, pc_Crypto pc \<noteq> None)"
  shows "client_ok I L (c\<lparr>c_peerConns := mput p pc (c_peerConns c)\<rparr>)"
proof (rule ok_conns [OF assms(1)])
  show "p2p_ok (c\<lparr>c_peerConns := mput p pc (c_peerConns c)\<rparr>)"
    by (rule p2p_ok_changes [OF ok_p2pD [OF assms(1)] changes_mput [of _ p pc]]) (use assms(2) in auto)
qed (simp add: keeps_rest_def)

lemma ok_onHolePunchSuccess [simp]:
  assumes "client_ok I L c"
  shows "client_ok I L (onHolePunchSuccess P e p a c)"
proof (cases "pc_Mode (case mget (c_peerConns c) p of None \<Rightarrow> new_peerConn p [] | Some pc \<Rightarrow> pc) = ''direct''")
  case True
  then show ?thesis using assms by (simp add: onHolePunchSuccess_def)
next
  case False
  define pc where "pc = ensure_crypto P e ((case mget (c_peerConns c) p of None \<Rightarrow> new_peerConn p [] | Some pc \<Rightarrow> pc)
      \<lparr>pc_Mode := ''direct'', pc_UDPAddr := Some a, pc_PunchFails := 0\<rparr>)"
  obtain cr where "pc_Crypto pc = Some cr" unfolding pc_def using ensure_crypto_fields(4) by blast
  then have "view_ok (pc_Mode pc, pc_UDPAddr pc, pc_PunchFails pc, pc_Crypto pc \<noteq> None)" by (simp add: pc_def view_ok_direct)
  from ok_mput [OF assms this, of p] show ?thesis
    using False unfolding onHolePunchSuccess_def Let_def pc_def [symmetric] by simp
qed

lemma ok_CancelSpeedTest: "CancelSpeedTest P t c = Some c' \<Longrightarrow> client_ok I L c \<Longrightarrow> client_ok I L c'"
  by (auto simp: CancelSpeedTest_def Let_def split: option.splits Option.bind_splits)

lemma ok_cancelSpeedTests: "cancelSpeedTestsForPeer P p c = Some c' \<Longrightarrow> client_ok I L c \<Longrightarrow> client_ok I L c'"
  unfolding cancelSpeedTestsForPeer_def by (erule ok_foldM) (auto intro: ok_CancelSpeedTest)

text \<open>A cancelled speed test and a closed stack leave the connections of all peers.\<close>

lemma stun_reset_rest:
  assumes "stun_reset P p c = Some c'"
  shows "c_peers c' = c_peers c \<and> c_MyID c' = c_MyID c \<and> c_localOnly c' = c_localOnly c \<and> c_dials c' = c_dials c
    \<and> c_fwdNetstacks c' = mdel p (c_fwdNetstacks c) \<and> (\<forall>k. (mget (c_peerConns c') k = None) = (mget (c_peerConns c) k = None))"
proof -
  obtain d where d: "cancelSpeedTestsForPeer P p c = Some d" "c' = d\<lparr>c_fwdNetstacks := mdel p (c_fwdNetstacks d)\<rparr>"
    using assms by (auto simp: stun_reset_def split: Option.bind_splits)
  have st: "c_localOnly (stSignalWith P i tr ty v c) = c_localOnly c" "c_dials (stSignalWith P i tr ty v c) = c_dials c"
      "c_fwdNetstacks (stSignalWith P i tr ty v c) = c_fwdNetstacks c" for i tr ty v c
    unfolding stSignalWith_def by (rule stSend_other; simp)+
  have "c_localOnly d = c_localOnly c \<and> c_dials d = c_dials c \<and> c_fwdNetstacks d = c_fwdNetstacks c"
    by (rule foldM_keeps [OF d(1) [unfolded cancelSpeedTestsForPeer_def]])
      (auto simp: CancelSpeedTest_def st Let_def split: option.splits Option.bind_splits)
  with cancel_frame [OF d(1)] d(2) show ?thesis by simp
qed

definition stun_rest :: "string \<Rightarrow> cli \<Rightarrow> cli \<Rightarrow> bool" where
  "stun_rest p c c' \<longleftrightarrow> c_peers c' = c_peers c \<and> c_MyID c' = c_MyID c \<and> c_localOnly c' = c_localOnly c \<and> c_dials c' = c_dials c
      \<and> (c_fwdNetstacks c' = c_fwdNetstacks c \<or> c_fwdNetstacks c' = mdel p (c_fwdNetstacks c))
      \<and> (\<forall>k. mget (c_peerConns c) k \<noteq> None \<longrightarrow> mget (c_peerConns c') k \<noteq> None)"

lemma stun_rest_parts:
  "stun_rest p c (c\<lparr>c_peerConns := mput p pc (c_peerConns c)\<rparr>)" "stun_rest p c d \<Longrightarrow> stun_rest p c (set_addr p a d)"
  "stun_reset P p (c\<lparr>c_peerConns := mput p pc (c_peerConns c)\<rparr>) = Some d \<Longrightarrow> stun_rest p c d"
  using stun_reset_rest [of P p "c\<lparr>c_peerConns := mput p pc (c_peerConns c)\<rparr>" d]
  by (auto simp: stun_rest_def set_addr_def split: option.split)

lemma stun_update_rest: "stun_update P p n a c = Some (c', go) \<Longrightarrow> stun_rest p c c'"
  by (auto simp: stun_update_def Let_def split: if_splits Option.bind_splits intro: stun_rest_parts)

lemma ok_stun_update:
  assumes "stun_update P p n a c = Some (c', go)" "client_ok I L c"
  shows "client_ok I L c'"
proof -
  have "p2p_ok c'" using p2p_ok_stun_update [OF ok_p2pD [OF assms(2)] assms(1)] .
  then show ?thesis using assms(2) stun_update_rest [OF assms(1)] by (auto simp: client_ok_def listed_ok_def stun_rest_def)
qed

lemma ok_handleStunInfo: "handleStunInfo P e m c = Some c' \<Longrightarrow> client_ok I L c \<Longrightarrow> client_ok I L c'"
  by (auto simp: handleStunInfo_def Let_def split: if_splits option.splits Option.bind_splits prod.splits dest: ok_stun_update)

lemma keeps_rest_mark: "keeps_rest c (retry_mark c)"
proof -
  have "keeps_rest c (tryAutoHop p c)" for p c by (simp add: keeps_rest_def tryAutoHop_def Let_def split: option.split)
  then have "keeps_rest c (fold tryAutoHop ps c)" for ps c
    by (induction ps arbitrary: c) (auto intro: keeps_rest_refl keeps_rest_trans)
  moreover have "keeps_rest c (c\<lparr>c_peerConns := map (\<lambda>(i, pc). (i, g pc)) (c_peerConns c)\<rparr>)" for g
    by (simp add: keeps_rest_def map_of_map)
  ultimately show ?thesis unfolding retry_mark_def by (rule keeps_rest_trans [rotated])
qed

lemma keeps_rest_retry_punch: "keeps_rest c (retry_punch P e p c)"
  using keeps_rest_punching(1) [of c P "e p" p False]
  by (auto simp: retry_punch_def keeps_rest_def Let_def split: option.splits)

lemma ok_ticks [simp]:
  "client_ok I L c \<Longrightarrow> client_ok I L (retry_tick P es c)" "client_ok I L (keepalive c) = client_ok I L c"
  "client_ok I L c \<Longrightarrow> client_ok I L (resetP2PState c)"
proof -
  show "client_ok I L (keepalive c) = client_ok I L c" by (simp add: keepalive_def)
  assume c: "client_ok I L c"
  have "client_ok I L (retry_mark d)" if "client_ok I L d" for d
    by (rule ok_conns [OF that p2p_ok_mark [OF ok_p2pD [OF that]] keeps_rest_mark])
  then have "client_ok I L (retry_mark (broadcastP2PMap P c))" using c by simp
  then show "client_ok I L (retry_tick P es c)" unfolding retry_tick_def Let_def
    by (rule ok_fold) (rule ok_conns, assumption, erule p2p_ok_retry_punch [OF ok_p2pD], rule keeps_rest_retry_punch)
  show "client_ok I L (resetP2PState c)"
    by (rule ok_conns [OF c p2p_ok_reset [OF ok_p2pD [OF c]]]) (simp add: keeps_rest_def resetP2PState_def map_of_map)
qed

lemma view_ok_new: "view_ok (pc_Mode (new_peerConn p ''connecting''), pc_UDPAddr (new_peerConn p ''connecting''),
    pc_PunchFails (new_peerConn p ''connecting''), pc_Crypto (new_peerConn p ''connecting'') \<noteq> None)"
  by (simp add: new_peerConn_def view_ok.simps)

lemma ok_peer_joined [simp]: "client_ok I L c \<Longrightarrow> client_ok I L (peer_joined p c)"
  using ok_mput [OF _ view_ok_new, of I L c "pi_ID p" "pi_ID p"]
  by (simp add: peer_joined_def Let_def split: option.split)

lemma ok_move_tun [simp]: "client_ok I L (move_tun p q c) = client_ok I L c"
  by (simp add: move_tun_def split: option.splits)

text \<open>A record is deleted only for a peer that is not listed.\<close>

lemma ok_mdel:
  assumes "client_ok I L c" "i \<notin> pi_ID ` set (c_peers c)"
  shows "client_ok I L (c\<lparr>c_peerConns := mdel i (c_peerConns c)\<rparr>)"
proof -
  have "pview (c\<lparr>c_peerConns := mdel i (c_peerConns c)\<rparr>) p = (if p = i then None else pview c p)" for p by (simp add: pview_def)
  then show ?thesis using assms by (auto simp: client_ok_def listed_ok_def p2p_ok_def distinct_delete split: if_splits)
qed

lemma ok_peer_gone:
  assumes "peer_gone P nm p c = Some c'" "client_ok I L c" "pi_ID p \<notin> pi_ID ` set (c_peers c)"
  shows "client_ok I L c'"
proof (cases "if pi_Name p = [] then None else mget nm (pi_Name p)")
  case None
  then show ?thesis using assms by (auto simp: peer_gone_def)
next
  case (Some q)
  define d where "d = move_tun (pi_ID p) q (cleanupPeerP2PMap (pi_ID p) (c\<lparr>c_peerConns := mdel (pi_ID p) (c_peerConns c)\<rparr>))"
  have "cancelSpeedTestsForPeer P (pi_ID p) (d\<lparr>c_fwdNetstacks := mdel (pi_ID p) (c_fwdNetstacks d)\<rparr>) = Some c'"
    using assms(1) unfolding peer_gone_def Some Let_def d_def by simp
  moreover have "client_ok I L d" using ok_mdel [OF assms(2,3)] by (simp add: d_def)
  ultimately show ?thesis by (auto intro: ok_cancelSpeedTests)
qed

lemma ok_all_gone:
  "foldM (peer_gone P nm) ps c = Some c' \<Longrightarrow> client_ok I L c \<Longrightarrow> pi_ID ` set ps \<inter> pi_ID ` set (c_peers c) = {} \<Longrightarrow> client_ok I L c'"
proof (induction ps arbitrary: c)
  case (Cons p ps)
  then obtain d where d: "peer_gone P nm p c = Some d" "foldM (peer_gone P nm) ps d = Some c'" by (auto split: Option.bind_splits)
  have "client_ok I L d" using ok_peer_gone [OF d(1) Cons.prems(2)] Cons.prems(3) by simp
  then show ?case using Cons.IH [OF d(2)] peer_gone_keeps [OF d(1)] Cons.prems(3) by simp
qed simp

lemma ok_revoke: "revoke_leaves ids nm names c = Some c' \<Longrightarrow> client_ok I L c \<Longrightarrow> client_ok I L c'"
proof (induction names arbitrary: c)
  case (Cons n ns)
  show ?case
  proof (cases "mget nm n")
    case None
    then show ?thesis using Cons.IH Cons.prems by simp
  next
    case (Some i)
    then have "revoke_leaves ids nm ns (c\<lparr>c_pendingLeaves := mdel n (c_pendingLeaves c)\<rparr>) = Some c'" using Cons.prems(1) by (simp add: Let_def split: if_splits)
    then show ?thesis by (rule Cons.IH) (simp add: Cons.prems(2))
  qed
qed simp

text \<open>The new list: whoever was listed before has a record, whoever was not gets one.\<close>

lemma listed_joined:
  assumes "client_ok I L c"
  shows "client_ok I L (fold peer_joined (filter (\<lambda>p. pi_ID p \<noteq> c_MyID c \<and> pi_ID p \<notin> set (map pi_ID (c_peers c))) peers) (c\<lparr>c_peers := peers\<rparr>))"
    (is "client_ok I L (fold peer_joined ?joined ?c0)")
proof -
  let ?c1 = "fold peer_joined ?joined ?c0"
  have grow: "conns_grow ?c0 ?c1" and all: "\<forall>p \<in> set ?joined. mget (c_peerConns ?c1) (pi_ID p) \<noteq> None" using joined_all by blast+
  have "mget (c_peerConns ?c1) (pi_ID p) \<noteq> None" if "p \<in> set peers" "pi_ID p \<notin> I" for p
  proof (cases "pi_ID p \<in> pi_ID ` set (c_peers c)")
    case True
    then have "mget (c_peerConns c) (pi_ID p) \<noteq> None" using assms that(2) by (auto simp: client_ok_def listed_ok_def)
    then show ?thesis using grow by (simp add: conns_grow_def)
  next
    case False
    then have "p \<in> set ?joined" using that assms by (auto simp: client_ok_def)
    then show ?thesis using all by blast
  qed
  moreover have "client_ok (I \<union> pi_ID ` set peers) L ?c1"
  proof (rule ok_fold)
    show "client_ok (I \<union> pi_ID ` set peers) L ?c0" using assms by (auto simp: client_ok_defs)
  qed simp
  moreover have "c_peers ?c1 = peers" "c_MyID ?c1 = c_MyID c" using grow by (simp_all add: conns_grow_def)
  moreover have "c_MyID c \<in> I" using assms by (simp add: client_ok_def)
  ultimately show ?thesis by (simp add: client_ok_def listed_ok_def)
qed

lemma ok_handlePeerList:
  assumes "handlePeerList P m c = Some c'" "client_ok I L c"
  shows "client_ok I L c'"
proof (cases "\<exists>v n peers. mPayload m = Some (v, n) \<and> dec_peers v = Some peers")
  case False
  then show ?thesis using assms by (auto simp: handlePeerList_def split: option.splits)
next
  case True
  then obtain v n peers where pl: "mPayload m = Some (v, n)" "dec_peers v = Some peers" by blast
  let ?joined = "filter (\<lambda>p. pi_ID p \<noteq> c_MyID c \<and> pi_ID p \<notin> set (map pi_ID (c_peers c))) peers"
  let ?gone = "filter (\<lambda>p. pi_ID p \<notin> set (map pi_ID peers) \<and> pi_ID p \<noteq> c_MyID c) (c_peers c)"
  let ?c1 = "fold peer_joined ?joined (c\<lparr>c_peers := peers\<rparr>)"
  obtain d where d: "revoke_leaves (map pi_ID peers) (name_map peers) (map fst (c_pendingLeaves ?c1)) ?c1 = Some d"
      "foldM (peer_gone P (name_map peers)) ?gone d = Some c'"
    using assms(1) pl by (auto simp: handlePeerList_def Let_def split: Option.bind_splits)
  have "c_peers d = peers" using revoke_frame [OF d(1)] joined_all [of "c\<lparr>c_peers := peers\<rparr>" ?joined] by (simp add: conns_grow_def)
  moreover have "client_ok I L d" using ok_revoke [OF d(1)] listed_joined [OF assms(2)] by blast
  ultimately show ?thesis by (intro ok_all_gone [OF d(2)]) auto
qed

lemma ok_leave_fires [simp]:
  assumes "client_ok I L c"
  shows "client_ok I L (leave_fires n c)"
proof (cases "mget (c_pendingLeaves c) n")
  case None
  then show ?thesis using assms by (simp add: leave_fires_def)
next
  case (Some p)
  have tun: "client_ok I L (leave_tun i name d) = client_ok I L d" for i name d by (simp add: leave_tun_def split: option.split)
  show ?thesis
  proof (cases "list_ex (\<lambda>cur. (pi_Name cur = pi_Name p \<and> pi_Name p \<noteq> []) \<or> pi_ID cur = pi_ID p) (c_peers c)")
    case True
    then show ?thesis using assms Some by (simp add: leave_fires_def)
  next
    case False
    then have "pi_ID p \<notin> pi_ID ` set (c_peers c)" by (auto simp: list_ex_iff)
    then have "client_ok I L (c\<lparr>c_pendingLeaves := mdel n (c_pendingLeaves c), c_peerConns := mdel (pi_ID p) (c_peerConns c)\<rparr>)"
      using ok_mdel [of I L "c\<lparr>c_pendingLeaves := mdel n (c_pendingLeaves c)\<rparr>" "pi_ID p"] assms by simp
    then show ?thesis using False Some by (simp add: leave_fires_def tun)
  qed
qed

section \<open>Tunnels\<close>

lemma ok_counters [simp]: "client_ok I L (upd_forward f g c) = client_ok I L c" "client_ok I L (add_down tc d c) = client_ok I L c" "client_ok I L (add_up tc d c) = client_ok I L c"
  by (simp_all add: upd_forward_def add_down_def add_up_def split: option.splits)

lemma ok_tcp: "tcp_write tc d c = Some c' \<Longrightarrow> client_ok I L c' = client_ok I L c" "tcp_close k c = Some c' \<Longrightarrow> client_ok I L c' = client_ok I L c"
  by (auto simp: tcp_write_def tcp_close_def split: option.splits)

lemma ok_hops [simp]:
  "client_ok I L c \<Longrightarrow> client_ok I L (fst (StartHopForward P v t h rp lp rnd c))" "client_ok I L c \<Longrightarrow> client_ok I L (open_bridge P f hop t h q i o' c)"
proof -
  assume c: "client_ok I L c"
  have "client_ok I L (c\<lparr>c_bridges := c_bridges c @ [b], c_hops := mput hop' (length (c_bridges c)) (c_hops c)\<rparr>)" for b hop'
    using c by simp
  then show "client_ok I L (fst (StartHopForward P v t h rp lp rnd c))"
    using c by (simp add: StartHopForward_def new_bridge_def Let_def split: sum.splits)
  have b: "client_ok I L (c\<lparr>c_bridges := c_bridges c @ [b], c_hops := mput hop (length (c_bridges c)) (c_hops c),
      c_hopBridgeByTunnel := mput o' (length (c_bridges c)) (mput i (length (c_bridges c)) (c_hopBridgeByTunnel c))\<rparr>)" for b
    using c by simp
  have d: "client_ok I L d \<Longrightarrow> client_ok I L (d\<lparr>c_hops := mdel x (c_hops d), c_hopBridgeByTunnel := mdel y (mdel z (c_hopBridgeByTunnel d))\<rparr>)" for d x y z
    by simp
  show "client_ok I L (open_bridge P f hop t h q i o' c)"
    unfolding open_bridge_def new_bridge_def Let_def using b d
    by (auto split: prod.split dest!: ok_sendRelay_pair)
qed

lemma ok_hop_handlers [simp]:
  "client_ok I L c \<Longrightarrow> client_ok I L (handleHopForward P f p r1 r2 c)" "client_ok I L c \<Longrightarrow> client_ok I L (handleHopForwardReject p c)"
proof -
  assume c: "client_ok I L c"
  have "client_ok I L (c\<lparr>c_hops := mdel x (c_hops c), c_bridges := (c_bridges c)[b := br]\<rparr>)" for x b br using c by simp
  then show "client_ok I L (handleHopForwardReject p c)" using c by (simp add: handleHopForwardReject_def Let_def split: option.splits prod.splits)
  show "client_ok I L (handleHopForward P f p r1 r2 c)" using c by (simp add: handleHopForward_def Let_def split: option.splits prod.splits)
qed

lemma ok_hop_accept: "handleHopForwardAccept f p c = Some c' \<Longrightarrow> client_ok I L c \<Longrightarrow> client_ok I L c'"
  by (auto simp: handleHopForwardAccept_def Let_def split: option.splits prod.splits if_splits Option.bind_splits)

lemma ok_StartForward [simp]: "client_ok I L c \<Longrightarrow> client_ok I L (fst (StartForward P p h rp lp ok i rnd c))"
  by (simp add: StartForward_def Let_def split: sum.splits)

lemma ok_open_tunnel [simp]: "client_ok I L c \<Longrightarrow> client_ok I L (open_tunnel P f tid h q ok dial c)"
proof -
  assume c: "client_ok I L c"
  obtain d b where d: "getOrCreateFwdNetstack f False ok c = (d, b)" by fastforce
  then have "client_ok I L d" using ok_stacks(1) [OF c, of f False ok] by simp
  moreover have "L \<Longrightarrow> is_local (join_host_port h (show_int q))" if "c_localOnly c \<longrightarrow> h \<in> local_hosts"
    using c that by (auto simp: client_ok_def is_local_def)
  ultimately show ?thesis using c d by (auto simp: open_tunnel_def Let_def intro!: ok_RegisterTarget ok_dial split: option.splits)
qed

lemma ok_tunnels [simp]:
  "client_ok I L c \<Longrightarrow> client_ok I L (handleOpenTunnel P f p ok dial c)" "client_ok I L (handleTunnelOpened p c) = client_ok I L c" "client_ok I L (closeTunnel t c) = client_ok I L c"
  "client_ok I L c \<Longrightarrow> client_ok I L (handleCloseTunnel P p c)" "client_ok I L c \<Longrightarrow> client_ok I L (handleTunnelRejected P p c)"
  by (simp_all add: handleOpenTunnel_def handleTunnelOpened_def closeTunnel_def handleCloseTunnel_def handleTunnelRejected_def Let_def
      split: option.splits prod.splits)

lemma ok_reverse [simp]: "client_ok I L c \<Longrightarrow> client_ok I L (handleReverseForwardOffer P f p ok i rnd reason c)"
proof -
  assume c: "client_ok I L c"
  have s: "StartForward P q h rp lp ok i rnd c = (d, b) \<Longrightarrow> client_ok I L d" for q h rp lp d b
    using ok_StartForward [OF c, of P q h rp lp ok i rnd] by simp
  show ?thesis unfolding handleReverseForwardOffer_def Let_def using c by (auto split: option.split prod.split dest!: s)
qed

lemma ok_write_relayed: "write_relayed tc d c = Some c' \<Longrightarrow> client_ok I L c \<Longrightarrow> client_ok I L c'"
  by (auto simp: write_relayed_def Let_def ok_tcp split: option.splits if_splits)

lemma ok_handleTunnelData: "handleTunnelData P p c = Some c' \<Longrightarrow> client_ok I L c \<Longrightarrow> client_ok I L c'"
  by (auto simp: handleTunnelData_def Let_def split: option.splits prod.splits dest: ok_write_relayed)

lemma ok_accept [simp]: "client_ok I L c \<Longrightarrow> client_ok I L (accept_conn P f k ok c)"
proof -
  assume c: "client_ok I L c"
  obtain d b where d: "getOrCreateFwdNetstack (f_PeerID f) True ok c = (d, b)" by fastforce
  then have "client_ok I L d" using ok_stacks(1) [OF c, of "f_PeerID f" True ok] by simp
  then show ?thesis using d by (auto simp: accept_conn_def nextVirtualPort_def Let_def split: prod.split dest!: ok_sendRelay_pair)
qed

lemma ok_StopForward: "StopForward q c = Some (c', b) \<Longrightarrow> client_ok I L c \<Longrightarrow> client_ok I L c'"
  by (auto simp: StopForward_def Let_def ok_tcp split: option.splits Option.bind_splits if_splits elim!: ok_foldM)

lemma ok_tunCleanup [simp]: "client_ok I L (tunCleanup P c) = client_ok I L c"
proof -
  have stop: "client_ok I L (stopTunDevice P dev d) = client_ok I L d" for dev d
    unfolding stopTunDevice_def Let_def by simp
  have "client_ok I L (fold (\<lambda>(p, dev). stopTunDevice P dev) ds d) = client_ok I L d" for ds :: "(string \<times> tunDevice) list" and d
  proof (induction ds arbitrary: d)
    case (Cons x ds)
    obtain p dev where "x = (p, dev)" by fastforce
    then show ?case by (simp only: fold_simps o_apply prod.case Cons.IH stop)
  qed (simp only: fold_simps id_apply)
  then show ?thesis unfolding tunCleanup_def by (simp only: ok_upd)
qed

lemma ok_close_rest [simp]: "client_ok I L c \<Longrightarrow> client_ok I L (close_rest c)"
  by (simp add: close_rest_def)

lemma ok_Disconnect:
  assumes "Disconnect P c = Some c'" "client_ok I L c"
  shows "client_ok I L c'"
proof (cases "c_done c")
  case True
  then show ?thesis using assms by (simp add: Disconnect_def)
next
  case False
  define c0 where "c0 = tunCleanup P (c\<lparr>c_done := True\<rparr>)"
  have c0: "client_ok I L c0" using assms(2) by (simp add: c0_def)
  obtain c1 c2 where c1: "foldM (\<lambda>port c. map_option fst (StopForward port c)) (map fst (c_forwards c0)) c0 = Some c1"
    and c2: "foldM (\<lambda>(tid, tc) c. tcp_close (tc_Conn tc) c \<bind> (\<lambda>c'. Some (c'\<lparr>c_tunnels := mdel tid (c_tunnels c')\<rparr>))) (c_tunnels c1) c1 = Some c2"
    and c': "c' = close_rest c2"
    using assms(1) False unfolding Disconnect_def Let_def c0_def [symmetric] by (auto split: Option.bind_splits)
  have "client_ok I L c1" using c1 c0 by (rule ok_foldM) (auto dest: ok_StopForward)
  then have "client_ok I L c2" using c2 by (elim ok_foldM) (auto simp: ok_tcp split: Option.bind_splits)
  then show ?thesis by (simp add: c')
qed

section \<open>Speed tests\<close>

lemma ok_speed [simp]:
  "client_ok I L (handleSTBegin P f p i c) = client_ok I L c" "client_ok I L (handleSTFinish P g e f p c) = client_ok I L c" "client_ok I L (handleSTResult p c) = client_ok I L c"
  "client_ok I L (handleSpeedTestData w p c) = client_ok I L c" "client_ok I L (speed_data w t d c) = client_ok I L c" "client_ok I L (fst (StartSpeedTest P q n tr rnd i c)) = client_ok I L c"
  by (simp_all add: handleSTBegin_def handleSTFinish_def processSTFinish_def handleSTResult_def handleSpeedTestData_def speed_data_def processSpeedTestData_def
      StartSpeedTest_def Let_def split: option.splits sum.splits)

lemma ok_handleSTCancel: "handleSTCancel p c = Some c' \<Longrightarrow> client_ok I L c \<Longrightarrow> client_ok I L c'"
  by (auto simp: handleSTCancel_def Let_def split: option.splits if_splits Option.bind_splits)

section \<open>VPN\<close>

lemma ok_vpn [simp]:
  "client_ok I L (handleTunSetup P base i ifc f p c) = client_ok I L c" "client_ok I L c \<Longrightarrow> client_ok I L (handleTunAck f p c)" "client_ok I L (handleTunTeardown f c) = client_ok I L c"
  by (simp_all add: handleTunSetup_def accept_tun_def replace_dead_def handleTunAck_def handleTunTeardown_def Let_def
      split: option.splits prod.splits sum.splits)

lemma ok_deliver: "deliver_to now b sp k raw dev c = Some c' \<Longrightarrow> client_ok I L c' = client_ok I L c"
  by (auto simp: deliver_to_def split: Option.bind_splits)

lemma ok_tun_data:
  "handleTunData P now b sp f p c = Some c' \<Longrightarrow> client_ok I L c' = client_ok I L c" "handleTunDataDirect now b sp raw i c = Some c' \<Longrightarrow> client_ok I L c' = client_ok I L c"
  by (auto simp: handleTunData_def handleTunDataDirect_def Let_def split: option.splits prod.splits if_splits dest: ok_deliver)

lemma ok_StartTun [simp]: "client_ok I L c \<Longrightarrow> client_ok I L (fst (StartTun P base q rs ex c))"
proof -
  assume c: "client_ok I L c"
  have "client_ok I L (c\<lparr>c_ackChans := c_ackChans c @ [[]], c_tunAckChs := mput q (length (c_ackChans c)) (c_tunAckChs c)\<rparr>)" for q
    using c by simp
  then show ?thesis using c
    by (auto simp: StartTun_def addRoutesToExistingTun_def Let_def split: option.split sum.split prod.split dest!: ok_sendRelay_pair)
qed

section \<open>File transfers\<close>

lemma ok_chunks [simp]:
  "client_ok I L (append_file q d c) = client_ok I L c" "client_ok I L c \<Longrightarrow> client_ok I L (writeFileChunk i n off d c)" "client_ok I L c \<Longrightarrow> client_ok I L (file_chunk P f t d' n off h c)"
  "client_ok I L c \<Longrightarrow> client_ok I L (handleFileData P g p c)" "client_ok I L c \<Longrightarrow> client_ok I L (processFileDataP2P P v c)"
  by (simp_all add: append_file_def writeFileChunk_def file_chunk_def handleFileData_def processFileDataP2P_def Let_def split: option.splits prod.splits)

lemma ok_send_chunk [simp]: "client_ok I L (fst (send_chunk P q v b c)) = client_ok I L c"
proof -
  have "client_ok I L (fst (sendFileP2P q m c)) = client_ok I L c" for m by (simp add: sendFileP2P_def split: option.splits)
  then have u: "sendFileP2P q m c = (d, ok) \<Longrightarrow> client_ok I L d = client_ok I L c" for m d ok by (metis fst_conv)
  show ?thesis by (auto simp: send_chunk_def Let_def split: prod.split dest!: ok_sendRelay_pair u)
qed

lemma ok_send_chunk_pair: "send_chunk P q v b c = (c', x) \<Longrightarrow> client_ok I L c' = client_ok I L c"
  using ok_send_chunk [of I L P q v b c] by simp

lemma ok_retransmit [simp]: "client_ok I L c \<Longrightarrow> client_ok I L (retransmitChunk P i b n c)"
  by (simp add: retransmitChunk_def Let_def split: prod.split option.split)

lemma ok_files [simp]:
  "client_ok I L c \<Longrightarrow> client_ok I L (fst (SendFile P q path rnd c))" "client_ok I L c \<Longrightarrow> client_ok I L (fst (AcceptFile P t path ok c))" "client_ok I L c \<Longrightarrow> client_ok I L (fst (RejectFile P t c))"
  "client_ok I L c \<Longrightarrow> client_ok I L (fst (CancelFileTransfer P t c))" "client_ok I L c \<Longrightarrow> client_ok I L (handleFileOffer P f p c)" "client_ok I L c \<Longrightarrow> client_ok I L (fst (handleFileAccept p c))"
  "client_ok I L c \<Longrightarrow> client_ok I L (handleFileReject p c)" "client_ok I L c \<Longrightarrow> client_ok I L (handleFileCancel p c)" "client_ok I L c \<Longrightarrow> client_ok I L (handleFileNack P p c)"
  by (simp_all add: SendFile_def AcceptFile_def RejectFile_def CancelFileTransfer_def handleFileOffer_def handleFileAccept_def handleFileReject_def
      handleFileCancel_def drop_transfer_def handleFileNack_def Let_def split: option.splits prod.splits sum.splits)

lemma ok_verify: "verify_file P i h b c = Some c' \<Longrightarrow> client_ok I L c \<Longrightarrow> client_ok I L c'"
  by (auto simp: verify_file_def Let_def split: option.splits if_splits)

lemma ok_handleFileDone: "handleFileDone P f p c = Some c' \<Longrightarrow> client_ok I L c \<Longrightarrow> client_ok I L c'"
  by (auto simp: handleFileDone_def Let_def split: option.splits prod.splits if_splits dest!: ok_verify)

lemma getOrCreate_fts: "getOrCreateFwdNetstack p ini ok c = (d, b) \<Longrightarrow> c_fts d = c_fts c"
  by (auto simp: getOrCreateFwdNetstack_def split: option.splits if_splits)

lemma ok_handleFileStream [simp]: "client_ok I L c \<Longrightarrow> client_ok I L (handleFileStream f p ok c)"
proof -
  assume c: "client_ok I L c"
  obtain d b where d: "getOrCreateFwdNetstack f False ok c = (d, b)" by fastforce
  then have "client_ok I L d" "c_fts d = c_fts c" using ok_stacks(1) [OF c, of f False ok] getOrCreate_fts by auto
  then show ?thesis using c d by (simp add: handleFileStream_def Let_def split: option.split prod.split)
qed

lemma ok_incoming [simp]: "client_ok I L c \<Longrightarrow> client_ok I L (fst (incoming_file p v c))"
  by (simp add: incoming_file_def ok_stack split: option.split)

lemma ok_stream_write [simp]: "client_ok I L c \<Longrightarrow> client_ok I L (stream_write i d c)"
  by (simp add: stream_write_def Let_def)

lemma ok_receive: "receiveFileStream P i ds c = Some c' \<Longrightarrow> client_ok I L c \<Longrightarrow> client_ok I L c'"
  by (auto simp: receiveFileStream_def Let_def split: if_splits elim!: ok_verify intro!: ok_fold)

section \<open>Datagrams\<close>

lemma ok_recv_data: "recv_data P t b n d c = Some c' \<Longrightarrow> client_ok I L c \<Longrightarrow> client_ok I L c'"
  by (auto simp: recv_data_def Let_def ok_tcp split: option.splits prod.splits if_splits)

lemma ok_udp_recv: "udp_recv P e d a c = Some (c', ups) \<Longrightarrow> client_ok I L c \<Longrightarrow> client_ok I L c'"
proof -
  assume r: "udp_recv P e d a c = Some (c', ups)" and c: "client_ok I L c"
  have "recv_tf P t b f c = Some c' \<Longrightarrow> client_ok I L c'" for t b f
    using c ok_recv_data by (auto simp: recv_tf_def recv_ack_def split: Option.bind_splits rutp_parsed.splits option.splits if_splits)
  moreover have "handleUDPTunnelData t z c = Some c' \<Longrightarrow> client_ok I L c'" for t z
    using c by (auto simp: handleUDPTunnelData_def ok_tcp split: option.splits)
  moreover have "client_ok I L (handleFwdNetstackPacket raw a c)" for raw
    using c by (simp add: handleFwdNetstackPacket_def split: option.split prod.split)
  ultimately show ?thesis using r c by (cases "classify d") (auto simp: udp_recv_def split: option.splits)
qed

section \<open>Dispatch\<close>

definition keeps_ok :: "string set \<Rightarrow> bool \<Rightarrow> outcome \<Rightarrow> bool" where
  "keeps_ok I L r \<longleftrightarrow> (\<forall>c ts. r = Some (c, ts) \<longrightarrow> client_ok I L c)"

lemma keeps_ok_simps [simp]:
  "keeps_ok I L (plain c) = client_ok I L c" "keeps_ok I L (Some (c, ts)) = client_ok I L c" "keeps_ok I L None"
  by (simp_all add: keeps_ok_def plain_def)

lemma keeps_ok_partly: "(\<And>c. r = Some c \<Longrightarrow> client_ok I L c) \<Longrightarrow> keeps_ok I L (partly r)"
  by (auto simp: keeps_ok_def partly_def)

lemma keeps_ok_tasks [simp]:
  "client_ok I L c \<Longrightarrow> keeps_ok I L (st_ready p c)" "client_ok I L c \<Longrightarrow> keeps_ok I L (file_accept p c)" "client_ok I L c \<Longrightarrow> keeps_ok I L (tun_setup P w f p c)"
proof -
  show "client_ok I L c \<Longrightarrow> keeps_ok I L (file_accept p c)"
    using ok_files(6) [of I L c p] by (cases "handleFileAccept p c") (simp add: file_accept_def)
qed (simp_all add: st_ready_def tun_setup_def Let_def)

lemma keeps_ok_partial [simp]:
  "client_ok I L c \<Longrightarrow> keeps_ok I L (partly (handleTunnelData P p c))" "client_ok I L c \<Longrightarrow> keeps_ok I L (partly (handleFileDone P f p c))"
  "client_ok I L c \<Longrightarrow> keeps_ok I L (partly (handleSTCancel p c))" "client_ok I L c \<Longrightarrow> keeps_ok I L (partly (handleHopForwardAccept f p c))"
  "client_ok I L c \<Longrightarrow> keeps_ok I L (partly (handlePeerList P m c))" "client_ok I L c \<Longrightarrow> keeps_ok I L (partly (handleStunInfo P e m c))"
  "client_ok I L c \<Longrightarrow> keeps_ok I L (partly (handleTunData P now b sp f p c))" "client_ok I L c \<Longrightarrow> keeps_ok I L (partly (handleTunDataDirect now b sp raw i c))"
  by (rule keeps_ok_partly, blast intro: ok_handleTunnelData ok_handleFileDone ok_handleSTCancel ok_hop_accept
      ok_handlePeerList ok_handleStunInfo ok_tun_data [THEN iffD2])+

lemma sm_handlers_keep: "(ty, h) \<in> set (sm_handlers P w) \<Longrightarrow> client_ok I L c \<Longrightarrow> keeps_ok I L (h f p c)"
  unfolding sm_handlers_def set_simps insert_iff empty_iff prod.inject by (elim disjE conjE) simp_all

lemma handleFwdData_ok [simp]: "client_ok I L c \<Longrightarrow> client_ok I L (handleFwdData P f p c)"
  by (simp add: handleFwdData_def Let_def split: option.split prod.split)

lemma relay_handlers_keep: "(ty, h) \<in> set (relay_handlers P w) \<Longrightarrow> client_ok I L c \<Longrightarrow> keeps_ok I L (h f p c)"
  unfolding relay_handlers_def set_simps insert_iff empty_iff prod.inject by (elim disjE conjE) simp_all

lemma dispatch_keeps:
  assumes "client_ok I L c" "\<And>ty h. (ty, h) \<in> set hs \<Longrightarrow> keeps_ok I L (h f p c)"
  shows "keeps_ok I L (dispatch hs ty f p c)"
  using assms by (auto simp: dispatch_def dest: map_of_SomeD split: option.split)

lemma client_handleMessage_keeps: "client_ok I L c \<Longrightarrow> keeps_ok I L (client_handleMessage P w m c)"
  unfolding client_handleMessage_def client_handleRelayData_def handleRoomConfig_def
  by (auto simp: Let_def split: option.split prod.split
      intro: dispatch_keeps relay_handlers_keep)

lemma frame_lines_keeps: "client_ok I L c \<Longrightarrow> keeps_ok I L (frame_lines P w n ls c)"
proof (induction ls arbitrary: n c)
  case (Cons l ls)
  show ?case
  proof (cases "p_parse P (str_bytes l) \<bind> dec_message 0")
    case (Some m)
    have h: "keeps_ok I L (client_handleMessage P (w n) m c)" by (rule client_handleMessage_keeps) (rule Cons.prems)
    show ?thesis
    proof (cases "client_handleMessage P (w n) m c")
      case (Some r)
      obtain d ts where r: "r = (d, ts)" by fastforce
      then have "client_ok I L d" using h Some by simp
      from Cons.IH [OF this, of "Suc n"] show ?thesis
        using \<open>p_parse P (str_bytes l) \<bind> dec_message 0 = Some m\<close> Some r by (cases "frame_lines P w (Suc n) ls d") auto
    qed (use Some in simp)
  qed (use Cons in simp)
qed simp

lemma datagram_keeps: "client_ok I L c \<Longrightarrow> keeps_ok I L (udpReadLoop_datagram P w d a c)"
proof -
  assume c: "client_ok I L c"
  have up: "keeps_ok I L (run_upcall P w u d)" if "client_ok I L d" for u d
    using that by (cases u) (auto simp: dispatchSMMessage_def split: option.split
        intro: dispatch_keeps sm_handlers_keep)
  show ?thesis
  proof (cases "udp_recv P (w_punch w) d a c")
    case (Some r)
    obtain d ups where "r = (d, ups)" by fastforce
    then show ?thesis using Some ok_udp_recv [OF _ c] up by (auto simp: udpReadLoop_datagram_def split: list.split)
  qed (simp add: udpReadLoop_datagram_def)
qed

section \<open>Goroutines\<close>

lemma ok_send_loop: "client_ok I L c \<Longrightarrow> send_loop P i content stop b n f pos c = (c', r) \<Longrightarrow> client_ok I L c'"
proof (induction P i content stop b n f pos c rule: send_loop.induct)
  case (1 P i content stop b n f pos c)
  define raw where "raw = take (chunk_size b) (drop pos content)"
  obtain c1 d ok where s: "send_chunk P (ft_PeerID (c_fts c ! i)) (chunk_msg P (ft_TransferID (c_fts c ! i)) (int n) (ft_BytesDone (c_fts c ! i)) raw) b c = (c1, d, ok)"
    by (metis prod_cases3)
  then have c1: "client_ok I L c1" using 1(2) ok_send_chunk_pair by blast
  show ?case
  proof (cases "stop n \<or> length content \<le> pos \<or> \<not> ok")
    case True
    then show ?thesis using 1(2,3) c1 s by (subst (asm) send_loop.simps) (auto simp: raw_def Let_def split: if_splits)
  next
    case False
    then show ?thesis using 1(1) [OF _ _ raw_def refl s [symmetric, unfolded prod.inject] refl refl] 1(3) c1 s
      by (subst (asm) (2) send_loop.simps) (auto simp: raw_def Let_def)
  qed
qed


lemma ok_retransmitNacks: "client_ok I L c \<Longrightarrow> client_ok I L (retransmitNacks P i b n arr c)"
  by (induction P i b n arr c rule: retransmitNacks.induct) (simp_all add: Let_def ok_fold)

lemma ok_send_finish [simp]: "client_ok I L c \<Longrightarrow> client_ok I L (send_finish P i c)"
  by (simp add: send_finish_def Let_def)

lemma ok_sendFileChunks [simp]: "client_ok I L c \<Longrightarrow> client_ok I L (sendFileChunks P i stop arr c)"
  by (auto simp: sendFileChunks_def Let_def ok_retransmitNacks split: option.split prod.split send_end.split dest: ok_send_loop)

lemma ok_stream_open [simp]: "client_ok I L c \<Longrightarrow> client_ok I L (fst (stream_open P i ok c))"
  using ok_stacks(1) [of I L c "ft_PeerID (c_fts c ! i)" True ok]
  by (cases "getOrCreateFwdNetstack (ft_PeerID (c_fts c ! i)) True ok c") (simp add: stream_open_def nextVirtualPort_def Let_def)

lemma ok_stream_loop: "client_ok I L c \<Longrightarrow> stream_loop i k content stop wfl n pos c = (c', r) \<Longrightarrow> client_ok I L c'"
proof (induction i k content stop wfl n pos c rule: stream_loop.induct)
  case (1 i k content stop wfl n pos c)
  show ?case
  proof (cases "stop n \<or> length content \<le> pos \<or> wfl n")
    case True
    then show ?thesis using 1(2,3) by (subst (asm) stream_loop.simps) (auto simp: Let_def split: if_splits)
  next
    case False
    then show ?thesis using 1(1) [OF _ _ refl] 1(2,3) by (subst (asm) (2) stream_loop.simps) (simp add: Let_def)
  qed
qed

lemma ok_stream_send [simp]: "client_ok I L c \<Longrightarrow> client_ok I L (stream_send P i k stop wfl c)"
  by (auto simp: stream_send_def Let_def split: option.split prod.split send_end.split dest: ok_stream_loop)

lemma ok_st_send_loop: "client_ok I L c \<Longrightarrow> st_send_loop P t ch stop sent sq c = (c', r) \<Longrightarrow> client_ok I L c'"
proof (induction P t ch stop sent sq c rule: st_send_loop.induct)
  case (1 P t ch stop sent sq c)
  have "client_ok I L (st_send_chunk P t d sq c)" for d using 1(2) by (simp add: st_send_chunk_def Let_def)
  then show ?case using 1 by (subst (asm) (2) st_send_loop.simps) (auto simp: Let_def split: if_splits)
qed

lemma ok_upd_test [simp]: "client_ok I L (upd_test u t g c) = client_ok I L c"
  by (simp add: upd_test_def split: option.split)

lemma ok_stSendData [simp]: "client_ok I L c \<Longrightarrow> client_ok I L (stSendData P t rnd stop now now' dur c)"
  by (auto simp: stSendData_def Let_def split: prod.split option.split dest!: ok_st_send_loop [rotated])

lemma ok_tun_send [simp]: "client_ok I L (fst (tun_send P q z c)) = client_ok I L c"
proof -
  have "client_ok I L (fst (tunSendUDP q z c)) = client_ok I L c" by (simp add: tunSendUDP_def split: option.splits)
  then have u: "tunSendUDP q z c = (d, ok) \<Longrightarrow> client_ok I L d = client_ok I L c" for d ok by simp
  show ?thesis by (auto simp: tun_send_def Let_def split: prod.split dest: u)
qed

lemma ok_tun_send_pair: "tun_send P q z c = (c', b) \<Longrightarrow> client_ok I L c' = client_ok I L c"
  using ok_tun_send [of I L P q z c] by simp

lemma ok_tun_read: "tun_read P now spare pkt q c = Some c' \<Longrightarrow> client_ok I L c' = client_ok I L c"
  unfolding tun_read_def
  by (auto split: option.splits if_splits Option.bind_splits prod.splits dest!: ok_tun_send_pair)

lemma ok_ns_outbound: "ns_outbound P buf q c = Some c' \<Longrightarrow> client_ok I L c' = client_ok I L c"
  by (auto simp: ns_outbound_def Let_def split: option.splits Option.bind_splits)

lemma ok_vpn_ops [simp]:
  "client_ok I L (setup_background det icmp ns rs ex dev c) = client_ok I L c" "client_ok I L (icmp_reply P src n sq d q c) = client_ok I L c"
  "client_ok I L (fst (StopTun P c)) = client_ok I L c" "client_ok I L (stopTunDevice P dev c) = client_ok I L c" "client_ok I L (fst (TunStatusAll c)) = client_ok I L c"
  "client_ok I L (fst (StartTun_acked uid ifc q ip net rs pip c)) = client_ok I L c"
  by (simp_all add: setup_background_def icmp_reply_def sendTunPacket_def StopTun_def stopTunDevice_def TunStatusAll_def StartTun_acked_def Let_def
      split: option.split sum.split)

lemma ok_StopTunPeer [simp]: "client_ok I L (fst (StopTunPeer P q c)) = client_ok I L c"
  by (simp add: StopTunPeer_def Let_def split: option.split sum.split)

lemma ok_StartTun_finish: "StartTun_finish uid ifc q ip net ch rs c = Some (c', e) \<Longrightarrow> client_ok I L c \<Longrightarrow> client_ok I L c'"
proof -
  assume f: "StartTun_finish uid ifc q ip net ch rs c = Some (c', e)" and c: "client_ok I L c"
  have acked: "StartTun_acked uid ifc q ip net rs pip d = (c', e) \<Longrightarrow> client_ok I L c' = client_ok I L d" for pip d
    using ok_vpn_ops(6) [of I L uid ifc q ip net rs pip d] by simp
  show "client_ok I L c'" using f c by (auto simp: StartTun_finish_def split: list.splits dest: acked)
qed

lemma ok_direct_stream: "directTCPReadLoop P s c = Some c' \<Longrightarrow> client_ok I L c \<Longrightarrow> client_ok I L c'"
  unfolding directTCPReadLoop_def
  by (erule ok_foldM) (auto simp: directTCP_frame_def Let_def ok_tcp(1) split: prod.splits option.splits)

text \<open>A direct TCP connection is recorded with a peer or dropped from it.\<close>

lemma ok_direct_conn:
  assumes "client_ok I L c" "mget (c_peerConns c) p = Some pc"
  shows "client_ok I L (c\<lparr>c_peerConns := mput p (pc\<lparr>pc_DirectTCP := k\<rparr>) (c_peerConns c)\<rparr>)"
  by (rule ok_same_view [OF assms(1)]) (use assms(2) in \<open>auto intro!: same_view_mput\<close>)

lemma ok_direct_ops [simp]:
  "client_ok I L c \<Longrightarrow> client_ok I L (direct_greeting t k c)" "client_ok I L c \<Longrightarrow> client_ok I L (fst (tunnelReadDirect_chunk P q tc k d ok c))"
proof -
  assume c: "client_ok I L c"
  then show "client_ok I L (direct_greeting t k c)" by (simp add: direct_greeting_def ok_direct_conn Let_def split: option.split)
  have "client_ok I L (add_up tc d c)" using c by simp
  then show "client_ok I L (fst (tunnelReadDirect_chunk P q tc k d ok c))"
    using ok_direct_conn [of I L "add_up tc d c" q] by (auto simp: tunnelReadDirect_chunk_def Let_def split: option.split)
qed

lemma ok_tunnel_ops [simp]:
  "client_ok I L (tunnelReadRelay_chunk P q tc d c) = client_ok I L c" "client_ok I L (snd (tunnelReadUDP_chunk P tc d now c)) = client_ok I L c"
  "client_ok I L (bridge_ends f k c) = client_ok I L c" "client_ok I L (hop_accept_conn b via k c) = client_ok I L c" "client_ok I L (fst (ExposePort P q h rp lp rnd c)) = client_ok I L c"
  "client_ok I L (SetForwardMode lp fr c) = client_ok I L c" "client_ok I L (st_timeout tid c) = client_ok I L c"
  by (simp_all add: tunnelReadRelay_chunk_def tunnelReadUDP_chunk_def bridge_ends_def hop_accept_conn_def
      ExposePort_def SetForwardMode_def st_timeout_def Let_def split: option.split sum.split)

lemma ok_udpSend_pair: "udpSend d a c = (c', b) \<Longrightarrow> client_ok I L c' = client_ok I L c"
  using ok_sends(6) [of I L d a c] by simp

lemma ok_outbound [simp]: "client_ok I L (outbound P q pkt c) = client_ok I L c"
  unfolding outbound_def sendPacket_def Let_def by (auto split: option.split prod.split dest: ok_udpSend_pair)

lemma ok_tunnelRead_end: "tunnelRead_end P q tc c = Some c' \<Longrightarrow> client_ok I L c \<Longrightarrow> client_ok I L c'"
  by (auto simp: tunnelRead_end_def ok_tcp(2) split: Option.bind_splits)

text \<open>A new connection to the server gives the client a new ID.\<close>

lemma ok_mono: "client_ok I L c \<Longrightarrow> I \<subseteq> I' \<Longrightarrow> (L' \<Longrightarrow> L) \<Longrightarrow> client_ok I' L' c"
  by (auto simp: client_ok_def listed_ok_def)

lemma ok_MyID: "client_ok I L c \<Longrightarrow> client_ok (insert x I) L (c\<lparr>c_MyID := x\<rparr>)"
  by (auto simp: client_ok_defs)

lemma ok_JoinRoom [simp]: "client_ok I L (fst (JoinRoom c)) = client_ok I L c"
  by (simp add: JoinRoom_def)

lemma JoinRoom_MyID [simp]: "c_MyID (fst (JoinRoom c)) = c_MyID c"
  by (simp add: JoinRoom_def sendMsg_def split: option.split)

lemma ok_same: "client_ok I L c \<Longrightarrow> client_ok (insert x I) L c"
  by (erule ok_mono) auto

lemma ok_Connect: "client_ok I L c \<Longrightarrow> client_ok (insert (c_MyID (fst (Connect fr c))) I) L (fst (Connect fr c))"
  using ok_MyID [of I L "c\<lparr>c_conn := Some True\<rparr>"] ok_same [of I L "c\<lparr>c_conn := Some False\<rparr>"] ok_same [of I L c]
  by (auto simp: Connect_def split: option.split bool.split)

lemma ok_reconnect:
  assumes "client_ok I L c"
  shows "client_ok (insert (c_MyID (fst (reconnect_attempt fr c))) I) L (fst (reconnect_attempt fr c))"
proof -
  have "client_ok (insert i I) L (reconnected i c) \<and> c_MyID (reconnected i c) = i" for i
    unfolding reconnected_def using ok_MyID [of I L "c\<lparr>c_conn := Some True\<rparr>" i] assms by (simp add: resetP2PState_def [THEN arg_cong, of c_MyID])
  then show ?thesis using ok_same [OF assms] by (simp add: reconnect_attempt_def split: option.split)
qed

lemma ok_gave_up: "readLoop_reconnected ok c = Some c' \<Longrightarrow> client_ok I L c \<Longrightarrow> client_ok I L c'"
  by (auto simp: readLoop_reconnected_def split: if_splits)

lemma ok_settings [simp]:
  "client_ok I L (SetAllowForward b c) = client_ok I L c" "client_ok I L (SetAllowVPN b c) = client_ok I L c"
  "client_ok I L (SetAllowFileRecv b c) = client_ok I L c" "client_ok I L (SetAllowHopRelay b c) = client_ok I L c" "client_ok I L (fst (Forwards c)) = client_ok I L c"
  by (simp_all add: SetAllowForward_def SetAllowVPN_def SetAllowFileRecv_def SetAllowHopRelay_def Forwards_def)

lemma ok_SetLocalOnly: "client_ok I L c \<Longrightarrow> client_ok I (L \<and> c_localOnly (SetLocalOnly b c)) (SetLocalOnly b c)"
  by (auto simp: SetLocalOnly_def client_ok_defs)

lemma ok_discover: "discover_from P q n ss c = Some (c', r) \<Longrightarrow> client_ok I L c' = client_ok I L c"
  by (induction ss arbitrary: n) (auto simp: Let_def split: if_splits option.splits sum.splits)

lemma ok_DiscoverSTUN: "DiscoverSTUN P q ss c = Some (c', r) \<Longrightarrow> client_ok I L c' = client_ok I L c"
  unfolding DiscoverSTUN_def by (rule ok_discover)

lemma ok_detect: "detectNATType P q q' ok ifs addr ss c = Some c' \<Longrightarrow> client_ok I L c' = client_ok I L c"
  by (auto simp: detectNATType_def detectPortAllocation_def Let_def split: if_splits option.splits list.splits Option.bind_splits)

section \<open>The client as a transition system\<close>

text \<open>Everything that changes the state of a client, in any order: frames of the server and datagrams, writes that begin to fail or to succeed,
  the goroutines that the handlers start, the timers and the operations of the interface. A goroutine refers to its transfer, to its test or to the
  channel it waits on by the value it was started with.\<close>

inductive client_step :: "prims \<Rightarrow> cli \<Rightarrow> cli \<Rightarrow> bool" for P where
  frame: "readLoop_frame P w text c = Some (c', ts) \<Longrightarrow> client_step P c c'"
| datagram: "udpReadLoop_datagram P wd d a c = Some (c', ts) \<Longrightarrow> client_step P c c'"
| direct_stream: "directTCPReadLoop P s c = Some c' \<Longrightarrow> client_step P c c'"
| greeting: "client_step P c (direct_greeting t k c)"
| retry: "client_step P c (retry_tick P es c)"
| keepalive: "client_step P c (keepalive c)"
| leave_timer: "client_step P c (leave_fires name c)"
| speed_timer: "client_step P c (st_timeout tid c)"
| connect: "client_step P c (fst (Connect fr c))"
| join: "client_step P c (fst (JoinRoom c))"
| reconnect: "client_step P c (fst (reconnect_attempt fr c))"
| disconnect: "Disconnect P c = Some c' \<Longrightarrow> client_step P c c'"
| gave_up: "readLoop_reconnected ok c = Some c' \<Longrightarrow> client_step P c c'"
| udp_faults: "client_step P c (c\<lparr>c_udpErr := as\<rparr>)"
| server_faults: "c_conn c \<noteq> None \<Longrightarrow> client_step P c (c\<lparr>c_conn := Some ok\<rparr>)"
| forward: "client_step P c (fst (StartForward P q h rp lp ok i rnd c))"
| hop_forward: "client_step P c (fst (StartHopForward P via q h rp lp rnd c))"
| expose: "client_step P c (fst (ExposePort P q h rp lp rnd c))"
| stop_forward: "StopForward lp c = Some (c', b) \<Longrightarrow> client_step P c c'"
| forward_mode: "client_step P c (SetForwardMode lp fr c)"
| accepted: "client_step P c (accept_conn P f k ok c)"
| bridged: "client_step P c (bridge_ends f k c)"
| hop_accepted: "client_step P c (hop_accept_conn b via k c)"
| stack_connection: "client_step P c (bridgeForward q vp c)"
| stack_packet: "client_step P c (outbound P q pkt c)"
| read_udp: "client_step P c (snd (tunnelReadUDP_chunk P tc d now c))"
| read_direct: "client_step P c (fst (tunnelReadDirect_chunk P q tc k d ok c))"
| read_relay: "client_step P c (tunnelReadRelay_chunk P q tc d c)"
| read_end: "tunnelRead_end P q tc c = Some c' \<Longrightarrow> client_step P c c'"
| send_file: "client_step P c (fst (SendFile P q path rnd c))"
| accept_file: "client_step P c (fst (AcceptFile P tid path ok c))"
| reject_file: "client_step P c (fst (RejectFile P tid c))"
| cancel_file: "client_step P c (fst (CancelFileTransfer P tid c))"
| file_chunks: "client_step P c (sendFileChunks P i stop arr c)"
| file_open: "client_step P c (fst (stream_open P i ok c))"
| file_stream: "client_step P c (stream_send P i k stop wfl c)"
| file_incoming: "client_step P c (fst (incoming_file q v c))"
| file_receive: "receiveFileStream P i ds c = Some c' \<Longrightarrow> client_step P c c'"
| speed_start: "client_step P c (fst (StartSpeedTest P q n mode rnd i c))"
| speed_send: "client_step P c (stSendData P t rnd stop now now' dur c)"
| speed_cancel: "CancelSpeedTest P tid c = Some c' \<Longrightarrow> client_step P c c'"
| vpn_start: "client_step P c (fst (StartTun P base q rs ex c))"
| vpn_acked: "StartTun_finish uid ifc q ip net ch rs c = Some (c', e) \<Longrightarrow> client_step P c c'"
| vpn_background: "client_step P c (setup_background det icmp ns rs ex dev c)"
| vpn_read: "tun_read P now spare pkt q c = Some c' \<Longrightarrow> client_step P c c'"
| vpn_outbound: "ns_outbound P buf q c = Some c' \<Longrightarrow> client_step P c c'"
| vpn_icmp: "client_step P c (icmp_reply P src n sq d q c)"
| vpn_stop: "client_step P c (fst (StopTun P c))"
| vpn_stop_peer: "client_step P c (fst (StopTunPeer P q c))"
| vpn_status: "client_step P c (fst (TunStatusAll c))"
| forward_status: "client_step P c (fst (Forwards c))"
| discovery: "DiscoverSTUN P qs servers c = Some (c', r) \<Longrightarrow> client_step P c c'"
| nat_type: "detectNATType P qs qs' ok ifs addr servers c = Some c' \<Longrightarrow> client_step P c c'"
| allow_forward: "client_step P c (SetAllowForward b c)"
| local_only: "client_step P c (SetLocalOnly b c)"
| allow_vpn: "client_step P c (SetAllowVPN b c)"
| allow_files: "client_step P c (SetAllowFileRecv b c)"
| allow_hops: "client_step P c (SetAllowHopRelay b c)"

text \<open>The runs of a client, with the IDs it has had and whether it has been local-only all the time.\<close>

inductive client_run :: "prims \<Rightarrow> cli \<Rightarrow> string set \<Rightarrow> bool \<Rightarrow> bool" for P where
  created: "c_peers c = [] \<Longrightarrow> c_peerConns c = [] \<Longrightarrow> c_fwdNetstacks c = [] \<Longrightarrow> c_dials c = [] \<Longrightarrow>
    client_run P c {c_MyID c} (c_localOnly c)"
| step: "client_run P c I L \<Longrightarrow> client_step P c c' \<Longrightarrow> client_run P c' (insert (c_MyID c') I) (L \<and> c_localOnly c')"

lemma NewClient_run: "client_run P (NewClient room name hash host) {[]} True"
  using client_run.created [of "NewClient room name hash host" P] by (simp add: NewClient_def)

text \<open>A step that gives \<open>Some\<close> of a state keeps the invariant, if the operation does.\<close>

lemmas ok_partial = ok_direct_stream ok_Disconnect ok_StopForward ok_tunnelRead_end ok_receive ok_CancelSpeedTest
  ok_StartTun_finish ok_tun_read [THEN iffD2] ok_ns_outbound [THEN iffD2]
  ok_DiscoverSTUN [THEN iffD2] ok_detect [THEN iffD2] ok_gave_up

lemma keeps_okD: "keeps_ok I L r \<Longrightarrow> r = Some (c, ts) \<Longrightarrow> client_ok I L c"
  by simp

lemma ok_weaken: "client_ok I L c \<Longrightarrow> client_ok (insert x I) (L \<and> b) c"
  by (erule ok_mono) auto

lemma client_step_ok: "client_step P c c' \<Longrightarrow> client_ok I L c \<Longrightarrow> client_ok (insert (c_MyID c') I) (L \<and> c_localOnly c') c'"
proof (induction rule: client_step.induct)
  case (frame w s c c' ts)
  then show ?case using keeps_okD [OF frame_lines_keeps] by (intro ok_weaken) (auto simp: readLoop_frame_def)
next
  case (datagram wd d a c c' ts)
  then show ?case using keeps_okD [OF datagram_keeps] by (intro ok_weaken) blast
next
  case (connect c fr)
  then show ?case using ok_Connect by (blast intro: ok_mono)
next
  case (reconnect c fr)
  then show ?case using ok_reconnect by (blast intro: ok_mono)
next
  case (local_only c b)
  then show ?case using ok_SetLocalOnly by (blast intro: ok_mono)
qed (rule ok_weaken, (assumption | (simp; fail) | (erule ok_partial, assumption)))+

lemma client_run_ok: "client_run P c I L \<Longrightarrow> client_ok I L c"
proof (induction rule: client_run.induct)
  case (created c)
  then show ?case by (simp add: client_ok_defs)
next
  case (step c I L c')
  then show ?case by (blast intro: client_step_ok)
qed

section \<open>Properties of every reachable state\<close>

text \<open>A server that sends the message \<open>m\<close>, and what a client makes of the frame.\<close>

definition says :: "message \<Rightarrow> prims" where
  "says m = prims0\<lparr>p_parse := (\<lambda>_. Some (marshal_message m))\<rparr>"

lemma run_frame:
  assumes "client_handleMessage (says m) world0 m c = Some (c', ts)" "\<And>v k. mPayload m = Some (v, k) \<Longrightarrow> k = 0" "client_run (says m) c I L"
  shows "client_run (says m) c' (insert (c_MyID c') I) (L \<and> c_localOnly c')"
proof (rule client_run.step [OF assms(3)], rule client_step.frame)
  have "splitMessages ''x'' = [''x'']" by code_simp
  moreover have "dec_message 0 (marshal_message m) = Some m" by (rule envelope.dec_enc) (use assms(2) in blast)
  ultimately show "readLoop_frame (says m) (\<lambda>_. world0) ''x'' c = Some (c', ts)"
    using assms(1) by (simp add: readLoop_frame_def says_def plain_def)
qed

lemma cli_with_run: "client_run P (cli_with i []) {i} True"
  using client_run.created [of "cli_with i []" P] by (simp add: cli_with_def)

text \<open>Claim C20. In every state that a client reaches, whatever the server and the peers send and in whatever order its goroutines, timers, reconnects and
  the interface run, a peer whose mode is \<open>direct\<close> has an address, key material and no counted failure. A message to it leaves over UDP to that
  address, and nothing goes through the server, if there is a socket and the write succeeds; if not, the message goes through the relay.\<close>

theorem direct_peer_is_reachable:
  assumes "client_run P c I L" "PeerMode c p = ''direct''"
  shows "\<exists>pc a. mget (c_peerConns c) p = Some pc \<and> pc_UDPAddr pc = Some a \<and> pc_Crypto pc \<noteq> None \<and> pc_PunchFails pc = 0
    \<and> sendViaP2P P p d ty v c = (if c_udpConn c \<and> a \<notin> set (c_udpErr c) then c\<lparr>c_udp := c_udp c @ [(a, d)]\<rparr> else fst (sendRelay P p ty v c))"
proof -
  have ok: "p2p_ok c" using client_run_ok [OF assms(1)] by (rule ok_p2pD)
  obtain pc where pc: "mget (c_peerConns c) p = Some pc" "pc_Mode pc = ''direct''"
    using assms(2) by (auto simp: PeerMode_def split: option.splits)
  have "view_ok (''direct'', pc_UDPAddr pc, pc_PunchFails pc, pc_Crypto pc \<noteq> None)"
    by (rule p2p_okD [OF ok, of p]) (simp add: pview_def pc)
  then obtain a where "pc_UDPAddr pc = Some a" "pc_Crypto pc \<noteq> None" "pc_PunchFails pc = 0"
    by (auto simp: view_ok.simps)
  with pc show ?thesis by (intro exI [of _ pc] exI [of _ a]) (simp add: sendViaP2P_def udpSend_def)
qed

definition punched :: cli where
  "punched = onHolePunchSuccess prims0 env0 ''p'' (1, 2) (cli_with ''a'' [])"

theorem direct_peer_is_reachable_witness:
  "\<exists>pc a. mget (c_peerConns punched) ''p'' = Some pc \<and> pc_UDPAddr pc = Some a \<and> pc_Crypto pc \<noteq> None \<and> pc_PunchFails pc = 0
    \<and> sendViaP2P prims0 ''p'' [1] ''x'' JNull punched = (if c_udpConn punched \<and> a \<notin> set (c_udpErr punched)
        then punched\<lparr>c_udp := c_udp punched @ [(a, [1])]\<rparr> else fst (sendRelay prims0 ''p'' ''x'' JNull punched))"
proof (rule direct_peer_is_reachable)
  have "classify (build (DPunchAck ''p'')) = DPunchAck ''p''" by (rule classify_build) simp
  then have "udpReadLoop_datagram prims0 world0 (build (DPunchAck ''p'')) (1, 2) (cli_with ''a'' []) = Some (punched, [])"
    by (simp add: udpReadLoop_datagram_def udp_recv_def punched_def plain_def world0_def del: build.simps)
  then show "client_run prims0 punched (insert (c_MyID punched) {''a''}) (True \<and> c_localOnly punched)"
    by (intro client_run.step [OF cli_with_run] client_step.datagram)
  show "PeerMode punched ''p'' = ''direct''"
    using punched_is_direct [of prims0 env0 "''p''" "(1, 2)" "cli_with ''a'' []"] by (auto simp: punched_def PeerMode_def)
qed

text \<open>Claim C30. Connection records follow the peer list: in every state that a client reaches, every listed peer has a connection record, so that its
  \<open>stun_info\<close> and punches are accounted for. The only exceptions are entries of the client itself, under its present ID or under one that it
  had before a reconnect.\<close>

theorem listed_peers_have_connections:
  assumes "client_run P c I L" "p \<in> set (c_peers c)" "pi_ID p \<notin> I"
  shows "c_MyID c \<in> I \<and> (\<exists>pc. mget (c_peerConns c) (pi_ID p) = Some pc)"
  using client_run_ok [OF assms(1)] assms(2,3) by (auto simp: client_ok_def listed_ok_def)

theorem listed_peers_have_connections_witness:
  "\<exists>c'. client_run (says bob_list) c' {''a''} True \<and> c_peers c' = [bob ''b2''] \<and> c_MyID c' = ''a'' \<and> (\<exists>pc. mget (c_peerConns c') ''b2'' = Some pc)"
proof -
  define c' where "c' = peer_joined (bob ''b2'') ((cli_with ''a'' [])\<lparr>c_peers := [bob ''b2'']\<rparr>)"
  have c': "c_peers c' = [bob ''b2'']" "c_MyID c' = ''a''" "c_localOnly c'"
    by (simp_all add: c'_def peer_joined_def cli_with_def Let_def split: option.split)
  have "handlePeerList (says bob_list) bob_list (cli_with ''a'' []) = Some c'"
    using bob_decodes
    by (simp add: handlePeerList_def bob_list_def mk_message_def c'_def peer_joined_def Let_def) (simp add: cli_with_def bob_def)
  then have "client_handleMessage (says bob_list) world0 bob_list (cli_with ''a'' []) = Some (c', [])"
    by (simp add: client_handleMessage_def partly_def) (simp add: bob_list_def mk_message_def)
  from run_frame [OF this _ cli_with_run] have r: "client_run (says bob_list) c' {''a''} True"
    by (simp add: c' bob_list_def mk_message_def)
  have "c_MyID c' \<in> {''a''} \<and> (\<exists>pc. mget (c_peerConns c') (pi_ID (bob ''b2'')) = Some pc)"
    by (rule listed_peers_have_connections [OF r]) (simp_all add: c' bob_def)
  then show ?thesis using r c' by (auto simp: bob_def)
qed

text \<open>Claim C27. A client that has been local-only since it was created connects its forwards only to itself: in every state that it reaches, whatever its peers
  request, each target that it has dialled for them, and each target that a connection to a virtual port would make it dial, is on \<open>127.0.0.1\<close>,
  \<open>localhost\<close> or \<open>::1\<close>.\<close>

theorem local_only_confines:
  assumes "client_run P c I True"
  shows "(\<forall>t \<in> set (c_dials c). \<exists>h \<in> local_hosts. \<exists>port. t = join_host_port h port)
    \<and> (\<forall>p fn v t. mget (c_fwdNetstacks c) p = Some fn \<longrightarrow> handleIncoming fn v = Some t \<longrightarrow> (\<exists>h \<in> local_hosts. \<exists>port. t = join_host_port h port))"
  using client_run_ok [OF assms] unfolding is_local_def [symmetric]
  by (auto simp: client_ok_def list_all_iff handleIncoming_def dest: stacks_localD split: if_splits)

definition ssh_request :: message where
  "ssh_request = (mk_message ''relay_data'' (relayEnvelope ''open_tunnel'' (tunnelOpen ''t'' ''localhost'' 22)))\<lparr>mFrom := ''b''\<rparr>"

theorem local_only_confines_witness:
  "\<exists>c' I. client_run (says ssh_request) c' I True \<and> c_dials c' = [join_host_port ''localhost'' (show_int 22)]
    \<and> (\<forall>t \<in> set (c_dials c'). \<exists>h \<in> local_hosts. \<exists>port. t = join_host_port h port)"
proof -
  let ?P = "says ssh_request"
  define c' where "c' = open_tunnel ?P ''b'' ''t'' ''localhost'' 22 True None (cli_with ''a'' [])"
  have names: "\<not> equal_fold x y" if "x \<noteq> y" "x \<in> set [''tunnel_id'', ''target_host'', ''target_port'']" "y \<in> set [''tunnel_id'', ''target_host'', ''target_port'']" for x y
    using that by (auto simp: equal_fold_def to_lower_def lower_char_def)
  have "handleOpenTunnel ?P ''b'' (Some (tunnelOpen ''t'' ''localhost'' 22)) True None (cli_with ''a'' []) = c'"
    by (simp add: handleOpenTunnel_def tunnelOpen_def get_str_def get_int_def names c'_def int64_range_def)
  moreover have "open_relay ?P ssh_request (cli_with ''a'' []) = Some (''open_tunnel'', Some (tunnelOpen ''t'' ''localhost'' 22))"
    by (simp add: open_relay_def ssh_request_def mk_message_def)
  ultimately have "client_handleMessage ?P world0 ssh_request (cli_with ''a'' []) = Some (c', [])"
    by (simp add: client_handleMessage_def client_handleRelayData_def dispatch_def relay_handlers_def plain_def world0_def)
      (simp add: ssh_request_def mk_message_def)
  from run_frame [OF this _ cli_with_run] have r: "client_run ?P c' (insert (c_MyID c') {''a''}) (c_localOnly c')"
    by (simp add: ssh_request_def mk_message_def)
  have prefix: "\<not> has_prefix ''t'' ''ns:''" by code_simp
  have "c_localOnly c' \<and> c_dials c' = [join_host_port ''localhost'' (show_int 22)]"
    using prefix by (simp add: c'_def open_tunnel_def sendTunnelClose_def local_hosts_def sendRelay_other) (simp add: cli_with_def)
  then have lo: "client_run ?P c' (insert (c_MyID c') {''a''}) True" and d: "c_dials c' = [join_host_port ''localhost'' (show_int 22)]"
    using r by simp_all
  show ?thesis by (intro exI conjI) (fact lo d conjunct1 [OF local_only_confines [OF lo]])+
qed

end
