(* ===== verification/System.thy ===== *)
theory System
  imports Server_Props Dispatch Channel
begin

text \<open>
  Clients and server together: what the one writes the other reads. The messages of \<^verbatim>\<open>src/client/core/client.go\<close> are handled by the
  model of \<^verbatim>\<open>src/server\<close> and the messages that the server queues are handled by the model of the client. A connection carries the
  value of a message; the text between \<^verbatim>\<open>json.Marshal\<close> and \<^verbatim>\<open>json.Unmarshal\<close> is not modelled here.
\<close>

section \<open>Messages between clients\<close>

lemma unmarshal_relay_msg:
  "unmarshal_message n (marshal_message (relay_msg to x)) = (\<lparr>mType = ''relay_data'', mFrom = [], mTo = to, mRoom = [], mPayload = Some (x, n)\<rparr>, True)"
proof -
  let ?m = "\<lparr>mType = ''relay_data'', mFrom = [], mTo = to, mRoom = [], mPayload = Some (x, n)\<rparr>"
  have "marshal_message (relay_msg to x) = marshal_message ?m" by (simp add: marshal_message_def relay_msg_def)
  then show ?thesis using unmarshal_marshal [of ?m n] by simp
qed

lemma relayData_queues:
  assumes "srv_ok s" "findClient from' s = Some pa" "findClient to' s = Some pb"
    and "c_roomKey (s_heap s pa) = c_roomKey (s_heap s pb)" "c_roomKey (s_heap s pa) \<noteq> []" "length (c_send (s_heap s pb)) < send_cap"
    and "\<not> s_globalRelayOff s" "\<And>r. mget (s_rooms s) (c_roomKey (s_heap s pb)) = Some r \<Longrightarrow> \<not> r_RelayDisabled r"
  shows "\<exists>t. relayData from' to' data s = Some t \<and> c_send (s_heap t pb) = c_send (s_heap s pb) @
    [marshal_message \<lparr>mType = ''relay_data'', mFrom = from', mTo = to', mRoom = [], mPayload = data\<rparr>]"
proof -
  obtain k where "member s k to' pb" using findClient_member [of s to' pb] assms(1,3) by (auto simp: srv_ok_def)
  then have "c_open (s_heap s pb)" using assms(1) by (auto simp: srv_ok_def members_ok_def)
  then show ?thesis
    using assms by (auto simp: relayData_def try_send_def Let_def upd_client_def put_room_def split: option.split)
qed

text \<open>Claim C5. A message of one client reaches the handlers of another through the server: when both are in one room whose relay is not switched off
  and there is room in the queue, the server takes the message that \<^verbatim>\<open>sendRelay\<close> writes, queues one message for the other
  connection, and the other client, reading it, runs the handler of the type that was sent, with the ID of the sender and the payload that was
  sent, encrypted on the way or not.\<close>

theorem message_through_server:
  assumes server: "srv_ok s" "findClient (c_MyID a) s = Some pa" "findClient (c_MyID b) s = Some pb"
      "c_roomKey (s_heap s pa) = c_roomKey (s_heap s pb)" "c_roomKey (s_heap s pa) \<noteq> []" "length (c_send (s_heap s pb)) < send_cap"
      "\<not> s_globalRelayOff s" "\<And>r. mget (s_rooms s) (c_roomKey (s_heap s pb)) = Some r \<Longrightarrow> \<not> r_RelayDisabled r"
    and clients: "cli.c_conn a = Some True" "c_MyID b \<noteq> []" "ty \<noteq> ''encrypted''" "ty \<noteq> ''key_exchange''" "channel_agreed P a b"
      "p_parse P (p_text P (relayEnvelope ty v)) = Some (relayEnvelope ty v)"
  shows "\<exists>m t x m'. c_ws (fst (sendRelay P (c_MyID b) ty v a)) = c_ws a @ [m] \<and>
    readPump_frame pa (Some (marshal_message m)) n now s = Some t \<and> c_send (s_heap t pb) = c_send (s_heap s pb) @ [x] \<and>
    dec_message 0 x = Some m' \<and> client_handleMessage P w m' b = dispatch (relay_handlers P w) ty (c_MyID a) (Some v) b"
proof -
  obtain x where x: "c_ws (fst (sendRelay P (c_MyID b) ty v a)) = c_ws a @ [relay_msg (c_MyID b) x]"
      "open_relay P ((relay_msg (c_MyID b) x)\<lparr>mFrom := c_MyID a\<rparr>) b = Some (ty, Some v)"
    using relay_delivers_msg [OF clients(1,3-6)] by blast
  let ?out = "\<lambda>n. \<lparr>mType = ''relay_data'', mFrom = c_MyID a, mTo = c_MyID b, mRoom = [], mPayload = Some (x, n)\<rparr>"
  obtain k where "member s k (c_MyID a) pa" using findClient_member [of s "c_MyID a" pa] server(1,2) by (auto simp: srv_ok_def)
  then have "c_id (s_heap s pa) = c_MyID a" using server(1) by (auto simp: srv_ok_def members_ok_def)
  then have "readPump_frame pa (Some (marshal_message (relay_msg (c_MyID b) x))) n now s = relayData (c_MyID a) (c_MyID b) (Some (x, n)) s"
    using clients(2) by (simp add: readPump_frame_def unmarshal_relay_msg handleMessage_def handleRelayData_def)
  moreover obtain t where "relayData (c_MyID a) (c_MyID b) (Some (x, n)) s = Some t"
      "c_send (s_heap t pb) = c_send (s_heap s pb) @ [marshal_message (?out n)]"
    using relayData_queues [OF server] by blast
  moreover have "dec_message 0 (marshal_message (?out n)) = Some (?out 0)"
    using envelope.dec_enc [of "?out 0" 0] by (simp add: marshal_message_def)
  moreover have "open_relay P (?out 0) b = Some (ty, Some v)"
    using x(2) by (simp add: relay_msg_def open_relay_def)
  then have "client_handleMessage P w (?out 0) b = dispatch (relay_handlers P w) ty (c_MyID a) (Some v) b"
    by (simp add: client_handleMessage_def client_handleRelayData_def)
  ultimately show ?thesis using x(1) by (metis (no_types, lifting))
qed

theorem message_through_server_witness:
  "\<forall>w. \<exists>m t x m'. c_ws (fst (sendRelay prims1 ''bob00002'' ''p2p_map'' JNull (cli_with ''alice001'' []))) = [m] \<and>
    readPump_frame 0 (Some (marshal_message m)) 40 5 demo_lab = Some t \<and> c_send (s_heap t 1) = [x] \<and>
    dec_message 0 x = Some m' \<and> client_handleMessage prims1 w m' (cli_with ''bob00002'' []) = plain (handleP2PMap ''alice001'' (Some JNull) (cli_with ''bob00002'' []))"
  (is "\<forall>w. ?P w")
proof
  fix w
  let ?a = "cli_with ''alice001'' []" and ?b = "cli_with ''bob00002'' []"
  have c: "c_MyID ?a = ''alice001''" "c_MyID ?b = ''bob00002''" "cli.c_conn ?a = Some True" "c_ws ?a = []" "channel_agreed prims1 ?a ?b"
    by (simp_all add: cli_with_def channel_agreed_def keyed_def peer_crypto_def)
  have s: "findClient ''alice001'' demo_lab = Some 0" "findClient ''bob00002'' demo_lab = Some 1" "c_roomKey (s_heap demo_lab 0) = ''lab''"
      "c_roomKey (s_heap demo_lab 1) = ''lab''" "c_send (s_heap demo_lab 1) = []" "\<not> s_globalRelayOff demo_lab"
      "\<And>r. mget (s_rooms demo_lab) ''lab'' = Some r \<Longrightarrow> \<not> r_RelayDisabled r" "0 < send_cap"
    by (auto simp: findClient_def demo_lab_simps send_cap_def)
  have "dispatch (relay_handlers prims1 w) ''p2p_map'' f p ?b = plain (handleP2PMap f p ?b)" for f p
    by (simp add: dispatch_def relay_handlers_def)
  then show "?P w"
    using message_through_server [of demo_lab ?a 0 ?b 1 "''p2p_map''" prims1 JNull 40 5 w, OF demo_lab_ok] c s
    by (simp add: prims1_def)
qed

section \<open>Peer lists\<close>

definition peer_info :: "client \<Rightarrow> peerInfo" where
  "peer_info c = \<lparr>pi_ID = c_id c, pi_Status = c_status c, pi_Name = client.c_name c, pi_NATType = client.c_natType c\<rparr>"

lemma peer_field_names:
  "\<not> equal_fold x y" if "x \<noteq> y"
    "x \<in> set [''id'', ''status'', ''name'', ''services'', ''endpoint'', ''nat_type'', ''features'', ''ip_info'']"
    "y \<in> set [''id'', ''status'', ''name'', ''services'', ''endpoint'', ''nat_type'']"
proof -
  have "list_all (\<lambda>x. list_all (\<lambda>y. x = y \<or> \<not> equal_fold x y) [''id'', ''status'', ''name'', ''services'', ''endpoint'', ''nat_type''])
      [''id'', ''status'', ''name'', ''services'', ''endpoint'', ''nat_type'', ''features'', ''ip_info'']" by code_simp
  then show ?thesis using that unfolding list_all_iff by blast
qed

lemma dec_marshal_peer: "dec_peerInfo (marshal_peer c) = (peer_info c, True)"
  by (cases "c_ipInfo c") (simp_all add: dec_peerInfo_def marshal_peer_def peer_info_def get_str_def get_strs_def peer_field_names list_all_iff)

lemma handlePeerList_peers:
  assumes "mPayload m = Some (v, n)" "dec_peers v = Some peers" "handlePeerList P m c = Some c'"
  shows "c_peers c' = peers"
proof -
  let ?joined = "filter (\<lambda>p. pi_ID p \<noteq> c_MyID c \<and> pi_ID p \<notin> set (map pi_ID (c_peers c))) peers"
  let ?c1 = "fold peer_joined ?joined (c\<lparr>c_peers := peers\<rparr>)"
  have "conns_grow (c\<lparr>c_peers := peers\<rparr>) ?c1" using joined_all by blast
  then have "c_peers ?c1 = peers" by (simp add: conns_grow_def)
  then show ?thesis using assms revoke_frame gone_keeps
    by (auto simp: handlePeerList_def Let_def split: Option.bind_splits)
qed

text \<open>Claim C8. The peer list of a room as the server broadcasts it is the one that a client ends up with: the message decodes, and the client that has
  handled it lists exactly the members of the room, each with the ID, status, name and NAT type that the server holds.\<close>

theorem peer_list_transferred:
  "\<exists>m. dec_message 0 (peer_list_msg s r) = Some m \<and> mType m = ''peer_list'' \<and>
    (\<forall>P c c'. handlePeerList P m c = Some c' \<longrightarrow> c_peers c' = map (\<lambda>(i, p). peer_info (s_heap s p)) (r_Clients r))"
proof -
  let ?m = "mk_message ''peer_list'' (JArr (getPeerList s r))"
  have "dec_message 0 (peer_list_msg s r) = Some ?m"
    using envelope.dec_enc [of ?m 0] by (simp add: peer_list_msg_def mk_message_def)
  moreover have "dec_peers (JArr (getPeerList s r)) = Some (map (\<lambda>(i, p). peer_info (s_heap s p)) (r_Clients r))"
    by (auto simp: dec_peers.simps getPeerList_def dec_marshal_peer list_all_iff)
  ultimately show ?thesis using handlePeerList_peers [of ?m] by (auto simp: mk_message_def)
qed

theorem peer_list_transferred_witness:
  "\<exists>m. dec_message 0 (peer_list_msg demo_lab (snd (hd (s_rooms demo_lab)))) = Some m \<and>
    (\<exists>c'. handlePeerList prims0 m (cli_with ''alice001'' []) = Some c' \<and> map pi_ID (c_peers c') = [''alice001'', ''bob00002''])"
proof -
  obtain m where m: "dec_message 0 (peer_list_msg demo_lab (snd (hd (s_rooms demo_lab)))) = Some m"
      "\<And>P c c'. handlePeerList P m c = Some c' \<Longrightarrow> c_peers c' = map (\<lambda>(i, p). peer_info (s_heap demo_lab p)) (r_Clients (snd (hd (s_rooms demo_lab))))"
    using peer_list_transferred [of demo_lab "snd (hd (s_rooms demo_lab))"] by blast
  have "c_pendingLeaves (fold peer_joined xs c) = c_pendingLeaves c" for xs c
    by (induction xs arbitrary: c) (auto simp: peer_joined_def Let_def split: option.splits)
  then have "\<exists>c'. handlePeerList prims0 m (cli_with ''alice001'' []) = Some c'"
    by (auto simp: handlePeerList_def cli_with_def Let_def split: option.split)
  then show ?thesis using m by (auto simp: demo_lab_simps peer_info_def)
qed

section \<open>Joining\<close>

lemma join_field_names:
  "\<not> equal_fold x y" if "x \<noteq> y" "x \<in> set [''room'', ''password_hash'', ''name'']" "y \<in> set [''room'', ''password_hash'', ''name'', ''services'']"
  using that by (auto simp: equal_fold_def to_lower_def lower_char_def)

text \<open>Client and server agree on who joins what: the client takes the ID of the server's welcome message as its own, and from its
  \<^verbatim>\<open>join\<close> message the server reads the room, the password hash and the name that the client was configured with.\<close>

theorem join_understood:
  assumes "Connect (Some (welcome_msg cid)) c = (c', ok)" "cli.c_room c \<noteq> []"
  shows "ok \<and> c_MyID c' = cid \<and>
    (\<exists>m. dec_message 0 (marshal_message (join_msg c')) = Some m \<and> mType m = ''join'' \<and>
       join_payload m p s = (upd_client p (\<lambda>d. d\<lparr>client.c_name := (if cli.c_name c \<noteq> [] then cli.c_name c else client.c_name d)\<rparr>) s,
         cli.c_room c, c_passwordHash c))"
proof -
  have "welcome_payload (welcome_msg cid) = Some (cid, True)"
    using envelope.dec_enc [of "mk_message ''welcome'' (JObj [(''id'', JStr cid)])" 0]
    by (simp add: welcome_payload_def welcome_msg_def mk_message_def get_str_def)
  then have c': "ok" "c' = c\<lparr>cli.c_conn := Some True, c_MyID := cid\<rparr>" using assms(1) by (auto simp: Connect_def)
  have "dec_message 0 (marshal_message (join_msg c')) = Some (join_msg c')"
    using envelope.dec_enc [of "join_msg c'" 0] by (simp add: join_msg_def)
  moreover have "join_payload (join_msg c') p s = (upd_client p (\<lambda>d. d\<lparr>client.c_name := (if cli.c_name c \<noteq> [] then cli.c_name c else client.c_name d)\<rparr>) s,
      cli.c_room c, c_passwordHash c)"
    using assms(2) by (simp add: join_payload_def join_msg_def c'(2) enc_strmap_def get_str_def get_strs_def join_field_names Let_def cong: if_cong)
  ultimately show ?thesis using c' by (auto simp: join_msg_def)
qed

theorem join_understood_witness:
  "snd (Connect (Some (welcome_msg ''0011223344556677'')) (NewClient ''lab'' ''ann'' ''hash'' [])) \<and>
   (\<exists>m. join_payload m 0 demo_lab = (upd_client 0 (\<lambda>d. d\<lparr>client.c_name := ''ann''\<rparr>) demo_lab, ''lab'', ''hash''))"
  using join_understood [of "''0011223344556677''" "NewClient ''lab'' ''ann'' ''hash'' []"
      "fst (Connect (Some (welcome_msg ''0011223344556677'')) (NewClient ''lab'' ''ann'' ''hash'' []))"
      "snd (Connect (Some (welcome_msg ''0011223344556677'')) (NewClient ''lab'' ''ann'' ''hash'' []))" 0 demo_lab]
  by (auto simp: NewClient_def)

text \<open>The IDs that clients derive have sixteen characters, so the eight that the server cuts from the ID of an owner exist.\<close>

lemma generateMachineID_length:
  assumes "\<And>d. length (sha d) = 32"
  shows "length (generateMachineID sha android host ifs name) = 16"
  using assms by (simp add: generateMachineID_def)

end
