(* ===== verification/Spec2Isabelle.thy ===== *)
theory Spec2Isabelle
  imports Prelude Rutp Gotext Json Guards Server_State Store Hub Peer Api Server_Safety Server_Props Server_Persist Secure Stun Cli_State Packet Ipnet Names Autohop Holepunch Channel Speed Peers Vpn Vpn_Props Tunnel Tunnel_Props Datagrams Udp_Props Files File_Props Settings Discovery Natcheck Dispatch Subnet_Proxy Command_Line Platform Punchtest Client_Props Client_Inv System
begin

text \<open>
  STUN Max connects peers behind NATs. A server (\<^verbatim>\<open>src/server\<close>) keeps rooms and relays messages between the clients of a room;
  the clients (\<^verbatim>\<open>src/client/core\<close>) find out their public address, punch holes into their NATs, agree on keys and then
  forward ports, transfer files, measure the speed and run a VPN, over UDP if the peers reach each other and through the relay otherwise.
  This development models both programs and the STUN server (\<^verbatim>\<open>src/tools/stunserver\<close>) as functions on explicit states and
  proves what makes them correct, and where they are not.

  \<^bold>\<open>How code is modelled.\<close>

  \<^item> A struct is a record, with the fields that behaviour depends on, under their names with a short prefix. Slices are
    lists, maps are association lists read by \<open>mget\<close> and changed by \<open>mput\<close> and \<open>mdel\<close>, a pointer to a mutable object is an index
    into a list of objects (transfers, bridges, channels) or into the heap of connections of the server.
  \<^item> A method is a function from the state to the state. The result \<open>None\<close> is a panic (or a deadlock where this is said);
    an error value of the code is a value of a sum or a flag. A goroutine that does not end with its caller is a function of its own.
  \<^item> What the code draws from outside (time, random bytes, success of system calls, answers of the network) is an
    argument. What the code gives to the outside is recorded in the state: messages \<open>c_ws\<close>, datagrams \<open>c_udp\<close> that the socket takes (writes to the addresses in \<open>c_udpErr\<close> fail), writes \<open>c_tcp\<close>, the targets dialled
    for peers \<open>c_dials\<close>, files \<open>c_disk\<close>, commands to the operating system \<open>c_os\<close>.
  \<^item> Libraries are parameters: \<open>prims\<close> holds the key agreement, hash, sealing, compression, the text of JSON values and the
    resolution of host names. The theorems name what they need of them, such as that opening undoes sealing.
  \<^item> Machine integers are words where their width matters: ports, addresses, checksums, sequence numbers, nonces.
  \<^item> Loops are recursive functions that terminate; there is no fuel. The two loops that run until an external event
    (\<^verbatim>\<open>readLoop\<close>, \<^verbatim>\<open>udpReadLoop\<close> and their like) are modelled by the function of one iteration and the sequences of steps of a
    transition system.

  \<^bold>\<open>Foundations.\<close> \<open>Prelude\<close> has association lists, folds that may fail, bytes and words, and the interfaces shared by the
  components: the locale \<open>codec\<close> (an encoder and the decoder that undoes it; interpreted for decimal numbers, hexadecimal, base64,
  separated fields, envelopes, datagrams and frames of the reliable transport) and the locale \<open>transition_system\<close> (a step relation with an invariant; interpreted for the sender of the
  reliable transport, the STUN server, the server, its persistence and the connections of the subnet proxy). \<open>Gotext\<close> has
  the text functions of Go, \<open>Json\<close> JSON values with the lenient decoding of \<^verbatim>\<open>encoding/json\<close> and the envelope \<^verbatim>\<open>Message\<close>.

  \<^bold>\<open>Server.\<close>

  \<^item> \<open>Guards\<close> (\<^verbatim>\<open>main.go\<close>): rate limiter, sessions, IDs. The limiter, which prunes its history, refines the specification over the
    full history.
  \<^item> \<open>Server_State\<close> (\<^verbatim>\<open>client.go\<close>, \<^verbatim>\<open>hub.go\<close>): connections with their bounded channels, rooms, the global state. \<open>Store\<close>
    (\<^verbatim>\<open>store.go\<close>): the tables, with the locale \<open>room_store\<close> for what the hub relies on. \<open>Hub\<close> (\<^verbatim>\<open>hub.go\<close>): rooms, bans, kicks, owners. \<open>Peer\<close> (\<^verbatim>\<open>client.go\<close>, \<^verbatim>\<open>relay.go\<close>): handlers of messages, the
    relay, the pumps. \<open>Api\<close> (\<^verbatim>\<open>main.go\<close>): admission of connections and the dashboard.
  \<^item> \<open>Server_Safety\<close>: the invariant \<open>srv_ok\<close> and that no step of the server panics, apart from the operations for which
    \<open>Server_Props\<close> shows that they do. \<open>Server_Props\<close>: admission, isolation of rooms, ownership, authentication. \<open>Server_Persist\<close>: a restart at any time
    restores the persistent rooms.

  \<^bold>\<open>Client.\<close>

  \<^item> \<open>Rutp\<close> (\<^verbatim>\<open>udp_reliable.go\<close>): frames, sender with fall-back to the relay, receiver with its duplicate filter.
  \<^item> \<open>Secure\<close> (\<^verbatim>\<open>crypto.go\<close>, \<^verbatim>\<open>compress.go\<close>), \<open>Channel\<close>: keys, nonces, sealing, and the encrypted messages through the relay.
  \<^item> \<open>Stun\<close> (\<^verbatim>\<open>stun.go\<close>, \<^verbatim>\<open>tools/stunserver\<close>): requests, responses and the server. \<open>Discovery\<close>: the public address, the type of the NAT and
    its allocation of ports. \<open>Natcheck\<close> (\<^verbatim>\<open>tools/natcheck\<close>): the diagnosis of a NAT, with an abstract NAT of any mapping and filtering behaviour on which its
    tests are run.
  \<^item> \<open>Cli_State\<close> (\<^verbatim>\<open>types.go\<close>, \<^verbatim>\<open>client.go\<close>): the state \<open>cli\<close> of a client and sending. \<open>Names\<close>, \<open>Peers\<close>: names and the list of peers with its
    debounced departures. \<open>Holepunch\<close>: the state machine of a peer connection. \<open>Autohop\<close>: the choice of a hop.
  \<^item> \<open>Tunnel\<close>, \<open>Tunnel_Props\<close> (\<^verbatim>\<open>tunnel.go\<close>, \<^verbatim>\<open>multihop.go\<close>, \<^verbatim>\<open>forward_netstack.go\<close>): port forwarding, bridges and the registry of userspace
    stacks. \<open>Datagrams\<close>, \<open>Udp_Props\<close> (\<^verbatim>\<open>stun.go\<close>): classification of datagrams, direct TCP.
  \<^item> \<open>Speed\<close> (\<^verbatim>\<open>speedtest.go\<close>), \<open>Files\<close>, \<open>File_Props\<close> (\<^verbatim>\<open>filetransfer.go\<close>), \<open>Packet\<close>, \<open>Ipnet\<close>, \<open>Vpn\<close>, \<open>Vpn_Props\<close> (\<^verbatim>\<open>tun.go\<close>,
    \<^verbatim>\<open>tun_proxy.go\<close>, \<^verbatim>\<open>tun_netstack.go\<close>): speed tests, file transfers and the VPN. \<open>Subnet_Proxy\<close> (\<^verbatim>\<open>tun_proxy.go\<close>): the TCP and UDP connections that the
    proxy holds for a peer; the bytes it writes to a target refine a receiver of the specification, and what it reads becomes consecutive segments.
  \<^item> \<open>Platform\<close> (\<^verbatim>\<open>tun_config_linux.go\<close>, \<^verbatim>\<open>tun_config_darwin.go\<close>, \<^verbatim>\<open>tun_config_windows.go\<close>, \<^verbatim>\<open>proxy_bypass.go\<close>): the commands of the three systems that implement the
    platform commands recorded by the VPN, and the choice of the physical interface. Stopping a VPN takes back its firewall rules.
  \<^item> \<open>Settings\<close>: permissions and snapshots. \<open>Dispatch\<close> (\<^verbatim>\<open>client.go\<close>, \<^verbatim>\<open>stun.go\<close>): identity, connection, reconnection, and the dispatch of every message and
    datagram to the handlers of the components.
  \<^item> \<open>Command_Line\<close> (\<^verbatim>\<open>main_cli.go\<close>, \<^verbatim>\<open>events.go\<close>): the commands of the user and the events of the client. Lines that are refused change nothing; an offered file is
    saved wherever its name leads. \<open>Punchtest\<close> (\<^verbatim>\<open>tools/punchtest\<close>): the three phases of the test, what it sends to a silent peer, and that it
    and a client understand each other.

  \<^bold>\<open>Together.\<close> \<open>Client_Props\<close> follows a packet of the VPN from the interface of one client to that of the other, \<open>Client_Inv\<close> takes the
  whole client as a transition system over all its operations, reconnects under a new ID and failing writes among them, with one invariant: direct peers can be
  reached, listed peers have connections, and a client that stays local-only dials no other host for its peers. \<open>System\<close> composes clients and
  server: messages, peer lists and joins that the one side writes are read by the other as what they were.

  \<^bold>\<open>Bounds.\<close> The channels of the server hold 4096 messages and the requests for retransmission of a file 256, as in the code. Retransmission of a file has the five rounds of the code. Time is an integer, in the unit the code uses; rates, which the code computes
  in floating point for display, are a parameter, and comparisons with a rate are exact.

  \<^bold>\<open>Not modelled.\<close>

  \<^item> Errors of the operating system that the code only logs or that do not occur in practice: the generation of a key is taken to succeed, a file that
    exists can be read and written, and a failed write to a TCP connection writes nothing. The fields \<^verbatim>\<open>services\<close> and \<^verbatim>\<open>endpoint\<close> of a listed peer, which only the
    interface shows, are left out.
  \<^item> The text of JSON values and of database rows, and the WebSocket and HTTP protocols: they are libraries; the model starts at the values.
  \<^item> The userspace TCP/IP stack (gVisor): the model has its configuration, the ports registered with it and the packets that enter
    and leave it.
  \<^item> Data races between goroutines below the granularity of a handler: handlers that hold a lock are atomic, and the deadlock and the double close of channels that their order gives rise
    to are modelled where they happen.
  \<^item> The Android service, which repeats the VPN over a file descriptor given by the system; what \<^verbatim>\<open>ip\<close>, \<^verbatim>\<open>route\<close>, \<^verbatim>\<open>netsh\<close> and \<^verbatim>\<open>pfctl\<close> do with their arguments.
  \<^item> The graphical interface (\<^verbatim>\<open>client/ui\<close>, \<^verbatim>\<open>client/main.go\<close>): widgets that call the operations of the client; the web pages; the terminal and the layout of
    printed reports; the choice of the network interface in \<^verbatim>\<open>tools/natcheck\<close>.
\<close>

end
